(* ===== verification/Prelude.thy ===== *)
theory Prelude
  imports Main "HOL-Library.Word" "HOL-Library.Sublist"
begin

text \<open>
  Shared ground of the development: the names of the Go types the model uses, the
  collections of rules that the component theories extend, and generic lemmas on lists
  and association lists.  Go strings and byte slices are byte sequences; a byte is an
  8-bit \<open>char\<close>, so a Go string is a HOL \<open>string\<close> and \<open>len(s)\<close> is \<open>length s\<close>.
\<close>

section \<open>Names of Go types\<close>

type_synonym gostring = string
type_synonym bytes = "char list"

text \<open>
  \<open>time.Duration\<close> and \<open>time.Time\<close> as nanosecond counts, where the source's arithmetic
  cannot overflow; \<open>i64\<close> where it can.
\<close>

type_synonym duration = int
type_synonym time = int
type_synonym i64 = "64 word"

text \<open>Database ids, in their canonical text form.\<close>

type_synonym uuid = gostring

definition nil_uuid :: uuid where
  "nil_uuid = ''00000000-0000-0000-0000-000000000000''"

text \<open>A call that returns \<open>(value, error)\<close>: the error text, or the value.\<close>

type_synonym 'a result = "gostring + 'a"

section \<open>Collections of rules\<close>

named_theorems frame_simps \<open>fields an operation leaves alone\<close>
named_theorems inv_intros \<open>operations that preserve the invariant of their component\<close>
named_theorems step_defs \<open>definitions unfolded when a single step is analysed\<close>

section \<open>Lists\<close>

text \<open>The last \<open>n\<close> elements.\<close>

definition last_n :: "nat \<Rightarrow> 'a list \<Rightarrow> 'a list" where
  "last_n n xs = drop (length xs - n) xs"

lemma last_n_le [simp]: "length xs \<le> n \<Longrightarrow> last_n n xs = xs"
  by (simp add: last_n_def)

lemma length_last_n [simp]: "length (last_n n xs) = min n (length xs)"
  by (simp add: last_n_def)

lemma last_n_append_left: "n \<le> length ys \<Longrightarrow> last_n n (xs @ ys) = last_n n ys"
  by (simp add: last_n_def)

lemma last_n_last_n_append: "last_n n (last_n n xs @ ys) = last_n n (xs @ ys)"
proof (cases "length xs \<le> n")
  case False
  then have "length (drop (length xs - n) xs) = n" by simp
  with False show ?thesis
    by (cases "n \<le> length ys") (simp_all add: last_n_def algebra_simps)
qed simp

text \<open>\<open>xs[lo:hi]\<close> of a Go slice or string.\<close>

definition gslice :: "'a list \<Rightarrow> nat \<Rightarrow> nat \<Rightarrow> 'a list" where
  "gslice xs lo hi = take (hi - lo) (drop lo xs)"

lemma gslice_self [simp]: "gslice xs i i = []"
  by (simp add: gslice_def)

lemma gslice_append: "i \<le> j \<Longrightarrow> j \<le> k \<Longrightarrow> gslice xs i j @ gslice xs j k = gslice xs i k"
proof -
  assume "i \<le> j" "j \<le> k"
  then have "take (k - i) (drop i xs) = take (j - i) (drop i xs) @ take (k - j) (drop (j - i) (drop i xs))"
    by (metis Nat.diff_add_assoc2 add.commute le_add_diff_inverse take_add)
  with \<open>i \<le> j\<close> show ?thesis by (simp add: gslice_def)
qed

lemma gslice_to_end [simp]: "gslice xs i (length xs) = drop i xs"
  by (simp add: gslice_def)

text \<open>\<open>copy(dst[at:], src)\<close>: overwrite from position \<open>at\<close>, never growing \<open>dst\<close>.\<close>

definition copy_at :: "'a list \<Rightarrow> nat \<Rightarrow> 'a list \<Rightarrow> 'a list" where
  "copy_at dst at src =
     take at dst @ take (length dst - at) src @ drop (at + length src) dst"

lemma length_copy_at [simp]: "at \<le> length dst \<Longrightarrow> length (copy_at dst at src) = length dst"
  by (simp add: copy_at_def)

lemma set_map_filter: "set (List.map_filter f xs) = {y. \<exists>x\<in>set xs. f x = Some y}"
  by (induction xs) (auto simp: List.map_filter_simps split: option.splits)

section \<open>Association lists: a Go map whose iteration order is not modelled\<close>

lemma map_upd_other [simp]: "k \<noteq> k' \<Longrightarrow> (m(k \<mapsto> v)) k' = m k'"
  by simp

text \<open>Sum of a per-element measure over a list, after one element is replaced.\<close>

lemma length_filter_update:
  assumes "i < length xs"
  shows "length (filter P (xs[i := x])) + (if P (xs ! i) then 1 else 0) =
         length (filter P xs) + (if P x then 1 else 0)"
proof -
  have xs: "xs = take i xs @ xs ! i # drop (Suc i) xs"
    using assms by (simp add: id_take_nth_drop)
  have "xs[i := x] = take i xs @ x # drop (Suc i) xs"
    using assms by (simp add: upd_conv_take_nth_drop)
  then have "length (filter P (xs[i := x])) =
      length (filter P (take i xs)) + (if P x then 1 else 0) + length (filter P (drop (Suc i) xs))"
    by simp
  moreover have "length (filter P xs) =
      length (filter P (take i xs)) + (if P (xs ! i) then 1 else 0) + length (filter P (drop (Suc i) xs))"
    by (subst xs) simp
  ultimately show ?thesis by simp
qed

end
