(* ===== verification/RingBuf.thy ===== *)
theory RingBuf
  imports Prelude
begin

text \<open>
  \<open>internal/audio/ringbuf.go\<close>: the ring that keeps the most recent caller audio.  The
  contract of such a buffer is a locale (writes are remembered up to a capacity); the ring of the
  code is an interpretation of it.
\<close>

section \<open>Model of the code\<close>

record ring =
  rbuf :: bytes
  head :: nat
  rfull :: bool

definition new_ring :: "nat \<Rightarrow> ring" where
  "new_ring cap = \<lparr>rbuf = replicate cap CHR 0x00, head = 0, rfull = False\<rparr>"

text \<open>One iteration of the copy loop in \<open>Write\<close>; the result is the ring and the bytes left.\<close>

definition ring_copy :: "ring \<Rightarrow> bytes \<Rightarrow> ring \<times> bytes" where
  "ring_copy r p =
     (let n = min (length (rbuf r) - head r) (length p);
          b = copy_at (rbuf r) (head r) p;
          h = head r + n in
      (if h \<ge> length (rbuf r) then \<lparr>rbuf = b, head = 0, rfull = True\<rparr>
       else \<lparr>rbuf = b, head = h, rfull = rfull r\<rparr>, drop n p))"

text \<open>\<open>Write\<close>; \<open>None\<close> is a call that does not return.\<close>

partial_function (option) ring_write :: "ring \<Rightarrow> bytes \<Rightarrow> ring option" where
  "ring_write r p =
     (if p = [] then Some r else ring_write (fst (ring_copy r p)) (snd (ring_copy r p)))"

text \<open>\<open>Snapshot\<close>; \<open>None\<close> is Go's nil.\<close>

definition ring_snapshot :: "ring \<Rightarrow> bytes option" where
  "ring_snapshot r =
     (if \<not> rfull r \<and> head r = 0 then None
      else if \<not> rfull r then Some (take (head r) (rbuf r))
      else Some (drop (head r) (rbuf r) @ take (head r) (rbuf r)))"

definition ring_reset :: "ring \<Rightarrow> ring" where
  "ring_reset r = \<lparr>rbuf = replicate (length (rbuf r)) CHR 0x00, head = 0, rfull = False\<rparr>"

section \<open>Contract\<close>

text \<open>
  \<open>repr cap r h\<close>: \<open>r\<close> has capacity \<open>cap\<close> and has been given \<open>h\<close> since it was created or reset.
\<close>

locale recent_window =
  fixes create :: "nat \<Rightarrow> 'r"
    and wr :: "'r \<Rightarrow> bytes \<Rightarrow> 'r option"
    and snap :: "'r \<Rightarrow> bytes option"
    and clear :: "'r \<Rightarrow> 'r"
    and repr :: "nat \<Rightarrow> 'r \<Rightarrow> bytes \<Rightarrow> bool"
  assumes create_repr: "0 < cap \<Longrightarrow> repr cap (create cap) []"
    and wr_repr: "repr cap r h \<Longrightarrow> \<exists>r'. wr r p = Some r' \<and> repr cap r' (h @ p)"
    and clear_repr: "repr cap r h \<Longrightarrow> repr cap (clear r) []"
    and snap_repr: "repr cap r h \<Longrightarrow> snap r = (if h = [] then None else Some (last_n cap h))"
begin

fun wr_all :: "'r \<Rightarrow> bytes list \<Rightarrow> 'r option" where
  "wr_all r [] = Some r"
| "wr_all r (p # ps) = Option.bind (wr r p) (\<lambda>r'. wr_all r' ps)"

lemma wr_all_repr: "repr cap r h \<Longrightarrow> \<exists>r'. wr_all r ps = Some r' \<and> repr cap r' (h @ concat ps)"
proof (induction ps arbitrary: r h)
  case (Cons p ps)
  from wr_repr [OF Cons.prems, of p] obtain r1 where "wr r p = Some r1" "repr cap r1 (h @ p)" by blast
  with Cons.IH [of r1 "h @ p"] show ?case by auto
qed simp

lemma snap_after_writes:
  assumes "repr cap r h"
  shows "map_option snap (wr_all r ps) =
    Some (if h @ concat ps = [] then None else Some (last_n cap (h @ concat ps)))"
  using wr_all_repr [OF assms, of ps] snap_repr by auto

end

section \<open>The ring meets the contract\<close>

definition ring_repr :: "nat \<Rightarrow> ring \<Rightarrow> bytes \<Rightarrow> bool" where
  "ring_repr cap r h \<longleftrightarrow> 0 < cap \<and> length (rbuf r) = cap \<and> head r < cap \<and>
     (if rfull r then cap \<le> length h \<and> drop (head r) (rbuf r) @ take (head r) (rbuf r) = last_n cap h
      else length h = head r \<and> take (head r) (rbuf r) = h)"

lemma ring_repr_new [inv_intros]: "0 < cap \<Longrightarrow> ring_repr cap (new_ring cap) []"
  by (simp add: ring_repr_def new_ring_def)

lemma ring_repr_reset [inv_intros]: "ring_repr cap r h \<Longrightarrow> ring_repr cap (ring_reset r) []"
  by (auto simp: ring_repr_def ring_reset_def split: if_splits)

lemma last_n_shift:
  assumes "cap \<le> length h" and "length q \<le> cap" and "last_n cap h = a @ b" and "length a = length q"
  shows "last_n cap (h @ q) = b @ q"
proof -
  have "last_n cap (h @ q) = last_n cap (last_n cap h @ q)" by (simp add: last_n_last_n_append)
  also have "\<dots> = last_n cap ((a @ b) @ q)" using assms(3) by simp
  also have "\<dots> = b @ q"
  proof -
    have "length (a @ b) = cap" using assms(1,3) length_last_n [of cap h] by simp
    with assms(4) show ?thesis by (simp add: last_n_def)
  qed
  finally show ?thesis .
qed

text \<open>One iteration consumes at least one byte and keeps the representation.\<close>

lemma ring_copy_repr:
  assumes "ring_repr cap r h" and "p \<noteq> []"
  shows "\<exists>q. q \<noteq> [] \<and> p = q @ snd (ring_copy r p) \<and> ring_repr cap (fst (ring_copy r p)) (h @ q)"
proof -
  let ?b = "rbuf r" and ?h = "head r"
  define n where "n = min (length ?b - ?h) (length p)"
  define q where "q = take n p"
  have inv: "0 < cap" "length ?b = cap" "?h < cap" using assms(1) by (auto simp: ring_repr_def)
  have q: "length q = n" "0 < n" "?h + n \<le> cap" "p = q @ drop n p" "q \<noteq> []"
    using inv assms(2) by (auto simp: q_def n_def)
  have b: "copy_at ?b ?h p = take ?h ?b @ q @ drop (?h + n) ?b"
    using inv by (auto simp: copy_at_def q_def n_def min_def)
  have rc: "ring_copy r p = (if ?h + n \<ge> cap then \<lparr>rbuf = copy_at ?b ?h p, head = 0, rfull = True\<rparr>
      else \<lparr>rbuf = copy_at ?b ?h p, head = ?h + n, rfull = rfull r\<rparr>, drop n p)"
    using inv by (simp add: ring_copy_def n_def Let_def)
  have rot: "drop ?h ?b = take n (drop ?h ?b) @ drop (?h + n) ?b"
    by (metis add.commute append_take_drop_id drop_drop)
  show ?thesis
  proof (cases "?h + n \<ge> cap")
    case True
    with q have e: "?h + n = cap" by simp
    have "last_n cap (h @ q) = take ?h ?b @ q"
    proof (cases "rfull r")
      case full: True
      with assms(1) have "cap \<le> length h" "last_n cap h = drop ?h ?b @ take ?h ?b"
        by (auto simp: ring_repr_def)
      moreover have "length (drop ?h ?b) = length q" using e inv q by simp
      ultimately show ?thesis
        using last_n_shift [of cap h q "drop ?h ?b" "take ?h ?b"] q by simp
    next
      case False
      with assms(1) q e show ?thesis by (auto simp: ring_repr_def)
    qed
    moreover have "cap \<le> length (h @ q)"
      using assms(1) e q by (auto simp: ring_repr_def split: if_splits)
    ultimately have "ring_repr cap (fst (ring_copy r p)) (h @ q)"
      using True inv b e q by (simp add: rc ring_repr_def)
    with q show ?thesis by (auto simp: rc)
  next
    case False
    have "ring_repr cap (fst (ring_copy r p)) (h @ q)"
    proof (cases "rfull r")
      case full: True
      with assms(1) have l: "cap \<le> length h" "last_n cap h = drop ?h ?b @ take ?h ?b"
        by (auto simp: ring_repr_def)
      have "last_n cap h = take n (drop ?h ?b) @ drop (?h + n) ?b @ take ?h ?b"
        using l(2) rot by simp
      from last_n_shift [OF l(1) _ this] q inv False
      have "last_n cap (h @ q) = drop (?h + n) ?b @ take ?h ?b @ q" by simp
      with False full l inv b q show ?thesis
        by (simp add: rc ring_repr_def)
    next
      case nf: False
      with assms(1) have "take ?h ?b = h" "length h = ?h" by (auto simp: ring_repr_def)
      with False nf inv b q show ?thesis
        by (simp add: rc ring_repr_def)
    qed
    with q show ?thesis by (auto simp: rc)
  qed
qed

lemma ring_write_repr:
  "ring_repr cap r h \<Longrightarrow> \<exists>r'. ring_write r p = Some r' \<and> ring_repr cap r' (h @ p)"
proof (induction "length p" arbitrary: r h p rule: less_induct)
  case less
  show ?case
  proof (cases "p = []")
    case True
    with less.prems show ?thesis by (simp add: ring_write.simps)
  next
    case False
    from ring_copy_repr [OF less.prems False] obtain q
      where q: "q \<noteq> []" "p = q @ snd (ring_copy r p)" "ring_repr cap (fst (ring_copy r p)) (h @ q)"
      by blast
    then have "length (snd (ring_copy r p)) < length p"
      by (metis length_append length_greater_0_conv less_add_same_cancel2)
    from less.hyps [OF this q(3)] False q(2) show ?thesis
      by (metis append.assoc ring_write.simps)
  qed
qed

lemma ring_snapshot_repr:
  "ring_repr cap r h \<Longrightarrow> ring_snapshot r = (if h = [] then None else Some (last_n cap h))"
  by (auto simp: ring_repr_def ring_snapshot_def)

interpretation rw: recent_window new_ring ring_write ring_snapshot ring_reset ring_repr
  by unfold_locales (auto intro: ring_repr_new ring_write_repr ring_repr_reset simp: ring_snapshot_repr)

text \<open>A run of writes, as the callers do it.\<close>

fun ring_write_all :: "ring \<Rightarrow> bytes list \<Rightarrow> ring option" where
  "ring_write_all r [] = Some r"
| "ring_write_all r (p # ps) = Option.bind (ring_write r p) (\<lambda>r'. ring_write_all r' ps)"

lemma ring_write_all_eq: "ring_write_all r ps = rw.wr_all r ps"
  by (induction ps arbitrary: r) auto

section \<open>Properties\<close>

text \<open>C38: A ring of positive capacity never blocks a writer, and its snapshot after any sequence of
  writes is nil if nothing was written and otherwise the last \<open>cap\<close> bytes written, oldest first.\<close>

theorem ring_keeps_most_recent:
  assumes "0 < cap"
  shows "map_option ring_snapshot (ring_write_all (new_ring cap) ps) =
    Some (if concat ps = [] then None else Some (last_n cap (concat ps)))"
  using rw.snap_after_writes [OF rw.create_repr [OF assms], of ps]
  by (simp only: ring_write_all_eq append_Nil)

theorem ring_keeps_most_recent_witness:
  "map_option ring_snapshot (ring_write_all (new_ring 3) [''abcd'', ''e'']) = Some (Some ''cde'')"
  using ring_keeps_most_recent [of 3 "[''abcd'', ''e'']"] by (simp add: last_n_def)

text \<open>A reset ring behaves like a new one of the same capacity: earlier audio cannot leak into the
  snapshot.\<close>

theorem ring_reset_forgets:
  assumes "0 < cap" and "ring_write_all (new_ring cap) ps = Some r"
  shows "map_option ring_snapshot (ring_write_all (ring_reset r) qs) =
    Some (if concat qs = [] then None else Some (last_n cap (concat qs)))"
proof -
  have "ring_repr cap r (concat ps)"
    using rw.wr_all_repr [OF rw.create_repr [OF assms(1)], of ps] assms(2) by (simp add: ring_write_all_eq)
  from rw.snap_after_writes [OF ring_repr_reset [OF this], of qs] show ?thesis
    by (simp only: ring_write_all_eq append_Nil)
qed

theorem ring_reset_forgets_witness:
  "\<exists>r. ring_write_all (new_ring 2) [''abc''] = Some r \<and>
     map_option ring_snapshot (ring_write_all (ring_reset r) [''xyz'']) = Some (Some ''yz'')"
proof -
  obtain r where "ring_write_all (new_ring 2) [''abc''] = Some r"
    using rw.wr_all_repr [OF rw.create_repr [of 2], of "[''abc'']"] by (auto simp: ring_write_all_eq)
  with ring_reset_forgets [OF _ this, of "[''xyz'']"] show ?thesis by (auto simp: last_n_def)
qed

text \<open>A ring created with capacity zero makes every non-empty write loop forever: the copy never
  advances, although the type's comment says that writes never block.\<close>

theorem ring_zero_capacity_diverges:
  assumes "p \<noteq> []"
  shows "ring_write (new_ring 0) p = None"
proof -
  have "rbuf r \<noteq> [] \<or> p = []" if "ring_write r p = Some r'" for r r' p
  proof (rule ring_write.raw_induct [where P = "\<lambda>r p r'. rbuf r \<noteq> [] \<or> p = []", OF _ that])
    fix f r p r'
    assume IH: "\<And>r p r'. f r p = Some r' \<Longrightarrow> rbuf r \<noteq> [] \<or> p = []"
      and eq: "(if p = [] then Some r else f (fst (ring_copy r p)) (snd (ring_copy r p))) = Some r'"
    show "rbuf r \<noteq> [] \<or> p = []"
    proof (rule ccontr)
      assume "\<not> (rbuf r \<noteq> [] \<or> p = [])"
      then have "p \<noteq> []" "rbuf (fst (ring_copy r p)) = []" "snd (ring_copy r p) = p"
        by (simp_all add: ring_copy_def Let_def copy_at_def)
      with IH eq show False by metis
    qed
  qed
  with assms show ?thesis
    by (cases "ring_write (new_ring 0) p") (force simp: new_ring_def)+
qed

theorem ring_zero_capacity_diverges_witness: "ring_write (new_ring 0) ''a'' = None"
  by (rule ring_zero_capacity_diverges) simp

end
