(* ===== verification/GoStrings.thy ===== *)
theory GoStrings
  imports Prelude
begin

text \<open>
  The part of Go's standard library the program's text handling uses: \<open>unicode/utf8\<close>
  decoding (with the decoder's exact treatment of malformed and truncated input, which
  matters when a network chunk ends inside a character), and \<open>strings.TrimSpace\<close>,
  \<open>Trim\<close>, \<open>TrimPrefix\<close>, \<open>HasPrefix\<close>, \<open>LastIndex\<close>, \<open>Fields\<close>, \<open>Split\<close>, \<open>ToUpper\<close>.
  The Unicode case table beyond ASCII is a parameter (\<open>up\<close>) of \<open>to_upper\<close>.
\<close>

section \<open>UTF-8\<close>

definition rune_error :: nat where "rune_error = 65533"

definition is_cont :: "nat \<Rightarrow> nat \<Rightarrow> char \<Rightarrow> bool" where
  "is_cont lo hi c \<longleftrightarrow> lo \<le> (of_char c :: nat) \<and> (of_char c :: nat) \<le> hi"

text \<open>The length a first byte announces and the range its second byte must lie in; \<open>0\<close> is an invalid first byte.\<close>

definition lead_info :: "nat \<Rightarrow> nat \<times> nat \<times> nat" where
  "lead_info n =
     (if n < 128 then (1, 0, 0)
      else if n < 194 then (0, 0, 0)
      else if n < 224 then (2, 128, 191)
      else if n = 224 then (3, 160, 191)
      else if n = 237 then (3, 128, 159)
      else if n < 240 then (3, 128, 191)
      else if n = 240 then (4, 144, 191)
      else if n < 244 then (4, 128, 191)
      else if n = 244 then (4, 128, 143)
      else (0, 0, 0))"

text \<open>\<open>utf8.DecodeRuneInString\<close>: the rune and the number of bytes it takes.\<close>

fun decode_rune :: "gostring \<Rightarrow> nat \<times> nat" where
  "decode_rune [] = (rune_error, 0)"
| "decode_rune (c0 # r) =
     (let n = (of_char c0 :: nat); (k, lo, hi) = lead_info n in
      if k = 1 then (n, 1)
      else if k = 2 then
        (case r of c1 # _ \<Rightarrow>
           if is_cont lo hi c1 then ((n - 192) * 64 + (of_char c1 - 128), 2) else (rune_error, 1)
         | _ \<Rightarrow> (rune_error, 1))
      else if k = 3 then
        (case r of c1 # c2 # _ \<Rightarrow>
           if is_cont lo hi c1 \<and> is_cont 128 191 c2
           then ((n - 224) * 4096 + (of_char c1 - 128) * 64 + (of_char c2 - 128), 3)
           else (rune_error, 1)
         | _ \<Rightarrow> (rune_error, 1))
      else if k = 4 then
        (case r of c1 # c2 # c3 # _ \<Rightarrow>
           if is_cont lo hi c1 \<and> is_cont 128 191 c2 \<and> is_cont 128 191 c3
           then ((n - 240) * 262144 + (of_char c1 - 128) * 4096 + (of_char c2 - 128) * 64
                 + (of_char c3 - 128), 4)
           else (rune_error, 1)
         | _ \<Rightarrow> (rune_error, 1))
      else (rune_error, 1))"

lemma decode_size_pos: "s \<noteq> [] \<Longrightarrow> 0 < snd (decode_rune s)"
  by (cases s) (auto simp: Let_def lead_info_def split: list.splits)

lemma decode_size_le: "snd (decode_rune s) \<le> length s"
  by (cases s) (auto simp: Let_def lead_info_def split: list.splits)

lemma decode_ascii [simp]: "(of_char c :: nat) < 128 \<Longrightarrow> decode_rune (c # s) = (of_char c, 1)"
  by (simp add: lead_info_def)

declare decode_rune.simps(2) [simp del]

definition drop_rune :: "gostring \<Rightarrow> gostring" where
  "drop_rune s = drop (snd (decode_rune s)) s"

lemma drop_rune_shorter: "s \<noteq> [] \<Longrightarrow> length (drop_rune s) < length s"
  using decode_size_pos [of s] by (simp add: drop_rune_def)

text \<open>\<open>utf8.EncodeRune\<close>; surrogates and values out of range encode as U+FFFD.\<close>

definition encode_rune :: "nat \<Rightarrow> gostring" where
  "encode_rune r =
     (if r < 128 then [char_of r]
      else if r < 2048 then [char_of (192 + r div 64), char_of (128 + r mod 64)]
      else if r > 1114111 \<or> (55296 \<le> r \<and> r \<le> 57343) then [char_of (239::nat), char_of (191::nat), char_of (189::nat)]
      else if r < 65536 then
        [char_of (224 + r div 4096), char_of (128 + r div 64 mod 64), char_of (128 + r mod 64)]
      else [char_of (240 + r div 262144), char_of (128 + r div 4096 mod 64),
            char_of (128 + r div 64 mod 64), char_of (128 + r mod 64)])"

text \<open>\<open>utf8.DecodeLastRuneInString\<close>: back over at most three continuation bytes, then decode.\<close>

definition rune_start :: "char \<Rightarrow> bool" where
  "rune_start c \<longleftrightarrow> \<not> is_cont 128 191 c"

definition last_start :: "gostring \<Rightarrow> nat" where
  "last_start s =
     (let e = length s in
      if e \<ge> 2 \<and> rune_start (s ! (e - 2)) then e - 2
      else if e \<ge> 3 \<and> rune_start (s ! (e - 3)) then e - 3
      else if e \<ge> 4 \<and> rune_start (s ! (e - 4)) then e - 4
      else e - 5)"

definition decode_last_rune :: "gostring \<Rightarrow> nat \<times> nat" where
  "decode_last_rune s =
     (if s = [] then (rune_error, 0)
      else if (of_char (last s) :: nat) < 128 then (of_char (last s), 1)
      else let st = last_start s; (r, k) = decode_rune (drop st s) in
           if st + k = length s then (r, k) else (rune_error, 1))"

lemma last_start_lt: "s \<noteq> [] \<Longrightarrow> last_start s < length s"
  by (cases s) (auto simp: last_start_def Let_def)

lemma decode_last_pos:
  assumes "s \<noteq> []"
  shows "0 < snd (decode_last_rune s)"
proof -
  have "0 < snd (decode_rune (drop (last_start s) s))"
    using last_start_lt [OF assms] by (intro decode_size_pos) simp
  with assms show ?thesis
    by (simp add: decode_last_rune_def Let_def case_prod_unfold)
qed

section \<open>White space\<close>

text \<open>\<open>unicode.IsSpace\<close>.\<close>

definition is_space :: "nat \<Rightarrow> bool" where
  "is_space r \<longleftrightarrow> (9 \<le> r \<and> r \<le> 13) \<or> r = 32 \<or> r = 133 \<or> r = 160 \<or> r = 5760 \<or>
     (8192 \<le> r \<and> r \<le> 8202) \<or> r = 8232 \<or> r = 8233 \<or> r = 8239 \<or> r = 8287 \<or> r = 12288"

function trim_left :: "gostring \<Rightarrow> gostring" where
  "trim_left s = (if s \<noteq> [] \<and> is_space (fst (decode_rune s)) then trim_left (drop_rune s) else s)"
  by pat_completeness auto
termination
  by (relation "measure length") (auto simp: drop_rune_shorter)

function trim_right :: "gostring \<Rightarrow> gostring" where
  "trim_right s =
     (if s \<noteq> [] \<and> is_space (fst (decode_last_rune s))
      then trim_right (take (length s - snd (decode_last_rune s)) s) else s)"
  by pat_completeness auto
termination
proof (relation "measure length")
  fix s :: gostring
  assume "s \<noteq> [] \<and> is_space (fst (decode_last_rune s))"
  then show "(take (length s - snd (decode_last_rune s)) s, s) \<in> measure length"
    using decode_last_pos [of s] by auto
qed simp

declare trim_left.simps [simp del] trim_right.simps [simp del]

text \<open>\<open>strings.TrimSpace\<close>.\<close>

definition trim_space :: "gostring \<Rightarrow> gostring" where
  "trim_space s = trim_right (trim_left s)"

lemma trim_left_Nil [simp]: "trim_left [] = []"
  by (simp add: trim_left.simps)

lemma trim_right_Nil [simp]: "trim_right [] = []"
  by (simp add: trim_right.simps)

lemma trim_space_Nil [simp]: "trim_space [] = []"
  by (simp add: trim_space_def)

text \<open>\<open>strings.Fields\<close>: the maximal runs of runes that are not white space.\<close>

function fields_from :: "gostring \<Rightarrow> gostring \<Rightarrow> gostring list" where
  "fields_from cur s =
     (if s = [] then (if cur = [] then [] else [cur])
      else if is_space (fst (decode_rune s))
      then (if cur = [] then [] else [cur]) @ fields_from [] (drop_rune s)
      else fields_from (cur @ take (snd (decode_rune s)) s) (drop_rune s))"
  by pat_completeness auto
termination
  by (relation "measure (\<lambda>(cur, s). length s)") (auto simp: drop_rune_shorter)

declare fields_from.simps [simp del]

definition string_fields :: "gostring \<Rightarrow> gostring list" where
  "string_fields s = fields_from [] s"

lemma string_fields_Nil [simp]: "string_fields [] = []"
  by (simp add: string_fields_def fields_from.simps)

section \<open>Prefixes, indices, splitting\<close>

definition has_prefix :: "gostring \<Rightarrow> gostring \<Rightarrow> bool" where
  "has_prefix s p \<longleftrightarrow> take (length p) s = p"

definition has_suffix :: "gostring \<Rightarrow> gostring \<Rightarrow> bool" where
  "has_suffix s p \<longleftrightarrow> length p \<le> length s \<and> drop (length s - length p) s = p"

definition trim_prefix :: "gostring \<Rightarrow> gostring \<Rightarrow> gostring" where
  "trim_prefix s p = (if has_prefix s p then drop (length p) s else s)"

lemma has_prefix_append [simp]: "has_prefix (p @ s) p"
  by (simp add: has_prefix_def)

lemma has_prefix_iff: "has_prefix s p \<longleftrightarrow> (\<exists>r. s = p @ r)"
  by (metis append_take_drop_id has_prefix_append has_prefix_def)

text \<open>\<open>strings.LastIndex(s, "c")\<close> and \<open>strings.IndexByte\<close> for a single byte.\<close>

fun last_index :: "char \<Rightarrow> gostring \<Rightarrow> nat option" where
  "last_index c [] = None"
| "last_index c (x # xs) =
     (case last_index c xs of Some i \<Rightarrow> Some (Suc i) | None \<Rightarrow> if x = c then Some 0 else None)"

fun index_byte :: "char \<Rightarrow> gostring \<Rightarrow> nat option" where
  "index_byte c [] = None"
| "index_byte c (x # xs) = (if x = c then Some 0 else map_option Suc (index_byte c xs))"

lemma last_index_None: "last_index c s = None \<longleftrightarrow> c \<notin> set s"
  by (induction s) (auto split: option.splits)

lemma last_index_append:
  "c \<notin> set t \<Longrightarrow> last_index c (s @ c # t) = Some (length s)"
  by (induction s) (auto simp: last_index_None split: option.splits)

lemma last_index_Some:
  "last_index c s = Some i \<Longrightarrow> i < length s \<and> s ! i = c \<and> c \<notin> set (drop (Suc i) s)"
  by (induction s arbitrary: i) (auto simp: last_index_None split: option.splits if_splits)

text \<open>\<open>strings.Split(s, "c")\<close> for a one-byte separator.\<close>

fun split_byte :: "char \<Rightarrow> gostring \<Rightarrow> gostring list" where
  "split_byte c [] = [[]]"
| "split_byte c (x # xs) =
     (if x = c then [] # split_byte c xs
      else case split_byte c xs of [] \<Rightarrow> [[x]] | p # ps \<Rightarrow> (x # p) # ps)"

lemma split_byte_ne [simp]: "split_byte c s \<noteq> []"
  by (cases s) (auto split: list.splits)

text \<open>\<open>strings.SplitN(s, "c", 2)\<close>.\<close>

definition split2 :: "char \<Rightarrow> gostring \<Rightarrow> gostring list" where
  "split2 c s = (case index_byte c s of None \<Rightarrow> [s] | Some i \<Rightarrow> [take i s, drop (Suc i) s])"

text \<open>\<open>strings.Trim(s, cutset)\<close> for an ASCII cutset, \<open>strings.TrimRight\<close> likewise.\<close>

definition trim_set_right :: "char set \<Rightarrow> gostring \<Rightarrow> gostring" where
  "trim_set_right cs s = rev (dropWhile (\<lambda>c. c \<in> cs) (rev s))"

definition trim_set :: "char set \<Rightarrow> gostring \<Rightarrow> gostring" where
  "trim_set cs s = trim_set_right cs (dropWhile (\<lambda>c. c \<in> cs) s)"

section \<open>Case\<close>

definition ascii_upper :: "nat \<Rightarrow> nat" where
  "ascii_upper r = (if 97 \<le> r \<and> r \<le> 122 then r - 32 else r)"

definition ascii_lower :: "nat \<Rightarrow> nat" where
  "ascii_lower r = (if 65 \<le> r \<and> r \<le> 90 then r + 32 else r)"

text \<open>
  \<open>strings.ToUpper\<close> and \<open>ToLower\<close>: rune by rune, malformed bytes becoming U+FFFD.  \<open>up\<close>
  is the Unicode case table for runes beyond ASCII.
\<close>

function map_runes :: "(nat \<Rightarrow> nat) \<Rightarrow> gostring \<Rightarrow> gostring" where
  "map_runes f s =
     (if s = [] then [] else encode_rune (f (fst (decode_rune s))) @ map_runes f (drop_rune s))"
  by pat_completeness auto
termination
  by (relation "measure (\<lambda>(f, s). length s)") (auto simp: drop_rune_shorter)

declare map_runes.simps [simp del]

definition upper_rune :: "(nat \<Rightarrow> nat) \<Rightarrow> nat \<Rightarrow> nat" where
  "upper_rune up r = (if r < 128 then ascii_upper r else up r)"

definition to_upper :: "(nat \<Rightarrow> nat) \<Rightarrow> gostring \<Rightarrow> gostring" where
  "to_upper up s = map_runes (upper_rune up) s"

definition lower_rune :: "(nat \<Rightarrow> nat) \<Rightarrow> nat \<Rightarrow> nat" where
  "lower_rune lo r = (if r < 128 then ascii_lower r else lo r)"

definition to_lower :: "(nat \<Rightarrow> nat) \<Rightarrow> gostring \<Rightarrow> gostring" where
  "to_lower lo s = map_runes (lower_rune lo) s"

lemma map_runes_Nil [simp]: "map_runes f [] = []"
  by (simp add: map_runes.simps)

lemma map_runes_ascii [simp]:
  "(of_char c :: nat) < 128 \<Longrightarrow> map_runes f (c # s) = encode_rune (f (of_char c)) @ map_runes f s"
  by (subst map_runes.simps) (simp add: drop_rune_def)

lemma ascii_upper_lt: "r < 128 \<Longrightarrow> ascii_upper r < 128"
  by (auto simp: ascii_upper_def)

lemma to_upper_ascii_cons:
  "(of_char c :: nat) < 128 \<Longrightarrow> to_upper up (c # s) = char_of (ascii_upper (of_char c)) # to_upper up s"
  by (simp add: to_upper_def upper_rune_def encode_rune_def ascii_upper_lt)

lemma ascii_lower_lt: "r < 128 \<Longrightarrow> ascii_lower r < 128"
  by (auto simp: ascii_lower_def)

lemma to_lower_ascii_cons:
  "(of_char c :: nat) < 128 \<Longrightarrow> to_lower lo (c # s) = char_of (ascii_lower (of_char c)) # to_lower lo s"
  by (simp add: to_lower_def lower_rune_def encode_rune_def ascii_lower_lt)

lemma to_upper_Nil [simp]: "to_upper up [] = []"
  by (simp add: to_upper_def)

lemma to_lower_Nil [simp]: "to_lower lo [] = []"
  by (simp add: to_lower_def)

lemma to_upper_ascii_append:
  "\<forall>c \<in> set p. (of_char c :: nat) < 128 \<Longrightarrow>
   to_upper up (p @ s) = map (\<lambda>c. char_of (ascii_upper (of_char c))) p @ to_upper up s"
  by (induction p) (simp_all add: to_upper_ascii_cons)

section \<open>Trimming\<close>

text \<open>What trimming leaves does not begin with white space, and is part of what it was given.\<close>

lemma trim_left_suffix: "\<exists>p. s = p @ trim_left s"
proof (induction s rule: trim_left.induct)
  case (1 s)
  show ?case
  proof (cases "s \<noteq> [] \<and> is_space (fst (decode_rune s))")
    case True
    with 1 obtain p where "drop_rune s = p @ trim_left (drop_rune s)" by blast
    then have "s = take (snd (decode_rune s)) s @ p @ trim_left (drop_rune s)"
      by (metis append_take_drop_id drop_rune_def)
    with True show ?thesis by (metis append.assoc trim_left.simps)
  next
    case False
    then show ?thesis by (metis append_Nil trim_left.simps)
  qed
qed

lemma trim_right_prefix: "\<exists>q. s = trim_right s @ q"
proof (induction s rule: trim_right.induct)
  case (1 s)
  let ?t = "take (length s - snd (decode_last_rune s)) s"
  show ?case
  proof (cases "s \<noteq> [] \<and> is_space (fst (decode_last_rune s))")
    case True
    with 1 obtain q where "?t = trim_right ?t @ q" by blast
    then have "s = trim_right ?t @ q @ drop (length s - snd (decode_last_rune s)) s"
      by (metis append.assoc append_take_drop_id)
    with True show ?thesis by (metis trim_right.simps)
  next
    case False
    then show ?thesis by (metis append_Nil2 trim_right.simps)
  qed
qed

lemma trim_space_infix: "\<exists>p q. s = p @ trim_space s @ q"
proof -
  obtain p where p: "s = p @ trim_left s" using trim_left_suffix by blast
  obtain q where "trim_left s = trim_space s @ q"
    using trim_right_prefix [of "trim_left s"] by (auto simp: trim_space_def)
  with p show ?thesis by metis
qed

text \<open>Trimming stops at an ASCII character that is not white space.\<close>

lemma decode_multi_not_ascii:
  assumes "decode_rune s = (r, k)" and "1 < k" and "i < k"
  shows "128 \<le> (of_char (s ! i) :: nat)"
proof -
  from assms obtain c0 t where s: "s = c0 # t" by (cases s) auto
  obtain m lo hi where li: "lead_info (of_char c0) = (m, lo, hi)" by (metis prod_cases3)
  have lead: "1 < m \<Longrightarrow> 128 \<le> (of_char c0 :: nat) \<and> 128 \<le> lo"
    using li by (auto simp: lead_info_def split: if_splits)
  from s assms li lead show ?thesis
    by (cases t; cases "tl t"; cases "tl (tl t)")
      (auto simp: decode_rune.simps Let_def is_cont_def nth_Cons split: if_splits nat.splits)
qed

lemma decode_last_keeps_ascii:
  assumes "(of_char c :: nat) < 128" and "v \<noteq> []"
  shows "snd (decode_last_rune (p @ c # v)) \<le> length v"
proof -
  let ?s = "p @ c # v" and ?st = "last_start (p @ c # v)"
  obtain r k where d: "decode_rune (drop ?st ?s) = (r, k)" by fastforce
  have v: "1 \<le> length v" using assms(2) by (cases v) auto
  have "k \<le> length v" if e: "?st + k = length ?s"
  proof (rule ccontr)
    assume "\<not> k \<le> length v"
    with e have st: "?st \<le> length p" and k: "length p - ?st < k" "1 < k" using v by auto
    have "drop ?st ?s ! (length p - ?st) = c" using st by (simp add: nth_append)
    with decode_multi_not_ascii [OF d k(2) k(1)] assms(1) show False by simp
  qed
  with d v show ?thesis by (simp add: decode_last_rune_def Let_def)
qed

lemma trim_right_keeps:
  assumes "(of_char c :: nat) < 128" and "\<not> is_space (of_char c)"
  shows "\<exists>v'. trim_right (p @ c # v) = p @ c # v'"
proof (induction "length v" arbitrary: v rule: less_induct)
  case less
  show ?case
  proof (cases "v = [] \<or> \<not> is_space (fst (decode_last_rune (p @ c # v)))")
    case True
    with assms show ?thesis
      by (subst trim_right.simps) (auto simp: decode_last_rune_def)
  next
    case False
    let ?k = "snd (decode_last_rune (p @ c # v))"
    have k: "?k \<le> length v" "0 < ?k"
      using False assms(1) decode_last_keeps_ascii decode_last_pos by blast+
    then have "trim_right (p @ c # v) = trim_right (p @ c # take (length v - ?k) v)"
      using False by (subst trim_right.simps) (simp add: Suc_diff_le take_Cons')
    with less.hyps [of "take (length v - ?k) v"] k False show ?thesis by auto
  qed
qed

lemma trim_left_space: "(of_char c :: nat) < 128 \<Longrightarrow> is_space (of_char c) \<Longrightarrow> trim_left (c # s) = trim_left s"
  by (subst trim_left.simps) (simp add: drop_rune_def)

lemma trim_left_keeps: "(of_char c :: nat) < 128 \<Longrightarrow> \<not> is_space (of_char c) \<Longrightarrow> trim_left (c # s) = c # s"
  by (subst trim_left.simps) simp

lemma trim_left_spaces:
  "\<forall>c \<in> set ws. (of_char c :: nat) < 128 \<and> is_space (of_char c) \<Longrightarrow> trim_left (ws @ s) = trim_left s"
  by (induction ws) (simp_all add: trim_left_space)

text \<open>A trimmed text that begins with a word keeps the word.\<close>

lemma trim_space_word:
  assumes "\<forall>c \<in> set ws. (of_char c :: nat) < 128 \<and> is_space (of_char c)"
    and "\<forall>c \<in> set w. (of_char c :: nat) < 128 \<and> \<not> is_space (of_char c)" and "w \<noteq> []"
  shows "\<exists>v'. trim_space (ws @ w @ v) = w @ v'"
proof -
  obtain p c where w: "w = p @ [c]" using assms(3) by (metis rev_exhaust)
  have "trim_left (ws @ w @ v) = w @ v"
    using assms by (cases w) (simp_all add: trim_left_spaces trim_left_keeps)
  then show ?thesis
    using trim_right_keeps [of c p v] assms(2) by (auto simp: trim_space_def w)
qed

section \<open>Decimal numbers\<close>

definition digit :: "nat \<Rightarrow> char" where "digit d = char_of (48 + d)"

fun show_nat :: "nat \<Rightarrow> gostring" where
  "show_nat n = (if n < 10 then [digit n] else show_nat (n div 10) @ [digit (n mod 10)])"

declare show_nat.simps [simp del]

text \<open>\<open>strconv.Atoi\<close>: an optional sign and digits, within 64 bits.\<close>

definition digits_value :: "gostring \<Rightarrow> int option" where
  "digits_value s =
     (if s = [] \<or> \<not> list_all (\<lambda>c. 48 \<le> (of_char c :: nat) \<and> (of_char c :: nat) \<le> 57) s then None
      else Some (foldl (\<lambda>n c. n * 10 + int (of_char c - 48)) 0 s))"

definition atoi :: "gostring \<Rightarrow> int option" where
  "atoi s =
     (let (sign, rest) = (case s of c # cs \<Rightarrow> if c = CHR ''-'' then (- 1, cs) else if c = CHR ''+'' then (1, cs) else (1, s)
                          | [] \<Rightarrow> (1, s)) in
      case digits_value rest of
        None \<Rightarrow> None
      | Some n \<Rightarrow> let v = sign * n in if - (2 ^ 63) \<le> v \<and> v < 2 ^ 63 then Some v else None)"

text \<open>What evaluates the functions of this theory on concrete ASCII text.\<close>

lemmas eval_strings = trim_space_def trim_left.simps trim_right.simps is_space_def drop_rune_def
  decode_last_rune_def to_upper_ascii_cons to_lower_ascii_cons ascii_upper_def ascii_lower_def
  char_of_eq_iff has_prefix_def has_suffix_def

end
