(* ===== verification/SentenceParser.thy ===== *)
theory SentenceParser
  imports GoStrings
begin

text \<open>
  \<open>internal/bot/parser.go\<close>: the streaming sentence parser.  \<open>feed\<close> appends a network chunk
  and returns the sentences it completes, \<open>finalize\<close> returns the unfinished text and the
  action after the last \<open>|\<close>.  The reference semantics \<open>segs\<close> cuts a whole text into the
  pieces that end with a delimiter and a remainder; the parser is shown to compute it
  whatever the chunk boundaries are, also when one falls inside a UTF-8 character.
\<close>

section \<open>Model of the code\<close>

datatype action = ActionChat | ActionEndCall

definition is_sentence_delim :: "nat \<Rightarrow> bool" where
  "is_sentence_delim r \<longleftrightarrow> r = 46 \<or> r = 63 \<or> r = 33 \<or> r = 10 \<or> r = 8230"

record sentence_parser =
  full :: gostring
  flushed_to :: nat

definition new_parser :: sentence_parser where
  "new_parser = \<lparr>full = [], flushed_to = 0\<rparr>"

text \<open>The loop of \<open>Feed\<close>: \<open>i\<close> is the scan position, \<open>fl\<close> the offset already emitted.\<close>

function feed_loop :: "gostring \<Rightarrow> nat \<Rightarrow> nat \<Rightarrow> gostring list \<Rightarrow> gostring list \<times> nat" where
  "feed_loop s i fl out =
     (if i < length s then
        let r = fst (decode_rune (drop i s)); i' = i + snd (decode_rune (drop i s)) in
        if is_sentence_delim r then
          let seg = trim_space (gslice s fl i') in
          feed_loop s i' i' (if seg \<noteq> [] then out @ [seg] else out)
        else feed_loop s i' fl out
      else (out, fl))"
  by pat_completeness auto
termination
proof (relation "measure (\<lambda>(s, i, fl, out). length s - i)", goal_cases)
  case (2 s i fl out x xa xb)
  with decode_size_pos [of "drop i s"] show ?case by auto
next
  case (3 s i fl out x xa)
  with decode_size_pos [of "drop i s"] show ?case by auto
qed simp

declare feed_loop.simps [simp del]

definition feed :: "sentence_parser \<Rightarrow> gostring \<Rightarrow> gostring list \<times> sentence_parser" where
  "feed p chunk =
     (if chunk = [] then ([], p)
      else let s = full p @ chunk; (out, fl) = feed_loop s (flushed_to p) (flushed_to p) [] in
           (out, \<lparr>full = s, flushed_to = fl\<rparr>))"

definition parse_action :: "(nat \<Rightarrow> nat) \<Rightarrow> gostring \<Rightarrow> action" where
  "parse_action up tail =
     (let upper = to_upper up (trim_space tail) in
      if has_prefix upper ''ENDCALL'' then ActionEndCall
      else if has_prefix upper ''CHAT'' then ActionChat
      else ActionChat)"

definition finalize :: "(nat \<Rightarrow> nat) \<Rightarrow> sentence_parser \<Rightarrow> gostring \<times> action" where
  "finalize up p =
     (let (content_end, act) =
        (case last_index CHR ''|'' (full p) of
           Some i \<Rightarrow> (i, parse_action up (drop (Suc i) (full p)))
         | None \<Rightarrow> (length (full p), ActionChat)) in
      if flushed_to p < content_end
      then (trim_space (gslice (full p) (flushed_to p) content_end), act)
      else ([], act))"

text \<open>The caller's use: all chunks in order, then \<open>finalize\<close>.\<close>

fun feed_all :: "sentence_parser \<Rightarrow> gostring list \<Rightarrow> gostring list \<times> sentence_parser" where
  "feed_all p [] = ([], p)"
| "feed_all p (c # cs) =
     (let (out, p') = feed p c; (outs, p'') = feed_all p' cs in (out @ outs, p''))"

section \<open>Reference semantics\<close>

text \<open>
  \<open>segs_from cur s\<close> cuts \<open>s\<close> at delimiters, \<open>cur\<close> being the text of the current piece
  already read.
\<close>

function segs_from :: "gostring \<Rightarrow> gostring \<Rightarrow> gostring list \<times> gostring" where
  "segs_from cur s =
     (if s = [] then ([], cur)
      else let cur' = cur @ take (snd (decode_rune s)) s in
           if is_sentence_delim (fst (decode_rune s))
           then apfst ((#) cur') (segs_from [] (drop_rune s))
           else segs_from cur' (drop_rune s))"
  by pat_completeness auto
termination
  by (relation "measure (\<lambda>(cur, s). length s)") (auto simp: drop_rune_shorter)

declare segs_from.simps [simp del]

definition segs :: "gostring \<Rightarrow> gostring list \<times> gostring" where
  "segs s = segs_from [] s"

text \<open>What is spoken: each piece trimmed, blank pieces dropped.\<close>

definition spoken :: "gostring list \<Rightarrow> gostring list" where
  "spoken ps = filter (\<lambda>p. p \<noteq> []) (map trim_space ps)"

lemma spoken_simps [simp]:
  "spoken [] = []"
  "spoken (p # ps) = (if trim_space p = [] then spoken ps else trim_space p # spoken ps)"
  "spoken (ps @ qs) = spoken ps @ spoken qs"
  by (simp_all add: spoken_def)

lemma segs_from_Nil [simp]: "segs_from cur [] = ([], cur)"
  by (simp add: segs_from.simps)

text \<open>Cutting loses no byte.\<close>

lemma segs_from_concat: "concat (fst (segs_from cur s)) @ snd (segs_from cur s) = cur @ s"
proof (induction cur s rule: segs_from.induct)
  case (1 cur s)
  show ?case
  proof (cases "s = []")
    case False
    have "take (snd (decode_rune s)) s @ drop_rune s = s"
      by (simp add: drop_rune_def)
    with False 1 show ?thesis
      by (subst (1 2) segs_from.simps)
        (force simp: Let_def split: if_splits)
  qed simp
qed

section \<open>Chunk boundaries\<close>

text \<open>
  A text whose decoding changes when more bytes arrive is the beginning of a multi-byte
  rune; it contains no delimiter yet.
\<close>

lemma cont_not_delim:
  "is_cont 128 191 c \<Longrightarrow> decode_rune (c # s) = (rune_error, 1)"
  by (auto simp: is_cont_def lead_info_def decode_rune.simps Let_def)

lemma rune_error_not_delim [simp]: "\<not> is_sentence_delim rune_error"
  by (simp add: is_sentence_delim_def rune_error_def)

lemma segs_from_cont:
  "\<forall>c \<in> set s. is_cont 128 191 c \<Longrightarrow> segs_from cur s = ([], cur @ s)"
proof (induction s arbitrary: cur)
  case (Cons c s)
  then have "decode_rune (c # s) = (rune_error, 1)" by (simp add: cont_not_delim)
  with Cons show ?case by (subst segs_from.simps) (simp add: drop_rune_def)
qed simp

lemma is_cont_weaken:
  "is_cont lo hi c \<Longrightarrow> 128 \<le> lo \<Longrightarrow> hi \<le> 191 \<Longrightarrow> is_cont 128 191 c"
  by (auto simp: is_cont_def)

lemma lead_info_range:
  "lead_info n = (k, lo, hi) \<Longrightarrow> 1 < k \<Longrightarrow> 128 \<le> lo \<and> hi \<le> 191"
  by (auto simp: lead_info_def split: if_splits)

lemma decode_stable:
  "s = [] \<or> decode_rune (s @ u) = decode_rune s \<or>
   (\<exists>c t. s = c # t \<and> decode_rune s = (rune_error, 1) \<and> (\<forall>x \<in> set t. is_cont 128 191 x))"
proof (cases s)
  case (Cons c0 r)
  obtain k lo hi where li: "lead_info (of_char c0) = (k, lo, hi)" by (metis prod_cases3)
  have rng: "k = 2 \<or> k = 3 \<or> k = 4 \<Longrightarrow> is_cont lo hi c \<Longrightarrow> is_cont 128 191 c" for c
    using lead_info_range [OF li] is_cont_weaken by auto
  consider "r = []" | c1 where "r = [c1]" | c1 c2 where "r = [c1, c2]"
    | c1 c2 c3 w where "r = c1 # c2 # c3 # w"
    by (metis list.exhaust)
  then show ?thesis
  proof cases
    case 1
    then show ?thesis using Cons li
      by (cases "k = 1") (auto simp: decode_rune.simps Let_def)
  next
    case 2
    then show ?thesis using Cons li rng [of c1]
      by (cases "is_cont lo hi c1") (auto simp: decode_rune.simps Let_def split: list.splits)
  next
    case 3
    then show ?thesis using Cons li rng [of c1]
      by (cases "is_cont lo hi c1"; cases "is_cont 128 191 c2")
        (auto simp: decode_rune.simps Let_def split: list.splits)
  next
    case 4
    then show ?thesis using Cons li by (auto simp: decode_rune.simps Let_def)
  qed
qed simp

lemma decode_ascii_append:
  assumes "s \<noteq> []" and "(of_char x :: nat) < 128"
  shows "decode_rune (s @ x # v) = decode_rune s"
proof -
  obtain c0 r where s: "s = c0 # r" using assms(1) by (cases s) auto
  obtain k lo hi where li: "lead_info (of_char c0) = (k, lo, hi)" by (metis prod_cases3)
  have "\<not> is_cont 128 191 x" using assms(2) by (simp add: is_cont_def)
  moreover have "1 < k \<Longrightarrow> \<not> is_cont lo hi x"
    using assms(2) lead_info_range [OF li] by (auto simp: is_cont_def)
  ultimately show ?thesis
    using s li
    by (cases r; cases "tl r"; cases "tl (tl r)") (auto simp: decode_rune.simps Let_def split: list.splits)
qed

lemma drop_rune_append:
  "decode_rune (s @ u) = decode_rune s \<Longrightarrow> drop_rune (s @ u) = drop_rune s @ u"
  using decode_size_le [of s] by (simp add: drop_rune_def)

lemma take_rune_append:
  "decode_rune (s @ u) = decode_rune s \<Longrightarrow>
   take (snd (decode_rune s)) (s @ u) = take (snd (decode_rune s)) s"
  using decode_size_le [of s] by simp

text \<open>One step of the cut, when the next rune is already complete.\<close>

lemma segs_from_step:
  assumes "s \<noteq> []" and "decode_rune (s @ u) = decode_rune s"
  shows "segs_from cur (s @ u) =
    (let cur' = cur @ take (snd (decode_rune s)) s in
     if is_sentence_delim (fst (decode_rune s))
     then apfst ((#) cur') (segs_from [] (drop_rune s @ u))
     else segs_from cur' (drop_rune s @ u))"
  using assms by (subst segs_from.simps)
    (simp add: drop_rune_append take_rune_append Let_def del: take_append)

lemma segs_from_Cons_step:
  "s \<noteq> [] \<Longrightarrow> segs_from cur s =
    (let cur' = cur @ take (snd (decode_rune s)) s in
     if is_sentence_delim (fst (decode_rune s))
     then apfst ((#) cur') (segs_from [] (drop_rune s))
     else segs_from cur' (drop_rune s))"
  using segs_from_step [of s "[]" cur] by (simp add: Let_def)

text \<open>The first completed piece stays the first piece whatever follows.\<close>

lemma first_piece_stable:
  "segs_from cur s = (p # ps, t) \<Longrightarrow>
   \<exists>s1 s2. s = s1 @ s2 \<and> segs s2 = (ps, t) \<and> segs_from cur (s @ u) = apfst ((#) p) (segs (s2 @ u))"
proof (induction cur s rule: segs_from.induct)
  case (1 cur s)
  have ne: "s \<noteq> []" using "1.prems" by auto
  let ?cur' = "cur @ take (snd (decode_rune s)) s"
  show ?case
  proof (cases "decode_rune (s @ u) = decode_rune s")
    case stable: True
    show ?thesis
    proof (cases "is_sentence_delim (fst (decode_rune s))")
      case True
      with "1.prems" segs_from_Cons_step [OF ne, of cur]
      have "segs (drop_rune s) = (ps, t)" "p = ?cur'"
        by (auto simp: segs_def Let_def apfst_def map_prod_def split: prod.splits)
      moreover have "s = take (snd (decode_rune s)) s @ drop_rune s" by (simp add: drop_rune_def)
      ultimately show ?thesis
        using True segs_from_step [OF ne stable] by (auto simp: segs_def Let_def)
    next
      case False
      with "1.prems" segs_from_Cons_step [OF ne, of cur]
      have "segs_from ?cur' (drop_rune s) = (p # ps, t)" by (simp add: Let_def)
      from "1.IH"(2) [OF ne refl False this] obtain s1 s2
        where "drop_rune s = s1 @ s2" "segs s2 = (ps, t)"
          "segs_from ?cur' (drop_rune s @ u) = apfst ((#) p) (segs (s2 @ u))" by blast
      moreover from this have "s = (take (snd (decode_rune s)) s @ s1) @ s2"
        by (metis append.assoc append_take_drop_id drop_rune_def)
      moreover have "segs_from cur (s @ u) = segs_from ?cur' (drop_rune s @ u)"
        using False segs_from_step [OF ne stable, of cur] by (simp add: Let_def)
      ultimately show ?thesis by metis
    qed
  next
    case False
    with ne decode_stable [of s u] obtain c r
      where "s = c # r" "decode_rune s = (rune_error, 1)" "\<forall>x \<in> set r. is_cont 128 191 x" by blast
    with "1.prems" segs_from_Cons_step [OF ne, of cur] show ?thesis
      by (simp add: segs_from_cont drop_rune_def Let_def)
  qed
qed

lemma segs_Nil [simp]: "segs [] = ([], [])"
  by (simp add: segs_def)

lemma segs_concat: "concat (fst (segs s)) @ snd (segs s) = s"
  using segs_from_concat [of "[]" s] by (simp add: segs_def)

theorem segs_append:
  "segs s = (ps, t) \<Longrightarrow> segs (s @ u) = apfst ((@) ps) (segs (t @ u))"
proof (induction ps arbitrary: s)
  case Nil
  then have "t = s" using segs_concat [of s] by simp
  then show ?case by (simp add: apfst_def map_prod_def split_def)
next
  case (Cons p ps)
  from first_piece_stable [of "[]" s p ps t u] Cons.prems obtain s1 s2
    where "segs s2 = (ps, t)" "segs (s @ u) = apfst ((#) p) (segs (s2 @ u))"
    by (auto simp: segs_def)
  with Cons.IH [of s2] show ?case by (simp add: apfst_def map_prod_def split_def)
qed

lemma segs_tail: "segs (snd (segs s)) = ([], snd (segs s))"
proof -
  obtain ps t where st: "segs s = (ps, t)" by fastforce
  have "apfst ((@) ps) (segs t) = (ps, t)" using segs_append [OF st, of "[]"] st by simp
  then have "segs t = ([], t)" by (cases "segs t") simp
  with st show ?thesis by simp
qed

section \<open>The loop computes the cut\<close>

lemma take_drop_gslice:
  assumes "fl \<le> i" "i \<le> length s"
  shows "gslice s fl i @ take k (drop i s) = gslice s fl (i + k)"
proof -
  have "gslice s i (i + k) = take k (drop i s)" by (simp add: gslice_def)
  with gslice_append [of fl i "i + k" s] assms show ?thesis by simp
qed

lemma feed_loop_segs:
  "fl \<le> i \<Longrightarrow> i \<le> length s \<Longrightarrow>
   feed_loop s i fl out =
     (out @ spoken (fst (segs_from (gslice s fl i) (drop i s))),
      length s - length (snd (segs_from (gslice s fl i) (drop i s))))"
proof (induction s i fl out rule: feed_loop.induct)
  case (1 s i fl out)
  show ?case
  proof (cases "i < length s")
    case True
    let ?d = "decode_rune (drop i s)"
    have ne: "drop i s \<noteq> []" using True by simp
    have sz: "i + snd ?d \<le> length s" using decode_size_le [of "drop i s"] True by simp
    have dr: "drop_rune (drop i s) = drop (i + snd ?d) s" by (simp add: drop_rune_def add.commute)
    have gs: "gslice s fl i @ take (snd ?d) (drop i s) = gslice s fl (i + snd ?d)"
      using "1.prems" by (rule take_drop_gslice)
    show ?thesis
      using True "1.IH"(1) [OF True refl refl _ refl] "1.IH"(2) [OF True refl refl] "1.prems" sz
        segs_from_Cons_step [OF ne, of "gslice s fl i"]
      by (subst feed_loop.simps) (simp add: dr gs Let_def)
  next
    case False
    with "1.prems" show ?thesis by (simp add: feed_loop.simps gslice_def)
  qed
qed

text \<open>What the parser knows after the text \<open>h\<close>: it has emitted exactly the completed pieces.\<close>

definition parser_after :: "sentence_parser \<Rightarrow> gostring \<Rightarrow> bool" where
  "parser_after p h \<longleftrightarrow> full p = h \<and> flushed_to p = length (concat (fst (segs h)))"

lemma parser_after_new [inv_intros]: "parser_after new_parser []"
  by (simp add: parser_after_def new_parser_def)

lemma parser_after_tail: "parser_after p h \<Longrightarrow> drop (flushed_to p) (h @ c) = snd (segs h) @ c"
  using segs_concat [of h] by (metis append.assoc append_eq_conv_conj parser_after_def)

lemma feed_segs:
  assumes "parser_after p h"
  shows "fst (feed p c) = spoken (fst (segs (snd (segs h) @ c)))" and "parser_after (snd (feed p c)) (h @ c)"
proof -
  let ?R = "segs (snd (segs h) @ c)"
  obtain ps t where st: "segs h = (ps, t)" by fastforce
  have fl: "flushed_to p \<le> length (h @ c)"
    using assms segs_concat [of h] by (metis append.assoc length_append le_add1 parser_after_def)
  have loop: "feed_loop (h @ c) (flushed_to p) (flushed_to p) [] =
      (spoken (fst ?R), length (h @ c) - length (snd ?R))"
    using feed_loop_segs [OF order_refl fl] parser_after_tail [OF assms] by (simp add: segs_def)
  have "fst (segs (h @ c)) = fst (segs h) @ fst ?R" "snd (segs (h @ c)) = snd ?R"
    using segs_append [OF st, of c] st by (simp_all)
  moreover have "length (concat (fst (segs (h @ c)))) = length (h @ c) - length (snd (segs (h @ c)))"
    using segs_concat [of "h @ c"] by (metis add_diff_cancel_right' length_append)
  ultimately have after: "parser_after \<lparr>full = h @ c, flushed_to = length (h @ c) - length (snd ?R)\<rparr> (h @ c)"
    by (simp add: parser_after_def)
  show "fst (feed p c) = spoken (fst ?R)"
    using assms loop segs_tail [of h] by (cases "c = []") (auto simp: feed_def parser_after_def Let_def)
  show "parser_after (snd (feed p c)) (h @ c)"
    using assms loop after by (cases "c = []") (auto simp: feed_def parser_after_def Let_def)
qed

lemma feed_all_segs:
  "parser_after p h \<Longrightarrow>
   fst (segs h) @ fst (segs (snd (segs h) @ concat cs)) = fst (segs (h @ concat cs)) \<and>
   fst (feed_all p cs) = spoken (fst (segs (snd (segs h) @ concat cs))) \<and>
   parser_after (snd (feed_all p cs)) (h @ concat cs)"
proof (induction cs arbitrary: p h)
  case Nil
  then show ?case by (simp add: segs_tail)
next
  case (Cons c cs)
  obtain ps t where st: "segs h = (ps, t)" by fastforce
  obtain qs w where tc: "segs (t @ c) = (qs, w)" by fastforce
  have hc: "segs (h @ c) = (ps @ qs, w)" using segs_append [OF st, of c] tc by simp
  note IH = Cons.IH [OF feed_segs(2) [OF Cons.prems, of c]]
  have "segs (t @ c @ concat cs) = apfst ((@) qs) (segs (w @ concat cs))"
    using segs_append [OF tc, of "concat cs"] by simp
  then show ?case
    using IH feed_segs(1) [OF Cons.prems, of c] st tc hc
    by (auto simp: split_def Let_def)
qed

section \<open>Properties\<close>

text \<open>C10: Feeding a reply in any sequence of network chunks, split anywhere, also inside a UTF-8
  character, emits exactly the trimmed non-blank pieces of the whole text up to each delimiter, in
  order, and leaves the parser with the whole text and the offset after the last delimiter.\<close>

theorem feed_all_refines_segs:
  "feed_all new_parser cs =
     (spoken (fst (segs (concat cs))),
      \<lparr>full = concat cs, flushed_to = length (concat (fst (segs (concat cs))))\<rparr>)"
proof -
  have "fst (feed_all new_parser cs) = spoken (fst (segs (concat cs)))"
    and "parser_after (snd (feed_all new_parser cs)) (concat cs)"
    using feed_all_segs [OF parser_after_new, of cs] by simp_all
  then show ?thesis
    by (cases "feed_all new_parser cs") (simp add: parser_after_def)
qed

text \<open>Plain ASCII text without a delimiter only lengthens the current piece.\<close>

lemma segs_plain_append:
  "segs_from cur s = (ps, t) \<Longrightarrow> \<forall>c \<in> set v. (of_char c :: nat) < 128 \<and> \<not> is_sentence_delim (of_char c) \<Longrightarrow>
   segs_from cur (s @ v) = (ps, t @ v)"
proof (induction cur s arbitrary: ps t rule: segs_from.induct)
  case (1 cur s)
  note plain = "1.prems"(2)
  have only: "segs_from cur v = ([], cur @ v)" for cur
    using plain
  proof (induction v arbitrary: cur)
    case (Cons x xs)
    then show ?case
      by (subst segs_from.simps) (simp add: drop_rune_def)
  qed simp
  show ?case
  proof (cases "s = [] \<or> v = []")
    case False
    then have ne: "s \<noteq> []" by simp
    obtain x w where v: "v = x # w" using False by (cases v) auto
    have stable: "decode_rune (s @ v) = decode_rune s"
      using decode_ascii_append [OF ne] plain v by simp
    let ?cur' = "cur @ take (snd (decode_rune s)) s"
    show ?thesis
    proof (cases "is_sentence_delim (fst (decode_rune s))")
      case True
      obtain qs w' where q: "segs_from [] (drop_rune s) = (qs, w')" by fastforce
      from "1.IH"(1) [OF ne refl True q plain] True "1.prems"(1) q show ?thesis
        using segs_from_step [OF ne stable, of cur] segs_from_Cons_step [OF ne, of cur]
        by (auto simp: Let_def)
    next
      case False
      with "1.prems"(1) segs_from_Cons_step [OF ne, of cur]
      have "segs_from ?cur' (drop_rune s) = (ps, t)" by (simp add: Let_def)
      from "1.IH"(2) [OF ne refl False this plain] False show ?thesis
        using segs_from_step [OF ne stable, of cur] by (simp add: Let_def)
    qed
  qed (use "1.prems" only in auto)
qed

definition plain_tail :: "gostring \<Rightarrow> bool" where
  "plain_tail a \<longleftrightarrow>
     (\<forall>c \<in> set a. (of_char c :: nat) < 128 \<and> \<not> is_sentence_delim (of_char c) \<and> c \<noteq> CHR ''|'')"

lemma segs_with_action:
  assumes "plain_tail a"
  shows "segs (body @ CHR ''|'' # a) = (fst (segs body), snd (segs body) @ CHR ''|'' # a)"
  using segs_plain_append [of "[]" body "fst (segs body)" "snd (segs body)" "CHR ''|'' # a"] assms
  by (auto simp: segs_def plain_tail_def is_sentence_delim_def)

text \<open>The reply protocol: for a reply \<open>body|action\<close> (the action text plain ASCII without a
  delimiter or a second bar), however it is chunked, the sentences are those of the body, the
  leftover is the trimmed unfinished end of the body, and the action is read from the text after
  the last bar; nothing of the action is emitted as speech.\<close>

theorem turn_of_reply:
  assumes "concat cs = body @ CHR ''|'' # a" and "plain_tail a"
  shows "fst (feed_all new_parser cs) = spoken (fst (segs body)) \<and>
    finalize up (snd (feed_all new_parser cs)) = (trim_space (snd (segs body)), parse_action up a)"
proof -
  have bar: "last_index CHR ''|'' (concat cs) = Some (length body)"
    using assms last_index_append [of "CHR ''|''" a body] by (auto simp: plain_tail_def)
  have sg: "segs (concat cs) = (fst (segs body), snd (segs body) @ CHR ''|'' # a)"
    using segs_with_action [OF assms(2)] assms(1) by simp
  let ?fl = "length (concat (fst (segs body)))"
  have body: "body = concat (fst (segs body)) @ snd (segs body)"
    using segs_concat [of body] by simp
  then have "gslice (concat cs) ?fl (length body) = snd (segs body)"
    using assms(1) by (metis append.assoc append_eq_conv_conj diff_add_inverse gslice_def length_append)
  moreover have "?fl < length body \<longleftrightarrow> snd (segs body) \<noteq> []"
    by (subst (2) body) simp
  ultimately show ?thesis
    using bar sg assms(1) by (auto simp: feed_all_refines_segs finalize_def)
qed

theorem turn_of_reply_witness:
  "fst (feed_all new_parser [''Hi. Bye|END'', ''CALL'']) = [''Hi.''] \<and>
   finalize id (snd (feed_all new_parser [''Hi. Bye|END'', ''CALL''])) = (''Bye'', ActionEndCall)"
proof -
  have "segs ''Hi. Bye'' = ([''Hi.''], '' Bye'')"
    by (simp add: segs_def segs_from.simps is_sentence_delim_def drop_rune_def)
  moreover have "trim_space '' Bye'' = ''Bye''" "trim_space ''Hi.'' = ''Hi.''"
    by (simp_all add: trim_space_def trim_left.simps trim_right.simps is_space_def drop_rune_def
        decode_last_rune_def)
  moreover have "parse_action id ''ENDCALL'' = ActionEndCall"
    by (simp add: parse_action_def trim_space_def trim_left.simps trim_right.simps is_space_def
        decode_last_rune_def to_upper_ascii_cons has_prefix_def ascii_upper_def char_of_eq_iff)
  ultimately show ?thesis
    using turn_of_reply [of "[''Hi. Bye|END'', ''CALL'']" "''Hi. Bye''" "''ENDCALL''" id]
    by (simp add: plain_tail_def is_sentence_delim_def)
qed

lemma ascii_upper_letter: "65 \<le> ascii_upper r \<Longrightarrow> ascii_upper r \<le> 90 \<Longrightarrow> 65 \<le> r \<and> r \<le> 122"
  by (auto simp: ascii_upper_def split: if_splits)

lemma letter_not_space: "65 \<le> r \<Longrightarrow> r \<le> 122 \<Longrightarrow> \<not> is_space r"
  by (simp add: is_space_def)

lemma endcall_letters:
  "c \<in> set ''ENDCALL'' \<Longrightarrow> 65 \<le> (of_char c :: nat) \<and> (of_char c :: nat) \<le> 90"
  by auto

text \<open>The action word is matched as a case-insensitive prefix after white space: ENDCALL in any
  case, after ASCII white space and before any junk whatever, ends the call.\<close>

theorem endcall_recognised:
  assumes "\<forall>c \<in> set ws. (of_char c :: nat) < 128 \<and> is_space (of_char c)"
    and "\<forall>c \<in> set w. (of_char c :: nat) < 128" and "map (\<lambda>c. char_of (ascii_upper (of_char c))) w = ''ENDCALL''"
  shows "parse_action up (ws @ w @ junk) = ActionEndCall"
proof -
  have "\<not> is_space (of_char c)" if "c \<in> set w" for c
  proof -
    have "(char_of (ascii_upper (of_char c)) :: char) \<in> set ''ENDCALL''"
      by (simp only: assms(3) [symmetric] set_map) (rule imageI, rule that)
    then have "65 \<le> (of_char (char_of (ascii_upper (of_char c)) :: char) :: nat) \<and>
        (of_char (char_of (ascii_upper (of_char c)) :: char) :: nat) \<le> 90"
      by (rule endcall_letters)
    moreover have "ascii_upper (of_char c) < 128"
      using assms(2) that by (simp add: ascii_upper_lt)
    ultimately have "65 \<le> ascii_upper (of_char c)" "ascii_upper (of_char c) \<le> 90"
      by simp_all
    then have "65 \<le> (of_char c :: nat)" "(of_char c :: nat) \<le> 122"
      using ascii_upper_letter by blast+
    then show ?thesis using letter_not_space by blast
  qed
  moreover have "w \<noteq> []" using assms(3) by auto
  ultimately obtain v' where "trim_space (ws @ w @ junk) = w @ v'"
    using trim_space_word [OF assms(1), of w junk] assms(2) by auto
  then show ?thesis
    using assms(2,3) by (simp add: parse_action_def to_upper_ascii_append has_prefix_def)
qed

theorem endcall_recognised_witness:
  "parse_action id ('' '' @ ''EndCall'' @ ''Content-Length: 0'') = ActionEndCall"
  by (rule endcall_recognised) (simp_all add: is_space_def ascii_upper_def char_of_eq_iff)

text \<open>A delimiter after the action defeats the suffix: when the reply's body ends a sentence and a
  line break follows the action word, the bar and the action word themselves are emitted as a
  sentence (and so spoken to the caller), although the action is still recognised.\<close>

theorem action_suffix_spoken:
  assumes "concat cs = body @ ''|ENDCALL'' @ [CHR 0x0A]" and "snd (segs body) = []"
  shows "fst (feed_all new_parser cs) = spoken (fst (segs body)) @ [''|ENDCALL''] \<and>
    finalize up (snd (feed_all new_parser cs)) = ([], ActionEndCall)"
proof -
  have body: "segs body = (fst (segs body), [])" using assms(2) by (metis prod.collapse)
  have tail: "segs (''|ENDCALL'' @ [CHR 0x0A]) = ([''|ENDCALL'' @ [CHR 0x0A]], [])"
    by (simp add: segs_def segs_from.simps is_sentence_delim_def drop_rune_def)
  have sg: "segs (concat cs) = (fst (segs body) @ [''|ENDCALL'' @ [CHR 0x0A]], [])"
    using segs_append [OF body, of "''|ENDCALL'' @ [CHR 0x0A]"] assms(1) tail by simp
  have "trim_space (''|ENDCALL'' @ [CHR 0x0A]) = ''|ENDCALL''"
    by (simp add: trim_space_def trim_left.simps trim_right.simps is_space_def decode_last_rune_def)
  moreover have "last_index CHR ''|'' (concat cs) = Some (length body)"
    using assms(1) last_index_append [of "CHR ''|''" "''ENDCALL'' @ [CHR 0x0A]" body] by simp
  moreover have "parse_action up (''ENDCALL'' @ [CHR 0x0A]) = ActionEndCall"
    using endcall_recognised [of "[]" "''ENDCALL''" up "[CHR 0x0A]"]
    by (simp add: ascii_upper_def char_of_eq_iff)
  moreover have "length (concat (fst (segs (concat cs)))) = length (concat cs)"
    using segs_concat [of "concat cs"] sg by simp
  ultimately show ?thesis
    using sg assms(1) by (simp add: feed_all_refines_segs finalize_def)
qed

theorem action_suffix_spoken_witness:
  "fst (feed_all new_parser [''Ok.|ENDCALL'' @ [CHR 0x0A]]) = [''Ok.'', ''|ENDCALL'']"
proof -
  have "segs ''Ok.'' = ([''Ok.''], [])"
    by (simp add: segs_def segs_from.simps is_sentence_delim_def drop_rune_def)
  moreover have "trim_space ''Ok.'' = ''Ok.''"
    by (simp add: trim_space_def trim_left.simps trim_right.simps is_space_def decode_last_rune_def)
  ultimately show ?thesis
    using action_suffix_spoken [of "[''Ok.|ENDCALL'' @ [CHR 0x0A]]" "''Ok.''" id] by simp
qed

end
