(* ===== verification/BotStream.thy ===== *)
theory BotStream
  imports SentenceParser
begin

text \<open>
  \<open>internal/bot/http_stream.go\<close>: one streamed bot reply.  The reader goroutine pulls the
  response body, feeds the sentence parser and sends each sentence to a channel, giving up as
  soon as its context is done.  The HTTP body is a script of read results, and \<open>patience\<close> is the
  number of sends that go through before the context's \<open>Done\<close> is chosen (\<open>None\<close>: never).
\<close>

section \<open>Errors and reads\<close>

datatype ctx_err = Canceled | DeadlineExceeded

datatype stream_err = CtxErr ctx_err | ReadBody gostring

datatype read_err = ReadEOF | ReadCtx ctx_err | ReadOther gostring

text \<open>One \<open>Body.Read\<close>: the bytes it returned and, possibly with them, an error.\<close>

type_synonym body_read = "gostring \<times> read_err option"

record turn_stream =
  sent :: "gostring list"
  st_action :: "action option"
  st_err :: "stream_err option"

definition fresh_stream :: turn_stream where
  "fresh_stream = \<lparr>sent = [], st_action = None, st_err = None\<rparr>"

section \<open>The reader goroutine\<close>

text \<open>The sends of one batch; \<open>Inl\<close> when the context won the select.\<close>

fun send_all :: "nat option \<Rightarrow> gostring list \<Rightarrow> gostring list \<times> nat option \<times> bool" where
  "send_all pat [] = ([], pat, True)"
| "send_all None (s # ss) = (let (out, pat, ok) = send_all None ss in (s # out, pat, ok))"
| "send_all (Some 0) (s # ss) = ([], Some 0, False)"
| "send_all (Some (Suc n)) (s # ss) =
     (let (out, pat, ok) = send_all (Some n) ss in (s # out, pat, ok))"

text \<open>
  \<open>read\<close>: \<open>None\<close> while the script of reads is exhausted without an error, that is, while the
  goroutine is still blocked in \<open>Body.Read\<close>.  \<open>ctx_e\<close> is what \<open>ctx.Err()\<close> returns once done.
\<close>

fun read_loop ::
  "(nat \<Rightarrow> nat) \<Rightarrow> ctx_err \<Rightarrow> nat option \<Rightarrow> body_read list \<Rightarrow> sentence_parser \<Rightarrow> turn_stream \<Rightarrow> turn_stream option"
where
  "read_loop up ctx_e pat [] p st = None"
| "read_loop up ctx_e pat ((buf, err) # rs) p st =
     (let (sents, p') = (if buf \<noteq> [] then feed p buf else ([], p));
          (out, pat', ok) = send_all pat sents;
          st' = st\<lparr>sent := sent st @ out\<rparr> in
      if \<not> ok then Some (st'\<lparr>st_err := Some (CtxErr ctx_e)\<rparr>)
      else case err of
        None \<Rightarrow> read_loop up ctx_e pat' rs p' st'
      | Some (ReadCtx e) \<Rightarrow> Some (st'\<lparr>st_err := Some (CtxErr e)\<rparr>)
      | Some (ReadOther m) \<Rightarrow> Some (st'\<lparr>st_err := Some (ReadBody m)\<rparr>)
      | Some ReadEOF \<Rightarrow>
          (let (leftover, act) = finalize up p';
               (out2, _, ok2) = send_all pat' (if leftover \<noteq> [] then [leftover] else []);
               st2 = st'\<lparr>sent := sent st' @ out2\<rparr> in
           if \<not> ok2 then Some (st2\<lparr>st_err := Some (CtxErr ctx_e)\<rparr>)
           else Some (st2\<lparr>st_action := Some act\<rparr>)))"

definition read_body :: "(nat \<Rightarrow> nat) \<Rightarrow> ctx_err \<Rightarrow> nat option \<Rightarrow> body_read list \<Rightarrow> turn_stream option" where
  "read_body up ctx_e pat rs = read_loop up ctx_e pat rs new_parser fresh_stream"

section \<open>Opening the stream\<close>

datatype http_result = DoErr gostring | DoResp nat gostring

datatype open_err = BuildRequest gostring | BotRequest gostring | BotStatus nat gostring

text \<open>
  \<open>HTTPClient.Stream\<close>: the request, a status other than 200 turned into an error that carries at
  most 4096 bytes of the body, otherwise the reader on the body.
\<close>

definition stream_open :: "gostring option \<Rightarrow> http_result \<Rightarrow> open_err + unit" where
  "stream_open build_err resp =
     (case build_err of Some e \<Rightarrow> Inl (BuildRequest e)
      | None \<Rightarrow>
         (case resp of DoErr e \<Rightarrow> Inl (BotRequest e)
          | DoResp status body \<Rightarrow>
             if status \<noteq> 200 then Inl (BotStatus status (take 4096 body)) else Inr ()))"

section \<open>Lemmas\<close>

lemma send_all_None [simp]: "send_all None ss = (ss, None, True)"
  by (induction ss) auto

lemma send_all_prefix: "send_all pat ss = (out, pat', ok) \<Longrightarrow> prefix out ss \<and> (ok \<longrightarrow> out = ss)"
  by (induction pat ss arbitrary: out pat' ok rule: send_all.induct) (auto split: prod.splits)

text \<open>A well-behaved body: chunks without an error, then end of file with the last one.\<close>

definition clean_body :: "gostring list \<Rightarrow> gostring \<Rightarrow> body_read list" where
  "clean_body cs c = map (\<lambda>b. (b, None)) cs @ [(c, Some ReadEOF)]"

lemma feed_or_skip: "(if buf \<noteq> [] then feed p buf else ([], p)) = feed p buf"
  by (simp add: feed_def)

lemma read_loop_clean:
  "read_loop up e None (clean_body cs c) p st =
     (let (outs, p') = feed_all p (cs @ [c]); (left, act) = finalize up p' in
      Some (st\<lparr>sent := sent st @ outs @ (if left \<noteq> [] then [left] else []), st_action := Some act\<rparr>))"
proof (induction cs arbitrary: p st)
  case Nil
  show ?case
    by (simp add: clean_body_def feed_or_skip split: prod.splits)
next
  case (Cons b cs)
  then show ?case
    by (simp add: clean_body_def feed_or_skip split: prod.splits)
qed

lemma read_loop_action_or_err:
  "read_loop up e pat rs p st = Some st' \<Longrightarrow> st_action st = None \<Longrightarrow> st_err st = None \<Longrightarrow>
   (st_action st' = None) \<noteq> (st_err st' = None)"
  by (induction up e pat rs p st arbitrary: st' rule: read_loop.induct)
    (auto simp: Let_def split: prod.splits if_splits option.splits read_err.splits)

section \<open>Properties\<close>



text \<open>Whatever the body does and whenever the context ends, a reader that returns reports exactly
  one of an action and an error: an aborted reply never carries an action.\<close>

theorem stream_action_xor_error:
  assumes "read_body up e pat rs = Some st"
  shows "(st_action st = None) \<noteq> (st_err st = None)"
  using read_loop_action_or_err assms by (fastforce simp: read_body_def fresh_stream_def)

theorem stream_action_xor_error_witness:
  "read_body id Canceled (Some 0) [(''Hi.'', None)] =
     Some \<lparr>sent = [], st_action = None, st_err = Some (CtxErr Canceled)\<rparr> \<and>
   (None :: action option) = None \<and> Some (CtxErr Canceled) \<noteq> None"
proof -
  have "fst (feed new_parser ''Hi.'') = [''Hi.'']"
    by (simp add: feed_def new_parser_def feed_loop.simps is_sentence_delim_def gslice_def
        trim_space_def trim_left.simps trim_right.simps is_space_def decode_last_rune_def Let_def)
  then have r: "read_body id Canceled (Some 0) [(''Hi.'', None)] =
     Some \<lparr>sent = [], st_action = None, st_err = Some (CtxErr Canceled)\<rparr>"
    by (cases "feed new_parser ''Hi.''") (simp add: read_body_def fresh_stream_def)
  from stream_action_xor_error [OF r] r show ?thesis by simp
qed

end
