(* ===== verification/BargeIn.thy ===== *)
theory BargeIn
  imports GoStrings
begin

text \<open>
  \<open>internal/pipeline/bargein.go\<close>: the monitor that listens to the caller while the bot
  speaks.  The transcript watcher is a function of the results the ASR stream delivers; it first
  waits for a partial of enough words, then for the final text, which becomes the caller's next
  message.
\<close>

section \<open>Results and options of an ASR stream\<close>

record asr_result =
  res_text :: gostring
  is_final :: bool

text \<open>\<open>asr.StreamOpts\<close>.\<close>

record asr_opts =
  conversation_id :: gostring
  asr_sample_rate :: int
  channels :: int
  single_sentence :: bool
  silence_timeout_ms :: int
  speech_timeout_ms :: int
  speech_max_ms :: int

text \<open>The part of \<open>pipeline.Config\<close> that reaches the recogniser.\<close>

record asr_config =
  cfg_sample_rate :: int
  cfg_silence_timeout :: duration
  cfg_speech_timeout :: duration
  cfg_speech_max :: duration
  cfg_single_sentence :: bool

text \<open>Go's integer division of a duration by \<open>time.Millisecond\<close> truncates towards zero.\<close>

definition to_ms :: "duration \<Rightarrow> int" where
  "to_ms d = sgn d * (abs d div 1000000)"

definition barge_min_words :: "int \<Rightarrow> int" where
  "barge_min_words n = (if n \<le> 0 then 3 else n)"

definition barge_opts :: "gostring \<Rightarrow> asr_config \<Rightarrow> asr_opts" where
  "barge_opts uuid cfg =
     \<lparr>conversation_id = uuid @ ''-barge'',
      asr_sample_rate = (if cfg_sample_rate cfg = 0 then 8000 else cfg_sample_rate cfg),
      channels = 1, single_sentence = cfg_single_sentence cfg, silence_timeout_ms = 60000,
      speech_timeout_ms = to_ms (cfg_speech_timeout cfg), speech_max_ms = to_ms (cfg_speech_max cfg)\<rparr>"

section \<open>The transcript watcher\<close>

definition count_words :: "gostring \<Rightarrow> int" where
  "count_words s = int (length (string_fields s))"

text \<open>
  What the watcher shares: whether it triggered, the stored transcript, the buffer of \<open>finalCh\<close>
  (one element), its local \<open>lastText\<close>, and whether it has returned.
\<close>

record watcher =
  triggered :: bool
  transcript :: "gostring option"
  final_ch :: "gostring option"
  last_text :: gostring
  returned :: bool

definition new_watcher :: watcher where
  "new_watcher = \<lparr>triggered = False, transcript = None, final_ch = None, last_text = [], returned = False\<rparr>"

text \<open>A send with a default branch to a channel of capacity one.\<close>

definition offer :: "gostring \<Rightarrow> watcher \<Rightarrow> watcher" where
  "offer t w = (case final_ch w of None \<Rightarrow> w\<lparr>final_ch := Some t\<rparr> | Some _ \<Rightarrow> w)"

definition watch_result :: "int \<Rightarrow> asr_result \<Rightarrow> watcher \<Rightarrow> watcher" where
  "watch_result mw r w =
     (let text = trim_space (res_text r);
          w = (if text \<noteq> [] then w\<lparr>last_text := text\<rparr> else w) in
      if \<not> triggered w \<and> (text = [] \<or> count_words text < mw) then w
      else
        let w = (if \<not> triggered w then w\<lparr>triggered := True, transcript := Some text\<rparr> else w) in
        if is_final r then
          let fin = (if text = [] then last_text w else text) in
          (offer fin (w\<lparr>transcript := Some fin\<rparr>))\<lparr>returned := True\<rparr>
        else w)"

text \<open>The loop over \<open>Recv()\<close>, then what follows when the stream closes without a final.\<close>

fun watch_loop :: "int \<Rightarrow> asr_result list \<Rightarrow> watcher \<Rightarrow> watcher" where
  "watch_loop mw [] w = w"
| "watch_loop mw (r # rs) w =
     (let w' = watch_result mw r w in if returned w' then w' else watch_loop mw rs w')"

definition watch_closed :: "watcher \<Rightarrow> watcher" where
  "watch_closed w =
     (if returned w then w
      else (if triggered w \<and> last_text w \<noteq> [] then offer (last_text w) w else w)\<lparr>returned := True\<rparr>)"

definition captured_transcript :: "watcher \<Rightarrow> gostring" where
  "captured_transcript w = (case transcript w of Some t \<Rightarrow> t | None \<Rightarrow> [])"

text \<open>\<open>waitForFinal\<close>, told whether the timer or the channel won.\<close>

definition wait_for_final :: "bool \<Rightarrow> watcher \<Rightarrow> gostring" where
  "wait_for_final timed_out w =
     (if timed_out then captured_transcript w
      else case final_ch w of Some t \<Rightarrow> t | None \<Rightarrow> captured_transcript w)"

section \<open>Lemmas\<close>

definition triggers :: "int \<Rightarrow> asr_result \<Rightarrow> bool" where
  "triggers mw r \<longleftrightarrow> trim_space (res_text r) \<noteq> [] \<and> mw \<le> count_words (trim_space (res_text r))"

text \<open>Everything the watcher has published is text, never the empty string.\<close>

definition watcher_ok :: "watcher \<Rightarrow> bool" where
  "watcher_ok w \<longleftrightarrow>
     (triggered w \<longrightarrow> (\<exists>t. transcript w = Some t \<and> t \<noteq> []) \<and> last_text w \<noteq> []) \<and>
     (\<not> triggered w \<longrightarrow> transcript w = None \<and> final_ch w = None) \<and>
     (\<forall>t. final_ch w = Some t \<longrightarrow> t \<noteq> []) \<and>
     (returned w \<and> triggered w \<longrightarrow> final_ch w \<noteq> None)"

lemma watcher_ok_new [inv_intros]: "watcher_ok new_watcher"
  by (simp add: watcher_ok_def new_watcher_def)

lemma watcher_ok_result [inv_intros]: "watcher_ok w \<Longrightarrow> \<not> returned w \<Longrightarrow> watcher_ok (watch_result mw r w)"
  by (auto simp: watcher_ok_def watch_result_def offer_def Let_def split: option.splits)

lemma watcher_ok_loop [inv_intros]: "watcher_ok w \<Longrightarrow> \<not> returned w \<Longrightarrow> watcher_ok (watch_loop mw rs w)"
  by (induction mw rs w rule: watch_loop.induct) (simp_all add: watcher_ok_result Let_def)

lemma watcher_ok_closed [inv_intros]: "watcher_ok w \<Longrightarrow> watcher_ok (watch_closed w)"
  by (auto simp: watcher_ok_def watch_closed_def offer_def split: option.splits)

lemma watch_result_triggered: "triggered (watch_result mw r w) \<longleftrightarrow> triggered w \<or> triggers mw r"
  by (auto simp: watch_result_def triggers_def offer_def Let_def split: option.splits)

lemma watch_result_returned: "\<not> returned w \<Longrightarrow> returned (watch_result mw r w) \<Longrightarrow> triggered (watch_result mw r w)"
  by (auto simp: watch_result_def offer_def Let_def split: option.splits if_splits)

lemma watch_loop_triggered:
  "\<not> returned w \<Longrightarrow> triggered (watch_loop mw rs w) \<longleftrightarrow> triggered w \<or> (\<exists>r\<in>set rs. triggers mw r)"
proof (induction rs arbitrary: w)
  case (Cons r rs)
  then show ?case
    using watch_result_returned [OF Cons.prems, of mw r] watch_result_triggered [of mw r w]
    by (auto simp: Let_def)
qed simp

lemma watch_loop_append:
  "\<not> returned w \<Longrightarrow> watch_loop mw (xs @ ys) w = (let w' = watch_loop mw xs w in if returned w' then w' else watch_loop mw ys w')"
  by (induction xs arbitrary: w) (auto simp: Let_def)

lemma watch_quiet:
  "\<forall>r\<in>set rs. \<not> triggers mw r \<Longrightarrow> \<not> triggered w \<Longrightarrow> \<not> returned w \<Longrightarrow>
   \<not> returned (watch_loop mw rs w) \<and> \<not> triggered (watch_loop mw rs w) \<and> final_ch (watch_loop mw rs w) = final_ch w"
  by (induction rs arbitrary: w) (auto simp: watch_result_def triggers_def Let_def)

lemma watch_partials:
  "\<forall>r\<in>set rs. \<not> is_final r \<Longrightarrow> triggered w \<Longrightarrow> \<not> returned w \<Longrightarrow>
   \<not> returned (watch_loop mw rs w) \<and> triggered (watch_loop mw rs w) \<and> final_ch (watch_loop mw rs w) = final_ch w"
  by (induction rs arbitrary: w) (auto simp: watch_result_def Let_def)

section \<open>Properties\<close>

text \<open>The monitor triggers exactly when some result, partial or final, carries at least the
  configured number of words: silence and short noises never interrupt the bot.\<close>

theorem barge_triggers_iff:
  "triggered (watch_closed (watch_loop mw rs new_watcher)) \<longleftrightarrow> (\<exists>r\<in>set rs. triggers mw r)"
  using watch_loop_triggered [of new_watcher mw rs]
  by (auto simp: watch_closed_def offer_def new_watcher_def split: option.splits)

text \<open>After a trigger the text handed to the next turn is never empty, whether the final result came,
  the stream closed first, or the wait timed out; in the first two cases the wait finds a text in
  the channel and does not block.\<close>

theorem barge_text_not_empty:
  assumes "r \<in> set rs" and "triggers mw r"
  shows "wait_for_final timed_out (watch_loop mw rs new_watcher) \<noteq> [] \<and>
     wait_for_final timed_out (watch_closed (watch_loop mw rs new_watcher)) \<noteq> [] \<and>
     final_ch (watch_closed (watch_loop mw rs new_watcher)) \<noteq> None"
proof -
  let ?w = "watch_loop mw rs new_watcher"
  have t: "triggered ?w" using watch_loop_triggered [of new_watcher mw rs] assms
    by (auto simp: new_watcher_def)
  then have t': "triggered (watch_closed ?w)" "returned (watch_closed ?w)"
    by (auto simp: watch_closed_def offer_def split: option.splits)
  have "watcher_ok ?w" by (rule watcher_ok_loop [OF watcher_ok_new]) (simp add: new_watcher_def)
  with watcher_ok_closed have ok: "watcher_ok ?w" "watcher_ok (watch_closed ?w)" by auto
  from ok t t' show ?thesis
    by (auto simp: watcher_ok_def wait_for_final_def captured_transcript_def split: option.splits)
qed

theorem barge_text_not_empty_witness:
  "wait_for_final True (watch_loop 1 [\<lparr>res_text = '' no '', is_final = False\<rparr>] new_watcher) \<noteq> []"
proof -
  have "string_fields ''no'' = [''no'']"
    by (simp add: string_fields_def fields_from.simps is_space_def drop_rune_def)
  then have "triggers 1 \<lparr>res_text = '' no '', is_final = False\<rparr>"
    by (simp add: triggers_def eval_strings count_words_def)
  from barge_text_not_empty [OF _ this, of "[\<lparr>res_text = '' no '', is_final = False\<rparr>]" True] show ?thesis
    by simp
qed

text \<open>The bot's next message is the complete utterance: the text of the first final result after the
  trigger, not the partial that triggered.\<close>

theorem barge_keeps_whole_utterance:
  assumes "\<forall>r\<in>set before. \<not> triggers mw r" and "triggers mw p" and "\<not> is_final p"
    and "\<forall>r\<in>set partials. \<not> is_final r" and "is_final f" and "trim_space (res_text f) \<noteq> []"
  shows "wait_for_final timed_out (watch_loop mw (before @ p # partials @ f # rest) new_watcher) =
    trim_space (res_text f)"
proof -
  let ?w0 = "watch_loop mw before new_watcher"
  have w0: "\<not> returned ?w0" "\<not> triggered ?w0" "final_ch ?w0 = None"
    using watch_quiet [OF assms(1), of new_watcher] by (auto simp: new_watcher_def)
  let ?w1 = "watch_result mw p ?w0"
  have w1: "\<not> returned ?w1" "triggered ?w1" "final_ch ?w1 = None"
    using w0 assms(2,3) by (auto simp: watch_result_def triggers_def Let_def)
  let ?w2 = "watch_loop mw partials ?w1"
  have w2: "\<not> returned ?w2" "triggered ?w2" "final_ch ?w2 = None"
    using watch_partials [OF assms(4) w1(2,1), of mw] w1(3) by auto
  let ?w3 = "watch_result mw f ?w2"
  have w3: "returned ?w3" "final_ch ?w3 = Some (trim_space (res_text f))"
    "transcript ?w3 = Some (trim_space (res_text f))"
    using w2 assms(5,6) by (auto simp: watch_result_def offer_def Let_def)
  have "\<not> returned new_watcher" by (simp add: new_watcher_def)
  then have "watch_loop mw (before @ p # partials @ f # rest) new_watcher = ?w3"
    using w0 w1 w2 w3 by (simp add: watch_loop_append Let_def)
  with w3 show ?thesis by (simp add: wait_for_final_def captured_transcript_def)
qed

theorem barge_keeps_whole_utterance_witness:
  "wait_for_final False (watch_loop 2
     [\<lparr>res_text = ''a'', is_final = True\<rparr>, \<lparr>res_text = ''a b'', is_final = False\<rparr>,
      \<lparr>res_text = ''a b c'', is_final = True\<rparr>] new_watcher) = ''a b c''"
proof -
  have f: "string_fields ''a b'' = [''a'', ''b'']" "string_fields ''a'' = [''a'']"
    by (simp_all add: string_fields_def fields_from.simps is_space_def drop_rune_def)
  have t: "trim_space ''a b'' = ''a b''" "trim_space ''a'' = ''a''" "trim_space ''a b c'' = ''a b c''"
    by (simp_all add: eval_strings)
  show ?thesis
    using barge_keeps_whole_utterance [of "[\<lparr>res_text = ''a'', is_final = True\<rparr>]" 2
        "\<lparr>res_text = ''a b'', is_final = False\<rparr>" "[]" "\<lparr>res_text = ''a b c'', is_final = True\<rparr>" False "[]"]
    by (simp add: triggers_def f t count_words_def)
qed

end
