(* ===== verification/Transition.thy ===== *)
theory Transition
  imports Prelude
begin

text \<open>
  What the concurrent parts of the program share: each is a step relation on the state of its
  goroutines, every reachable state of which satisfies an invariant.  The locale
  \<open>transition_system\<close> is that contract; each component interprets it on its own
  steps and reads its safety properties off \<open>reach_inv\<close>.  The locale \<open>bounded_system\<close>
  extends it with a measure and gives termination.
\<close>

inductive steps_from :: "('s \<Rightarrow> 's \<Rightarrow> bool) \<Rightarrow> 's \<Rightarrow> 's \<Rightarrow> bool" for step where
  here: "steps_from step s s"
| more: "steps_from step s t \<Longrightarrow> step t u \<Longrightarrow> steps_from step s u"

lemma steps_from_one: "step s t \<Longrightarrow> steps_from step s t"
  by (rule steps_from.more [OF steps_from.here])

lemma steps_from_trans: "steps_from step s t \<Longrightarrow> steps_from step t u \<Longrightarrow> steps_from step s u"
  by (rotate_tac, induction rule: steps_from.induct) (auto intro: steps_from.more)

lemma steps_from_head: "step s t \<Longrightarrow> steps_from step t u \<Longrightarrow> steps_from step s u"
  by (rule steps_from_trans [OF steps_from_one])

lemma steps_from_keeps:
  assumes "steps_from step s t" and "P s" and "\<And>x y. step x y \<Longrightarrow> P x \<Longrightarrow> P y"
  shows "P t"
  using assms by (induction rule: steps_from.induct) auto

text \<open>A quantity no step increases, along runs that stay inside an invariant.\<close>

lemma steps_from_le:
  fixes f :: "'s \<Rightarrow> nat"
  assumes "steps_from step s t" and "P s" and "\<And>x y. step x y \<Longrightarrow> P x \<Longrightarrow> P y"
    and "\<And>x y. step x y \<Longrightarrow> P x \<Longrightarrow> f y \<le> f x"
  shows "f t \<le> f s"
proof -
  have "P t \<and> f t \<le> f s" using assms(1,2)
    by (induction rule: steps_from.induct) (use assms(3,4) le_trans in \<open>blast | simp\<close>)+
  then show ?thesis ..
qed

text \<open>Runs of a given length.\<close>

fun run_of :: "('s \<Rightarrow> 's \<Rightarrow> bool) \<Rightarrow> 's \<Rightarrow> 's list \<Rightarrow> bool" where
  "run_of step s [] \<longleftrightarrow> True"
| "run_of step s (t # ts) \<longleftrightarrow> step s t \<and> run_of step t ts"

locale transition_system =
  fixes initial :: "'s \<Rightarrow> bool"
    and step :: "'s \<Rightarrow> 's \<Rightarrow> bool"
    and inv :: "'s \<Rightarrow> bool"
  assumes initial_inv: "initial s \<Longrightarrow> inv s"
    and step_inv: "step s t \<Longrightarrow> inv s \<Longrightarrow> inv t"
begin

lemma reach_inv: "initial s \<Longrightarrow> steps_from step s t \<Longrightarrow> inv t"
  by (erule steps_from_keeps) (blast intro: initial_inv step_inv)+

lemma inv_steps: "inv s \<Longrightarrow> steps_from step s t \<Longrightarrow> inv t"
  by (rule steps_from_keeps [of step s t inv]) (blast intro: step_inv)+

lemma reach_le:
  fixes f :: "'s \<Rightarrow> nat"
  assumes "inv s" and "steps_from step s t" and "\<And>x y. step x y \<Longrightarrow> inv x \<Longrightarrow> f y \<le> f x"
  shows "f t \<le> f s"
  by (rule steps_from_le [OF assms(2), of inv]) (use assms step_inv in blast)+

end

locale bounded_system = transition_system +
  fixes size_of :: "'a \<Rightarrow> nat"
  assumes size_decr: "step s t \<Longrightarrow> inv s \<Longrightarrow> size_of t < size_of s"
begin

lemma run_bounded: "inv s \<Longrightarrow> run_of step s ts \<Longrightarrow> length ts \<le> size_of s"
proof (induction ts arbitrary: s)
  case (Cons t ts)
  then have "inv t" "size_of t < size_of s" "run_of step t ts"
    using step_inv size_decr by auto
  with Cons.IH [of t] show ?case by simp
qed simp

end

end
