(* ===== verification/FillerCtrl.thy ===== *)
theory FillerCtrl
  imports Transition
begin

text \<open>
  \<open>internal/pipeline/filler_ctrl.go\<close>: the controller that may cue a filler while the bot thinks.
  Its resolver and decider goroutines and the callers of \<open>Cancel\<close> are a step relation; the counters
  \<open>plays\<close> and \<open>stops\<close> record the successful calls of \<open>Filler.Play\<close> and the calls of the stop
  functions it returned.
\<close>

section \<open>Model of the code\<close>

datatype resolver_pc = NoResolver | Resolving | Resolved gostring | ResolverExited
datatype decider_pc = Deciding | CallPlay gostring | Played | DeciderExited
datatype cancel_pc = NotCanceled | Canceling bool | CancelDone

record filler_ctrl =
  resolver :: resolver_pc
  decision_ch :: "gostring option"
  first_sentence :: bool
  decider :: decider_pc
  fc_ctx_done :: bool
  stop_fn :: bool
  stopped :: bool
  canceler :: cancel_pc
  plays :: nat
  stops :: nat

text \<open>What \<open>newFillerController\<close> looks at.\<close>

record filler_want =
  active :: bool
  transcript :: gostring
  filler_enabled :: bool
  has_player :: bool
  has_resolver :: bool
  force_short :: bool

definition filler_wanted :: "filler_want \<Rightarrow> bool" where
  "filler_wanted w \<longleftrightarrow> active w \<and> transcript w \<noteq> [] \<and> filler_enabled w \<and> has_player w"

definition resolver_wanted :: "filler_want \<Rightarrow> bool" where
  "resolver_wanted w \<longleftrightarrow> \<not> force_short w \<and> has_resolver w"

definition new_filler_controller :: "filler_want \<Rightarrow> filler_ctrl" where
  "new_filler_controller w =
     \<lparr>resolver = (if filler_wanted w \<and> resolver_wanted w then Resolving else NoResolver),
      decision_ch = None, first_sentence = False,
      decider = (if filler_wanted w then Deciding else DeciderExited),
      fc_ctx_done = False, stop_fn = False, stopped = False, canceler = NotCanceled,
      plays = 0, stops = 0\<rparr>"

text \<open>
  The select of the decider depends on whether a resolver was started, which its program counter
  tells.  A resolver error is the empty label.  In \<open>Cancel\<close> the first caller takes the stop function
  under the lock and calls it after; later callers do nothing.
\<close>

inductive filler_step :: "filler_ctrl \<Rightarrow> filler_ctrl \<Rightarrow> bool" where
  resolve: "resolver c = Resolving \<Longrightarrow> filler_step c (c\<lparr>resolver := Resolved l\<rparr>)"
| resolver_send: "resolver c = Resolved l \<Longrightarrow> decision_ch c = None \<Longrightarrow>
    filler_step c (c\<lparr>resolver := ResolverExited, decision_ch := Some l\<rparr>)"
| resolver_ctx: "resolver c = Resolved l \<Longrightarrow> fc_ctx_done c \<Longrightarrow> filler_step c (c\<lparr>resolver := ResolverExited\<rparr>)"
| decide_label: "decider c = Deciding \<Longrightarrow> resolver c \<noteq> NoResolver \<Longrightarrow> decision_ch c = Some l \<Longrightarrow>
    filler_step c (c\<lparr>decider := CallPlay l, decision_ch := None\<rparr>)"
| decide_skip: "decider c = Deciding \<Longrightarrow> first_sentence c \<Longrightarrow> filler_step c (c\<lparr>decider := DeciderExited\<rparr>)"
| decide_timeout: "decider c = Deciding \<Longrightarrow> resolver c \<noteq> NoResolver \<Longrightarrow> filler_step c (c\<lparr>decider := CallPlay []\<rparr>)"
| decide_ctx: "decider c = Deciding \<Longrightarrow> fc_ctx_done c \<Longrightarrow> filler_step c (c\<lparr>decider := DeciderExited\<rparr>)"
| decide_default: "decider c = Deciding \<Longrightarrow> resolver c = NoResolver \<Longrightarrow> \<not> first_sentence c \<Longrightarrow> \<not> fc_ctx_done c \<Longrightarrow>
    filler_step c (c\<lparr>decider := CallPlay []\<rparr>)"
| play_none: "decider c = CallPlay l \<Longrightarrow> filler_step c (c\<lparr>decider := DeciderExited\<rparr>)"
| play_ok: "decider c = CallPlay l \<Longrightarrow> filler_step c (c\<lparr>decider := Played, plays := Suc (plays c)\<rparr>)"
| play_late: "decider c = Played \<Longrightarrow> stopped c \<Longrightarrow>
    filler_step c (c\<lparr>decider := DeciderExited, stops := Suc (stops c)\<rparr>)"
| play_store: "decider c = Played \<Longrightarrow> \<not> stopped c \<Longrightarrow> filler_step c (c\<lparr>decider := DeciderExited, stop_fn := True\<rparr>)"
| cancel_first: "\<not> stopped c \<Longrightarrow>
    filler_step c (c\<lparr>stopped := True, stop_fn := False, canceler := Canceling (stop_fn c)\<rparr>)"
| cancel_again: "stopped c \<Longrightarrow> filler_step c (c\<lparr>stop_fn := False\<rparr>)"
| cancel_fire: "canceler c = Canceling b \<Longrightarrow>
    filler_step c (c\<lparr>fc_ctx_done := True, canceler := CancelDone, stops := (if b then Suc (stops c) else stops c)\<rparr>)"
| bot_sentence: "filler_step c (c\<lparr>first_sentence := True\<rparr>)"
| parent_done: "filler_step c (c\<lparr>fc_ctx_done := True\<rparr>)"

definition timeout_floor :: "duration \<Rightarrow> duration" where
  "timeout_floor d =
     (if d \<le> 0 \<or> d > 5 * 1000000000 then 5 * 1000000000 else d + 100 * 1000000)"

section \<open>Invariant\<close>

definition owed :: "filler_ctrl \<Rightarrow> nat" where
  "owed c = (if decider c = Played then 1 else 0) + (if stop_fn c then 1 else 0) +
     (if canceler c = Canceling True then 1 else 0)"

definition filler_inv :: "filler_ctrl \<Rightarrow> bool" where
  "filler_inv c \<longleftrightarrow> stops c + owed c = plays c \<and>
     plays c \<le> (case decider c of Deciding \<Rightarrow> 0 | CallPlay _ \<Rightarrow> 0 | _ \<Rightarrow> 1) \<and>
     (stopped c \<longleftrightarrow> canceler c \<noteq> NotCanceled) \<and> (stopped c \<longrightarrow> \<not> stop_fn c) \<and>
     (stop_fn c \<longrightarrow> decider c = DeciderExited)"

lemma filler_step_inv: "filler_step c d \<Longrightarrow> filler_inv c \<Longrightarrow> filler_inv d"
  by (induction rule: filler_step.induct) (auto simp: filler_inv_def owed_def split: decider_pc.splits)

definition filler_start :: "filler_ctrl \<Rightarrow> bool" where
  "filler_start c \<longleftrightarrow> (\<exists>w. c = new_filler_controller w)"

lemma filler_start_inv: "filler_start c \<Longrightarrow> filler_inv c"
  by (auto simp: filler_start_def new_filler_controller_def filler_inv_def owed_def split: if_splits)

interpretation filler: transition_system filler_start filler_step filler_inv
  by unfold_locales (fact filler_start_inv, fact filler_step_inv)

section \<open>Properties\<close>

text \<open>In every interleaving of resolver, decider, bot and cancellations at most one filler is started
  in a turn and no filler is stopped twice; and once \<open>Cancel\<close> has returned and the decider has exited,
  a filler that was started has been stopped exactly once.\<close>

theorem filler_stopped_once:
  assumes "steps_from filler_step (new_filler_controller w) c"
  shows "plays c \<le> 1 \<and> stops c \<le> plays c \<and>
    (canceler c = CancelDone \<and> decider c = DeciderExited \<longrightarrow> stops c = plays c)"
proof -
  have "filler_inv c"
    using filler.reach_inv [OF _ assms] by (auto simp: filler_start_def)
  then show ?thesis by (auto simp: filler_inv_def owed_def split: decider_pc.splits)
qed

definition want_all :: filler_want where
  "want_all = \<lparr>active = True, transcript = ''hi'', filler_enabled = True, has_player = True,
     has_resolver = False, force_short = False\<rparr>"

text \<open>A run in which the filler is started and the cancel comes before its stop function is stored.\<close>

theorem filler_stopped_once_witness:
  "\<exists>c. steps_from filler_step (new_filler_controller want_all) c \<and> canceler c = CancelDone \<and>
     decider c = DeciderExited \<and> plays c = 1 \<and> stops c = 1"
proof -
  let ?s = "new_filler_controller want_all"
  have s: "decider ?s = Deciding" "resolver ?s = NoResolver" "\<not> first_sentence ?s" "\<not> fc_ctx_done ?s"
    "\<not> stopped ?s" "\<not> stop_fn ?s" "plays ?s = 0" "stops ?s = 0"
    by (simp_all add: new_filler_controller_def want_all_def filler_wanted_def resolver_wanted_def)
  have 1: "filler_step ?s (?s\<lparr>decider := CallPlay []\<rparr>)" (is "filler_step _ ?a")
    by (rule decide_default) (simp_all add: s)
  have 2: "filler_step ?a (?a\<lparr>decider := Played, plays := Suc (plays ?a)\<rparr>)" (is "filler_step _ ?b")
    by (rule play_ok) simp
  have 3: "filler_step ?b (?b\<lparr>stopped := True, stop_fn := False, canceler := Canceling (stop_fn ?b)\<rparr>)"
    (is "filler_step _ ?c") by (rule cancel_first) (simp add: s)
  have 4: "filler_step ?c (?c\<lparr>decider := DeciderExited, stops := Suc (stops ?c)\<rparr>)" (is "filler_step _ ?d")
    by (rule play_late) simp_all
  have 5: "filler_step ?d (?d\<lparr>fc_ctx_done := True, canceler := CancelDone,
      stops := (if stop_fn ?b then Suc (stops ?d) else stops ?d)\<rparr>)" (is "filler_step _ ?e")
    by (rule cancel_fire) simp
  note step = steps_from.more [where step = filler_step]
  have r: "steps_from filler_step ?s ?e"
    by (rule step [OF step [OF step [OF step [OF step [OF steps_from.here 1] 2] 3] 4] 5])
  from filler_stopped_once [OF r] r show ?thesis
    by (intro exI [of _ ?e]) (simp add: s)
qed

text \<open>With a greeting, an empty transcript, a disabled filler or no player, no filler is ever
  started.\<close>

theorem unwanted_filler_never_plays:
  assumes "\<not> filler_wanted w" and "steps_from filler_step (new_filler_controller w) c"
  shows "plays c = 0 \<and> stops c = 0"
proof -
  have "decider c = DeciderExited \<and> plays c = 0" using assms(2)
    by (rule steps_from_keeps)
       (auto simp: new_filler_controller_def assms(1) elim: filler_step.cases)
  with filler_stopped_once [OF assms(2)] show ?thesis by simp
qed

theorem unwanted_filler_never_plays_witness:
  "\<not> filler_wanted (want_all\<lparr>transcript := []\<rparr>) \<and>
   filler_step (new_filler_controller (want_all\<lparr>transcript := []\<rparr>))
     (new_filler_controller (want_all\<lparr>transcript := []\<rparr>)\<lparr>first_sentence := True\<rparr>) \<and>
   plays (new_filler_controller (want_all\<lparr>transcript := []\<rparr>)\<lparr>first_sentence := True\<rparr>) = 0"
proof -
  have w: "\<not> filler_wanted (want_all\<lparr>transcript := []\<rparr>)" by (simp add: filler_wanted_def)
  from unwanted_filler_never_plays [OF w steps_from_one [of filler_step, OF bot_sentence]] w bot_sentence
  show ?thesis by blast
qed

text \<open>The decider's cap lets the resolver's own deadline fire first, and never exceeds 5.1 seconds.\<close>

lemma timeout_floor_bounds:
  "0 < timeout_floor d" "timeout_floor d \<le> 5100 * 1000000"
  "0 < d \<Longrightarrow> d \<le> 5 * 1000000000 \<Longrightarrow> d < timeout_floor d"
  by (simp_all add: timeout_floor_def)

end
