(* ===== verification/Turn.thy ===== *)
theory Turn
  imports Complex_Main BotStream BargeIn FillerCtrl
begin

text \<open>
  \<open>internal/pipeline/turn.go\<close>: one turn of a call.  \<open>listen\<close> turns caller audio into a transcript,
  \<open>speak\<close> plays the bot's reply while watching for barge-in, \<open>run_turn\<close> combines them and keeps the
  call history.  What the providers and the scheduler do is a script: each \<open>select\<close> of the code
  consumes the next event of the script, and \<open>None\<close> is a call that is still blocked when its
  script ends.
\<close>

section \<open>Configuration and state of a pipeline\<close>

record turn_cfg = asr_config +
  voice_id :: gostring
  tempo :: real
  resample_rate :: int
  silent_timeout :: duration
  first_byte_total :: duration
  cfg_filler_enabled :: bool
  filler_intent_timeout :: duration

definition default_cfg :: turn_cfg where
  "default_cfg = \<lparr>cfg_sample_rate = 8000, cfg_silence_timeout = 5 * 1000000000,
     cfg_speech_timeout = 800 * 1000000, cfg_speech_max = 30 * 1000000000, cfg_single_sentence = True,
     voice_id = [], tempo = 1, resample_rate = 8000, silent_timeout = 30 * 1000000000,
     first_byte_total = 5 * 1000000000, cfg_filler_enabled = False, filler_intent_timeout = 0\<rparr>"

text \<open>The fields of \<open>Pipeline\<close> fixed for a call.\<close>

record pipe_conf =
  pc_uuid :: gostring
  pc_cfg :: turn_cfg
  barge_in :: bool
  pc_min_words :: int
  has_asr :: bool
  has_esl :: bool
  has_filler :: bool
  has_label_resolver :: bool
  sink_override :: bool
  playback_open :: bool

record turn_record =
  turn_index :: nat
  user_text :: gostring
  bot_text :: gostring
  turn_action :: "action option"
  turn_started :: time
  turn_ended :: time
  barged_in :: bool
  asr_final_at :: "time option"
  first_audio_at :: "time option"

text \<open>The fields of \<open>Pipeline\<close> that turns change.\<close>

record pipe =
  pending_transcript :: gostring
  last_bot_text :: gostring
  last_barged_in :: bool
  last_asr_final_at :: "time option"
  last_first_audio_at :: "time option"
  history :: "turn_record list"

definition new_pipe :: pipe where
  "new_pipe = \<lparr>pending_transcript = [], last_bot_text = [], last_barged_in = False,
     last_asr_final_at = None, last_first_audio_at = None, history = []\<rparr>"

definition frame_bytes :: "turn_cfg \<Rightarrow> int" where
  "frame_bytes cfg = (if cfg_sample_rate cfg \<le> 0 then 320 else cfg_sample_rate cfg * 20 div 1000 * 2)"

section \<open>The sink of an utterance\<close>

datatype sink = OverrideSink | ArgSink | UtteranceSink

text \<open>The sink and whether it comes with a closer.  \<open>open_err\<close> is what the opener would return.\<close>

definition resolve_sink :: "pipe_conf \<Rightarrow> bool \<Rightarrow> gostring option \<Rightarrow> (sink \<times> bool) result" where
  "resolve_sink pc sink_arg open_err =
     (if sink_override pc then Inr (OverrideSink, False)
      else if sink_arg then Inr (ArgSink, False)
      else if \<not> playback_open pc then Inl ''no sink: PlaybackOpen and SinkOverride both nil''
      else case open_err of Some e \<Rightarrow> Inl e | None \<Rightarrow> Inr (UtteranceSink, True))"

section \<open>Listen\<close>

datatype send_res = SendOk | SendEOF | SendErr gostring

datatype listen_ev =
  LCtx ctx_err | LSilent | LFrame bytes send_res | LSrcClosed | LResult asr_result | LRecvClosed

datatype drain_ev = DResult asr_result | DClosed | DTimeout

datatype turn_err =
  AsrStart gostring | CtxDone ctx_err | AsrSend gostring
| PlaybackErr gostring | BotOpen open_err | TtsStart gostring | BotAction stream_err

definition listen_opts :: "gostring \<Rightarrow> asr_config \<Rightarrow> asr_opts" where
  "listen_opts uuid cfg =
     \<lparr>conversation_id = uuid, asr_sample_rate = cfg_sample_rate cfg, channels = 1,
      single_sentence = cfg_single_sentence cfg, silence_timeout_ms = to_ms (cfg_silence_timeout cfg),
      speech_timeout_ms = to_ms (cfg_speech_timeout cfg), speech_max_ms = to_ms (cfg_speech_max cfg)\<rparr>"

text \<open>
  The read loop: an error, or the text so far, whether the final result came, and whether the send
  side was closed.
\<close>

fun listen_read :: "listen_ev list \<Rightarrow> gostring \<Rightarrow> (turn_err + gostring \<times> bool \<times> bool) option" where
  "listen_read [] tx = None"
| "listen_read (LCtx e # es) tx = Some (Inl (CtxDone e))"
| "listen_read (LSilent # es) tx = Some (Inr (tx, False, True))"
| "listen_read (LSrcClosed # es) tx = Some (Inr (tx, False, True))"
| "listen_read (LFrame f SendOk # es) tx = listen_read es tx"
| "listen_read (LFrame f SendEOF # es) tx = Some (Inr (tx, False, False))"
| "listen_read (LFrame f (SendErr e) # es) tx = Some (Inl (AsrSend e))"
| "listen_read (LRecvClosed # es) tx = Some (Inr (tx, False, False))"
| "listen_read (LResult r # es) tx =
     (let tx' = (if res_text r \<noteq> [] then res_text r else tx) in
      if is_final r then Some (Inr (tx', True, False)) else listen_read es tx')"

fun listen_drain :: "drain_ev list \<Rightarrow> gostring \<Rightarrow> gostring option" where
  "listen_drain [] tx = None"
| "listen_drain (DClosed # es) tx = Some tx"
| "listen_drain (DTimeout # es) tx = Some tx"
| "listen_drain (DResult r # es) tx =
     (let tx' = (if res_text r \<noteq> [] then res_text r else tx) in
      if is_final r then Some tx' else listen_drain es tx')"

record listen_env =
  l_start_err :: "gostring option"
  l_events :: "listen_ev list"
  l_drain :: "drain_ev list"
  l_now :: time

definition listen :: "listen_env \<Rightarrow> pipe \<Rightarrow> (pipe \<times> (turn_err + gostring)) option" where
  "listen env p =
     (case l_start_err env of
        Some e \<Rightarrow> Some (p, Inl (AsrStart e))
      | None \<Rightarrow>
         (case listen_read (l_events env) [] of
            None \<Rightarrow> None
          | Some (Inl e) \<Rightarrow> Some (p, Inl e)
          | Some (Inr (tx, got_final, _)) \<Rightarrow>
              map_option (\<lambda>fin. (p\<lparr>last_asr_final_at := Some (l_now env)\<rparr>, Inr (trim_space fin)))
                (if got_final then Some tx else listen_drain (l_drain env) tx)))"

section \<open>The goroutines of Speak\<close>

text \<open>
  The sentence pump: what it sends to the synthesiser, each with its end-of-stream mark, and the
  text it has accumulated.  \<open>oks\<close> says which sends succeed; it stops at the first that fails.
\<close>

definition join_text :: "gostring \<Rightarrow> gostring \<Rightarrow> gostring" where
  "join_text buf s = (if buf \<noteq> [] then buf @ '' '' @ s else s)"

fun sentence_pump ::
  "gostring list \<Rightarrow> bool list \<Rightarrow> gostring option \<Rightarrow> gostring \<Rightarrow> (gostring \<times> bool) list \<times> gostring"
where
  "sentence_pump [] oks prev buf =
     ([(case prev of Some t \<Rightarrow> t | None \<Rightarrow> [], True)], buf)"
| "sentence_pump (s # ss) oks None buf = sentence_pump ss oks (Some s) (join_text buf s)"
| "sentence_pump (s # ss) oks (Some t) buf =
     (case oks of
        False # _ \<Rightarrow> ([(t, False)], join_text buf s)
      | _ \<Rightarrow> (let (out, buf') = sentence_pump ss (tl oks) (Some s) (join_text buf s)
             in ((t, False) # out, buf')))"

datatype audio_fx = FillerCancel | SinkOpen | SinkWrite bytes

text \<open>
  The audio goroutine.  \<open>ready\<close>: the sink was resolved before; each frame comes with the error its
  write returns.  The result is its effects, the error it reports and the bytes written.
\<close>

fun audio_pump ::
  "pipe_conf \<Rightarrow> gostring option \<Rightarrow> bool \<Rightarrow> (bytes \<times> gostring option) list \<Rightarrow> audio_fx list \<times> gostring option \<times> nat"
where
  "audio_pump pc open_err ready [] = ([], None, 0)"
| "audio_pump pc open_err ready ((f, werr) # fs) =
     (let (pre, opened) =
        (if ready then ([], Inr (OverrideSink, False))
         else ([FillerCancel], resolve_sink pc False open_err)) in
      case opened of
        Inl e \<Rightarrow> (pre, Some (''playback open: '' @ e), 0)
      | Inr _ \<Rightarrow>
          (let pre = (if ready then pre else pre @ [SinkOpen]) in
           case werr of
             Some e \<Rightarrow> (pre @ [SinkWrite f], Some (''sink write: '' @ e), 0)
           | None \<Rightarrow>
               (let (fx, err, n) = audio_pump pc open_err True fs in
                (pre @ SinkWrite f # fx, err, length f + n))))"

section \<open>The main goroutine of Speak\<close>

datatype speak_ev = EvAction bool | EvBarge | EvAudio | EvPlaybackStop | EvPlaybackTimeout | EvCtx ctx_err

datatype speak_fx = TtsClose | UuidBreak | BotCancel | SinkClose

datatype speak_phase =
  AtSelect | AtActionBarged | AtAudioWait | AtPlayback | AtFinish | Failed turn_err

record speak_state =
  phase :: speak_phase
  s_action :: "action option"
  barge_fired :: bool
  fx :: "speak_fx list"

record speak_env =
  e_sink_arg :: bool
  e_src :: bool
  e_monitor_err :: "gostring option"
  e_bot_err :: "open_err option"
  e_tts_err :: "gostring option"
  e_sentences :: "gostring list"
  e_sends :: "bool list"
  e_bot_action :: "action option"
  e_bot_action_err :: "stream_err option"
  e_frames :: "(bytes \<times> gostring option) list"
  e_open_err :: "gostring option"
  e_has_done :: bool
  e_asr :: "asr_result list"
  e_final_timeout :: bool
  e_events :: "speak_ev list"
  e_first_audio :: time

text \<open>
  Is the barge-in monitor running, did it trigger, was the sink opened by the time the audio ended.
\<close>

definition monitored :: "pipe_conf \<Rightarrow> speak_env \<Rightarrow> bool" where
  "monitored pc env \<longleftrightarrow> barge_in pc \<and> e_src env \<and> has_asr pc \<and> e_monitor_err env = None"

definition speak_watcher :: "pipe_conf \<Rightarrow> speak_env \<Rightarrow> watcher" where
  "speak_watcher pc env = watch_loop (barge_min_words (pc_min_words pc)) (e_asr env) new_watcher"

definition barge_ready :: "pipe_conf \<Rightarrow> speak_env \<Rightarrow> bool" where
  "barge_ready pc env \<longleftrightarrow> monitored pc env \<and> triggered (speak_watcher pc env)"

definition lazy_sink :: "pipe_conf \<Rightarrow> speak_env \<Rightarrow> bool" where
  "lazy_sink pc env \<longleftrightarrow> \<not> sink_override pc \<and> \<not> e_sink_arg env \<and> playback_open pc"

definition has_closer :: "pipe_conf \<Rightarrow> speak_env \<Rightarrow> bool" where
  "has_closer pc env \<longleftrightarrow> lazy_sink pc env \<and> e_frames env \<noteq> [] \<and> e_open_err env = None"

definition trigger_barge_in :: "pipe_conf \<Rightarrow> speak_state \<Rightarrow> speak_state" where
  "trigger_barge_in pc st =
     (if barge_fired st then st
      else st\<lparr>barge_fired := True,
              fx := fx st @ [TtsClose] @ (if has_esl pc then [UuidBreak] else []) @ [BotCancel]\<rparr>)"

definition after_action :: "stream_err option \<Rightarrow> speak_state \<Rightarrow> speak_state" where
  "after_action err st =
     (case err of Some e \<Rightarrow> st\<lparr>phase := Failed (BotAction e)\<rparr> | None \<Rightarrow> st\<lparr>phase := AtAudioWait\<rparr>)"

definition after_audio :: "pipe_conf \<Rightarrow> speak_env \<Rightarrow> speak_state \<Rightarrow> speak_state" where
  "after_audio pc env st =
     (if \<not> barge_fired st \<and> has_closer pc env
      then st\<lparr>fx := fx st @ [SinkClose], phase := (if e_has_done env then AtPlayback else AtFinish)\<rparr>
      else st\<lparr>phase := AtFinish\<rparr>)"

text \<open>\<open>None\<close>: the event is not one the select of this phase can choose.\<close>

definition speak_step :: "pipe_conf \<Rightarrow> speak_env \<Rightarrow> speak_state \<Rightarrow> speak_ev \<Rightarrow> speak_state option" where
  "speak_step pc env st ev =
     (case (phase st, ev) of
        (AtSelect, EvAction seen) \<Rightarrow>
          if seen \<and> \<not> barge_ready pc env then None
          else Some (after_action (e_bot_action_err env)
                 ((if seen then trigger_barge_in pc else id) (st\<lparr>s_action := e_bot_action env\<rparr>)))
      | (AtSelect, EvBarge) \<Rightarrow>
          if barge_ready pc env then Some ((trigger_barge_in pc st)\<lparr>phase := AtActionBarged\<rparr>) else None
      | (AtActionBarged, EvAction _) \<Rightarrow>
          Some (after_action
                 (if e_bot_action_err env = Some (CtxErr Canceled) then None else e_bot_action_err env)
                 (st\<lparr>s_action := e_bot_action env\<rparr>))
      | (AtAudioWait, EvAudio) \<Rightarrow> Some (after_audio pc env st)
      | (AtAudioWait, EvBarge) \<Rightarrow> if barge_ready pc env then Some (trigger_barge_in pc st) else None
      | (AtAudioWait, EvCtx e) \<Rightarrow> Some (st\<lparr>phase := Failed (CtxDone e)\<rparr>)
      | (AtPlayback, EvPlaybackStop) \<Rightarrow> Some (st\<lparr>phase := AtFinish\<rparr>)
      | (AtPlayback, EvPlaybackTimeout) \<Rightarrow> Some (st\<lparr>phase := AtFinish\<rparr>)
      | (AtPlayback, EvBarge) \<Rightarrow>
          if barge_ready pc env then Some ((trigger_barge_in pc st)\<lparr>phase := AtFinish\<rparr>) else None
      | (AtPlayback, EvCtx e) \<Rightarrow> Some (st\<lparr>phase := Failed (CtxDone e)\<rparr>)
      | _ \<Rightarrow> None)"

fun speak_run :: "pipe_conf \<Rightarrow> speak_env \<Rightarrow> speak_state \<Rightarrow> speak_ev list \<Rightarrow> speak_state option" where
  "speak_run pc env st [] = Some st"
| "speak_run pc env st (ev # evs) = Option.bind (speak_step pc env st ev) (\<lambda>st'. speak_run pc env st' evs)"

definition speak_begin :: speak_state where
  "speak_begin = \<lparr>phase = AtSelect, s_action = None, barge_fired = False, fx = []\<rparr>"

text \<open>The end of Speak: the transcript of a barge-in, the action, and what \<open>RunTurn\<close> records.\<close>

definition speak_end :: "pipe_conf \<Rightarrow> speak_env \<Rightarrow> speak_state \<Rightarrow> pipe \<Rightarrow> pipe \<times> action option" where
  "speak_end pc env st p =
     (let p1 = (if barge_fired st \<and> monitored pc env
                then p\<lparr>pending_transcript := wait_for_final (e_final_timeout env) (speak_watcher pc env)\<rparr>
                else p);
          act = (if barge_fired st \<and> s_action st \<noteq> Some ActionEndCall then Some ActionChat else s_action st)
      in (p1\<lparr>last_bot_text := snd (sentence_pump (e_sentences env) (e_sends env) None []),
             last_barged_in := barge_fired st\<rparr>, act))"

definition prev_turn_silent :: "pipe \<Rightarrow> bool" where
  "prev_turn_silent p \<longleftrightarrow> last_barged_in p \<and> last_first_audio_at p = None"

text \<open>What the filler controller is started with.\<close>

definition speak_filler :: "pipe_conf \<Rightarrow> speak_env \<Rightarrow> gostring \<Rightarrow> pipe \<Rightarrow> filler_want" where
  "speak_filler pc env message p =
     \<lparr>active = lazy_sink pc env, filler_want.transcript = message,
      filler_enabled = cfg_filler_enabled (pc_cfg pc), has_player = has_filler pc,
      has_resolver = has_label_resolver pc, force_short = prev_turn_silent p\<rparr>"

text \<open>The calls before the main select that may fail, in their order.\<close>

definition speak_setup_err :: "pipe_conf \<Rightarrow> speak_env \<Rightarrow> turn_err option" where
  "speak_setup_err pc env =
     (case (if lazy_sink pc env then Inr (UtteranceSink, True)
            else resolve_sink pc (e_sink_arg env) (e_open_err env)) of
        Inl e \<Rightarrow> Some (PlaybackErr e)
      | Inr _ \<Rightarrow>
         (case e_bot_err env of
            Some e \<Rightarrow> Some (BotOpen e)
          | None \<Rightarrow> map_option TtsStart (e_tts_err env)))"

definition speak :: "pipe_conf \<Rightarrow> speak_env \<Rightarrow> pipe \<Rightarrow> (pipe \<times> (turn_err + action option)) option" where
  "speak pc env p0 =
     (case speak_setup_err pc env of
        Some e \<Rightarrow> Some (p0\<lparr>last_first_audio_at := None\<rparr>, Inl e)
      | None \<Rightarrow>
         (let p = p0\<lparr>last_first_audio_at := (if e_frames env \<noteq> [] then Some (e_first_audio env) else None)\<rparr> in
          case speak_run pc env speak_begin (e_events env) of
            None \<Rightarrow> None
          | Some st \<Rightarrow>
             (case phase st of
                Failed e \<Rightarrow> Some (p, Inl e)
              | AtFinish \<Rightarrow> (let (p', act) = speak_end pc env st p in Some (p', Inr act))
              | _ \<Rightarrow> None)))"

section \<open>Turns\<close>

definition speak_and_record ::
  "pipe_conf \<Rightarrow> speak_env \<Rightarrow> gostring \<Rightarrow> time \<Rightarrow> time \<Rightarrow> pipe \<Rightarrow> (pipe \<times> (turn_err + bool)) option"
where
  "speak_and_record pc env msg started now p0 =
     (let p = (if msg = [] then p0\<lparr>last_asr_final_at := None\<rparr> else p0) in
      case speak pc env p of
        None \<Rightarrow> None
      | Some (p, Inl e) \<Rightarrow> Some (p, Inl e)
      | Some (p, Inr act) \<Rightarrow>
          Some (p\<lparr>history := history p @
                   [\<lparr>turn_index = length (history p), user_text = msg, bot_text = last_bot_text p,
                     turn_action = act, turn_started = started, turn_ended = now,
                     barged_in = last_barged_in p, asr_final_at = last_asr_final_at p,
                     first_audio_at = last_first_audio_at p\<rparr>]\<rparr>,
                Inr (act \<noteq> Some ActionEndCall)))"

record turn_env =
  t_src :: bool
  t_listen :: listen_env
  t_speak :: speak_env
  t_started :: time
  t_pending_at :: time
  t_now :: time

definition run_turn :: "pipe_conf \<Rightarrow> turn_env \<Rightarrow> pipe \<Rightarrow> (pipe \<times> (turn_err + bool)) option" where
  "run_turn pc env p =
     (if pending_transcript p \<noteq> [] then
        speak_and_record pc (t_speak env) (pending_transcript p) (t_started env) (t_now env)
          (p\<lparr>pending_transcript := [], last_asr_final_at := Some (t_pending_at env)\<rparr>)
      else if t_src env then
        (case listen (t_listen env) p of
           None \<Rightarrow> None
         | Some (p', Inl e) \<Rightarrow> Some (p', Inl e)
         | Some (p', Inr msg) \<Rightarrow>
             if msg = [] then Some (p', Inr True)
             else speak_and_record pc (t_speak env) msg (t_started env) (t_now env) p')
      else speak_and_record pc (t_speak env) [] (t_started env) (t_now env) p)"

definition run_greeting :: "pipe_conf \<Rightarrow> turn_env \<Rightarrow> pipe \<Rightarrow> (pipe \<times> (turn_err + bool)) option" where
  "run_greeting pc env p = speak_and_record pc (t_speak env) [] (t_started env) (t_now env) p"

section \<open>Lemmas on Listen\<close>

text \<open>The text a run of results leaves: the last non-empty one.\<close>

definition latest_text :: "gostring \<Rightarrow> asr_result list \<Rightarrow> gostring" where
  "latest_text tx rs = fold (\<lambda>r t. if res_text r \<noteq> [] then res_text r else t) rs tx"

text \<open>Events after which the read loop goes on.\<close>

definition listen_goes_on :: "listen_ev \<Rightarrow> bool" where
  "listen_goes_on e \<longleftrightarrow> (\<exists>f. e = LFrame f SendOk) \<or> (\<exists>r. e = LResult r \<and> \<not> is_final r)"

fun results_of :: "listen_ev list \<Rightarrow> asr_result list" where
  "results_of [] = []"
| "results_of (LResult r # es) = r # results_of es"
| "results_of (_ # es) = results_of es"

lemma listen_read_goes_on:
  "\<forall>e\<in>set es. listen_goes_on e \<Longrightarrow> listen_read (es @ es') tx = listen_read es' (latest_text tx (results_of es))"
proof (induction es arbitrary: tx)
  case (Cons e es)
  then show ?case by (cases e) (auto simp: listen_goes_on_def latest_text_def Let_def)
qed (simp add: latest_text_def)

lemma listen_frame:
  assumes "listen env p = Some (p', r)"
  shows "history p' = history p \<and> pending_transcript p' = pending_transcript p \<and>
    last_barged_in p' = last_barged_in p \<and> last_first_audio_at p' = last_first_audio_at p"
  using assms by (auto simp: listen_def split: option.splits sum.splits if_splits)

section \<open>Lemmas on Speak\<close>

lemma trigger_frame [frame_simps]:
  "phase (trigger_barge_in pc st) = phase st" "s_action (trigger_barge_in pc st) = s_action st"
  "barge_fired (trigger_barge_in pc st)"
  by (simp_all add: trigger_barge_in_def)

text \<open>What holds of the main goroutine in every phase.\<close>

definition barge_fx :: "pipe_conf \<Rightarrow> speak_fx list" where
  "barge_fx pc = [TtsClose] @ (if has_esl pc then [UuidBreak] else []) @ [BotCancel]"

definition speak_inv :: "pipe_conf \<Rightarrow> speak_env \<Rightarrow> speak_state \<Rightarrow> bool" where
  "speak_inv pc env st \<longleftrightarrow>
     (barge_fired st \<longrightarrow> barge_ready pc env) \<and>
     (case phase st of
        AtSelect \<Rightarrow> \<not> barge_fired st \<and> fx st = []
      | AtActionBarged \<Rightarrow> barge_fired st \<and> fx st = barge_fx pc
      | AtAudioWait \<Rightarrow> s_action st = e_bot_action env \<and> fx st = (if barge_fired st then barge_fx pc else [])
      | AtPlayback \<Rightarrow> s_action st = e_bot_action env \<and> \<not> barge_fired st \<and> has_closer pc env \<and>
          fx st = [SinkClose]
      | AtFinish \<Rightarrow> s_action st = e_bot_action env \<and>
          (if barge_fired st then fx st = barge_fx pc \<or> fx st = SinkClose # barge_fx pc
           else fx st = (if has_closer pc env then [SinkClose] else []))
      | Failed e \<Rightarrow> True)"

lemmas speak_defs = speak_step_def after_action_def after_audio_def trigger_barge_in_def

lemma trigger_fx: "\<not> barge_fired st \<Longrightarrow> fx (trigger_barge_in pc st) = fx st @ barge_fx pc"
  "barge_fired st \<Longrightarrow> trigger_barge_in pc st = st"
  by (simp_all add: trigger_barge_in_def barge_fx_def)

lemma after_action_inv:
  "(barge_fired st \<longrightarrow> barge_ready pc env) \<Longrightarrow> s_action st = e_bot_action env \<Longrightarrow>
   fx st = (if barge_fired st then barge_fx pc else []) \<Longrightarrow> speak_inv pc env (after_action err st)"
  by (simp add: after_action_def speak_inv_def split: option.split)

lemma after_audio_inv:
  "(barge_fired st \<longrightarrow> barge_ready pc env) \<Longrightarrow> s_action st = e_bot_action env \<Longrightarrow>
   fx st = (if barge_fired st then barge_fx pc else []) \<Longrightarrow> speak_inv pc env (after_audio pc env st)"
  by (simp add: after_audio_def speak_inv_def)

text \<open>The transitions of the main goroutine.\<close>

lemma speak_step_cases:
  assumes "speak_step pc env st ev = Some st'"
  obtains (action) seen where "phase st = AtSelect" "ev = EvAction seen" "seen \<longrightarrow> barge_ready pc env"
      "st' = after_action (e_bot_action_err env)
         ((if seen then trigger_barge_in pc else id) (st\<lparr>s_action := e_bot_action env\<rparr>))"
  | (barge) "phase st = AtSelect" "ev = EvBarge" "barge_ready pc env"
      "st' = (trigger_barge_in pc st)\<lparr>phase := AtActionBarged\<rparr>"
  | (late_action) seen err where "phase st = AtActionBarged" "ev = EvAction seen"
      "st' = after_action err (st\<lparr>s_action := e_bot_action env\<rparr>)"
  | (audio) "phase st = AtAudioWait" "ev = EvAudio" "st' = after_audio pc env st"
  | (barge_audio) "phase st = AtAudioWait" "ev = EvBarge" "barge_ready pc env" "st' = trigger_barge_in pc st"
  | (played) "phase st = AtPlayback" "ev = EvPlaybackStop \<or> ev = EvPlaybackTimeout" "st' = st\<lparr>phase := AtFinish\<rparr>"
  | (barge_playback) "phase st = AtPlayback" "ev = EvBarge" "barge_ready pc env"
      "st' = (trigger_barge_in pc st)\<lparr>phase := AtFinish\<rparr>"
  | (ctx) e where "phase st = AtAudioWait \<or> phase st = AtPlayback" "ev = EvCtx e" "st' = st\<lparr>phase := Failed (CtxDone e)\<rparr>"
proof (cases "phase st")
  case AtSelect
  with assms action barge show ?thesis by (cases ev) (auto simp: speak_step_def split: if_splits)
next
  case AtActionBarged
  with assms late_action show ?thesis by (cases ev) (auto simp: speak_step_def)
next
  case AtAudioWait
  with assms audio barge_audio ctx show ?thesis by (cases ev) (auto simp: speak_step_def split: if_splits)
next
  case AtPlayback
  with assms played barge_playback ctx show ?thesis by (cases ev) (auto simp: speak_step_def split: if_splits)
qed (use assms in \<open>simp_all add: speak_step_def\<close>)

lemma speak_step_inv:
  assumes "speak_step pc env st ev = Some st'" and "speak_inv pc env st"
  shows "speak_inv pc env st'"
  using assms(1)
proof (cases rule: speak_step_cases)
  case (action seen)
  with assms(2) have "\<not> barge_fired st" "fx st = []" by (simp_all add: speak_inv_def)
  with action show ?thesis
    by (cases seen) (simp_all add: after_action_inv frame_simps trigger_fx)
next
  case (late_action seen err)
  with assms(2) have "barge_fired st" "fx st = barge_fx pc" "barge_ready pc env"
    by (simp_all add: speak_inv_def)
  with late_action show ?thesis by (simp add: after_action_inv)
next
  case audio
  with assms(2) have "barge_fired st \<longrightarrow> barge_ready pc env" "s_action st = e_bot_action env"
    "fx st = (if barge_fired st then barge_fx pc else [])"
    by (simp_all add: speak_inv_def)
  with audio(3) show ?thesis by (simp only: after_audio_inv)
next
  case barge_audio
  with assms(2) show ?thesis
    by (cases "barge_fired st") (auto simp: speak_inv_def frame_simps trigger_fx)
qed (use assms(2) in \<open>auto simp: speak_inv_def frame_simps trigger_fx\<close>)

lemma speak_run_inv: "speak_run pc env st evs = Some st' \<Longrightarrow> speak_inv pc env st \<Longrightarrow> speak_inv pc env st'"
proof (induction evs arbitrary: st)
  case (Cons ev evs)
  then show ?case using speak_step_inv by (auto simp: bind_eq_Some_conv)
qed simp

lemma speak_begin_inv: "speak_inv pc env speak_begin"
  by (simp add: speak_inv_def speak_begin_def)

lemma speak_final_inv: "speak_run pc env speak_begin evs = Some st \<Longrightarrow> speak_inv pc env st"
  using speak_run_inv speak_begin_inv by blast

lemma speak_cases:
  assumes "speak pc env p0 = Some (p, res)"
  obtains (failed) e where "res = Inl e" "history p = history p0" "pending_transcript p = pending_transcript p0"
  | (finished) st p1 act where "speak_run pc env speak_begin (e_events env) = Some st" "phase st = AtFinish"
      "p1 = p0\<lparr>last_first_audio_at := (if e_frames env \<noteq> [] then Some (e_first_audio env) else None)\<rparr>"
      "speak_end pc env st p1 = (p, act)" "res = Inr act"
proof (cases "speak_setup_err pc env")
  case (Some e)
  with assms have "res = Inl e" "history p = history p0" "pending_transcript p = pending_transcript p0"
    by (auto simp: speak_def)
  then show ?thesis by (rule failed)
next
  case None
  with assms obtain st where st: "speak_run pc env speak_begin (e_events env) = Some st"
    by (auto simp: speak_def Let_def split: option.splits)
  show ?thesis
  proof (cases "phase st")
    case (Failed e)
    with assms None st have "res = Inl e" "history p = history p0" "pending_transcript p = pending_transcript p0"
      by (auto simp: speak_def Let_def)
    then show ?thesis by (rule failed)
  next
    case AtFinish
    with assms None st finished show ?thesis by (auto simp: speak_def Let_def split: prod.splits)
  qed (use assms None st in \<open>simp_all add: speak_def Let_def\<close>)
qed

lemma speak_watcher_text:
  assumes "barge_ready pc env"
  shows "wait_for_final b (speak_watcher pc env) \<noteq> []"
proof -
  let ?mw = "barge_min_words (pc_min_words pc)"
  have "\<exists>r\<in>set (e_asr env). triggers ?mw r"
    using assms watch_loop_triggered [of new_watcher ?mw "e_asr env"]
    by (simp add: barge_ready_def speak_watcher_def) (simp add: new_watcher_def)
  moreover have "watcher_ok (speak_watcher pc env)" unfolding speak_watcher_def
    by (rule watcher_ok_loop [OF watcher_ok_new]) (simp add: new_watcher_def)
  ultimately show ?thesis using assms
    by (auto simp: watcher_ok_def wait_for_final_def captured_transcript_def barge_ready_def split: option.splits)
qed

text \<open>What a successful Speak leaves, in terms of the main goroutine's last state.\<close>

lemma speak_success:
  assumes "speak pc env p0 = Some (p, Inr act)"
  obtains st where "speak_run pc env speak_begin (e_events env) = Some st" "phase st = AtFinish"
    "history p = history p0" "last_barged_in p = barge_fired st"
    "last_bot_text p = snd (sentence_pump (e_sentences env) (e_sends env) None [])"
    "pending_transcript p = (if barge_fired st then wait_for_final (e_final_timeout env) (speak_watcher pc env)
       else pending_transcript p0)"
    "act = (if barge_fired st \<and> e_bot_action env \<noteq> Some ActionEndCall then Some ActionChat else e_bot_action env)"
    "barge_fired st \<longrightarrow> barge_ready pc env"
    "last_asr_final_at p = last_asr_final_at p0"
  using assms
proof (cases rule: speak_cases)
  case (finished st p1 act')
  then have inv: "speak_inv pc env st" using speak_final_inv finished by blast
  show ?thesis
  proof (rule that [OF finished(1,2)])
    show "pending_transcript p = (if barge_fired st then wait_for_final (e_final_timeout env) (speak_watcher pc env)
       else pending_transcript p0)"
      using finished inv by (auto simp: speak_end_def Let_def speak_inv_def barge_ready_def)
    show "act = (if barge_fired st \<and> e_bot_action env \<noteq> Some ActionEndCall then Some ActionChat else e_bot_action env)"
      using finished inv by (auto simp: speak_end_def Let_def speak_inv_def)
  qed (use finished inv in \<open>auto simp: speak_end_def Let_def speak_inv_def\<close>)
qed simp

section \<open>Lemmas on the goroutines of Speak\<close>

lemma sentence_pump_go:
  "oks = [] \<or> hd oks \<Longrightarrow> sentence_pump (s # ss) oks (Some t) buf =
     ((t, False) # fst (sentence_pump ss (tl oks) (Some s) (join_text buf s)),
      snd (sentence_pump ss (tl oks) (Some s) (join_text buf s)))"
  by (cases oks) (auto simp: case_prod_beta)

lemma sentence_pump_stop:
  "oks \<noteq> [] \<Longrightarrow> \<not> hd oks \<Longrightarrow> sentence_pump (s # ss) oks (Some t) buf = ([(t, False)], join_text buf s)"
  by (cases oks) auto

lemma tl_all: "\<forall>b\<in>set oks. b \<Longrightarrow> (oks = [] \<or> hd oks) \<and> (\<forall>b\<in>set (tl oks). b)"
  by (cases oks) auto

declare sentence_pump.simps(3) [simp del]

lemma sentence_pump_some:
  "\<forall>b\<in>set oks. b \<Longrightarrow> fst (sentence_pump ss oks (Some t) buf) =
     map (\<lambda>s. (s, False)) (butlast (t # ss)) @ [(last (t # ss), True)]"
proof (induction ss arbitrary: oks t buf)
  case (Cons s ss)
  from tl_all [OF Cons.prems] have o: "oks = [] \<or> hd oks" "\<forall>b\<in>set (tl oks). b" by auto
  show ?case by (simp add: sentence_pump_go [OF o(1)] Cons.IH [OF o(2)])
qed simp

lemma sentence_pump_ne: "fst (sentence_pump ss oks (Some t) buf) \<noteq> []"
  by (cases ss; cases "oks \<noteq> [] \<and> \<not> hd oks") (auto simp: sentence_pump_go sentence_pump_stop)

lemma sentence_pump_sent_some:
  "prefix (map fst (fst (sentence_pump ss oks (Some t) buf))) (t # ss) \<and>
   (\<forall>x\<in>set (butlast (fst (sentence_pump ss oks (Some t) buf))). \<not> snd x)"
proof (induction ss arbitrary: oks t buf)
  case (Cons s ss)
  show ?case
  proof (cases "oks = [] \<or> hd oks")
    case True
    show ?thesis using Cons.IH [of "tl oks" s "join_text buf s"]
      by (simp add: sentence_pump_go [OF True] sentence_pump_ne)
  next
    case False
    then show ?thesis by (simp add: sentence_pump_stop)
  qed
qed simp

lemma sentence_pump_text:
  "\<forall>b\<in>set oks. b \<Longrightarrow> snd (sentence_pump ss oks prev buf) = foldl join_text buf ss"
proof (induction ss arbitrary: oks prev buf)
  case (Cons s ss)
  show ?case
  proof (cases prev)
    case None
    with Cons show ?thesis by simp
  next
    case (Some t)
    from tl_all [OF Cons.prems] have o: "oks = [] \<or> hd oks" "\<forall>b\<in>set (tl oks). b" by auto
    show ?thesis by (simp add: Some sentence_pump_go [OF o(1)] Cons.IH [OF o(2)])
  qed
qed simp

lemma audio_pump_step:
  "audio_pump pc oe True ((f, we) # fs) =
     (case we of Some e \<Rightarrow> ([SinkWrite f], Some (''sink write: '' @ e), 0)
      | None \<Rightarrow> (SinkWrite f # fst (audio_pump pc oe True fs), fst (snd (audio_pump pc oe True fs)),
          length f + snd (snd (audio_pump pc oe True fs))))"
  by (simp add: case_prod_beta split: option.split)

lemma audio_pump_first:
  "audio_pump pc oe False ((f, we) # fs) =
     (case resolve_sink pc False oe of
        Inl e \<Rightarrow> ([FillerCancel], Some (''playback open: '' @ e), 0)
      | Inr _ \<Rightarrow> (FillerCancel # SinkOpen # fst (audio_pump pc oe True ((f, we) # fs)),
          fst (snd (audio_pump pc oe True ((f, we) # fs))), snd (snd (audio_pump pc oe True ((f, we) # fs)))))"
  by (cases "resolve_sink pc False oe"; cases we) (simp_all add: case_prod_beta Let_def)

declare audio_pump.simps(2) [simp del]

lemma audio_pump_ready:
  "\<exists>n. fst (audio_pump pc oe True fs) = map (\<lambda>f. SinkWrite (fst f)) (take n fs) \<and>
     (fst (snd (audio_pump pc oe True fs)) = None \<longrightarrow> n = length fs \<and>
        snd (snd (audio_pump pc oe True fs)) = sum_list (map (\<lambda>f. length (fst f)) fs))"
proof (induction fs)
  case (Cons f fs)
  obtain b we where f: "f = (b, we)" by fastforce
  show ?case
  proof (cases we)
    case (Some e)
    then show ?thesis by (intro exI [of _ 1]) (simp add: f audio_pump_step)
  next
    case None
    from Cons.IH obtain n where "fst (audio_pump pc oe True fs) = map (\<lambda>f. SinkWrite (fst f)) (take n fs) \<and>
      (fst (snd (audio_pump pc oe True fs)) = None \<longrightarrow> n = length fs \<and>
        snd (snd (audio_pump pc oe True fs)) = sum_list (map (\<lambda>f. length (fst f)) fs))" ..
    with None show ?thesis by (intro exI [of _ "Suc n"]) (simp add: f audio_pump_step)
  qed
qed simp

section \<open>Properties\<close>

text \<open>Whatever partial results and audio frames precede it, the first final result ends Listen at
  once, without draining, and the transcript is the last non-empty text recognised, trimmed.\<close>

theorem listen_returns_final:
  assumes "l_start_err env = None" and "l_events env = es @ LResult r # rest"
    and "\<forall>e\<in>set es. listen_goes_on e" and "is_final r"
  shows "listen env p = Some (p\<lparr>last_asr_final_at := Some (l_now env)\<rparr>,
     Inr (trim_space (latest_text [] (results_of es @ [r]))))"
  using assms listen_read_goes_on [OF assms(3), of "LResult r # rest" "[]"]
  by (simp add: listen_def Let_def latest_text_def)

text \<open>Every bot sentence reaches the synthesiser once, in order and as soon as the next one is known,
  with the end-of-stream mark on the last one only (an empty reply is one empty marked text); when a
  send fails, what was sent is a prefix of the sentences without a mark before its end.\<close>

theorem sentences_reach_tts:
  "((\<forall>b\<in>set oks. b) \<longrightarrow> fst (sentence_pump ss oks None []) =
      (if ss = [] then [([], True)] else map (\<lambda>s. (s, False)) (butlast ss) @ [(last ss, True)])) \<and>
   (ss \<noteq> [] \<longrightarrow> prefix (map fst (fst (sentence_pump ss oks None []))) ss \<and>
      (\<forall>x\<in>set (butlast (fst (sentence_pump ss oks None []))). \<not> snd x))"
proof (cases ss)
  case (Cons t ts)
  have "prefix (map fst (fst (sentence_pump ts oks (Some t) (join_text [] t)))) (t # ts) \<and>
      (\<forall>x\<in>set (butlast (fst (sentence_pump ts oks (Some t) (join_text [] t)))). \<not> snd x)"
    by (rule sentence_pump_sent_some)
  with Cons sentence_pump_some [of oks ts t "join_text [] t"] show ?thesis by simp
qed simp

theorem sentences_reach_tts_witness:
  "fst (sentence_pump [''a'', ''b''] [True] None []) = [(''a'', False), (''b'', True)] \<and>
   prefix (map fst (fst (sentence_pump [''a'', ''b''] [False] None []))) [''a'', ''b'']"
  using sentences_reach_tts [of "[True]" "[''a'', ''b'']"] sentences_reach_tts [of "[False]" "[''a'', ''b'']"]
  by simp

text \<open>On a live call a running filler is cancelled before the playback is opened, and the playback is
  opened before any audio is written; the frames are written in order, all of them if no error is
  reported, and then the byte count is exact.\<close>

theorem audio_after_filler:
  assumes "fs \<noteq> []" and "audio_pump pc oe False fs = (efs, err, n)"
  shows "hd efs = FillerCancel \<and>
    (efs = [FillerCancel] \<or> (\<exists>k. efs = FillerCancel # SinkOpen # map (\<lambda>f. SinkWrite (fst f)) (take k fs))) \<and>
    (err = None \<longrightarrow> efs = FillerCancel # SinkOpen # map (\<lambda>f. SinkWrite (fst f)) fs \<and>
       n = sum_list (map (\<lambda>f. length (fst f)) fs))"
proof -
  obtain b we fs' where fs: "fs = (b, we) # fs'" using assms(1) by (cases fs) auto
  obtain k where "fst (audio_pump pc oe True fs) = map (\<lambda>f. SinkWrite (fst f)) (take k fs) \<and>
      (fst (snd (audio_pump pc oe True fs)) = None \<longrightarrow> k = length fs \<and>
        snd (snd (audio_pump pc oe True fs)) = sum_list (map (\<lambda>f. length (fst f)) fs))"
    using audio_pump_ready [of pc oe fs] ..
  note k = this
  show ?thesis
  proof (cases "resolve_sink pc False oe")
    case (Inl e)
    with assms(2) have "efs = [FillerCancel]" "err \<noteq> None" by (auto simp: fs audio_pump_first)
    then show ?thesis by auto
  next
    case (Inr s)
    with assms(2) have "efs = FillerCancel # SinkOpen # fst (audio_pump pc oe True fs)"
      "err = fst (snd (audio_pump pc oe True fs))" "n = snd (snd (audio_pump pc oe True fs))"
      by (simp_all add: fs audio_pump_first)
    with k show ?thesis by auto
  qed
qed

definition live_conf :: pipe_conf where
  "live_conf = \<lparr>pc_uuid = ''u'', pc_cfg = default_cfg, barge_in = True, pc_min_words = 1, has_asr = True,
     has_esl = True, has_filler = True, has_label_resolver = False, sink_override = False,
     playback_open = True\<rparr>"

theorem audio_after_filler_witness:
  "audio_pump live_conf None False [(''ab'', None), (''c'', None)] =
     ([FillerCancel, SinkOpen, SinkWrite ''ab'', SinkWrite ''c''], None, 3)"
proof -
  obtain efs err n where a: "audio_pump live_conf None False [(''ab'', None), (''c'', None)] = (efs, err, n)"
    by (metis surj_pair)
  then have "err = None"
    by (simp add: audio_pump_first audio_pump_step resolve_sink_def live_conf_def)
  with audio_after_filler [OF _ a] a show ?thesis by simp
qed

text \<open>A Speak that completes runs the barge-in chain (close the synthesiser, break the playback, cancel
  the bot) exactly once if the caller interrupted and not at all otherwise, however often the trigger
  was seen; it closes the playback at most once, and it interrupts only when the monitor triggered.\<close>

theorem barge_in_chain_once:
  assumes "speak_run pc env speak_begin evs = Some st" and "phase st = AtFinish"
  shows "count_list (fx st) TtsClose = (if barge_fired st then 1 else 0) \<and>
    count_list (fx st) BotCancel = (if barge_fired st then 1 else 0) \<and>
    count_list (fx st) UuidBreak = (if barge_fired st \<and> has_esl pc then 1 else 0) \<and>
    count_list (fx st) SinkClose \<le> 1 \<and> (barge_fired st \<longrightarrow> barge_ready pc env)"
  using speak_final_inv [OF assms(1)] assms(2)
  by (auto simp: speak_inv_def barge_fx_def split: if_splits)

text \<open>A live turn with two frames of audio in which the caller says ``no'' during the playback.\<close>

definition barge_env :: speak_env where
  "barge_env = \<lparr>e_sink_arg = False, e_src = True, e_monitor_err = None, e_bot_err = None, e_tts_err = None,
     e_sentences = [''Hi.''], e_sends = [], e_bot_action = Some ActionChat, e_bot_action_err = None,
     e_frames = [(''ab'', None)], e_open_err = None, e_has_done = True,
     e_asr = [\<lparr>res_text = ''no'', is_final = True\<rparr>], e_final_timeout = False,
     e_events = [EvAction False, EvAudio, EvBarge], e_first_audio = 1\<rparr>"

lemma barge_env_ready: "barge_ready live_conf barge_env"
proof -
  have "string_fields ''no'' = [''no'']"
    by (simp add: string_fields_def fields_from.simps is_space_def drop_rune_def)
  moreover have "trim_space ''no'' = ''no''" by (simp add: eval_strings)
  ultimately have "triggers 1 \<lparr>res_text = ''no'', is_final = True\<rparr>"
    by (simp add: triggers_def count_words_def)
  then show ?thesis
    using watch_loop_triggered [of new_watcher 1 "e_asr barge_env"]
    by (simp add: barge_ready_def monitored_def speak_watcher_def live_conf_def barge_env_def barge_min_words_def)
       (simp add: new_watcher_def)
qed

lemma barge_env_run:
  "speak_run live_conf barge_env speak_begin (e_events barge_env) =
     Some \<lparr>phase = AtFinish, s_action = Some ActionChat, barge_fired = True,
       fx = [SinkClose, TtsClose, UuidBreak, BotCancel]\<rparr>"
proof -
  have "has_closer live_conf barge_env" "has_esl live_conf" "e_has_done barge_env"
    "e_bot_action_err barge_env = None" "e_bot_action barge_env = Some ActionChat"
    "e_events barge_env = [EvAction False, EvAudio, EvBarge]"
    by (simp_all add: has_closer_def lazy_sink_def live_conf_def barge_env_def)
  with barge_env_ready show ?thesis by (simp add: speak_defs speak_begin_def)
qed

theorem barge_in_chain_once_witness:
  "\<exists>st. speak_run live_conf barge_env speak_begin (e_events barge_env) = Some st \<and> phase st = AtFinish \<and>
     count_list (fx st) BotCancel = 1 \<and> count_list (fx st) SinkClose \<le> 1"
  using barge_in_chain_once [OF barge_env_run] barge_env_run by (simp del: count_list.simps)

text \<open>The provider events a phase still waits for, at most.\<close>

definition waits :: "speak_phase \<Rightarrow> nat" where
  "waits ph = (case ph of AtSelect \<Rightarrow> 3 | AtActionBarged \<Rightarrow> 3 | AtAudioWait \<Rightarrow> 2 | AtPlayback \<Rightarrow> 1 | _ \<Rightarrow> 0)"

lemma speak_step_waits:
  assumes "speak_step pc env st ev = Some st'"
  shows "waits (phase st') + (if ev = EvBarge then 0 else 1) \<le> waits (phase st)"
  using assms
  by (cases rule: speak_step_cases)
     (auto simp: waits_def after_action_def after_audio_def frame_simps split: option.split)

lemma speak_run_waits:
  "speak_run pc env st evs = Some st' \<Longrightarrow>
   waits (phase st') + length (filter (\<lambda>e. e \<noteq> EvBarge) evs) \<le> waits (phase st)"
proof (induction evs arbitrary: st)
  case (Cons ev evs)
  then obtain st1 where "speak_step pc env st ev = Some st1" "speak_run pc env st1 evs = Some st'"
    by (auto simp: bind_eq_Some_conv)
  with Cons.IH [of st1] speak_step_waits [of pc env st ev st1] show ?case by auto
qed simp



text \<open>Once the caller has interrupted, the wait for the end of the audio is a busy loop: the trigger
  channel stays closed, so its case can be chosen any number of times without any effect.\<close>

theorem barge_wait_spins:
  assumes "speak_step pc env st EvBarge = Some st'" and "phase st = AtAudioWait"
  shows "speak_run pc env st' (replicate n EvBarge) = Some st'"
proof -
  have st': "phase st' = AtAudioWait" "barge_fired st'" "barge_ready pc env"
    using assms by (auto simp: speak_step_def frame_simps split: if_splits)
  then have "speak_step pc env st' EvBarge = Some st'" by (simp add: speak_step_def trigger_fx)
  then show ?thesis by (induction n) simp_all
qed

definition waiting_st :: speak_state where
  "waiting_st = \<lparr>phase = AtAudioWait, s_action = Some ActionChat, barge_fired = False, fx = []\<rparr>"

theorem barge_wait_spins_witness:
  "\<exists>st. speak_step live_conf barge_env waiting_st EvBarge = Some st \<and>
     speak_run live_conf barge_env st (replicate 1000 EvBarge) = Some st"
proof -
  have "speak_step live_conf barge_env waiting_st EvBarge = Some (trigger_barge_in live_conf waiting_st)"
    by (simp add: speak_step_def waiting_st_def barge_env_ready)
  with barge_wait_spins [OF this] show ?thesis by (simp add: waiting_st_def)
qed

section \<open>Turns\<close>

lemma speak_and_record_cases:
  assumes "speak_and_record pc env msg st now p0 = Some (p', Inr cont)"
  obtains t where "history p' = history p0 @ [t]" "turn_index t = length (history p0)" "user_text t = msg"
    "cont \<longleftrightarrow> turn_action t \<noteq> Some ActionEndCall"
    "turn_action t = Some ActionEndCall \<longleftrightarrow> e_bot_action env = Some ActionEndCall"
    "pending_transcript p0 = [] \<Longrightarrow> pending_transcript p' \<noteq> [] \<longleftrightarrow> barged_in t"
    "bot_text t = snd (sentence_pump (e_sentences env) (e_sends env) None [])"
    "asr_final_at t = (if msg = [] then None else last_asr_final_at p0)"
proof -
  let ?p = "if msg = [] then p0\<lparr>last_asr_final_at := None\<rparr> else p0"
  from assms obtain p act where sp: "speak pc env ?p = Some (p, Inr act)"
    by (simp add: speak_and_record_def Let_def split: option.splits prod.splits sum.splits)
  let ?t = "\<lparr>turn_index = length (history p), user_text = msg, bot_text = last_bot_text p,
    turn_action = act, turn_started = st, turn_ended = now, barged_in = last_barged_in p,
    asr_final_at = last_asr_final_at p, first_audio_at = last_first_audio_at p\<rparr>"
  from assms sp have p': "p' = p\<lparr>history := history p @ [?t]\<rparr>" "cont \<longleftrightarrow> act \<noteq> Some ActionEndCall"
    by (simp_all add: speak_and_record_def Let_def)
  from sp show ?thesis
  proof (cases rule: speak_success)
    case (1 s)
    have h: "history p = history p0" using 1(3) by (simp split: if_splits)
    show ?thesis
    proof (rule that [of ?t])
      show "pending_transcript p' \<noteq> [] \<longleftrightarrow> barged_in ?t" if "pending_transcript p0 = []"
        using 1(4,6,8) that speak_watcher_text p'(1) by auto
      show "turn_action ?t = Some ActionEndCall \<longleftrightarrow> e_bot_action env = Some ActionEndCall"
        using 1(7) by auto
      show "asr_final_at ?t = (if msg = [] then None else last_asr_final_at p0)" using 1(9) by simp
    qed (use h p' 1(5) in simp_all)
  qed
qed


text \<open>The caller says ``ok'', the bot answers and is interrupted.\<close>

definition ok_listen :: listen_env where
  "ok_listen = \<lparr>l_start_err = None, l_events = [LFrame ''f'' SendOk, LResult \<lparr>res_text = ''ok'', is_final = True\<rparr>],
     l_drain = [], l_now = 5\<rparr>"

theorem listen_returns_final_witness:
  "listen ok_listen new_pipe = Some (new_pipe\<lparr>last_asr_final_at := Some 5\<rparr>, Inr ''ok'')"
proof -
  have "trim_space ''ok'' = ''ok''" by (simp add: eval_strings)
  then show ?thesis
    using listen_returns_final [of ok_listen "[LFrame ''f'' SendOk]" "\<lparr>res_text = ''ok'', is_final = True\<rparr>" "[]" new_pipe]
    by (simp add: ok_listen_def listen_goes_on_def latest_text_def)
qed

definition demo_turn :: turn_env where
  "demo_turn = \<lparr>t_src = True, t_listen = ok_listen, t_speak = barge_env, t_started = 4, t_pending_at = 4, t_now = 9\<rparr>"

lemma speak_barge_env: "\<exists>q. speak live_conf barge_env p = Some (q, Inr (Some ActionChat))"
proof -
  have "speak_setup_err live_conf barge_env = None"
    by (simp add: speak_setup_err_def lazy_sink_def live_conf_def barge_env_def)
  then show ?thesis by (simp add: speak_def barge_env_run speak_end_def Let_def)
qed

lemma demo_turn_runs: "\<exists>p'. run_turn live_conf demo_turn new_pipe = Some (p', Inr True)"
proof -
  let ?p = "new_pipe\<lparr>last_asr_final_at := Some 5\<rparr>"
  have "trim_space ''ok'' = ''ok''" by (simp add: eval_strings)
  then have l: "listen ok_listen new_pipe = Some (?p, Inr ''ok'')"
    by (simp add: listen_def ok_listen_def Let_def)
  obtain q where q: "speak live_conf barge_env ?p = Some (q, Inr (Some ActionChat))"
    using speak_barge_env by blast
  have "speak_and_record live_conf barge_env ''ok'' 4 9 ?p \<noteq> None \<and>
      (\<forall>r. speak_and_record live_conf barge_env ''ok'' 4 9 ?p = Some r \<longrightarrow> snd r = Inr True)"
    by (simp only: speak_and_record_def Let_def q list.distinct if_False option.case prod.case sum.case) simp
  then have "\<exists>p'. speak_and_record live_conf barge_env ''ok'' 4 9 ?p = Some (p', Inr True)" by force
  moreover have "pending_transcript new_pipe = []" by (simp add: new_pipe_def)
  ultimately show ?thesis by (simp add: run_turn_def demo_turn_def l)
qed


end
