(* ===== verification/SyncMap.thy ===== *)
theory SyncMap
  imports Prelude
begin

text \<open>
  The contract of the program's keyed registries (a mutex around a Go map, or a \<open>sync.Map\<close>):
  sessions by call id, playbacks by path, pending calls by id.  What a lookup returns after any
  sequence of stores and deletes is proved once, in the locale \<open>sync_map\<close>.
\<close>

datatype ('k, 'v) map_op = Store 'k 'v | Delete 'k

fun op_key :: "('k, 'v) map_op \<Rightarrow> 'k" where
  "op_key (Store k v) = k"
| "op_key (Delete k) = k"

fun op_value :: "('k, 'v) map_op \<Rightarrow> 'v option" where
  "op_value (Store k v) = Some v"
| "op_value (Delete k) = None"

locale sync_map =
  fixes lookup :: "'s \<Rightarrow> 'k \<Rightarrow> 'v option"
    and store :: "'k \<Rightarrow> 'v \<Rightarrow> 's \<Rightarrow> 's"
    and delete :: "'k \<Rightarrow> 's \<Rightarrow> 's"
  assumes lookup_store: "lookup (store k v s) k' = (if k' = k then Some v else lookup s k')"
    and lookup_delete: "lookup (delete k s) k' = (if k' = k then None else lookup s k')"
begin

fun apply_op :: "('k, 'v) map_op \<Rightarrow> 's \<Rightarrow> 's" where
  "apply_op (Store k v) s = store k v s"
| "apply_op (Delete k) s = delete k s"

lemma lookup_apply: "lookup (apply_op x s) k = (if op_key x = k then op_value x else lookup s k)"
  by (cases x) (auto simp: lookup_store lookup_delete)

text \<open>The last operation on a key decides; other keys do not matter.\<close>

lemma lookup_after:
  "lookup (fold apply_op ops s) k =
     (case filter (\<lambda>x. op_key x = k) ops of [] \<Rightarrow> lookup s k
      | _ \<Rightarrow> op_value (last (filter (\<lambda>x. op_key x = k) ops)))"
  by (induction ops arbitrary: s) (auto simp: lookup_apply split: list.split)

lemma lookup_other: "\<forall>x\<in>set ops. op_key x \<noteq> k \<Longrightarrow> lookup (fold apply_op ops s) k = lookup s k"
  by (induction ops arbitrary: s) (auto simp: lookup_apply)

lemma store_other: "k' \<noteq> k \<Longrightarrow> lookup (store k v s) k' = lookup s k'"
  by (simp add: lookup_store)

lemma lookup_store_delete: "lookup (delete k (store k v s)) k = None"
  by (simp add: lookup_delete)

end

end
