(* ===== verification/Playback.thy ===== *)
theory Playback
  imports SyncMap GoStrings
begin

text \<open>
  The playback part of \<open>internal/pipeline/session_runner.go\<close>: one handle per utterance or filler,
  registered under the path that FreeSWITCH reports when the playback ends.  A \<open>*playbackHandle\<close>
  is an index into the list of handles ever made.
\<close>

section \<open>Model of the code\<close>

record handle =
  h_path :: gostring
  h_uuid :: gostring
  h_done :: bool
  h_closed :: bool

record playback =
  stops :: "gostring \<rightharpoonup> nat"
  handles :: "handle list"

definition no_playback :: playback where
  "no_playback = \<lparr>stops = Map.empty, handles = []\<rparr>"

definition stop_lookup :: "playback \<Rightarrow> gostring \<Rightarrow> nat option" where
  "stop_lookup pb path = stops pb path"

definition stop_store :: "gostring \<Rightarrow> nat \<Rightarrow> playback \<Rightarrow> playback" where
  "stop_store path i pb = pb\<lparr>stops := (stops pb)(path \<mapsto> i)\<rparr>"

definition stop_delete :: "gostring \<Rightarrow> playback \<Rightarrow> playback" where
  "stop_delete path pb = pb\<lparr>stops := (stops pb)(path := None)\<rparr>"

interpretation playback_stops: sync_map stop_lookup stop_store stop_delete
  by unfold_locales (simp_all add: stop_lookup_def stop_store_def stop_delete_def)

text \<open>\<open>filepath.Join\<close> of a clean directory and a file name.\<close>

definition path_join :: "gostring \<Rightarrow> gostring \<Rightarrow> gostring" where
  "path_join dir name = (if dir = [] then name else dir @ ''/'' @ name)"

definition utterance_path :: "gostring \<Rightarrow> gostring \<Rightarrow> nat \<Rightarrow> gostring" where
  "utterance_path tts_dir uuid n = path_join tts_dir (uuid @ ''-'' @ show_nat n @ ''.raw'')"

text \<open>A new handle, registered under its path.\<close>

definition register_handle :: "gostring \<Rightarrow> gostring \<Rightarrow> playback \<Rightarrow> nat \<times> playback" where
  "register_handle path uuid pb =
     (length (handles pb),
      stop_store path (length (handles pb))
        (pb\<lparr>handles := handles pb @ [\<lparr>h_path = path, h_uuid = uuid, h_done = False, h_closed = False\<rparr>]\<rparr>))"

text \<open>
  The closure of \<open>makePlaybackOpener\<close>; \<open>n\<close> is its counter after the increment, and the three
  errors are those of mkfifo, of uuid_broadcast and of opening the FIFO.
\<close>

definition open_playback ::
  "gostring \<Rightarrow> gostring \<Rightarrow> nat \<Rightarrow> gostring option \<Rightarrow> gostring option \<Rightarrow> gostring option \<Rightarrow> playback \<Rightarrow>
   nat result \<times> playback"
where
  "open_playback tts_dir uuid n mkfifo_err play_err open_err pb =
     (let path = utterance_path tts_dir uuid n in
      case mkfifo_err of
        Some e \<Rightarrow> (Inl (''mkfifo '' @ path @ '': '' @ e), pb)
      | None \<Rightarrow>
         (let (i, pb') = register_handle path uuid pb in
          case play_err of
            Some e \<Rightarrow> (Inl (''uuid_broadcast: '' @ e), stop_delete path pb')
          | None \<Rightarrow>
             (case open_err of
                Some e \<Rightarrow> (Inl e, stop_delete path pb')
              | None \<Rightarrow> (Inr i, pb'))))"

definition signal_done :: "nat \<Rightarrow> playback \<Rightarrow> playback" where
  "signal_done i pb = pb\<lparr>handles := (handles pb)[i := (handles pb ! i)\<lparr>h_done := True\<rparr>]\<rparr>"

text \<open>The path an event carries; \<open>ev\<close> is \<open>Event.Get\<close>, which gives the empty string for no header.\<close>

definition event_path :: "(gostring \<Rightarrow> gostring) \<Rightarrow> gostring" where
  "event_path ev = (if ev ''Application-Data'' = [] then ev ''Playback-File-Path'' else ev ''Application-Data'')"

definition on_playback_stop :: "(gostring \<Rightarrow> gostring) \<Rightarrow> playback \<Rightarrow> playback" where
  "on_playback_stop ev pb =
     (let path = event_path ev in
      if path = [] then pb
      else case stop_lookup pb path of
        None \<Rightarrow> pb
      | Some i \<Rightarrow> signal_done i (stop_delete path pb))"

definition close_handle :: "nat \<Rightarrow> playback \<Rightarrow> playback" where
  "close_handle i pb = pb\<lparr>handles := (handles pb)[i := (handles pb ! i)\<lparr>h_closed := True\<rparr>]\<rparr>"

text \<open>
  \<open>makeFillerPlayer\<close>: playing the file picked (\<open>[]\<close>: none), and its stop function, which tells
  whether it gave up waiting.
\<close>

definition filler_play :: "gostring \<Rightarrow> gostring \<Rightarrow> gostring option \<Rightarrow> playback \<Rightarrow> nat option \<times> playback" where
  "filler_play uuid path play_err pb =
     (if path = [] then (None, pb)
      else let (i, pb') = register_handle path uuid pb in
        case play_err of
          Some e \<Rightarrow> (None, stop_delete path pb')
        | None \<Rightarrow> (Some i, pb'))"

definition filler_stop :: "nat \<Rightarrow> playback \<Rightarrow> bool \<times> playback" where
  "filler_stop i pb = (\<not> h_done (handles pb ! i), stop_delete (h_path (handles pb ! i)) pb)"

section \<open>Sequences of operations\<close>

datatype pb_op =
  OpOpen gostring gostring nat "gostring option" "gostring option" "gostring option"
| OpStopEvent "gostring \<Rightarrow> gostring"
| OpClose nat
| OpFillerPlay gostring gostring "gostring option"
| OpFillerStop nat

fun pb_apply :: "pb_op \<Rightarrow> playback \<Rightarrow> playback" where
  "pb_apply (OpOpen dir u n e1 e2 e3) pb = snd (open_playback dir u n e1 e2 e3 pb)"
| "pb_apply (OpStopEvent ev) pb = on_playback_stop ev pb"
| "pb_apply (OpClose i) pb = close_handle i pb"
| "pb_apply (OpFillerPlay u p e) pb = snd (filler_play u p e pb)"
| "pb_apply (OpFillerStop i) pb = snd (filler_stop i pb)"

definition pb_run :: "pb_op list \<Rightarrow> playback \<Rightarrow> playback" where
  "pb_run ops pb = fold pb_apply ops pb"

text \<open>Handles registered under their own path; \<open>seen\<close> are the paths of the stop events so far.\<close>

definition pb_ok :: "gostring set \<Rightarrow> playback \<Rightarrow> bool" where
  "pb_ok seen pb \<longleftrightarrow>
     (\<forall>p i. stop_lookup pb p = Some i \<longrightarrow> i < length (handles pb) \<and> h_path (handles pb ! i) = p) \<and>
     (\<forall>h\<in>set (handles pb). h_done h \<longrightarrow> h_path h \<in> seen)"

lemma pb_ok_none [inv_intros]: "pb_ok seen no_playback"
  by (simp add: pb_ok_def no_playback_def stop_lookup_def)

lemma pb_ok_register [inv_intros]: "pb_ok seen pb \<Longrightarrow> pb_ok seen (snd (register_handle path uuid pb))"
  by (auto simp: pb_ok_def register_handle_def stop_lookup_def stop_store_def nth_append split: if_splits)
     (meson less_SucI)

lemma pb_ok_delete [inv_intros]: "pb_ok seen pb \<Longrightarrow> pb_ok seen (stop_delete path pb)"
  by (auto simp: pb_ok_def stop_lookup_def stop_delete_def)

lemma pb_ok_open [inv_intros]: "pb_ok seen pb \<Longrightarrow> pb_ok seen (snd (open_playback d u n e1 e2 e3 pb))"
  using pb_ok_register [of seen pb "utterance_path d u n" u]
  by (auto simp: open_playback_def Let_def pb_ok_delete split: option.splits prod.splits)

lemma pb_ok_filler [inv_intros]: "pb_ok seen pb \<Longrightarrow> pb_ok seen (snd (filler_play u p e pb))"
  using pb_ok_register [of seen pb p u]
  by (auto simp: filler_play_def Let_def pb_ok_delete split: option.splits prod.splits)

lemma pb_ok_close [inv_intros]:
  assumes "pb_ok seen pb"
  shows "pb_ok seen (close_handle i pb)"
proof (cases "i < length (handles pb)")
  case True
  with assms show ?thesis
    by (auto simp: pb_ok_def close_handle_def stop_lookup_def nth_list_update
        dest!: set_update_subset_insert [THEN subsetD])
next
  case False
  then have "close_handle i pb = pb" by (cases pb) (simp add: close_handle_def list_update_beyond)
  with assms show ?thesis by simp
qed

lemma pb_ok_event [inv_intros]: "pb_ok seen pb \<Longrightarrow> pb_ok (insert (event_path ev) seen) (on_playback_stop ev pb)"
  by (auto simp: pb_ok_def on_playback_stop_def Let_def stop_lookup_def stop_delete_def signal_done_def nth_list_update
      split: option.splits if_splits dest!: set_update_subset_insert [THEN subsetD])

lemma pb_ok_mono: "pb_ok seen pb \<Longrightarrow> seen \<subseteq> seen' \<Longrightarrow> pb_ok seen' pb"
  by (auto simp: pb_ok_def)

fun op_paths :: "pb_op \<Rightarrow> gostring set" where
  "op_paths (OpStopEvent ev) = {event_path ev}"
| "op_paths _ = {}"

lemma pb_ok_apply: "pb_ok seen pb \<Longrightarrow> pb_ok (seen \<union> op_paths x) (pb_apply x pb)"
  by (cases x) (auto intro: inv_intros simp: filler_stop_def)

lemma pb_ok_run: "pb_ok seen pb \<Longrightarrow> pb_ok (seen \<union> \<Union>(op_paths ` set ops)) (pb_run ops pb)"
proof (induction ops arbitrary: seen pb)
  case (Cons x ops)
  from Cons.IH [OF pb_ok_apply [OF Cons.prems, of x]] show ?case by (simp add: pb_run_def Un_assoc)
qed (simp add: pb_run_def)

section \<open>Properties\<close>

text \<open>A playback is reported finished to its waiter only if FreeSWITCH has sent a stop event for its
  own path: the late event of an earlier utterance never ends the wait of a later one.\<close>

theorem done_only_by_own_path:
  assumes "i < length (handles (pb_run ops no_playback))" and "h_done (handles (pb_run ops no_playback) ! i)"
  shows "\<exists>ev. OpStopEvent ev \<in> set ops \<and> event_path ev = h_path (handles (pb_run ops no_playback) ! i)"
proof -
  have "pb_ok (\<Union>(op_paths ` set ops)) (pb_run ops no_playback)"
    using pb_ok_run [of "{}" no_playback ops] by (simp add: pb_ok_none)
  with assms obtain x where "x \<in> set ops" "h_path (handles (pb_run ops no_playback) ! i) \<in> op_paths x"
    by (auto simp: pb_ok_def)
  moreover from this(2) obtain ev where "x = OpStopEvent ev" by (cases x) auto
  ultimately show ?thesis by auto
qed

definition stop_event :: "gostring \<Rightarrow> gostring \<Rightarrow> gostring" where
  "stop_event path key = (if key = ''Application-Data'' then path else [])"

definition demo_ops :: "pb_op list" where
  "demo_ops = [OpFillerPlay ''c1'' ''/f/a.wav'' None, OpStopEvent (stop_event ''/f/a.wav'')]"

theorem done_only_by_own_path_witness:
  "h_done (handles (pb_run demo_ops no_playback) ! 0) \<and>
   (\<exists>ev. OpStopEvent ev \<in> set demo_ops \<and> event_path ev = ''/f/a.wav'')"
proof -
  have r: "length (handles (pb_run demo_ops no_playback)) = 1" "h_done (handles (pb_run demo_ops no_playback) ! 0)"
    "h_path (handles (pb_run demo_ops no_playback) ! 0) = ''/f/a.wav''"
    by (simp_all add: demo_ops_def pb_run_def no_playback_def filler_play_def register_handle_def on_playback_stop_def
        event_path_def stop_event_def stop_lookup_def stop_store_def stop_delete_def signal_done_def)
  with done_only_by_own_path [of 0 demo_ops] show ?thesis by simp
qed

text \<open>Fillers are registered under the path of a file that calls share: when two calls play the same
  filler, the stop event of the first call ends the wait of the second and leaves the first waiting
  for its full timeout.\<close>

theorem shared_filler_crosstalk:
  assumes "path \<noteq> []" and "filler_play u1 path None pb = (Some i, pb1)"
    and "filler_play u2 path None pb1 = (Some j, pb2)" and "event_path ev = path"
  shows "h_done (handles (on_playback_stop ev pb2) ! j) \<and>
    fst (filler_stop i (on_playback_stop ev pb2)) \<and> \<not> fst (filler_stop j (on_playback_stop ev pb2))"
  using assms
  by (auto simp: filler_play_def register_handle_def on_playback_stop_def Let_def stop_lookup_def stop_store_def
      stop_delete_def signal_done_def filler_stop_def nth_append)

theorem shared_filler_crosstalk_witness:
  "\<exists>pb1 pb2. filler_play ''c1'' ''/f/a.wav'' None no_playback = (Some 0, pb1) \<and>
     filler_play ''c2'' ''/f/a.wav'' None pb1 = (Some 1, pb2) \<and>
     fst (filler_stop 0 (on_playback_stop (stop_event ''/f/a.wav'') pb2))"
proof -
  obtain pb1 where 1: "filler_play ''c1'' ''/f/a.wav'' None no_playback = (Some 0, pb1)" "length (handles pb1) = 1"
    by (simp add: filler_play_def register_handle_def no_playback_def stop_store_def)
  obtain pb2 where 2: "filler_play ''c2'' ''/f/a.wav'' None pb1 = (Some 1, pb2)"
    using 1(2) by (simp add: filler_play_def register_handle_def)
  have "event_path (stop_event ''/f/a.wav'') = ''/f/a.wav''" by (simp add: event_path_def stop_event_def)
  from shared_filler_crosstalk [OF _ 1(1) 2 this] 1(1) 2 show ?thesis by blast
qed

end
