(* ===== verification/SessionMgr.thy ===== *)
theory SessionMgr
  imports SyncMap
begin

text \<open>
  \<open>internal/session\<close>: sessions and the manager that finds them by call id.  A \<open>*Session\<close> is an
  index into the heap of sessions ever created, so that a session that was replaced in the
  manager's map is still there.
\<close>

datatype sess_state =
  StateIdle | StateGreeting | StateListening | StateThinking | StateSpeaking | StateBargeIn | StateEnded

fun sess_state_string :: "sess_state \<Rightarrow> gostring" where
  "sess_state_string StateIdle = ''IDLE''"
| "sess_state_string StateGreeting = ''GREETING''"
| "sess_state_string StateListening = ''LISTENING''"
| "sess_state_string StateThinking = ''THINKING''"
| "sess_state_string StateSpeaking = ''SPEAKING''"
| "sess_state_string StateBargeIn = ''BARGE_IN''"
| "sess_state_string StateEnded = ''ENDED''"

datatype direction = DirectionInbound | DirectionOutbound

definition direction_string :: "direction \<Rightarrow> gostring" where
  "direction_string d = (if d = DirectionOutbound then ''outbound'' else ''inbound'')"

definition direction_int :: "direction \<Rightarrow> int" where
  "direction_int d = (case d of DirectionInbound \<Rightarrow> 0 | DirectionOutbound \<Rightarrow> 1)"

record session =
  s_uuid :: gostring
  s_direction :: direction
  s_scenario :: gostring
  s_started :: time
  s_state :: sess_state
  s_canceled :: bool

record sess_mgr =
  heap :: "session list"
  live :: "gostring \<rightharpoonup> nat"

definition new_sess_mgr :: sess_mgr where
  "new_sess_mgr = \<lparr>heap = [], live = Map.empty\<rparr>"

text \<open>\<open>New\<close>: the pointer and the heap with the session.\<close>

definition session_new :: "gostring \<Rightarrow> gostring \<Rightarrow> direction \<Rightarrow> time \<Rightarrow> sess_mgr \<Rightarrow> nat \<times> sess_mgr" where
  "session_new uuid scen dir now m =
     (length (heap m),
      m\<lparr>heap := heap m @ [\<lparr>s_uuid = uuid, s_direction = dir, s_scenario = scen, s_started = now,
                          s_state = StateIdle, s_canceled = False\<rparr>]\<rparr>)"

definition session_cancel :: "nat \<Rightarrow> sess_mgr \<Rightarrow> sess_mgr" where
  "session_cancel i m = m\<lparr>heap := (heap m)[i := (heap m ! i)\<lparr>s_canceled := True\<rparr>]\<rparr>"

definition session_transition :: "nat \<Rightarrow> sess_state \<Rightarrow> sess_mgr \<Rightarrow> sess_state \<times> sess_mgr" where
  "session_transition i st m =
     (s_state (heap m ! i), m\<lparr>heap := (heap m)[i := (heap m ! i)\<lparr>s_state := st\<rparr>]\<rparr>)"

text \<open>\<open>Add\<close> stores under the session's own id.\<close>

definition sess_put :: "gostring \<Rightarrow> nat \<Rightarrow> sess_mgr \<Rightarrow> sess_mgr" where
  "sess_put k i m = m\<lparr>live := (live m)(k \<mapsto> i)\<rparr>"

definition sess_add :: "nat \<Rightarrow> sess_mgr \<Rightarrow> sess_mgr" where
  "sess_add i m = sess_put (s_uuid (heap m ! i)) i m"

definition sess_get :: "sess_mgr \<Rightarrow> gostring \<Rightarrow> nat option" where
  "sess_get m uuid = live m uuid"

definition sess_remove :: "gostring \<Rightarrow> sess_mgr \<Rightarrow> sess_mgr" where
  "sess_remove uuid m = m\<lparr>live := (live m)(uuid := None)\<rparr>"

definition sess_count :: "int \<Rightarrow> sess_mgr \<Rightarrow> nat" where
  "sess_count dir m =
     (if dir < 0 then card (dom (live m))
      else card {k. \<exists>i. live m k = Some i \<and> direction_int (s_direction (heap m ! i)) = dir})"

text \<open>
  \<open>DrainAll\<close>: every live session is cancelled; then the number of live sessions is polled, the
  list holding what each poll before the deadline sees.
\<close>

definition drain_cancel :: "sess_mgr \<Rightarrow> sess_mgr" where
  "drain_cancel m =
     m\<lparr>heap := map (\<lambda>i. if i \<in> ran (live m) then (heap m ! i)\<lparr>s_canceled := True\<rparr> else heap m ! i)
                [0..<length (heap m)]\<rparr>"

fun drain_wait :: "nat list \<Rightarrow> bool" where
  "drain_wait [] = False"
| "drain_wait (n # ns) = (if n = 0 then True else drain_wait ns)"

interpretation sessions: sync_map sess_get sess_put sess_remove
  by unfold_locales (simp_all add: sess_get_def sess_put_def sess_remove_def)

lemma sess_get_add: "sess_get (sess_add i m) k = (if k = s_uuid (heap m ! i) then Some i else sess_get m k)"
  by (simp add: sess_add_def sessions.lookup_store)

lemma drain_cancels_live:
  "sess_get m k = Some i \<Longrightarrow> i < length (heap m) \<Longrightarrow> s_canceled (heap (drain_cancel m) ! i)"
  by (auto simp: drain_cancel_def sess_get_def ran_def)

lemma drain_wait_iff: "drain_wait ns \<longleftrightarrow> 0 \<in> set ns"
  by (induction ns) auto

end
