(* ===== verification/SessionRunner.thy ===== *)
theory SessionRunner
  imports Turn Playback SessionMgr
begin

text \<open>
  \<open>internal/pipeline/session_runner.go\<close> and \<open>persist.go\<close>: the life of one call, from answering it
  to the persisted record.  \<open>run_call\<close> returns what the call did in order (its deferred clean-up
  included) and the error it ends with.
\<close>

section \<open>The bot row and the options of a call\<close>

text \<open>\<open>store.BotConfig\<close>; ids are the database's UUIDs.\<close>

record bot_config =
  b_id :: uuid
  b_tenant :: uuid
  b_tenant_slug :: gostring
  b_slug :: gostring
  b_name :: gostring
  b_enabled :: bool
  bot_url :: gostring
  bot_first_byte_ms :: int
  bot_total_ms :: int
  asr_provider :: gostring
  asr_endpoint :: gostring
  asr_token :: gostring
  tts_provider :: gostring
  tts_endpoint :: gostring
  tts_token :: gostring
  tts_voice_id :: gostring
  tts_tempo :: real
  asr_silence_sec :: real
  asr_speech_sec :: real
  asr_max_sec :: real
  asr_single :: bool
  bargein_enabled :: bool
  bargein_min_words :: int
  filler_enabled_b :: bool
  filler_mode :: gostring
  filler_intent_url :: gostring
  filler_intent_ms :: int
  outbound_prefix :: gostring
  b_version :: int
  b_created :: time
  b_updated :: time

record run_opts =
  ro_uuid :: gostring
  ro_caller :: gostring
  ro_phone :: gostring
  ro_scenario :: gostring
  ro_direction :: direction
  needs_answer :: bool
  ro_started :: time
  has_on_end :: bool
  ro_bot :: "bot_config option"
  ro_asr :: bool
  ro_tts :: bool
  ro_botimpl :: bool
  ro_lead_id :: gostring
  ro_gender :: gostring
  ro_name :: gostring

text \<open>\<open>time.Duration(sec * float64(time.Second))\<close> for a positive number of seconds.\<close>

definition secs :: "real \<Rightarrow> duration" where
  "secs x = \<lfloor>x * 1000000000\<rfloor>"

text \<open>The configuration of one call: the runner's, overlaid with the bot's.\<close>

definition call_cfg :: "turn_cfg \<Rightarrow> bot_config option \<Rightarrow> turn_cfg" where
  "call_cfg runner_cfg row =
     (let c = (if cfg_sample_rate runner_cfg = 0 then default_cfg else runner_cfg) in
      case row of None \<Rightarrow> c
      | Some b \<Rightarrow>
         (let c = (if tts_voice_id b \<noteq> [] then c\<lparr>voice_id := tts_voice_id b\<rparr> else c);
              c = (if tts_tempo b > 0 then c\<lparr>tempo := tts_tempo b\<rparr> else c);
              c = (if asr_silence_sec b > 0 then c\<lparr>cfg_silence_timeout := secs (asr_silence_sec b)\<rparr> else c);
              c = (if asr_speech_sec b > 0 then c\<lparr>cfg_speech_timeout := secs (asr_speech_sec b)\<rparr> else c);
              c = (if asr_max_sec b > 0 then c\<lparr>cfg_speech_max := secs (asr_max_sec b)\<rparr> else c);
              c = c\<lparr>cfg_single_sentence := asr_single b, cfg_filler_enabled := filler_enabled_b b\<rparr>
          in if filler_mode b = ''hybrid'' \<and> filler_intent_url b \<noteq> [] \<and> filler_intent_ms b > 0
             then c\<lparr>filler_intent_timeout := filler_intent_ms b * 1000000\<rparr> else c))"

text \<open>The pipeline \<open>Run\<close> builds.\<close>

definition call_conf :: "turn_cfg \<Rightarrow> bool \<Rightarrow> run_opts \<Rightarrow> pipe_conf" where
  "call_conf runner_cfg has_pool opts =
     \<lparr>pc_uuid = ro_uuid opts, pc_cfg = call_cfg runner_cfg (ro_bot opts),
      barge_in = (case ro_bot opts of None \<Rightarrow> False | Some b \<Rightarrow> bargein_enabled b),
      pc_min_words = (case ro_bot opts of None \<Rightarrow> 0 | Some b \<Rightarrow> bargein_min_words b),
      has_asr = True, has_esl = True, has_filler = has_pool,
      has_label_resolver = (case ro_bot opts of None \<Rightarrow> False
        | Some b \<Rightarrow> filler_mode b = ''hybrid'' \<and> filler_intent_url b \<noteq> []),
      sink_override = False, playback_open = True\<rparr>"

section \<open>The persisted record\<close>

datatype run_err =
  AnswerErr gostring | RecordDirErr gostring | TtsDirErr gostring | MkfifoErr gostring
| FifoSourceErr gostring | RecordingErr gostring | ProvidersMissing
| GreetingErr turn_err | TurnErr turn_err | ErrCanceled

record call_record =
  cr_call_id :: gostring
  cr_direction :: gostring
  cr_scenario :: gostring
  cr_phone :: gostring
  cr_lead_id :: gostring
  cr_gender :: gostring
  cr_name :: gostring
  cr_start :: time
  cr_end :: time
  cr_status :: gostring
  cr_action :: "action option"
  cr_history :: "turn_record list"
  cr_error :: "run_err option"
  cr_tenant :: "uuid option"
  cr_bot :: "uuid option"

definition build_call_record :: "run_opts \<Rightarrow> pipe option \<Rightarrow> run_err option \<Rightarrow> time \<Rightarrow> call_record" where
  "build_call_record opts p err ended =
     (let hist = (case p of None \<Rightarrow> [] | Some q \<Rightarrow> history q) in
      \<lparr>cr_call_id = ro_uuid opts, cr_direction = direction_string (ro_direction opts),
       cr_scenario = ro_scenario opts, cr_phone = ro_phone opts, cr_lead_id = ro_lead_id opts,
       cr_gender = ro_gender opts, cr_name = ro_name opts, cr_start = ro_started opts, cr_end = ended,
       cr_status = (case err of None \<Rightarrow> ''ended'' | Some ErrCanceled \<Rightarrow> ''aborted'' | Some _ \<Rightarrow> ''failed''),
       cr_action = (if hist = [] then None else turn_action (last hist)),
       cr_history = hist,
       cr_error = (case err of Some ErrCanceled \<Rightarrow> None | _ \<Rightarrow> err),
       cr_tenant = map_option b_tenant (ro_bot opts), cr_bot = map_option b_id (ro_bot opts)\<rparr>)"

section \<open>The conversation\<close>

text \<open>
  \<open>errors.Is(err, context.Canceled)\<close>; \<open>wc\<close> decides it for the errors of other packages.
\<close>

fun is_canceled :: "(turn_err \<Rightarrow> bool) \<Rightarrow> turn_err \<Rightarrow> bool" where
  "is_canceled wc (CtxDone e) = (e = Canceled)"
| "is_canceled wc (BotAction (CtxErr e)) = (e = Canceled)"
| "is_canceled wc e = wc e"

datatype call_end = ByEndCall | ByCancel | ByError run_err

text \<open>
  The turn loop: each iteration first looks at the session context (the flag of the script), then
  runs a turn.
\<close>

fun turn_loop ::
  "(turn_err \<Rightarrow> bool) \<Rightarrow> pipe_conf \<Rightarrow> (bool \<times> turn_env) list \<Rightarrow> pipe \<Rightarrow> (pipe \<times> call_end) option"
where
  "turn_loop wc pc [] p = None"
| "turn_loop wc pc ((ctx_done, env) # envs) p =
     (if ctx_done then Some (p, ByCancel)
      else case run_turn pc env p of
        None \<Rightarrow> None
      | Some (p', Inl e) \<Rightarrow> Some (p', if is_canceled wc e then ByCancel else ByError (TurnErr e))
      | Some (p', Inr cont) \<Rightarrow> if cont then turn_loop wc pc envs p' else Some (p', ByEndCall))"

definition conversation ::
  "(turn_err \<Rightarrow> bool) \<Rightarrow> pipe_conf \<Rightarrow> turn_env \<Rightarrow> (bool \<times> turn_env) list \<Rightarrow> (pipe \<times> call_end) option"
where
  "conversation wc pc greet envs =
     (case run_greeting pc greet new_pipe of
        None \<Rightarrow> None
      | Some (p, Inl e) \<Rightarrow> Some (p, if is_canceled wc e then ByCancel else ByError (GreetingErr e))
      | Some (p, Inr cont) \<Rightarrow> if cont then turn_loop wc pc envs p else Some (p, ByEndCall))"

section \<open>The whole call\<close>

datatype run_fx =
  FxSessionAdd | FxAnswer | FxMkfifo | FxSourceOpen | FxStartRec | FxEndCall
| FxStopRec | FxSourceClose | FxCleanup | FxOnEnd | FxSessionCancel | FxSessionRemove | FxArchive
| FxInsert call_record

record run_env =
  re_cfg :: turn_cfg
  re_has_store :: bool
  re_archiver :: bool
  re_has_pool :: bool
  re_answer :: "gostring option"
  re_record_dir :: "gostring option"
  re_tts_dir :: "gostring option"
  re_mkfifo :: "gostring option"
  re_source :: "gostring option"
  re_recording :: "gostring option"
  re_greet :: turn_env
  re_turns :: "(bool \<times> turn_env) list"
  re_now :: time
  re_wc :: "turn_err \<Rightarrow> bool"

text \<open>Before anything else: defaults of the options.\<close>

definition fill_run_opts :: "time \<Rightarrow> run_opts \<Rightarrow> run_opts" where
  "fill_run_opts now opts =
     (let opts = (if ro_started opts = 0 then opts\<lparr>ro_started := now\<rparr> else opts)
      in if ro_phone opts = [] then opts\<lparr>ro_phone := ro_caller opts\<rparr> else opts)"

text \<open>
  The set-up: what it did, the deferred calls it registered (last one first), and its error.
\<close>

definition run_setup :: "run_env \<Rightarrow> run_opts \<Rightarrow> run_fx list \<times> run_fx list \<times> run_err option" where
  "run_setup env opts =
     (let a = (if needs_answer opts then [FxAnswer] else []) in
      case (if needs_answer opts then re_answer env else None) of
        Some e \<Rightarrow> (a, [], Some (AnswerErr e)) | None \<Rightarrow>
      case re_record_dir env of Some e \<Rightarrow> (a, [], Some (RecordDirErr e)) | None \<Rightarrow>
      case re_tts_dir env of Some e \<Rightarrow> (a, [], Some (TtsDirErr e)) | None \<Rightarrow>
      case re_mkfifo env of Some e \<Rightarrow> (a, [], Some (MkfifoErr e)) | None \<Rightarrow>
      case re_source env of Some e \<Rightarrow> (a @ [FxMkfifo], [FxCleanup], Some (FifoSourceErr e)) | None \<Rightarrow>
      case re_recording env of
        Some e \<Rightarrow> (a @ [FxMkfifo, FxSourceOpen], [FxSourceClose, FxCleanup], Some (RecordingErr e)) | None \<Rightarrow>
      (a @ [FxMkfifo, FxSourceOpen, FxStartRec], [FxStopRec, FxSourceClose, FxCleanup],
       if ro_asr opts \<and> ro_tts opts \<and> ro_botimpl opts then None else Some ProvidersMissing))"

text \<open>The deferred calls registered before the set-up, in the order they run.\<close>

definition run_deferred :: "run_env \<Rightarrow> run_opts \<Rightarrow> pipe option \<Rightarrow> run_err option \<Rightarrow> run_fx list" where
  "run_deferred env opts p err =
     (if has_on_end opts then [FxOnEnd] else []) @ [FxSessionCancel, FxSessionRemove] @
     (if re_archiver env then [FxArchive] else []) @
     (if re_has_store env then [FxInsert (build_call_record opts p err (re_now env))] else [])"

definition run_call :: "run_env \<Rightarrow> run_opts \<Rightarrow> (run_fx list \<times> run_err option) option" where
  "run_call env opts0 =
     (let opts = fill_run_opts (re_now env) opts0;
          (did, defers, err) = run_setup env opts in
      case err of
        Some e \<Rightarrow> Some (FxSessionAdd # did @ defers @ run_deferred env opts None (Some e), Some e)
      | None \<Rightarrow>
         (case conversation (re_wc env) (call_conf (re_cfg env) (re_has_pool env) opts) (re_greet env) (re_turns env) of
            None \<Rightarrow> None
          | Some (p, how) \<Rightarrow>
             (let err = (case how of ByError e \<Rightarrow> Some e | _ \<Rightarrow> None);
                  fin = (if how = ByEndCall then [FxEndCall] else [])
              in Some (FxSessionAdd # did @ fin @ defers @ run_deferred env opts (Some p) err, err))))"

section \<open>Lemmas\<close>

lemma turn_history:
  assumes "run_turn pc env p = Some (p', Inl e)"
  shows "history p' = history p"
proof -
  have r: "history q' = history q" if "speak_and_record pc senv msg st now q = Some (q', Inl e)" for senv msg st now q q'
  proof -
    let ?q = "if msg = [] then q\<lparr>last_asr_final_at := None\<rparr> else q"
    from that have "speak pc senv ?q = Some (q', Inl e)"
      unfolding speak_and_record_def Let_def
      by (cases "speak pc senv ?q") (auto split: prod.splits sum.splits simp del: split_paired_All)
    then show ?thesis by (cases rule: speak_cases) (simp_all split: if_splits)
  qed
  show ?thesis
  proof (cases "pending_transcript p = []")
    case False
    with assms have "speak_and_record pc (t_speak env) (pending_transcript p) (t_started env) (t_now env)
        (p\<lparr>pending_transcript := [], last_asr_final_at := Some (t_pending_at env)\<rparr>) = Some (p', Inl e)"
      by (simp add: run_turn_def)
    from r [OF this] show ?thesis by simp
  next
    case True
    show ?thesis
    proof (cases "t_src env")
      case False
      with assms True r show ?thesis by (simp add: run_turn_def)
    next
      case src: True
      from assms True src obtain q x where l: "listen (t_listen env) p = Some (q, x)"
        by (auto simp: run_turn_def split: option.splits)
      from listen_frame [OF l] assms True src l r show ?thesis
        by (auto simp: run_turn_def split: sum.splits if_splits)
    qed
  qed
qed

text \<open>The records of a call are numbered by their position, and only the last may say ENDCALL.\<close>

definition history_ok :: "bool \<Rightarrow> pipe \<Rightarrow> bool" where
  "history_ok ended p \<longleftrightarrow>
     map turn_index (history p) = [0..<length (history p)] \<and>
     (\<forall>t\<in>set (butlast (history p)). turn_action t \<noteq> Some ActionEndCall) \<and>
     (if ended then history p \<noteq> [] \<and> turn_action (last (history p)) = Some ActionEndCall
      else \<forall>t\<in>set (history p). turn_action t \<noteq> Some ActionEndCall)"

lemma history_ok_new: "history_ok False new_pipe"
  by (simp add: history_ok_def new_pipe_def)

lemma history_ok_snoc:
  assumes "history_ok False p" and "history p' = history p @ [t]" and "turn_index t = length (history p)"
    and "cont \<longleftrightarrow> turn_action t \<noteq> Some ActionEndCall"
  shows "history_ok (\<not> cont) p'"
  using assms by (auto simp: history_ok_def)

lemma history_ok_same: "history_ok e p \<Longrightarrow> history p' = history p \<Longrightarrow> history_ok e p'"
  by (simp add: history_ok_def)

lemma record_ok:
  assumes "speak_and_record pc env msg st now p = Some (p', Inr cont)" and "history_ok False p"
  shows "history_ok (\<not> cont) p'"
  using assms(1) by (rule speak_and_record_cases) (rule history_ok_snoc [OF assms(2)])

lemma turn_ok:
  assumes "run_turn pc env p = Some (p', Inr cont)" and "history_ok False p"
  shows "history_ok (\<not> cont) p'"
proof (cases "pending_transcript p = []")
  case False
  with assms(1) have "speak_and_record pc (t_speak env) (pending_transcript p) (t_started env) (t_now env)
      (p\<lparr>pending_transcript := [], last_asr_final_at := Some (t_pending_at env)\<rparr>) = Some (p', Inr cont)"
    by (simp add: run_turn_def)
  then show ?thesis by (rule record_ok) (rule history_ok_same [OF assms(2)], simp)
next
  case True
  show ?thesis
  proof (cases "t_src env")
    case False
    with assms True record_ok show ?thesis by (simp add: run_turn_def)
  next
    case src: True
    from assms(1) True src obtain q m where l: "listen (t_listen env) p = Some (q, Inr m)"
      by (auto simp: run_turn_def split: option.splits sum.splits)
    have q: "history_ok False q" using listen_frame [OF l] assms(2) by (auto intro: history_ok_same)
    show ?thesis
    proof (cases "m = []")
      case True
      with assms(1) \<open>pending_transcript p = []\<close> src l have "p' = q" "cont" by (auto simp: run_turn_def)
      with q show ?thesis by simp
    next
      case False
      with assms(1) \<open>pending_transcript p = []\<close> src l record_ok [OF _ q] show ?thesis
        by (simp add: run_turn_def)
    qed
  qed
qed

lemma turn_loop_ok:
  "turn_loop wc pc envs p = Some (p', how) \<Longrightarrow> history_ok False p \<Longrightarrow> history_ok (how = ByEndCall) p'"
proof (induction wc pc envs p arbitrary: p' how rule: turn_loop.induct)
  case (2 wc pc ctx_done env envs p)
  show ?case
  proof (cases "ctx_done")
    case True
    with 2 show ?thesis by auto
  next
    case False
    with 2(2) obtain q r where t: "run_turn pc env p = Some (q, r)" by (auto split: option.splits)
    show ?thesis
    proof (cases r)
      case (Inl e)
      with t 2(2) False have "p' = q" "how \<noteq> ByEndCall" by (auto split: if_splits)
      with turn_history t Inl 2(3) show ?thesis by (auto intro: history_ok_same)
    next
      case (Inr cont)
      from turn_ok t Inr 2(3) have ok: "history_ok (\<not> cont) q" by simp
      show ?thesis
      proof (cases cont)
        case True
        with 2(2) False t Inr have "turn_loop wc pc envs q = Some (p', how)" by simp
        from 2(1) [OF False t _ Inr True this] ok True show ?thesis by simp
      next
        case cont: False
        with 2(2) False t Inr ok show ?thesis by auto
      qed
    qed
  qed
qed simp

lemma conversation_ok:
  assumes "conversation wc pc greet envs = Some (p, how)"
  shows "history_ok (how = ByEndCall) p"
proof -
  from assms obtain q r where g: "run_greeting pc greet new_pipe = Some (q, r)"
    by (auto simp: conversation_def split: option.splits)
  show ?thesis
  proof (cases r)
    case (Inl e)
    have "run_turn pc (greet\<lparr>t_src := False\<rparr>) new_pipe = Some (q, Inl e)"
      using g Inl by (simp add: run_turn_def run_greeting_def new_pipe_def)
    from turn_history [OF this] have "history_ok False q" by (rule history_ok_same [OF history_ok_new])
    moreover have "p = q" "how \<noteq> ByEndCall" using assms g Inl by (auto simp: conversation_def split: if_splits)
    ultimately show ?thesis by simp
  next
    case (Inr cont)
    from g Inr have ok: "history_ok (\<not> cont) q"
      unfolding run_greeting_def by (blast intro: record_ok history_ok_new)
    show ?thesis
    proof (cases cont)
      case True
      with assms g Inr have "turn_loop wc pc envs q = Some (p, how)" by (simp add: conversation_def)
      from turn_loop_ok [OF this] ok True show ?thesis by simp
    next
      case False
      with assms g Inr ok show ?thesis by (simp add: conversation_def)
    qed
  qed
qed

lemma turn_loop_err: "turn_loop wc pc envs p = Some (p', ByError e) \<Longrightarrow> e \<noteq> ErrCanceled"
  by (induction envs arbitrary: p) (auto split: option.splits sum.splits if_splits)

lemma conversation_err: "conversation wc pc g envs = Some (p, ByError e) \<Longrightarrow> e \<noteq> ErrCanceled"
  by (auto simp: conversation_def dest: turn_loop_err split: option.splits sum.splits if_splits)

text \<open>What the set-up does and what it leaves to be undone.\<close>

definition setup_fx :: "run_fx set" where
  "setup_fx = {FxAnswer, FxMkfifo, FxSourceOpen, FxStartRec, FxStopRec, FxSourceClose, FxCleanup}"

lemma run_setup_facts:
  assumes "run_setup env opts = (did, defers, err)"
  shows "set (did @ defers) \<subseteq> setup_fx" "err \<noteq> Some ErrCanceled"
    "count_list did FxStartRec = count_list defers FxStopRec" "count_list did FxMkfifo = count_list defers FxCleanup"
    "count_list did FxSourceOpen = count_list defers FxSourceClose"
    "count_list defers FxStartRec = 0" "count_list did FxStopRec = 0" "count_list defers FxMkfifo = 0"
    "count_list did FxCleanup = 0" "count_list defers FxSourceOpen = 0" "count_list did FxSourceClose = 0"
  using assms by (auto simp: run_setup_def setup_fx_def Let_def split: option.splits if_splits)

lemma run_call_cases:
  assumes "run_call env opts0 = Some (trace, err)"
  obtains did defers fin p where
    "set (did @ defers) \<subseteq> setup_fx" "fin = [] \<or> fin = [FxEndCall]"
    "trace = FxSessionAdd # did @ fin @ defers @ run_deferred env (fill_run_opts (re_now env) opts0) p err"
    "err \<noteq> Some ErrCanceled" "history_ok (fin = [FxEndCall]) (case p of None \<Rightarrow> new_pipe | Some q \<Rightarrow> q)"
    "run_setup env (fill_run_opts (re_now env) opts0) = (did, defers, if p = None then err else None)"
proof -
  let ?o = "fill_run_opts (re_now env) opts0"
  obtain did defers e where s: "run_setup env ?o = (did, defers, e)" by (metis surj_pair)
  note f = run_setup_facts [OF s]
  show ?thesis
  proof (cases e)
    case (Some x)
    with s assms have e: "err = Some x" by (simp add: run_call_def Let_def)
    with Some s assms have "trace = FxSessionAdd # did @ [] @ defers @ run_deferred env ?o None err"
      by (simp add: run_call_def Let_def)
    with f s Some e history_ok_new show ?thesis by (intro that [of did defers "[]" None]) simp_all
  next
    case None
    with s assms obtain p how where c: "conversation (re_wc env) (call_conf (re_cfg env) (re_has_pool env) ?o)
        (re_greet env) (re_turns env) = Some (p, how)"
      by (auto simp: run_call_def Let_def split: option.splits)
    let ?fin = "if how = ByEndCall then [FxEndCall] else []"
    from c None s assms have er: "err = (case how of ByError e \<Rightarrow> Some e | _ \<Rightarrow> None)"
      by (auto simp: run_call_def Let_def)
    from c None s assms have trace: "trace = FxSessionAdd # did @ ?fin @ defers @ run_deferred env ?o (Some p) err"
      by (auto simp: run_call_def Let_def)
    have "err \<noteq> Some ErrCanceled" using er conversation_err c by (cases how) auto
    with f s None trace conversation_ok [OF c] show ?thesis
      by (cases "how = ByEndCall") (auto intro!: that [of did defers ?fin "Some p"])
  qed
qed

section \<open>Properties\<close>

fun is_insert :: "run_fx \<Rightarrow> bool" where
  "is_insert (FxInsert r) = True"
| "is_insert _ = False"

lemma setup_no_insert: "set xs \<subseteq> setup_fx \<Longrightarrow> filter is_insert xs = [] \<and> FxEndCall \<notin> set xs"
  by (induction xs) (auto simp: setup_fx_def)

text \<open>C6: A call that ends, however it ends, is persisted once and last; its record numbers the turns from
  0 without gaps, no turn follows the bot's ENDCALL, the call is hung up exactly when the recorded
  action is ENDCALL, and the status is \<open>failed\<close> exactly when the call ended with an error.\<close>

theorem call_record_faithful:
  assumes "run_call env opts = Some (trace, err)" and "re_has_store env"
  shows "\<exists>r. filter is_insert trace = [FxInsert r] \<and> last trace = FxInsert r \<and>
    map turn_index (cr_history r) = [0..<length (cr_history r)] \<and>
    (\<forall>t\<in>set (butlast (cr_history r)). turn_action t \<noteq> Some ActionEndCall) \<and>
    (FxEndCall \<in> set trace \<longleftrightarrow> cr_action r = Some ActionEndCall) \<and>
    cr_status r = (if err = None then ''ended'' else ''failed'')"
  using assms(1)
proof (cases rule: run_call_cases)
  case (1 did defers fin p)
  let ?o = "fill_run_opts (re_now env) opts"
  let ?r = "build_call_record ?o p err (re_now env)"
  let ?q = "case p of None \<Rightarrow> new_pipe | Some q \<Rightarrow> q"
  have h: "cr_history ?r = history ?q"
    by (simp add: build_call_record_def Let_def new_pipe_def split: option.split)
  have a: "cr_action ?r = (if history ?q = [] then None else turn_action (last (history ?q)))"
    by (simp add: build_call_record_def Let_def new_pipe_def split: option.split)
  have st: "cr_status ?r = (if err = None then ''ended'' else ''failed'')"
    using 1(4) by (simp add: build_call_record_def Let_def split: option.split run_err.split)
  have n: "filter is_insert (did @ defers) = []" "FxEndCall \<notin> set (did @ defers)"
    using setup_no_insert [OF 1(1)] by auto
  have i: "filter is_insert trace = [FxInsert ?r]" "last trace = FxInsert ?r"
    using 1(2,3) n(1) assms(2) by (auto simp: run_deferred_def)
  have "FxEndCall \<in> set trace \<longleftrightarrow> fin = [FxEndCall]"
    using 1(2,3) n(2) by (auto simp: run_deferred_def split: if_splits)
  also have "\<dots> \<longleftrightarrow> cr_action ?r = Some ActionEndCall"
    using 1(5) by (auto simp: a history_ok_def split: if_splits)
  finally show ?thesis
    using 1(5) i h st by (intro exI [of _ ?r]) (simp add: history_ok_def)
qed

text \<open>C7: A call gives back what it took: whichever step of the set-up or of the conversation fails, the
  session is added and removed once, the end callback runs once, before the session disappears, and
  every recording started, pipe made and source opened is stopped, removed and closed.\<close>

theorem call_cleanup:
  assumes "run_call env opts = Some (trace, err)"
  shows "count_list trace FxSessionAdd = 1 \<and> count_list trace FxSessionRemove = 1 \<and>
    count_list trace FxOnEnd = (if has_on_end opts then 1 else 0) \<and>
    count_list trace FxStopRec = count_list trace FxStartRec \<and> count_list trace FxCleanup = count_list trace FxMkfifo \<and>
    count_list trace FxSourceClose = count_list trace FxSourceOpen \<and>
    (has_on_end opts \<longrightarrow> (\<exists>xs ys. trace = xs @ FxOnEnd # ys \<and> FxSessionRemove \<in> set ys))"
  using assms
proof (cases rule: run_call_cases)
  case (1 did defers fin p)
  have o: "has_on_end (fill_run_opts (re_now env) opts) = has_on_end opts"
    by (simp add: fill_run_opts_def Let_def)
  note f = run_setup_facts [OF 1(6)]
  have z: "count_list did x = 0" "count_list defers x = 0" if "x \<notin> setup_fx" for x
    using f(1) that by (auto simp: count_list_0_iff)
  have s: "FxSessionAdd \<notin> setup_fx" "FxSessionRemove \<notin> setup_fx" "FxOnEnd \<notin> setup_fx"
    by (simp_all add: setup_fx_def)
  have fin: "count_list fin x = (if fin = [FxEndCall] \<and> x = FxEndCall then 1 else 0)" for x
    using 1(2) by auto
  have "\<exists>xs ys. trace = xs @ FxOnEnd # ys \<and> FxSessionRemove \<in> set ys" if "has_on_end opts"
  proof -
    have "trace = (FxSessionAdd # did @ fin @ defers) @ FxOnEnd # FxSessionCancel # FxSessionRemove #
        drop 3 (run_deferred env (fill_run_opts (re_now env) opts) p err)"
      using that by (simp add: 1(3) run_deferred_def o)
    then show ?thesis by (intro exI conjI) (assumption, simp)
  qed
  with f z [OF s(1)] z [OF s(2)] z [OF s(3)] fin show ?thesis
    by (auto simp: 1(3) run_deferred_def o)
qed

text \<open>A call whose context is cancelled (a hangup, a shutdown) is persisted with status \<open>ended\<close>: the
  status \<open>aborted\<close> that the schema documents is never written.\<close>

theorem aborted_never_written:
  assumes "run_call env opts = Some (trace, err)"
  shows "(\<forall>r. FxInsert r \<in> set trace \<longrightarrow> cr_status r \<noteq> ''aborted'') \<and>
    (run_setup env (fill_run_opts (re_now env) opts) = (did, defers, None) \<and>
     conversation (re_wc env) (call_conf (re_cfg env) (re_has_pool env) (fill_run_opts (re_now env) opts))
       (re_greet env) (re_turns env) = Some (p, ByCancel) \<and> re_has_store env \<longrightarrow>
     (\<exists>r. FxInsert r \<in> set trace \<and> cr_status r = ''ended''))"
proof -
  have st: "cr_status (build_call_record o' q err n) = (if err = None then ''ended'' else ''failed'')"
    if "err \<noteq> Some ErrCanceled" for o' q n
    using that by (simp add: build_call_record_def Let_def split: option.split run_err.split)
  have "cr_status r \<noteq> ''aborted''" if "FxInsert r \<in> set trace" for r
    using assms
  proof (cases rule: run_call_cases)
    case (1 did defers fin p)
    have "FxInsert r \<notin> set (did @ defers)" using 1(1) by (auto simp: setup_fx_def)
    with that 1(2,3) obtain q where "r = build_call_record (fill_run_opts (re_now env) opts) q err (re_now env)"
      by (auto simp: run_deferred_def split: if_splits)
    with st 1(4) show ?thesis by simp
  qed
  moreover have "\<exists>r. FxInsert r \<in> set trace \<and> cr_status r = ''ended''"
    if "run_setup env (fill_run_opts (re_now env) opts) = (did, defers, None)"
      "conversation (re_wc env) (call_conf (re_cfg env) (re_has_pool env) (fill_run_opts (re_now env) opts))
       (re_greet env) (re_turns env) = Some (p, ByCancel)" "re_has_store env"
  proof -
    have err: "err = None" using assms that by (simp add: run_call_def Let_def)
    then have "FxInsert (build_call_record (fill_run_opts (re_now env) opts) (Some p) err (re_now env)) \<in> set trace"
      using assms that by (auto simp: run_call_def Let_def run_deferred_def)
    with st err show ?thesis by auto
  qed
  ultimately show ?thesis by blast
qed

text \<open>An outbound call: the greeting is interrupted, then the session is cancelled.\<close>

definition demo_opts :: run_opts where
  "demo_opts = \<lparr>ro_uuid = ''u'', ro_caller = ''1'', ro_phone = [], ro_scenario = ''s'',
     ro_direction = DirectionOutbound, needs_answer = False, ro_started = 7, has_on_end = True,
     ro_bot = None, ro_asr = True, ro_tts = True, ro_botimpl = True, ro_lead_id = [], ro_gender = [], ro_name = []\<rparr>"

definition quiet_env :: speak_env where
  "quiet_env = barge_env\<lparr>e_asr := [], e_events := [EvAction False, EvAudio, EvPlaybackStop]\<rparr>"

definition demo_run :: run_env where
  "demo_run = \<lparr>re_cfg = default_cfg, re_has_store = True, re_archiver = False, re_has_pool = False,
     re_answer = None, re_record_dir = None, re_tts_dir = None, re_mkfifo = None, re_source = None,
     re_recording = None, re_greet = demo_turn\<lparr>t_speak := quiet_env\<rparr>, re_turns = [(True, demo_turn)],
     re_now = 9, re_wc = \<lambda>_. False\<rparr>"

lemma demo_greeting:
  "\<exists>p. run_greeting (call_conf default_cfg False (fill_run_opts 9 demo_opts)) (demo_turn\<lparr>t_speak := quiet_env\<rparr>)
     new_pipe = Some (p, Inr True)"
proof -
  let ?pc = "call_conf default_cfg False (fill_run_opts 9 demo_opts)"
  have pc: "\<not> sink_override ?pc" "playback_open ?pc" "has_esl ?pc" by (simp_all add: call_conf_def)
  have "speak_setup_err ?pc quiet_env = None"
    by (simp add: speak_setup_err_def lazy_sink_def pc quiet_env_def barge_env_def)
  moreover have "speak_run ?pc quiet_env speak_begin (e_events quiet_env) =
      Some \<lparr>phase = AtFinish, s_action = Some ActionChat, barge_fired = False, fx = [SinkClose]\<rparr>"
    by (simp add: quiet_env_def barge_env_def speak_defs speak_begin_def has_closer_def lazy_sink_def pc)
  ultimately have "\<exists>q. speak ?pc quiet_env p = Some (q, Inr (Some ActionChat))" for p
    by (simp add: speak_def Let_def speak_end_def)
  then obtain q where q: "speak ?pc quiet_env (new_pipe\<lparr>last_asr_final_at := None\<rparr>) = Some (q, Inr (Some ActionChat))"
    by blast
  show ?thesis
    by (simp add: run_greeting_def speak_and_record_def demo_turn_def q)
qed

lemma demo_conversation:
  "\<exists>p. conversation (re_wc demo_run) (call_conf (re_cfg demo_run) (re_has_pool demo_run)
     (fill_run_opts (re_now demo_run) demo_opts)) (re_greet demo_run) (re_turns demo_run) = Some (p, ByCancel)"
  using demo_greeting by (auto simp: conversation_def demo_run_def)

lemma demo_setup:
  "run_setup demo_run (fill_run_opts (re_now demo_run) demo_opts) =
     ([FxMkfifo, FxSourceOpen, FxStartRec], [FxStopRec, FxSourceClose, FxCleanup], None)"
  by (simp add: run_setup_def demo_run_def demo_opts_def fill_run_opts_def)

lemma demo_call: "\<exists>trace. run_call demo_run demo_opts = Some (trace, None)"
  using demo_conversation by (auto simp: run_call_def demo_setup)

theorem aborted_never_written_witness:
  "\<exists>trace r. run_call demo_run demo_opts = Some (trace, None) \<and> FxInsert r \<in> set trace \<and> cr_status r = ''ended''"
proof -
  obtain trace where t: "run_call demo_run demo_opts = Some (trace, None)" using demo_call by blast
  obtain p where "conversation (re_wc demo_run) (call_conf (re_cfg demo_run) (re_has_pool demo_run)
     (fill_run_opts (re_now demo_run) demo_opts)) (re_greet demo_run) (re_turns demo_run) = Some (p, ByCancel)"
    using demo_conversation by blast
  moreover have "re_has_store demo_run" by (simp add: demo_run_def)
  ultimately show ?thesis using aborted_never_written [OF t] demo_setup t by blast
qed

theorem call_record_faithful_witness:
  "\<exists>trace r. run_call demo_run demo_opts = Some (trace, None) \<and> filter is_insert trace = [FxInsert r] \<and>
     cr_status r = ''ended''"
proof -
  obtain trace where t: "run_call demo_run demo_opts = Some (trace, None)" using demo_call by blast
  have "re_has_store demo_run" by (simp add: demo_run_def)
  from call_record_faithful [OF t this] t show ?thesis by auto
qed

theorem call_cleanup_witness:
  "\<exists>trace. run_call demo_run demo_opts = Some (trace, None) \<and> count_list trace FxSessionRemove = 1 \<and>
     count_list trace FxOnEnd = 1"
proof -
  obtain trace where t: "run_call demo_run demo_opts = Some (trace, None)" using demo_call by blast
  have "has_on_end demo_opts" by (simp add: demo_opts_def)
  with call_cleanup [OF t] t show ?thesis by auto
qed

end
