(* ===== verification/Store.thy ===== *)
theory Store
  imports SessionRunner "HOL-Library.List_Lexorder" "HOL-Library.Char_ord"
begin

text \<open>
  \<open>internal/store\<close>: the tables behind the operations API and the queries on them, with the
  constraints of \<open>internal/store/migrations\<close>.  A query may fail for a reason of its own (network,
  pool, time-out): \<open>faults\<close> holds the outcome of the coming queries, one entry for each, and none
  once it is empty.  Ids the database generates and its clock are arguments.
\<close>

section \<open>Tables\<close>

record tenant =
  t_id :: uuid
  t_slug :: gostring
  t_name :: gostring
  t_enabled :: bool

record user =
  u_id :: uuid
  u_name :: gostring
  u_hash :: gostring
  u_role :: gostring
  u_tenant :: "uuid option"
  u_enabled :: bool
  u_evaluator :: bool
  u_bot_admin :: bool
  u_last_login :: "time option"

record bot_row =
  r_bot :: bot_config
  r_deleted :: bool

record did_row =
  d_did :: gostring
  d_bot :: uuid
  d_note :: gostring
  d_created :: time

record call_row =
  c_rec :: call_record
  c_recording :: gostring

record qc_row =
  q_id :: uuid
  q_call :: gostring
  q_tenant :: uuid
  q_evaluator :: uuid
  q_verdict :: gostring
  q_reason :: gostring
  q_created :: time
  q_updated :: time
  q_updated_by :: "uuid option"

text \<open>An audit entry; \<open>a_tenant\<close> is the scope it is listed under, \<open>a_ip\<close> the address as the request gave it.\<close>

record audit_entry =
  a_tenant :: "uuid option"
  a_actor :: "uuid option"
  a_name :: gostring
  a_role :: gostring
  a_action :: gostring
  a_entity :: gostring
  a_target :: gostring
  a_ip :: gostring
  a_agent :: gostring
  a_created :: time

text \<open>A session's address may be NULL; the other optional texts are read as the empty string.\<close>

record web_session =
  ws_id :: uuid
  ws_bot :: uuid
  ws_tenant :: uuid
  ws_channel :: gostring
  ws_iat :: "time option"
  ws_ip :: "gostring option"
  ws_agent :: gostring
  ws_started :: time
  ws_ended :: "time option"
  ws_status :: gostring
  ws_total :: nat
  ws_dir :: gostring
  ws_error :: gostring

record web_turn =
  wt_session :: uuid
  wt_idx :: nat
  wt_role :: gostring
  wt_text :: gostring
  wt_audio :: gostring
  wt_asr_partial :: "time option"
  wt_asr_final :: "time option"
  wt_first_byte :: "time option"
  wt_bot_done :: "time option"
  wt_tts_first :: "time option"
  wt_tts_done :: "time option"
  wt_action :: gostring

record db =
  faults :: "gostring option list"
  tenants :: "tenant list"
  users :: "user list"
  bots :: "bot_row list"
  dids :: "did_row list"
  calls :: "call_row list"
  qcs :: "qc_row list"
  web_sessions :: "web_session list"
  web_turns :: "web_turn list"
  audit_queue :: "audit_entry list"
  audit_log :: "audit_entry list"

text \<open>SQLSTATE 23505, 23514 and 23503, the sentinels of the package, and everything else.\<close>

datatype db_err =
  UniqueViolation | CheckViolation | FkViolation | QueryErr gostring
| VersionMismatch | DidTaken | SlugTaken | NotFound | TenantHasDependents | LastAdmin | ReasonRequired

type_synonym 'a query = "db \<Rightarrow> (db_err + 'a) \<times> db"

text \<open>One query: it fails, leaving the tables alone, or runs.\<close>

definition run_query :: "'a query \<Rightarrow> 'a query" where
  "run_query f d =
     (case faults d of
        [] \<Rightarrow> f d
      | None # fs \<Rightarrow> f (d\<lparr>faults := fs\<rparr>)
      | Some e # fs \<Rightarrow> (Inl (QueryErr e), d\<lparr>faults := fs\<rparr>))"

definition fetch :: "(db \<Rightarrow> 'a) \<Rightarrow> 'a query" where
  "fetch f = run_query (\<lambda>d. (Inr (f d), d))"

definition first_row :: "('a \<Rightarrow> bool) \<Rightarrow> 'a list \<Rightarrow> 'a option" where
  "first_row P xs = (case filter P xs of [] \<Rightarrow> None | x # _ \<Rightarrow> Some x)"

text \<open>What a query does to the database, the faults apart.\<close>

definition tables :: "db \<Rightarrow> db" where
  "tables d = d\<lparr>faults := []\<rparr>"

section \<open>Tenants\<close>

definition get_tenant_by_slug :: "gostring \<Rightarrow> tenant option query" where
  "get_tenant_by_slug s = fetch (\<lambda>d. first_row (\<lambda>t. t_slug t = s) (tenants d))"

definition get_tenant_by_id :: "uuid \<Rightarrow> tenant option query" where
  "get_tenant_by_id i = fetch (\<lambda>d. first_row (\<lambda>t. t_id t = i) (tenants d))"

definition list_tenants :: "tenant list query" where
  "list_tenants = fetch (\<lambda>d. sort_key t_slug (tenants d))"

text \<open>\<open>^[a-z0-9][a-z0-9-]{1,n}[a-z0-9]$\<close>.\<close>

definition slug_char :: "char \<Rightarrow> bool" where
  "slug_char c \<longleftrightarrow> (CHR ''a'' \<le> c \<and> c \<le> CHR ''z'') \<or> (CHR ''0'' \<le> c \<and> c \<le> CHR ''9'')"

definition slug_ok :: "nat \<Rightarrow> gostring \<Rightarrow> bool" where
  "slug_ok n s \<longleftrightarrow> 3 \<le> length s \<and> length s \<le> n + 2 \<and> slug_char (hd s) \<and> slug_char (last s) \<and>
     (\<forall>c\<in>set s. slug_char c \<or> c = CHR ''-'')"

definition create_tenant :: "uuid \<Rightarrow> gostring \<Rightarrow> gostring \<Rightarrow> uuid query" where
  "create_tenant fresh s n = run_query (\<lambda>d.
     if \<not> slug_ok 30 s then (Inl CheckViolation, d)
     else if s \<in> t_slug ` set (tenants d) then (Inl SlugTaken, d)
     else (Inr fresh, d\<lparr>tenants := tenants d @ [\<lparr>t_id = fresh, t_slug = s, t_name = n, t_enabled = True\<rparr>]\<rparr>))"

definition update_tenant :: "uuid \<Rightarrow> gostring \<Rightarrow> bool \<Rightarrow> unit query" where
  "update_tenant i n en = run_query (\<lambda>d.
     if i \<notin> t_id ` set (tenants d) then (Inl NotFound, d)
     else (Inr (), d\<lparr>tenants := map (\<lambda>t. if t_id t = i then t\<lparr>t_name := n, t_enabled := en\<rparr> else t) (tenants d)\<rparr>))"

text \<open>Bots, users, calls and evaluations restrict the deletion of their tenant.\<close>

definition tenant_used :: "uuid \<Rightarrow> db \<Rightarrow> bool" where
  "tenant_used i d \<longleftrightarrow>
     i \<in> (b_tenant \<circ> r_bot) ` set (bots d) \<or> Some i \<in> u_tenant ` set (users d) \<or>
     Some i \<in> (cr_tenant \<circ> c_rec) ` set (calls d) \<or> i \<in> q_tenant ` set (qcs d)"

definition delete_tenant :: "uuid \<Rightarrow> unit query" where
  "delete_tenant i = run_query (\<lambda>d.
     if i \<notin> t_id ` set (tenants d) then (Inl NotFound, d)
     else if tenant_used i d then (Inl TenantHasDependents, d)
     else (Inr (), d\<lparr>tenants := filter (\<lambda>t. t_id t \<noteq> i) (tenants d)\<rparr>))"

section \<open>Users\<close>

definition get_user_by_name :: "gostring \<Rightarrow> user option query" where
  "get_user_by_name n = fetch (\<lambda>d. first_row (\<lambda>u. u_name u = n) (users d))"

definition get_user_by_id :: "uuid \<Rightarrow> user option query" where
  "get_user_by_id i = fetch (\<lambda>d. first_row (\<lambda>u. u_id u = i) (users d))"

text \<open>Characters of valid UTF-8: the bytes that do not continue one.\<close>

definition char_count :: "gostring \<Rightarrow> nat" where
  "char_count s = length (filter (\<lambda>c. \<not> (128 \<le> (of_char c :: nat) \<and> (of_char c :: nat) < 192)) s)"

definition upsert_platform_admin :: "uuid \<Rightarrow> gostring \<Rightarrow> gostring \<Rightarrow> unit query" where
  "upsert_platform_admin fresh n h = run_query (\<lambda>d.
     if char_count n < 3 \<or> 64 < char_count n then (Inl CheckViolation, d)
     else if n \<in> u_name ` set (users d) then
       (Inr (), d\<lparr>users := map (\<lambda>u. if u_name u = n
          then u\<lparr>u_hash := h, u_role := ''platform_admin'', u_tenant := None, u_enabled := True\<rparr> else u) (users d)\<rparr>)
     else (Inr (), d\<lparr>users := users d @ [\<lparr>u_id = fresh, u_name = n, u_hash = h, u_role = ''platform_admin'',
             u_tenant = None, u_enabled = True, u_evaluator = False, u_bot_admin = True, u_last_login = None\<rparr>]\<rparr>))"

definition create_tenant_user :: "uuid \<Rightarrow> gostring \<Rightarrow> gostring \<Rightarrow> uuid \<Rightarrow> uuid query" where
  "create_tenant_user fresh n h tid = run_query (\<lambda>d.
     if char_count n < 3 \<or> 64 < char_count n then (Inl CheckViolation, d)
     else if n \<in> u_name ` set (users d) then (Inl UniqueViolation, d)
     else if tid \<notin> t_id ` set (tenants d) then (Inl FkViolation, d)
     else (Inr fresh, d\<lparr>users := users d @ [\<lparr>u_id = fresh, u_name = n, u_hash = h, u_role = ''tenant_user'',
             u_tenant = Some tid, u_enabled = True, u_evaluator = False, u_bot_admin = True, u_last_login = None\<rparr>]\<rparr>))"

definition set_users :: "uuid \<Rightarrow> (user \<Rightarrow> user) \<Rightarrow> db \<Rightarrow> db" where
  "set_users i f d = d\<lparr>users := map (\<lambda>u. if u_id u = i then f u else u) (users d)\<rparr>"

definition update_user_password :: "uuid \<Rightarrow> gostring \<Rightarrow> unit query" where
  "update_user_password i h = run_query (\<lambda>d. (Inr (), set_users i (\<lambda>u. u\<lparr>u_hash := h\<rparr>) d))"

text \<open>\<open>MarkLogin\<close> ignores its error.\<close>

definition mark_login :: "time \<Rightarrow> uuid \<Rightarrow> db \<Rightarrow> db" where
  "mark_login now i d = snd (run_query (\<lambda>d. (Inr (), set_users i (\<lambda>u. u\<lparr>u_last_login := Some now\<rparr>) d)) d)"

definition list_users :: "uuid option \<Rightarrow> user list query" where
  "list_users scope = fetch (\<lambda>d.
     sort_key u_role (sort_key u_name
       (filter (\<lambda>u. case scope of None \<Rightarrow> True | Some t \<Rightarrow> u_tenant u = Some t \<or> u_role u = ''platform_admin'') (users d))))"

definition update_user :: "uuid \<Rightarrow> (user \<Rightarrow> user) \<Rightarrow> unit query" where
  "update_user i f = run_query (\<lambda>d.
     if i \<notin> u_id ` set (users d) then (Inl NotFound, d) else (Inr (), set_users i f d))"

definition update_user_enabled :: "uuid \<Rightarrow> bool \<Rightarrow> unit query" where
  "update_user_enabled i b = update_user i (\<lambda>u. u\<lparr>u_enabled := b\<rparr>)"

definition set_user_evaluator :: "uuid \<Rightarrow> bool \<Rightarrow> unit query" where
  "set_user_evaluator i b = update_user i (\<lambda>u. u\<lparr>u_evaluator := b\<rparr>)"

definition set_user_bot_admin :: "uuid \<Rightarrow> bool \<Rightarrow> unit query" where
  "set_user_bot_admin i b = update_user i (\<lambda>u. u\<lparr>u_bot_admin := b\<rparr>)"

definition admins :: "db \<Rightarrow> user list" where
  "admins d = filter (\<lambda>u. u_role u = ''platform_admin'') (users d)"

text \<open>
  \<open>DeleteUser\<close>, one transaction.  Evaluations restrict the deletion of the users they name.
\<close>

definition delete_user :: "uuid \<Rightarrow> unit query" where
  "delete_user i = run_query (\<lambda>d.
     case first_row (\<lambda>u. u_id u = i) (users d) of
       None \<Rightarrow> (Inl NotFound, d)
     | Some u \<Rightarrow>
        if u_role u = ''platform_admin'' \<and> length (admins d) \<le> 1 then (Inl LastAdmin, d)
        else if \<exists>q\<in>set (qcs d). q_evaluator q = i \<or> q_updated_by q = Some i then (Inl FkViolation, d)
        else (Inr (), d\<lparr>users := filter (\<lambda>u. u_id u \<noteq> i) (users d)\<rparr>))"

section \<open>Lemmas\<close>

lemma run_query_cases:
  assumes "run_query f d = (r, d')"
  obtains (fault) e fs where "r = Inl (QueryErr e)" "d' = d\<lparr>faults := fs\<rparr>"
  | (runs) fs where "f (d\<lparr>faults := fs\<rparr>) = (r, d')"
proof (cases "faults d")
  case Nil
  have "d\<lparr>faults := faults d\<rparr> = d" by simp
  then have "f (d\<lparr>faults := faults d\<rparr>) = (r, d')" using Nil assms by (simp only:) (simp add: run_query_def)
  then show thesis by (rule runs)
next
  case (Cons x fs)
  then show thesis using assms fault [of _ fs] runs [of fs]
    by (cases x) (auto simp: run_query_def)
qed

lemma fetch_tables: "fetch f d = (r, d') \<Longrightarrow> tables d' = tables d"
  unfolding fetch_def by (erule run_query_cases) (auto simp: tables_def)

lemma fetch_no_fault: "faults d = [] \<Longrightarrow> fetch f d = (Inr (f d), d)"
  by (simp add: fetch_def run_query_def)

lemma fetch_frame: "fetch f d = (r, d') \<Longrightarrow> \<exists>fs. d' = d\<lparr>faults := fs\<rparr>"
  unfolding fetch_def by (erule run_query_cases) auto

text \<open>What a successful read returns, when the faults are not what it looks at.\<close>

lemma fetch_ok:
  assumes "fetch f d = (Inr x, d')" "\<And>fs. f (d\<lparr>faults := fs\<rparr>) = f d"
  shows "x = f d"
  using assms unfolding fetch_def by (auto elim: run_query_cases)

lemma tables_fields [simp]:
  "tenants (tables d) = tenants d" "users (tables d) = users d" "bots (tables d) = bots d"
  "dids (tables d) = dids d" "calls (tables d) = calls d" "qcs (tables d) = qcs d"
  "web_sessions (tables d) = web_sessions d" "web_turns (tables d) = web_turns d"
  "audit_queue (tables d) = audit_queue d" "audit_log (tables d) = audit_log d"
  by (simp_all add: tables_def)

lemma tables_faults [simp]: "tables (d\<lparr>faults := fs\<rparr>) = tables d"
  by (simp add: tables_def)

lemma first_row_SomeD: "first_row P xs = Some x \<Longrightarrow> x \<in> set xs \<and> P x"
  by (auto simp: first_row_def dest: filter_eq_ConsD split: list.splits)

lemma first_row_None: "first_row P xs = None \<longleftrightarrow> (\<forall>x\<in>set xs. \<not> P x)"
  by (induction xs) (auto simp: first_row_def)

text \<open>At least one administrator stays: what \<open>DeleteUser\<close> is for.\<close>

lemma delete_user_keeps_admin:
  assumes "delete_user i d = (r, d')" "admins d \<noteq> []" "distinct (map u_id (users d))"
  shows "admins d' \<noteq> []"
proof -
  have *: "admins (e\<lparr>users := filter (\<lambda>u. u_id u \<noteq> i) (users e)\<rparr>) \<noteq> []"
    if "users e = users d" "first_row (\<lambda>u. u_id u = i) (users e) = Some u"
      "\<not> (u_role u = ''platform_admin'' \<and> length (admins e) \<le> 1)" for e u
  proof -
    from that have u: "u \<in> set (users d)" "u_id u = i" by (auto dest: first_row_SomeD)
    have adm: "admins e = admins d" using that by (simp add: admins_def)
    obtain a where a: "a \<in> set (admins d)" "u_id a \<noteq> i"
    proof (cases "u_role u = ''platform_admin''")
      case False
      obtain a where "a \<in> set (admins d)" using \<open>admins d \<noteq> []\<close> by (cases "admins d") auto
      moreover from this have "a \<noteq> u" using False by (auto simp: admins_def)
      ultimately show thesis using that assms(3) u unfolding admins_def
        by (auto simp: distinct_map inj_on_def)
    next
      case True
      with \<open>\<not> (_ \<and> _)\<close> adm have "1 < length (admins d)" by simp
      moreover have "distinct (admins d)" using assms(3) by (simp add: admins_def distinct_map)
      ultimately obtain a b where "a \<in> set (admins d)" "b \<in> set (admins d)" "a \<noteq> b"
        by (metis One_nat_def Suc_lessD nth_eq_iff_index_eq nth_mem zero_less_one less_numeral_extra(4))
      moreover from this have "u_id a \<noteq> u_id b" using assms(3) unfolding admins_def
        by (auto simp: distinct_map inj_on_def)
      ultimately show thesis using that by metis
    qed
    with \<open>users e = users d\<close> have "a \<in> set (admins (e\<lparr>users := filter (\<lambda>u. u_id u \<noteq> i) (users e)\<rparr>))"
      by (simp add: admins_def)
    then show ?thesis by (metis empty_iff list.set(1))
  qed
  from assms(1) show ?thesis unfolding delete_user_def
  proof (cases rule: run_query_cases)
    case (fault e fs)
    with assms(2) show ?thesis by (simp add: admins_def)
  next
    case (runs fs)
    then show ?thesis using assms(2) * [of "d\<lparr>faults := fs\<rparr>"]
      by (auto simp: admins_def split: option.splits if_splits)
  qed
qed

end
