(* ===== verification/BotStore.thy ===== *)
theory BotStore
  imports Store
begin

text \<open>
  \<open>internal/store/bots.go\<close>: bot configurations and the numbers (DIDs) routed to them.  Optional
  text columns hold the empty string for NULL, as the queries read them.
\<close>

section \<open>Reading bots\<close>

text \<open>The join with the tenant supplies its slug.\<close>

definition scan_bot :: "db \<Rightarrow> bot_row \<Rightarrow> bot_config option" where
  "scan_bot d r =
     map_option (\<lambda>t. (r_bot r)\<lparr>b_tenant_slug := t_slug t\<rparr>)
       (first_row (\<lambda>t. t_id t = b_tenant (r_bot r)) (tenants d))"

definition tenant_on :: "db \<Rightarrow> uuid \<Rightarrow> bool" where
  "tenant_on d i \<longleftrightarrow> (\<exists>t\<in>set (tenants d). t_id t = i \<and> t_enabled t)"

definition live_bot :: "db \<Rightarrow> uuid \<Rightarrow> bot_row option" where
  "live_bot d i = first_row (\<lambda>r. b_id (r_bot r) = i \<and> \<not> r_deleted r) (bots d)"

definition get_bot_by_did :: "gostring \<Rightarrow> bot_config option query" where
  "get_bot_by_did did = fetch (\<lambda>d.
     Option.bind (first_row (\<lambda>x. d_did x = did) (dids d)) (\<lambda>x.
     Option.bind (live_bot d (d_bot x)) (\<lambda>r.
       if b_enabled (r_bot r) \<and> tenant_on d (b_tenant (r_bot r)) then scan_bot d r else None)))"

definition get_bot_by_id :: "uuid \<Rightarrow> bot_config option query" where
  "get_bot_by_id i = fetch (\<lambda>d. Option.bind (live_bot d i) (scan_bot d))"

definition get_bot_by_slug :: "uuid \<Rightarrow> gostring \<Rightarrow> bot_config option query" where
  "get_bot_by_slug tid s = fetch (\<lambda>d.
     Option.bind (first_row (\<lambda>r. b_tenant (r_bot r) = tid \<and> b_slug (r_bot r) = s \<and> \<not> r_deleted r) (bots d)) (scan_bot d))"

definition list_bots :: "uuid option \<Rightarrow> bot_config list query" where
  "list_bots scope = fetch (\<lambda>d.
     sort_key b_tenant_slug (sort_key b_slug
       (List.map_filter (scan_bot d)
         (filter (\<lambda>r. \<not> r_deleted r \<and> (case scope of None \<Rightarrow> True | Some t \<Rightarrow> b_tenant (r_bot r) = t)) (bots d)))))"

definition count_bots :: "nat query" where
  "count_bots = fetch (\<lambda>d. length (filter (\<lambda>r. \<not> r_deleted r) (bots d)))"

section \<open>Writing bots\<close>

record bot_write =
  w_tenant :: uuid
  w_slug :: gostring
  w_name :: gostring
  w_enabled :: bool
  w_url :: gostring
  w_first_byte_ms :: int
  w_total_ms :: int
  w_asr_provider :: gostring
  w_asr_endpoint :: gostring
  w_asr_token :: gostring
  w_replace_asr :: bool
  w_tts_provider :: gostring
  w_tts_endpoint :: gostring
  w_tts_token :: gostring
  w_replace_tts :: bool
  w_voice :: gostring
  w_tempo :: real
  w_silence_sec :: real
  w_speech_sec :: real
  w_max_sec :: real
  w_single :: bool
  w_bargein :: bool
  w_min_words :: int
  w_filler :: bool
  w_filler_mode :: gostring
  w_intent_url :: gostring
  w_intent_ms :: int
  w_prefix :: gostring
  w_actor :: "uuid option"

text \<open>The CHECK constraints of the table.\<close>

definition providers :: "gostring set" where
  "providers = {''viettel'', ''google'', ''azure''}"

definition bot_check :: "bot_config \<Rightarrow> bool" where
  "bot_check b \<longleftrightarrow>
     slug_ok 40 (b_slug b) \<and>
     100 \<le> bot_first_byte_ms b \<and> bot_first_byte_ms b \<le> 60000 \<and>
     1000 \<le> bot_total_ms b \<and> bot_total_ms b \<le> 300000 \<and>
     asr_provider b \<in> providers \<and> tts_provider b \<in> providers \<and>
     1 / 2 \<le> tts_tempo b \<and> tts_tempo b \<le> 2 \<and>
     1 / 10 \<le> asr_silence_sec b \<and> asr_silence_sec b \<le> 60 \<and>
     1 / 10 \<le> asr_speech_sec b \<and> asr_speech_sec b \<le> 60 \<and>
     1 \<le> asr_max_sec b \<and> asr_max_sec b \<le> 600 \<and>
     1 \<le> bargein_min_words b \<and> bargein_min_words b \<le> 20 \<and>
     filler_mode b \<in> {''short'', ''hybrid''} \<and>
     50 \<le> filler_intent_ms b \<and> filler_intent_ms b \<le> 5000"

definition fill_mode :: "gostring \<Rightarrow> gostring" where
  "fill_mode m = (if m = [] then ''short'' else m)"

definition fill_intent_ms :: "int \<Rightarrow> int" where
  "fill_intent_ms n = (if n = 0 then 1500 else n)"

text \<open>The row of an INSERT.\<close>

definition new_bot :: "uuid \<Rightarrow> time \<Rightarrow> bot_write \<Rightarrow> bot_config" where
  "new_bot fresh now w =
     \<lparr>b_id = fresh, b_tenant = w_tenant w, b_tenant_slug = [], b_slug = w_slug w, b_name = w_name w,
      b_enabled = w_enabled w, bot_url = w_url w, bot_first_byte_ms = w_first_byte_ms w,
      bot_total_ms = w_total_ms w, asr_provider = w_asr_provider w, asr_endpoint = w_asr_endpoint w,
      asr_token = w_asr_token w, tts_provider = w_tts_provider w, tts_endpoint = w_tts_endpoint w,
      tts_token = w_tts_token w, tts_voice_id = w_voice w, tts_tempo = w_tempo w,
      asr_silence_sec = w_silence_sec w, asr_speech_sec = w_speech_sec w, asr_max_sec = w_max_sec w,
      asr_single = w_single w, bargein_enabled = w_bargein w, bargein_min_words = w_min_words w,
      filler_enabled_b = w_filler w, filler_mode = fill_mode (w_filler_mode w),
      filler_intent_url = w_intent_url w, filler_intent_ms = fill_intent_ms (w_intent_ms w),
      outbound_prefix = w_prefix w, b_version = 1, b_created = now, b_updated = now\<rparr>"

text \<open>Slugs are unique within a tenant, deleted bots included.\<close>

definition slug_taken :: "db \<Rightarrow> uuid \<Rightarrow> uuid \<Rightarrow> gostring \<Rightarrow> bool" where
  "slug_taken d self tid s \<longleftrightarrow>
     (\<exists>r\<in>set (bots d). b_id (r_bot r) \<noteq> self \<and> b_tenant (r_bot r) = tid \<and> b_slug (r_bot r) = s)"

definition create_bot :: "uuid \<Rightarrow> time \<Rightarrow> bot_write \<Rightarrow> uuid query" where
  "create_bot fresh now w = run_query (\<lambda>d.
     let b = new_bot fresh now w in
     if \<not> bot_check b then (Inl CheckViolation, d)
     else if slug_taken d fresh (w_tenant w) (w_slug w) then (Inl UniqueViolation, d)
     else if w_tenant w \<notin> t_id ` set (tenants d) then (Inl FkViolation, d)
     else (Inr fresh, d\<lparr>bots := bots d @ [\<lparr>r_bot = b, r_deleted = False\<rparr>]\<rparr>))"

text \<open>The SET list of \<open>UpdateBot\<close>; a trigger stamps \<open>updated_at\<close>.\<close>

definition apply_update :: "time \<Rightarrow> bot_write \<Rightarrow> bot_config \<Rightarrow> bot_config" where
  "apply_update now w b =
     b\<lparr>b_slug := w_slug w, b_name := w_name w, b_enabled := w_enabled w, bot_url := w_url w,
       bot_first_byte_ms := w_first_byte_ms w, bot_total_ms := w_total_ms w,
       asr_provider := w_asr_provider w, asr_endpoint := w_asr_endpoint w,
       asr_token := (if w_replace_asr w then w_asr_token w else asr_token b),
       tts_provider := w_tts_provider w, tts_endpoint := w_tts_endpoint w,
       tts_token := (if w_replace_tts w then w_tts_token w else tts_token b),
       tts_voice_id := w_voice w, tts_tempo := w_tempo w, asr_silence_sec := w_silence_sec w,
       asr_speech_sec := w_speech_sec w, asr_max_sec := w_max_sec w, asr_single := w_single w,
       bargein_enabled := w_bargein w, bargein_min_words := w_min_words w,
       filler_enabled_b := w_filler w, filler_mode := fill_mode (w_filler_mode w),
       filler_intent_url := w_intent_url w, filler_intent_ms := fill_intent_ms (w_intent_ms w),
       outbound_prefix := w_prefix w, b_version := b_version b + 1, b_updated := now\<rparr>"

definition update_match :: "uuid \<Rightarrow> int \<Rightarrow> bot_row \<Rightarrow> bool" where
  "update_match i v r \<longleftrightarrow> b_id (r_bot r) = i \<and> b_version (r_bot r) = v \<and> \<not> r_deleted r"

definition update_bot :: "time \<Rightarrow> uuid \<Rightarrow> bot_write \<Rightarrow> int \<Rightarrow> unit query" where
  "update_bot now i w v = run_query (\<lambda>d.
     case first_row (update_match i v) (bots d) of
       None \<Rightarrow> (Inl VersionMismatch, d)
     | Some r \<Rightarrow>
        if \<not> bot_check (apply_update now w (r_bot r)) then (Inl CheckViolation, d)
        else if slug_taken d i (b_tenant (r_bot r)) (w_slug w) then (Inl UniqueViolation, d)
        else (Inr (), d\<lparr>bots := map (\<lambda>r. if update_match i v r then r\<lparr>r_bot := apply_update now w (r_bot r)\<rparr> else r) (bots d)\<rparr>))"

definition soft_delete_bot :: "uuid \<Rightarrow> unit query" where
  "soft_delete_bot i = run_query (\<lambda>d.
     (Inr (), d\<lparr>bots := map (\<lambda>r. if b_id (r_bot r) = i then r\<lparr>r_deleted := True\<rparr> else r) (bots d)\<rparr>))"

section \<open>Numbers\<close>

definition did_ok :: "gostring \<Rightarrow> bool" where
  "did_ok s \<longleftrightarrow> 3 \<le> length s \<and> length s \<le> 32 \<and>
     (\<forall>c\<in>set s. (CHR ''0'' \<le> c \<and> c \<le> CHR ''9'') \<or> c = CHR ''+'' \<or> c = CHR ''*'' \<or> c = CHR ''#'')"

definition add_did :: "time \<Rightarrow> gostring \<Rightarrow> uuid \<Rightarrow> gostring \<Rightarrow> unit query" where
  "add_did now did i note = run_query (\<lambda>d.
     if \<not> did_ok did then (Inl CheckViolation, d)
     else if did \<in> d_did ` set (dids d) then (Inl DidTaken, d)
     else if i \<notin> (b_id \<circ> r_bot) ` set (bots d) then (Inl FkViolation, d)
     else (Inr (), d\<lparr>dids := dids d @ [\<lparr>d_did = did, d_bot = i, d_note = note, d_created = now\<rparr>]\<rparr>))"

definition remove_did :: "gostring \<Rightarrow> unit query" where
  "remove_did did = run_query (\<lambda>d. (Inr (), d\<lparr>dids := filter (\<lambda>x. d_did x \<noteq> did) (dids d)\<rparr>))"

definition list_dids :: "uuid \<Rightarrow> did_row list query" where
  "list_dids i = fetch (\<lambda>d. sort_key d_created (filter (\<lambda>x. d_bot x = i) (dids d)))"

section \<open>Lemmas\<close>

lemma scan_botD: "scan_bot d r = Some b \<Longrightarrow> \<exists>s. b = (r_bot r)\<lparr>b_tenant_slug := s\<rparr>"
  by (auto simp: scan_bot_def)

lemma scan_bot_fields:
  assumes "scan_bot d r = Some b"
  shows "b_id b = b_id (r_bot r)" "b_tenant b = b_tenant (r_bot r)" "b_enabled b = b_enabled (r_bot r)"
    "b_version b = b_version (r_bot r)" "b_slug b = b_slug (r_bot r)"
  using scan_botD [OF assms] by auto

lemma live_botD: "live_bot d i = Some r \<Longrightarrow> r \<in> set (bots d) \<and> b_id (r_bot r) = i \<and> \<not> r_deleted r"
  unfolding live_bot_def by (auto dest: first_row_SomeD)

text \<open>A number reaches a bot only while the bot is live and enabled and its tenant enabled.\<close>

lemma scan_bot_tables [simp]: "scan_bot (d\<lparr>faults := fs\<rparr>) = scan_bot d"
  by (simp add: scan_bot_def fun_eq_iff)

lemma live_bot_tables [simp]: "live_bot (d\<lparr>faults := fs\<rparr>) = live_bot d"
  by (simp add: live_bot_def fun_eq_iff)

lemma get_bot_by_id_live:
  assumes "get_bot_by_id i d = (Inr (Some b), d')"
  shows "\<exists>r. live_bot d i = Some r \<and> scan_bot d r = Some b"
  using fetch_ok [OF assms [unfolded get_bot_by_id_def]] by (cases "live_bot d i") auto

lemma set_list_bots:
  assumes "list_bots scope d = (Inr bs, d')" "b \<in> set bs"
  shows "\<exists>r\<in>set (bots d). \<not> r_deleted r \<and> (\<forall>t. scope = Some t \<longrightarrow> b_tenant (r_bot r) = t) \<and> scan_bot d r = Some b"
proof -
  have "bs = sort_key b_tenant_slug (sort_key b_slug (List.map_filter (scan_bot d)
      (filter (\<lambda>r. \<not> r_deleted r \<and> (case scope of None \<Rightarrow> True | Some t \<Rightarrow> b_tenant (r_bot r) = t)) (bots d))))"
    by (rule fetch_ok [OF assms(1) [unfolded list_bots_def]]) simp
  with assms(2) obtain r where "r \<in> set (bots d)" "\<not> r_deleted r" "scan_bot d r = Some b"
    "case scope of None \<Rightarrow> True | Some t \<Rightarrow> b_tenant (r_bot r) = t"
    by (auto simp: set_map_filter)
  then show ?thesis by (auto split: option.splits)
qed

end
