(* ===== verification/Auth.thy ===== *)
theory Auth
  imports GoStrings
begin

text \<open>
  \<open>internal/auth\<close> and the gate of \<open>internal/api/router.go\<close>: session, call-share and bot-share
  tokens, identities, and which requests reach the handlers.  The JWT library is not part of the
  repository: \<open>sign\<close> and \<open>verify\<close> are parameters (\<open>verify now secret raw\<close>), as is the parser \<open>up\<close> of
  UUIDs.  A token's JSON claims are one record over the keys of the three claim types, an absent
  key being its zero value.
\<close>

section \<open>Claims\<close>

record payload =
  j_sub :: gostring
  j_usr :: gostring
  j_rol :: gostring
  j_tid :: "gostring option"
  j_qce :: bool
  j_bba :: bool
  j_chn :: gostring
  j_iss :: gostring
  j_iat :: "time option"
  j_exp :: "time option"

type_synonym signer = "gostring \<Rightarrow> payload \<Rightarrow> gostring result"
type_synonym verifier = "time \<Rightarrow> gostring \<Rightarrow> gostring \<Rightarrow> payload result"
type_synonym uuid_parser = "gostring \<Rightarrow> uuid option"

text \<open>\<open>jwt.NewNumericDate\<close> keeps whole seconds.\<close>

definition num_date :: "time \<Rightarrow> time" where
  "num_date t = t - t mod 1000000000"

text \<open>
  What the code relies on: a token that was signed verifies under the same secret, and gives back
  its claims, exactly while its expiry lies ahead.
\<close>

definition jwt_laws :: "signer \<Rightarrow> verifier \<Rightarrow> bool" where
  "jwt_laws sign verify \<longleftrightarrow>
     (\<forall>s p tok now e. sign s p = Inr tok \<and> j_exp p = Some e \<longrightarrow>
        (now < e \<longrightarrow> verify now s tok = Inr p) \<and> (e \<le> now \<longrightarrow> (\<exists>m. verify now s tok = Inl m)))"

section \<open>Session tokens\<close>

record issuer =
  iss_secret :: gostring
  iss_ttl :: duration

definition new_issuer :: "gostring \<Rightarrow> duration \<Rightarrow> issuer result" where
  "new_issuer sec ttl =
     (if length sec < 32 then Inl ''jwt secret must be at least 32 chars''
      else Inr \<lparr>iss_secret = sec, iss_ttl = (if ttl \<le> 0 then 12 * 3600 * 1000000000 else ttl)\<rparr>)"

text \<open>\<open>Identity\<close>; \<open>Claims\<close> has the same fields.\<close>

record identity =
  i_user :: uuid
  i_name :: gostring
  i_role :: gostring
  i_tenant :: "uuid option"
  i_evaluator :: bool
  i_bot_admin :: bool

definition session_payload :: "issuer \<Rightarrow> time \<Rightarrow> identity \<Rightarrow> payload" where
  "session_payload iss now i =
     \<lparr>j_sub = i_user i, j_usr = i_name i, j_rol = i_role i, j_tid = i_tenant i,
      j_qce = i_evaluator i, j_bba = i_bot_admin i, j_chn = [], j_iss = ''callbot-master'',
      j_iat = Some (num_date now), j_exp = Some (num_date (now + iss_ttl iss))\<rparr>"

definition issue :: "signer \<Rightarrow> issuer \<Rightarrow> time \<Rightarrow> identity \<Rightarrow> (gostring \<times> time) result" where
  "issue sign iss now i =
     (case sign (iss_secret iss) (session_payload iss now i) of
        Inl e \<Rightarrow> Inl (''sign jwt: '' @ e)
      | Inr tok \<Rightarrow> Inr (tok, now + iss_ttl iss))"

text \<open>Decoding the claims: the two ids must be UUIDs.\<close>

definition decode_claims :: "uuid_parser \<Rightarrow> payload \<Rightarrow> identity result" where
  "decode_claims up p =
     (case up (j_sub p) of
        None \<Rightarrow> Inl ''invalid token''
      | Some u \<Rightarrow>
         (let i = \<lparr>i_user = u, i_name = j_usr p, i_role = j_rol p, i_tenant = None,
                   i_evaluator = j_qce p, i_bot_admin = j_bba p\<rparr> in
          case j_tid p of
            None \<Rightarrow> Inr i
          | Some t \<Rightarrow> (case up t of None \<Rightarrow> Inl ''invalid token'' | Some t' \<Rightarrow> Inr (i\<lparr>i_tenant := Some t'\<rparr>))))"

definition parse_session :: "verifier \<Rightarrow> uuid_parser \<Rightarrow> issuer \<Rightarrow> time \<Rightarrow> gostring \<Rightarrow> identity result" where
  "parse_session verify up iss now raw =
     (case verify now (iss_secret iss) raw of Inl e \<Rightarrow> Inl e | Inr p \<Rightarrow> decode_claims up p)"

section \<open>Share tokens\<close>

definition week :: duration where "week = 7 * 24 * 3600 * 1000000000"

definition share_ttl_or_week :: "duration \<Rightarrow> duration" where
  "share_ttl_or_week ttl = (if ttl \<le> 0 then week else ttl)"

definition blank_payload :: "gostring \<Rightarrow> gostring \<Rightarrow> time \<Rightarrow> time \<Rightarrow> payload" where
  "blank_payload sub iss iat exp =
     \<lparr>j_sub = sub, j_usr = [], j_rol = [], j_tid = None, j_qce = False, j_bba = False, j_chn = [],
      j_iss = iss, j_iat = Some (num_date iat), j_exp = Some (num_date exp)\<rparr>"

definition share_payload :: "gostring \<Rightarrow> time \<Rightarrow> duration \<Rightarrow> payload" where
  "share_payload call now ttl = blank_payload call ''callbot-share'' now (now + share_ttl_or_week ttl)"

definition issue_share :: "signer \<Rightarrow> issuer \<Rightarrow> time \<Rightarrow> gostring \<Rightarrow> duration \<Rightarrow> (gostring \<times> time) result" where
  "issue_share sign iss now call ttl =
     (if call = [] then Inl ''call_id required''
      else case sign (iss_secret iss) (share_payload call now ttl) of
        Inl e \<Rightarrow> Inl (''sign share token: '' @ e)
      | Inr tok \<Rightarrow> Inr (tok, now + share_ttl_or_week ttl))"

definition parse_share :: "verifier \<Rightarrow> issuer \<Rightarrow> time \<Rightarrow> gostring \<Rightarrow> gostring result" where
  "parse_share verify iss now raw =
     (case verify now (iss_secret iss) raw of
        Inl e \<Rightarrow> Inl e
      | Inr p \<Rightarrow> if j_iss p \<noteq> ''callbot-share'' then Inl ''token is not a share token'' else Inr (j_sub p))"

text \<open>The channel a bot-share token is minted for; the empty one means both.\<close>

definition mint_channel :: "gostring \<Rightarrow> gostring result" where
  "mint_channel ch =
     (if ch = [] then Inr ''both''
      else if ch \<in> {''chat'', ''voice'', ''both''} then Inr ch
      else Inl (''invalid channel: '' @ ch))"

definition bot_share_payload :: "gostring \<Rightarrow> gostring \<Rightarrow> time \<Rightarrow> duration \<Rightarrow> payload" where
  "bot_share_payload bid ch now ttl =
     (blank_payload bid ''callbot-bot-share'' now (now + share_ttl_or_week ttl))\<lparr>j_chn := ch\<rparr>"

definition issue_bot_share ::
  "signer \<Rightarrow> issuer \<Rightarrow> time \<Rightarrow> gostring \<Rightarrow> gostring \<Rightarrow> duration \<Rightarrow> (gostring \<times> time) result"
where
  "issue_bot_share sign iss now bid ch ttl =
     (if bid = [] then Inl ''bot_id required''
      else case mint_channel ch of
        Inl e \<Rightarrow> Inl e
      | Inr ch' \<Rightarrow>
         (case sign (iss_secret iss) (bot_share_payload bid ch' now ttl) of
            Inl e \<Rightarrow> Inl (''sign bot-share token: '' @ e)
          | Inr tok \<Rightarrow> Inr (tok, now + share_ttl_or_week ttl)))"

definition parse_bot_share ::
  "verifier \<Rightarrow> issuer \<Rightarrow> time \<Rightarrow> gostring \<Rightarrow> (gostring \<times> gostring \<times> time option) result"
where
  "parse_bot_share verify iss now raw =
     (case verify now (iss_secret iss) raw of
        Inl e \<Rightarrow> Inl e
      | Inr p \<Rightarrow>
         if j_iss p \<noteq> ''callbot-bot-share'' then Inl ''token is not a bot-share token''
         else Inr (j_sub p, if j_chn p = [] then ''both'' else j_chn p, j_iat p))"

definition channel_allows :: "gostring \<Rightarrow> gostring \<Rightarrow> bool" where
  "channel_allows grant want = (if grant = ''both'' then True else grant = want)"

text \<open>
  The lifetime a mint request asks for: \<open>time.Duration(hours) * time.Hour\<close> in 64 bits, capped.
\<close>

definition max_share :: duration where "max_share = 30 * 24 * 3600 * 1000000000"

definition requested_ttl :: "duration \<Rightarrow> i64 \<Rightarrow> duration" where
  "requested_ttl dflt hours =
     (if 0 < sint hours
      then let want = sint (hours * 3600000000000) in if max_share < want then max_share else want
      else dflt)"

section \<open>Identities\<close>

definition is_platform_admin :: "identity \<Rightarrow> bool" where
  "is_platform_admin i \<longleftrightarrow> i_role i = ''platform_admin''"

fun can_evaluate :: "identity option \<Rightarrow> bool" where
  "can_evaluate None = False"
| "can_evaluate (Some i) = (is_platform_admin i \<or> i_evaluator i)"

fun can_manage_bots :: "identity option \<Rightarrow> bool" where
  "can_manage_bots None = False"
| "can_manage_bots (Some i) = (is_platform_admin i \<or> i_bot_admin i)"

section \<open>The gate\<close>

record request =
  rq_method :: gostring
  rq_path :: gostring
  rq_cookie :: "gostring option"
  rq_auth :: gostring

datatype gate = ToMux "identity option" | Refuse nat

definition token_from_request :: "request \<Rightarrow> gostring" where
  "token_from_request rq =
     (case rq_cookie rq of
        Some v \<Rightarrow> if v \<noteq> [] then v
                  else if has_prefix (rq_auth rq) ''Bearer '' then trim_prefix (rq_auth rq) ''Bearer '' else []
      | None \<Rightarrow> if has_prefix (rq_auth rq) ''Bearer '' then trim_prefix (rq_auth rq) ''Bearer '' else [])"

definition middleware :: "verifier \<Rightarrow> uuid_parser \<Rightarrow> issuer \<Rightarrow> time \<Rightarrow> request \<Rightarrow> gate" where
  "middleware verify up iss now rq =
     (let raw = token_from_request rq in
      if raw = [] then Refuse 401
      else case parse_session verify up iss now raw of
        Inl e \<Rightarrow> Refuse 401
      | Inr i \<Rightarrow> ToMux (Some i))"

definition require_admin :: "identity option \<Rightarrow> nat option" where
  "require_admin i =
     (case i of None \<Rightarrow> Some 401 | Some j \<Rightarrow> if is_platform_admin j then None else Some 403)"

text \<open>The paths that need no token.\<close>

definition public_request :: "request \<Rightarrow> bool" where
  "public_request rq \<longleftrightarrow>
     rq_method rq = ''OPTIONS'' \<or> rq_path rq = ''/health'' \<or> rq_path rq = ''/metrics'' \<or>
     has_prefix (rq_path rq) ''/recordings/'' \<or> rq_path rq = ''/api/v1/auth/login'' \<or>
     (rq_method rq = ''GET'' \<and> has_prefix (rq_path rq) ''/api/v1/share/calls/'') \<or>
     has_prefix (rq_path rq) ''/api/v1/web/bot/'' \<or> has_prefix (rq_path rq) ''/api/v1/web/chat/'' \<or>
     has_prefix (rq_path rq) ''/api/v1/web/voice/''"

definition auth_chain :: "verifier \<Rightarrow> uuid_parser \<Rightarrow> issuer \<Rightarrow> time \<Rightarrow> request \<Rightarrow> gate" where
  "auth_chain verify up iss now rq =
     (if public_request rq then ToMux None
      else if \<not> has_prefix (rq_path rq) ''/api/'' then ToMux None
      else middleware verify up iss now rq)"

text \<open>The handler of the router: CORS around the token gate, either of which may be off.\<close>

definition cors_headers :: "gostring \<Rightarrow> (gostring \<times> gostring) list" where
  "cors_headers origin =
     [(''Access-Control-Allow-Origin'', origin), (''Vary'', ''Origin''),
      (''Access-Control-Allow-Methods'', ''GET, POST, PATCH, DELETE, OPTIONS''),
      (''Access-Control-Allow-Headers'', ''Content-Type, Authorization'')] @
     (if origin \<noteq> ''*'' then [(''Access-Control-Allow-Credentials'', ''true'')] else [])"

definition router_handler ::
  "verifier \<Rightarrow> uuid_parser \<Rightarrow> issuer option \<Rightarrow> gostring \<Rightarrow> time \<Rightarrow> request \<Rightarrow> (gostring \<times> gostring) list \<times> gate"
where
  "router_handler verify up iss origin now rq =
     (let g = (case iss of None \<Rightarrow> ToMux None | Some i \<Rightarrow> auth_chain verify up i now rq) in
      if origin = [] then ([], g)
      else (cors_headers origin, if rq_method rq = ''OPTIONS'' then Refuse 204 else g))"

section \<open>Lemmas\<close>

lemma verify_signed:
  assumes "jwt_laws sign verify" "sign s p = Inr tok" "j_exp p = Some e"
  shows "now < e \<Longrightarrow> verify now s tok = Inr p" and "e \<le> now \<Longrightarrow> \<exists>m. verify now s tok = Inl m"
  using assms unfolding jwt_laws_def by blast+

lemma num_date_le: "num_date t \<le> t" and num_date_gt: "t - 1000000000 < num_date t"
  by (simp_all add: num_date_def)

lemma issue_signed:
  "issue sign iss now i = Inr (tok, e) \<longleftrightarrow>
     sign (iss_secret iss) (session_payload iss now i) = Inr tok \<and> e = now + iss_ttl iss"
  by (auto simp: issue_def split: sum.splits)

lemma issue_share_signed:
  "issue_share sign iss now call ttl = Inr (tok, e) \<longleftrightarrow>
     call \<noteq> [] \<and> sign (iss_secret iss) (share_payload call now ttl) = Inr tok \<and>
     e = now + share_ttl_or_week ttl"
  by (auto simp: issue_share_def split: sum.splits)

lemma issue_bot_share_signed:
  "issue_bot_share sign iss now bid ch ttl = Inr (tok, e) \<Longrightarrow>
     bid \<noteq> [] \<and> (\<exists>ch'. mint_channel ch = Inr ch' \<and>
       sign (iss_secret iss) (bot_share_payload bid ch' now ttl) = Inr tok) \<and>
     e = now + share_ttl_or_week ttl"
  by (auto simp: issue_bot_share_def split: sum.splits if_splits)

lemma decode_session:
  "up (i_user i) = Some (i_user i) \<Longrightarrow> (\<And>t. i_tenant i = Some t \<Longrightarrow> up t = Some t) \<Longrightarrow>
   decode_claims up (session_payload iss now i) = Inr i"
  by (cases "i_tenant i") (auto simp: decode_claims_def session_payload_def)

lemma decode_bot_share:
  "up bid = Some bid \<Longrightarrow>
   decode_claims up (bot_share_payload bid ch now ttl) =
     Inr \<lparr>i_user = bid, i_name = [], i_role = [], i_tenant = None, i_evaluator = False, i_bot_admin = False\<rparr>"
  by (simp add: decode_claims_def bot_share_payload_def blank_payload_def)

lemma bearer_token: "rq_cookie rq = None \<Longrightarrow> rq_auth rq = ''Bearer '' @ tok \<Longrightarrow> token_from_request rq = tok"
  by (simp add: token_from_request_def trim_prefix_def del: append_Cons)

end
