(* ===== verification/AuditLog.thy ===== *)
theory AuditLog
  imports Store Auth
begin

text \<open>
  The audit trail: \<open>internal/store/audit.go\<close>, \<open>internal/api/audit_helper.go\<close> and
  \<open>internal/api/audit.go\<close>, with what every API handler knows of its request.  A handler hands its
  entry to a goroutine; \<open>audit_queue\<close> holds the entries whose goroutine has not run yet.
\<close>

section \<open>Requests and replies of the API handlers\<close>

text \<open>
  The caller, the address and agent of the request, the clock, and the id the database would
  generate.
\<close>

record ctx =
  x_id :: "identity option"
  x_ip :: gostring
  x_agent :: gostring
  x_now :: time
  x_fresh :: uuid

text \<open>A status without a body of interest, or a status with its body.\<close>

datatype 'a reply = Status nat | Body nat 'a

fun reply_status :: "'a reply \<Rightarrow> nat" where
  "reply_status (Status s) = s"
| "reply_status (Body s _) = s"

text \<open>\<open>clientIP\<close>, from the X-Forwarded-For header and the remote address.\<close>

definition client_ip :: "(gostring \<Rightarrow> gostring option) \<Rightarrow> gostring \<Rightarrow> gostring \<Rightarrow> gostring" where
  "client_ip split_host_port xff remote =
     (if xff \<noteq> [] then trim_space (case index_byte CHR '','' xff of Some i \<Rightarrow> take i xff | None \<Rightarrow> xff)
      else case split_host_port remote of Some h \<Rightarrow> h | None \<Rightarrow> [])"

text \<open>\<open>requireAdmin\<close> of the handlers: the refusal, if any.\<close>

definition refuse_non_admin :: "ctx \<Rightarrow> nat option" where
  "refuse_non_admin x =
     (case x_id x of None \<Rightarrow> Some 401 | Some i \<Rightarrow> if is_platform_admin i then None else Some 403)"

section \<open>Recording\<close>

definition record_audit :: "ctx \<Rightarrow> uuid option \<Rightarrow> gostring \<Rightarrow> gostring \<Rightarrow> gostring \<Rightarrow> db \<Rightarrow> db" where
  "record_audit x tid action ent target d =
     d\<lparr>audit_queue := audit_queue d @
        [\<lparr>a_tenant = tid, a_actor = map_option i_user (x_id x),
          a_name = (case x_id x of None \<Rightarrow> [] | Some i \<Rightarrow> i_name i),
          a_role = (case x_id x of None \<Rightarrow> [] | Some i \<Rightarrow> i_role i),
          a_action = action, a_entity = ent, a_target = target, a_ip = x_ip x, a_agent = x_agent x,
          a_created = x_now x\<rparr>]\<rparr>"

text \<open>
  \<open>WriteAudit\<close>; the column has the type INET, \<open>is_inet\<close> tells which texts it takes.
\<close>

definition write_audit :: "(gostring \<Rightarrow> bool) \<Rightarrow> audit_entry \<Rightarrow> unit query" where
  "write_audit is_inet a = run_query (\<lambda>d.
     if a_ip a \<noteq> [] \<and> \<not> is_inet (a_ip a) then (Inl (QueryErr ''invalid input syntax for type inet''), d)
     else (Inr (), d\<lparr>audit_log := audit_log d @ [a]\<rparr>))"

text \<open>The goroutine of the \<open>n\<close>-th entry runs; its error is only logged.\<close>

definition run_audit :: "(gostring \<Rightarrow> bool) \<Rightarrow> nat \<Rightarrow> db \<Rightarrow> db" where
  "run_audit is_inet n d =
     (if n < length (audit_queue d)
      then snd (write_audit is_inet (audit_queue d ! n)
             (d\<lparr>audit_queue := take n (audit_queue d) @ drop (Suc n) (audit_queue d)\<rparr>))
      else d)"

section \<open>Listing\<close>

record audit_filter =
  af_tenant :: "uuid option"
  af_actor :: "uuid option"
  af_entity :: gostring
  af_target :: gostring
  af_action :: gostring
  af_since :: "time option"
  af_until :: "time option"
  af_limit :: int
  af_offset :: nat

definition audit_limit :: "int \<Rightarrow> nat" where
  "audit_limit n = (let n = (if n \<le> 0 then 100 else n) in nat (if 500 < n then 500 else n))"

definition audit_matches :: "audit_filter \<Rightarrow> audit_entry \<Rightarrow> bool" where
  "audit_matches f a \<longleftrightarrow>
     (case af_tenant f of None \<Rightarrow> True | Some t \<Rightarrow> a_tenant a = Some t) \<and>
     (case af_actor f of None \<Rightarrow> True | Some u \<Rightarrow> a_actor a = Some u) \<and>
     (af_entity f = [] \<or> a_entity a = af_entity f) \<and> (af_target f = [] \<or> a_target a = af_target f) \<and>
     (af_action f = [] \<or> a_action a = af_action f) \<and>
     (case af_since f of None \<Rightarrow> True | Some t \<Rightarrow> t \<le> a_created a) \<and>
     (case af_until f of None \<Rightarrow> True | Some t \<Rightarrow> a_created a < t)"

definition list_audit :: "audit_filter \<Rightarrow> audit_entry list query" where
  "list_audit f = fetch (\<lambda>d. take (audit_limit (af_limit f)) (drop (af_offset f)
     (sort_key (\<lambda>a. - a_created a) (filter (audit_matches f) (audit_log d)))))"

text \<open>
  The handler: \<open>f\<close> is the filter of the query parameters, \<open>tid\<close> the parameter \<open>tenant_id\<close> when it is
  a UUID.
\<close>

definition audit_scope :: "identity \<Rightarrow> uuid option \<Rightarrow> uuid option" where
  "audit_scope i tid = (if is_platform_admin i then tid else i_tenant i)"

definition h_list_audit :: "ctx \<Rightarrow> audit_filter \<Rightarrow> uuid option \<Rightarrow> db \<Rightarrow> audit_entry list reply \<times> db" where
  "h_list_audit x f tid d =
     (case x_id x of
        None \<Rightarrow> (Status 401, d)
      | Some i \<Rightarrow>
         (case list_audit (f\<lparr>af_tenant := audit_scope i tid\<rparr>) d of
            (Inl _, d) \<Rightarrow> (Status 500, d)
          | (Inr es, d) \<Rightarrow> (Body 200 es, d)))"

section \<open>Lemmas\<close>

lemma record_audit_fields [simp, frame_simps]:
  "faults (record_audit x t a e k d) = faults d" "tenants (record_audit x t a e k d) = tenants d"
  "users (record_audit x t a e k d) = users d" "bots (record_audit x t a e k d) = bots d"
  "dids (record_audit x t a e k d) = dids d" "calls (record_audit x t a e k d) = calls d"
  "qcs (record_audit x t a e k d) = qcs d" "web_sessions (record_audit x t a e k d) = web_sessions d"
  "web_turns (record_audit x t a e k d) = web_turns d" "audit_log (record_audit x t a e k d) = audit_log d"
  by (simp_all add: record_audit_def)

lemma refuse_None: "refuse_non_admin x = None \<longleftrightarrow> (\<exists>i. x_id x = Some i \<and> is_platform_admin i)"
  by (auto simp: refuse_non_admin_def split: option.splits if_splits)

text \<open>An entry is written once its goroutine runs, unless its address is no address or the query fails.\<close>

lemma run_audit_writes:
  assumes "n < length (audit_queue d)" "faults d = []"
  shows "audit_log (run_audit is_inet n d) =
    audit_log d @ (if a_ip (audit_queue d ! n) = [] \<or> is_inet (a_ip (audit_queue d ! n)) then [audit_queue d ! n] else [])"
  using assms by (simp add: run_audit_def write_audit_def run_query_def)

end
