(* ===== verification/ApiBots.thy ===== *)
theory ApiBots
  imports BotStore AuditLog
begin

text \<open>
  \<open>internal/api/bots.go\<close>: the bot configuration API.  A handler takes its request context, the
  decoded body (\<open>Inl\<close>: the JSON was invalid) and the database, and returns its reply and the database
  after it.  Error texts are left out; the status codes are those of the code.
\<close>

section \<open>Replies\<close>

record bot_summary =
  bs_id :: uuid
  bs_tenant :: uuid
  bs_tenant_slug :: gostring
  bs_slug :: gostring
  bs_name :: gostring
  bs_enabled :: bool
  bs_url :: gostring
  bs_asr_endpoint :: gostring
  bs_tts_endpoint :: gostring
  bs_voice :: gostring
  bs_bargein :: bool
  bs_version :: int
  bs_updated :: time

definition bot_summary_of :: "bot_config \<Rightarrow> bot_summary" where
  "bot_summary_of b =
     \<lparr>bs_id = b_id b, bs_tenant = b_tenant b, bs_tenant_slug = b_tenant_slug b, bs_slug = b_slug b,
      bs_name = b_name b, bs_enabled = b_enabled b, bs_url = bot_url b, bs_asr_endpoint = asr_endpoint b,
      bs_tts_endpoint = tts_endpoint b, bs_voice = tts_voice_id b, bs_bargein = bargein_enabled b,
      bs_version = b_version b, bs_updated = b_updated b\<rparr>"

text \<open>Four bullets in UTF-8.\<close>

definition bullets :: gostring where
  "bullets = concat (replicate 4 [char_of (226 :: nat), char_of (128 :: nat), char_of (162 :: nat)])"

definition mask_token :: "gostring \<Rightarrow> gostring" where
  "mask_token t = (if t = [] then [] else if length t \<le> 4 then bullets else bullets @ last_n 4 t)"

record bot_detail = bot_summary +
  bd_first_byte_ms :: int
  bd_total_ms :: int
  bd_asr_provider :: gostring
  bd_asr_mask :: gostring
  bd_tts_provider :: gostring
  bd_tts_mask :: gostring
  bd_tempo :: real
  bd_silence_sec :: real
  bd_speech_sec :: real
  bd_max_sec :: real
  bd_single :: bool
  bd_min_words :: int
  bd_filler :: bool
  bd_filler_mode :: gostring
  bd_intent_url :: gostring
  bd_intent_ms :: int
  bd_prefix :: gostring
  bd_created :: time

definition bot_detail_of :: "bot_config \<Rightarrow> bot_detail" where
  "bot_detail_of b =
     bot_summary.extend (bot_summary_of b)
       (bot_detail.fields (bot_first_byte_ms b) (bot_total_ms b) (asr_provider b) (mask_token (asr_token b))
         (tts_provider b) (mask_token (tts_token b)) (tts_tempo b) (asr_silence_sec b) (asr_speech_sec b)
         (asr_max_sec b) (asr_single b) (bargein_min_words b) (filler_enabled_b b) (filler_mode b)
         (filler_intent_url b) (filler_intent_ms b) (outbound_prefix b) (b_created b))"

section \<open>Requests\<close>

record bot_req =
  br_tenant :: "uuid option"
  br_tenant_slug :: gostring
  br_slug :: gostring
  br_name :: gostring
  br_enabled :: "bool option"
  br_url :: gostring
  br_first_byte_ms :: int
  br_total_ms :: int
  br_asr_provider :: gostring
  br_asr_endpoint :: gostring
  br_asr_token :: "gostring option"
  br_tts_provider :: gostring
  br_tts_endpoint :: gostring
  br_tts_token :: "gostring option"
  br_voice :: gostring
  br_tempo :: real
  br_silence_sec :: real
  br_speech_sec :: real
  br_max_sec :: real
  br_single :: "bool option"
  br_bargein :: "bool option"
  br_min_words :: int
  br_filler :: "bool option"
  br_filler_mode :: gostring
  br_intent_url :: gostring
  br_intent_ms :: int
  br_prefix :: gostring
  br_version :: "int option"

definition coalesce_bool :: "bool option \<Rightarrow> bool \<Rightarrow> bool" where
  "coalesce_bool p dflt = (case p of None \<Rightarrow> dflt | Some b \<Rightarrow> b)"

definition default_int :: "int \<Rightarrow> int \<Rightarrow> int" where
  "default_int v dflt = (if v \<le> 0 then dflt else v)"

definition default_str :: "gostring \<Rightarrow> gostring \<Rightarrow> gostring" where
  "default_str v dflt = (if v = [] then dflt else v)"

definition default_float :: "real \<Rightarrow> real \<Rightarrow> real" where
  "default_float v dflt = (if v = 0 then dflt else v)"

definition normalize_filler_mode :: "gostring \<Rightarrow> gostring" where
  "normalize_filler_mode s = (if s = ''hybrid'' then ''hybrid'' else ''short'')"

text \<open>\<open>toWriteInput\<close>; \<open>None\<close> when a required field is missing.\<close>

definition to_write_input :: "uuid \<Rightarrow> uuid option \<Rightarrow> bool \<Rightarrow> bot_req \<Rightarrow> bot_write option" where
  "to_write_input tid actor force q =
     (if br_slug q = [] \<or> br_name q = [] \<or> br_url q = [] \<or> br_asr_endpoint q = [] \<or> br_tts_endpoint q = []
      then None
      else Some
        \<lparr>w_tenant = tid, w_slug = br_slug q, w_name = br_name q, w_enabled = coalesce_bool (br_enabled q) True,
         w_url = br_url q, w_first_byte_ms = default_int (br_first_byte_ms q) 5000,
         w_total_ms = default_int (br_total_ms q) 25000,
         w_asr_provider = default_str (br_asr_provider q) ''viettel'', w_asr_endpoint = br_asr_endpoint q,
         w_asr_token = (case br_asr_token q of None \<Rightarrow> [] | Some t \<Rightarrow> t),
         w_replace_asr = (force \<or> br_asr_token q \<noteq> None),
         w_tts_provider = default_str (br_tts_provider q) ''viettel'', w_tts_endpoint = br_tts_endpoint q,
         w_tts_token = (case br_tts_token q of None \<Rightarrow> [] | Some t \<Rightarrow> t),
         w_replace_tts = (force \<or> br_tts_token q \<noteq> None),
         w_voice = br_voice q, w_tempo = default_float (br_tempo q) 1,
         w_silence_sec = default_float (br_silence_sec q) 5, w_speech_sec = default_float (br_speech_sec q) 1,
         w_max_sec = default_float (br_max_sec q) 30, w_single = coalesce_bool (br_single q) True,
         w_bargein = coalesce_bool (br_bargein q) True, w_min_words = default_int (br_min_words q) 3,
         w_filler = coalesce_bool (br_filler q) False, w_filler_mode = normalize_filler_mode (br_filler_mode q),
         w_intent_url = br_intent_url q, w_intent_ms = default_int (br_intent_ms q) 1500,
         w_prefix = br_prefix q, w_actor = actor\<rparr>)"

section \<open>Access\<close>

definition can_access_bot :: "ctx \<Rightarrow> bot_config \<Rightarrow> bool" where
  "can_access_bot x b =
     (case x_id x of
        None \<Rightarrow> False
      | Some i \<Rightarrow> if is_platform_admin i then True else i_tenant i = Some (b_tenant b))"

definition resolve_target_tenant :: "identity \<Rightarrow> bot_req \<Rightarrow> db \<Rightarrow> uuid option \<times> db" where
  "resolve_target_tenant i q d =
     (if \<not> is_platform_admin i then (i_tenant i, d)
      else if br_tenant q \<noteq> None then (br_tenant q, d)
      else if br_tenant_slug q \<noteq> [] then
        (case get_tenant_by_slug (br_tenant_slug q) d of
           (Inr (Some t), d) \<Rightarrow> (Some (t_id t), d)
         | (_, d) \<Rightarrow> (None, d))
      else (None, d))"

text \<open>The caller's rights before a write: 401, 403, or none.\<close>

definition refuse_write :: "ctx \<Rightarrow> nat option" where
  "refuse_write x =
     (case x_id x of None \<Rightarrow> Some 401 | Some i \<Rightarrow> if can_manage_bots (Some i) then None else Some 403)"

section \<open>Handlers\<close>

definition h_list_bots :: "ctx \<Rightarrow> db \<Rightarrow> bot_summary list reply \<times> db" where
  "h_list_bots x d =
     (case x_id x of
        None \<Rightarrow> (Status 401, d)
      | Some i \<Rightarrow>
         (case list_bots (if is_platform_admin i then None else i_tenant i) d of
            (Inl _, d) \<Rightarrow> (Status 500, d)
          | (Inr bs, d) \<Rightarrow> (Body 200 (map bot_summary_of bs), d)))"

definition h_get_bot :: "ctx \<Rightarrow> uuid \<Rightarrow> db \<Rightarrow> (bot_detail \<times> did_row list) reply \<times> db" where
  "h_get_bot x i d =
     (case get_bot_by_id i d of
        (Inl _, d) \<Rightarrow> (Status 500, d)
      | (Inr None, d) \<Rightarrow> (Status 404, d)
      | (Inr (Some b), d) \<Rightarrow>
         if \<not> can_access_bot x b then (Status 403, d)
         else case list_dids (b_id b) d of
           (Inl _, d) \<Rightarrow> (Status 500, d)
         | (Inr ds, d) \<Rightarrow> (Body 200 (bot_detail_of b, ds), d))"

definition h_create_bot :: "ctx \<Rightarrow> bot_req result \<Rightarrow> db \<Rightarrow> uuid reply \<times> db" where
  "h_create_bot x body d =
     (case x_id x of
        None \<Rightarrow> (Status 401, d)
      | Some i \<Rightarrow>
         if \<not> can_manage_bots (Some i) then (Status 403, d)
         else case body of
           Inl _ \<Rightarrow> (Status 400, d)
         | Inr q \<Rightarrow>
            (case resolve_target_tenant i q d of
               (None, d) \<Rightarrow> (Status 403, d)
             | (Some tid, d) \<Rightarrow>
                (case to_write_input tid (Some (i_user i)) True q of
                   None \<Rightarrow> (Status 400, d)
                 | Some w \<Rightarrow>
                    (case create_bot (x_fresh x) (x_now x) w d of
                       (Inl _, d) \<Rightarrow> (Status 500, d)
                     | (Inr n, d) \<Rightarrow> (Body 201 n, record_audit x (Some tid) ''bot.create'' ''bot'' n d)))))"

definition h_update_bot :: "ctx \<Rightarrow> uuid \<Rightarrow> bot_req result \<Rightarrow> db \<Rightarrow> unit reply \<times> db" where
  "h_update_bot x i body d =
     (case refuse_write x of
        Some s \<Rightarrow> (Status s, d)
      | None \<Rightarrow>
         (case get_bot_by_id i d of
            (Inl _, d) \<Rightarrow> (Status 500, d)
          | (Inr None, d) \<Rightarrow> (Status 404, d)
          | (Inr (Some b), d) \<Rightarrow>
             if \<not> can_access_bot x b then (Status 403, d)
             else case body of
               Inl _ \<Rightarrow> (Status 400, d)
             | Inr q \<Rightarrow>
                (case br_version q of
                   None \<Rightarrow> (Status 400, d)
                 | Some v \<Rightarrow>
                    (case to_write_input (b_tenant b) (map_option i_user (x_id x)) False q of
                       None \<Rightarrow> (Status 400, d)
                     | Some w \<Rightarrow>
                        (case update_bot (x_now x) i w v d of
                           (Inl VersionMismatch, d) \<Rightarrow> (Status 409, d)
                         | (Inl _, d) \<Rightarrow> (Status 500, d)
                         | (Inr _, d) \<Rightarrow> (Status 204, record_audit x (Some (b_tenant b)) ''bot.update'' ''bot'' i d))))))"

definition h_delete_bot :: "ctx \<Rightarrow> uuid \<Rightarrow> db \<Rightarrow> unit reply \<times> db" where
  "h_delete_bot x i d =
     (case refuse_write x of
        Some s \<Rightarrow> (Status s, d)
      | None \<Rightarrow>
         (case get_bot_by_id i d of
            (Inl _, d) \<Rightarrow> (Status 500, d)
          | (Inr None, d) \<Rightarrow> (Status 404, d)
          | (Inr (Some b), d) \<Rightarrow>
             if \<not> can_access_bot x b then (Status 403, d)
             else case soft_delete_bot i d of
               (Inl _, d) \<Rightarrow> (Status 500, d)
             | (Inr _, d) \<Rightarrow> (Status 204, record_audit x (Some (b_tenant b)) ''bot.delete'' ''bot'' i d)))"

definition h_list_dids :: "ctx \<Rightarrow> uuid \<Rightarrow> db \<Rightarrow> did_row list reply \<times> db" where
  "h_list_dids x i d =
     (case get_bot_by_id i d of
        (Inr (Some b), d) \<Rightarrow>
          if \<not> can_access_bot x b then (Status 403, d)
          else (case list_dids i d of (Inl _, d) \<Rightarrow> (Status 500, d) | (Inr ds, d) \<Rightarrow> (Body 200 ds, d))
      | (_, d) \<Rightarrow> (Status 404, d))"

text \<open>The body of an added number: the number and its note.\<close>

definition h_add_did :: "ctx \<Rightarrow> uuid \<Rightarrow> (gostring \<times> gostring) result \<Rightarrow> db \<Rightarrow> gostring reply \<times> db" where
  "h_add_did x i body d =
     (case refuse_write x of
        Some s \<Rightarrow> (Status s, d)
      | None \<Rightarrow>
         (case get_bot_by_id i d of
            (Inr (Some b), d) \<Rightarrow>
              if \<not> can_access_bot x b then (Status 403, d)
              else (case body of
                Inl _ \<Rightarrow> (Status 400, d)
              | Inr (raw, note) \<Rightarrow>
                 (let did = trim_space raw in
                  if did = [] then (Status 400, d)
                  else case add_did (x_now x) did i note d of
                    (Inl DidTaken, d) \<Rightarrow> (Status 409, d)
                  | (Inl _, d) \<Rightarrow> (Status 500, d)
                  | (Inr _, d) \<Rightarrow> (Body 201 did, record_audit x (Some (b_tenant b)) ''did.add'' ''did'' did d)))
          | (_, d) \<Rightarrow> (Status 404, d)))"

definition h_remove_did :: "ctx \<Rightarrow> uuid \<Rightarrow> gostring \<Rightarrow> db \<Rightarrow> unit reply \<times> db" where
  "h_remove_did x i did d =
     (case refuse_write x of
        Some s \<Rightarrow> (Status s, d)
      | None \<Rightarrow>
         (case get_bot_by_id i d of
            (Inr (Some b), d) \<Rightarrow>
              if \<not> can_access_bot x b then (Status 403, d)
              else (case remove_did did d of
                (Inl _, d) \<Rightarrow> (Status 500, d)
              | (Inr _, d) \<Rightarrow> (Status 204, record_audit x (Some (b_tenant b)) ''did.remove'' ''did'' did d))
          | (_, d) \<Rightarrow> (Status 404, d)))"

section \<open>Routing\<close>

datatype bot_route = RGet uuid | RUpdate uuid | RDelete uuid | RDids uuid | RAddDid uuid | RDelDid uuid gostring | RTest uuid

text \<open>\<open>item\<close>: what follows \<open>/api/v1/bots/\<close>, or the status of the refusal.\<close>

definition bot_route_of :: "uuid_parser \<Rightarrow> gostring \<Rightarrow> gostring \<Rightarrow> nat + bot_route" where
  "bot_route_of up meth rest =
     (if rest = [] then Inl 404
      else let parts = split_byte CHR ''/'' rest in
        case up (hd parts) of
          None \<Rightarrow> Inl 400
        | Some i \<Rightarrow>
           (case tl parts of
              [] \<Rightarrow> if meth = ''GET'' then Inr (RGet i) else if meth = ''PATCH'' then Inr (RUpdate i)
                    else if meth = ''DELETE'' then Inr (RDelete i) else Inl 405
            | [p] \<Rightarrow>
                if p = ''dids'' then (if meth = ''GET'' then Inr (RDids i) else if meth = ''POST'' then Inr (RAddDid i) else Inl 405)
                else if p = ''test'' then (if meth = ''POST'' then Inr (RTest i) else Inl 405)
                else Inl 404
            | [p, did] \<Rightarrow>
                if p = ''dids'' then (if meth = ''DELETE'' then Inr (RDelDid i did) else Inl 405) else Inl 404
            | _ \<Rightarrow> Inl 404))"

end
