(* ===== verification/BotsSafety.thy ===== *)
theory BotsSafety
  imports ApiBots
begin

text \<open>
  What the bot API guarantees: which rows a request may change, that concurrent edits of one version
  are not lost, that masked tokens survive an edit, that the tables keep their constraints, and
  that a number never reaches a bot that is gone.
\<close>

section \<open>Effects of the queries\<close>

lemma slug_taken_faults [simp]: "slug_taken (d\<lparr>faults := fs\<rparr>) = slug_taken d"
  by (simp add: slug_taken_def fun_eq_iff)

lemma get_bot_by_id_Some:
  assumes "get_bot_by_id i d = (Inr (Some b), d1)"
  obtains fs row where "d1 = d\<lparr>faults := fs\<rparr>" "live_bot d i = Some row" "scan_bot d row = Some b"
    "b_id b = i" "b_tenant b = b_tenant (r_bot row)"
proof -
  obtain fs where "d1 = d\<lparr>faults := fs\<rparr>"
    using fetch_frame [OF assms [unfolded get_bot_by_id_def]] by blast
  moreover obtain row where "live_bot d i = Some row" "scan_bot d row = Some b"
    using get_bot_by_id_live [OF assms] by blast
  ultimately show thesis using that scan_bot_fields [of d row b] live_botD [of d i row] by metis
qed

lemma get_bot_by_id_frame: "get_bot_by_id i d = (r, d1) \<Longrightarrow> \<exists>fs. d1 = d\<lparr>faults := fs\<rparr>"
  unfolding get_bot_by_id_def by (rule fetch_frame)

lemma list_dids_frame: "list_dids i d = (r, d1) \<Longrightarrow> \<exists>fs. d1 = d\<lparr>faults := fs\<rparr>"
  unfolding list_dids_def by (rule fetch_frame)

lemma list_bots_frame: "list_bots i d = (r, d1) \<Longrightarrow> \<exists>fs. d1 = d\<lparr>faults := fs\<rparr>"
  unfolding list_bots_def by (rule fetch_frame)

lemma get_tenant_by_slug_frame: "get_tenant_by_slug i d = (r, d1) \<Longrightarrow> \<exists>fs. d1 = d\<lparr>faults := fs\<rparr>"
  unfolding get_tenant_by_slug_def by (rule fetch_frame)

lemma resolve_target_frame: "resolve_target_tenant i q d = (r, d1) \<Longrightarrow> \<exists>fs. d1 = d\<lparr>faults := fs\<rparr>"
proof -
  assume a: "resolve_target_tenant i q d = (r, d1)"
  have refl: "\<exists>fs. d = d\<lparr>faults := fs\<rparr>" by (rule exI [of _ "faults d"]) simp
  obtain y d2 where g: "get_tenant_by_slug (br_tenant_slug q) d = (y, d2)"
    by (cases "get_tenant_by_slug (br_tenant_slug q) d")
  have "d1 = d \<or> d1 = d2"
    using a g by (auto simp: resolve_target_tenant_def split: if_splits sum.splits option.splits)
  then show ?thesis using refl get_tenant_by_slug_frame [OF g] by blast
qed

definition updated_bots :: "time \<Rightarrow> uuid \<Rightarrow> bot_write \<Rightarrow> int \<Rightarrow> bot_row list \<Rightarrow> bot_row list" where
  "updated_bots now i w v = map (\<lambda>r. if update_match i v r then r\<lparr>r_bot := apply_update now w (r_bot r)\<rparr> else r)"

definition deleted_bots :: "uuid \<Rightarrow> bot_row list \<Rightarrow> bot_row list" where
  "deleted_bots i = map (\<lambda>r. if b_id (r_bot r) = i then r\<lparr>r_deleted := True\<rparr> else r)"

lemma update_bot_cases:
  assumes "update_bot now i w v d = (r, d')"
  obtains (same) fs e where "r = Inl e" "d' = d\<lparr>faults := fs\<rparr>"
  | (changed) fs row where "r = Inr ()" "first_row (update_match i v) (bots d) = Some row"
      "bot_check (apply_update now w (r_bot row))" "\<not> slug_taken d i (b_tenant (r_bot row)) (w_slug w)"
      "d' = d\<lparr>faults := fs, bots := updated_bots now i w v (bots d)\<rparr>"
  using assms unfolding update_bot_def
proof (cases rule: run_query_cases)
  case (fault e fs)
  then show ?thesis by (auto intro: same)
next
  case (runs fs)
  then show ?thesis
    by (auto simp: updated_bots_def split: option.splits if_splits intro: same changed)
qed

lemma create_bot_cases:
  assumes "create_bot n now w d = (r, d')"
  obtains (same) fs e where "r = Inl e" "d' = d\<lparr>faults := fs\<rparr>"
  | (created) fs where "r = Inr n" "bot_check (new_bot n now w)" "\<not> slug_taken d n (w_tenant w) (w_slug w)"
      "w_tenant w \<in> t_id ` set (tenants d)"
      "d' = d\<lparr>faults := fs, bots := bots d @ [\<lparr>r_bot = new_bot n now w, r_deleted = False\<rparr>]\<rparr>"
  using assms unfolding create_bot_def
proof (cases rule: run_query_cases)
  case (fault e fs)
  then show ?thesis by (auto intro: same)
next
  case (runs fs)
  then show ?thesis by (auto simp: Let_def split: if_splits intro: same created)
qed

lemma soft_delete_bot_cases:
  assumes "soft_delete_bot i d = (r, d')"
  obtains (same) fs e where "r = Inl e" "d' = d\<lparr>faults := fs\<rparr>"
  | (deleted) fs where "r = Inr ()" "d' = d\<lparr>faults := fs, bots := deleted_bots i (bots d)\<rparr>"
  using assms unfolding soft_delete_bot_def
  by (cases rule: run_query_cases) (auto simp: deleted_bots_def intro: same deleted)

lemma add_did_cases:
  assumes "add_did now did i note d = (r, d')"
  obtains (same) fs e where "r = Inl e" "d' = d\<lparr>faults := fs\<rparr>"
  | (added) fs where "r = Inr ()" "did_ok did" "did \<notin> d_did ` set (dids d)"
      "i \<in> (b_id \<circ> r_bot) ` set (bots d)"
      "d' = d\<lparr>faults := fs, dids := dids d @ [\<lparr>d_did = did, d_bot = i, d_note = note, d_created = now\<rparr>]\<rparr>"
  using assms unfolding add_did_def
proof (cases rule: run_query_cases)
  case (fault e fs)
  then show ?thesis by (auto intro: same)
next
  case (runs fs)
  then show ?thesis by (auto split: if_splits intro: same added)
qed

lemma remove_did_cases:
  assumes "remove_did did d = (r, d')"
  obtains (same) fs e where "r = Inl e" "d' = d\<lparr>faults := fs\<rparr>"
  | (removed) fs where "r = Inr ()" "d' = d\<lparr>faults := fs, dids := filter (\<lambda>x. d_did x \<noteq> did) (dids d)\<rparr>"
  using assms unfolding remove_did_def by (cases rule: run_query_cases) (auto intro: same removed)

section \<open>Effects of the handlers\<close>

lemma same_refl: "\<exists>fs. d = d\<lparr>faults := fs\<rparr>" for d :: db
  by (rule exI [of _ "faults d"]) simp

text \<open>
  The common prefix of the handlers that change a bot: the caller may write, and the bot is live
  and the caller's to access.
\<close>

definition may_write :: "ctx \<Rightarrow> uuid \<Rightarrow> db \<Rightarrow> bot_config \<Rightarrow> bool" where
  "may_write x i d b \<longleftrightarrow>
     refuse_write x = None \<and> can_access_bot x b \<and> b_id b = i \<and>
     (\<exists>row. live_bot d i = Some row \<and> scan_bot d row = Some b \<and> b_tenant b = b_tenant (r_bot row))"

lemma h_update_bot_cases:
  assumes "h_update_bot x i body d = (r, d')"
  obtains (same) fs where "reply_status r \<notin> {201, 204}" "d' = d\<lparr>faults := fs\<rparr>"
  | (updated) b q v w fs d2 where "r = Status 204" "may_write x i d b" "body = Inr q" "br_version q = Some v"
      "to_write_input (b_tenant b) (map_option i_user (x_id x)) False q = Some w"
      "update_bot (x_now x) i w v (d\<lparr>faults := fs\<rparr>) = (Inr (), d2)"
      "d' = record_audit x (Some (b_tenant b)) ''bot.update'' ''bot'' i d2"
proof (cases "refuse_write x")
  case (Some s)
  then have "r = Status s" "s \<notin> {201, 204}" "d' = d\<lparr>faults := faults d\<rparr>"
    using assms by (auto simp: h_update_bot_def refuse_write_def split: option.splits if_splits)
  then show thesis by (intro same [of "faults d"]) auto
next
  case None
  obtain y d1 where g: "get_bot_by_id i d = (y, d1)" by (cases "get_bot_by_id i d")
  show thesis
  proof (cases "\<exists>b q v w. y = Inr (Some b) \<and> can_access_bot x b \<and> body = Inr q \<and> br_version q = Some v \<and>
      to_write_input (b_tenant b) (map_option i_user (x_id x)) False q = Some w")
    case False
    with None g assms have "reply_status r \<notin> {201, 204} \<and> d' = d1"
      by (auto simp: h_update_bot_def split: sum.splits option.splits if_splits)
    with get_bot_by_id_frame [OF g] show thesis using same by blast
  next
    case True
    then obtain b q v w where y: "y = Inr (Some b)" "can_access_bot x b" "body = Inr q" "br_version q = Some v"
      "to_write_input (b_tenant b) (map_option i_user (x_id x)) False q = Some w" by blast
    obtain fs row where d1: "d1 = d\<lparr>faults := fs\<rparr>" "live_bot d i = Some row" "scan_bot d row = Some b"
      "b_id b = i" "b_tenant b = b_tenant (r_bot row)"
      using g y(1) by (blast elim: get_bot_by_id_Some)
    then have may: "may_write x i d b" using None y(2) by (simp add: may_write_def)
    obtain u d2 where u: "update_bot (x_now x) i w v d1 = (u, d2)" by (cases "update_bot (x_now x) i w v d1")
    show thesis
    proof (cases u)
      case (Inl e)
      then have "reply_status r \<notin> {201, 204} \<and> d' = d2" using assms None g y u
        by (auto simp: h_update_bot_def split: db_err.splits)
      moreover from u have "\<exists>fs. d2 = d\<lparr>faults := fs\<rparr>" by (cases rule: update_bot_cases) (use Inl d1(1) in auto)
      ultimately show thesis using same by blast
    next
      case (Inr z)
      then show thesis using assms None g y u may d1(1)
        by (intro updated [of b q v w fs d2]) (auto simp: h_update_bot_def)
    qed
  qed
qed

lemma h_delete_bot_cases:
  assumes "h_delete_bot x i d = (r, d')"
  obtains (same) fs where "reply_status r \<notin> {201, 204}" "d' = d\<lparr>faults := fs\<rparr>"
  | (deleted) b fs where "r = Status 204" "may_write x i d b"
      "d' = record_audit x (Some (b_tenant b)) ''bot.delete'' ''bot'' i (d\<lparr>faults := fs, bots := deleted_bots i (bots d)\<rparr>)"
proof (cases "refuse_write x")
  case (Some s)
  then have "r = Status s" "s \<notin> {201, 204}" "d' = d\<lparr>faults := faults d\<rparr>"
    using assms by (auto simp: h_delete_bot_def refuse_write_def split: option.splits if_splits)
  then show thesis by (intro same [of "faults d"]) auto
next
  case None
  obtain y d1 where g: "get_bot_by_id i d = (y, d1)" by (cases "get_bot_by_id i d")
  show thesis
  proof (cases "\<exists>b. y = Inr (Some b) \<and> can_access_bot x b")
    case False
    with None g assms have "reply_status r \<notin> {201, 204} \<and> d' = d1"
      by (auto simp: h_delete_bot_def split: sum.splits option.splits if_splits)
    with get_bot_by_id_frame [OF g] show thesis using same by blast
  next
    case True
    then obtain b where y: "y = Inr (Some b)" "can_access_bot x b" by blast
    obtain fs row where d1: "d1 = d\<lparr>faults := fs\<rparr>" "live_bot d i = Some row" "scan_bot d row = Some b"
      "b_id b = i" "b_tenant b = b_tenant (r_bot row)"
      using g y(1) by (blast elim: get_bot_by_id_Some)
    then have may: "may_write x i d b" using None y(2) by (simp add: may_write_def)
    obtain u d2 where u: "soft_delete_bot i d1 = (u, d2)" by (cases "soft_delete_bot i d1")
    from u show thesis
    proof (cases rule: soft_delete_bot_cases)
      case (same gs e)
      then show thesis using assms None g y u d1(1) that(1)
        by (auto simp: h_delete_bot_def)
    next
      case (deleted gs)
      then show thesis using assms None g y u d1(1) may
        by (intro that(2) [of b gs]) (auto simp: h_delete_bot_def)
    qed
  qed
qed

lemma h_create_bot_cases:
  assumes "h_create_bot x body d = (r, d')"
  obtains (same) fs where "reply_status r \<notin> {201, 204}" "d' = d\<lparr>faults := fs\<rparr>"
  | (created) c q tid w fs d1 where "r = Body 201 (x_fresh x)" "x_id x = Some c" "can_manage_bots (Some c)"
      "body = Inr q" "resolve_target_tenant c q d = (Some tid, d1)" "to_write_input tid (Some (i_user c)) True q = Some w"
      "bot_check (new_bot (x_fresh x) (x_now x) w)" "\<not> slug_taken d (x_fresh x) (w_tenant w) (w_slug w)"
      "w_tenant w \<in> t_id ` set (tenants d)"
      "d' = record_audit x (Some tid) ''bot.create'' ''bot'' (x_fresh x)
             (d\<lparr>faults := fs, bots := bots d @ [\<lparr>r_bot = new_bot (x_fresh x) (x_now x) w, r_deleted = False\<rparr>]\<rparr>)"
proof (cases "\<exists>c q. x_id x = Some c \<and> can_manage_bots (Some c) \<and> body = Inr q")
  case False
  then have "reply_status r \<notin> {201, 204} \<and> d' = d"
    using assms by (auto simp: h_create_bot_def split: option.splits sum.splits if_splits)
  then show thesis using same same_refl [of d] by metis
next
  case True
  then obtain c q where c: "x_id x = Some c" "can_manage_bots (Some c)" "body = Inr q" by blast
  obtain y d1 where g: "resolve_target_tenant c q d = (y, d1)" by (cases "resolve_target_tenant c q d")
  obtain gs where d1: "d1 = d\<lparr>faults := gs\<rparr>" using resolve_target_frame [OF g] by blast
  show thesis
  proof (cases "\<exists>tid w. y = Some tid \<and> to_write_input tid (Some (i_user c)) True q = Some w")
    case False
    with c g assms have "reply_status r \<notin> {201, 204} \<and> d' = d1"
      by (auto simp: h_create_bot_def split: option.splits)
    then show thesis using same d1 by blast
  next
    case True
    then obtain tid w where w: "y = Some tid" "to_write_input tid (Some (i_user c)) True q = Some w" by blast
    obtain u d2 where u: "create_bot (x_fresh x) (x_now x) w d1 = (u, d2)" by (cases "create_bot (x_fresh x) (x_now x) w d1")
    from u show thesis
    proof (cases rule: create_bot_cases)
      case (same fs e)
      then show thesis using assms c g w u d1 that(1) by (auto simp: h_create_bot_def)
    next
      case (created fs)
      then show thesis using assms c g w u d1
        by (intro that(2) [of c q tid d1 w fs]) (auto simp: h_create_bot_def)
    qed
  qed
qed

lemma h_add_did_cases:
  assumes "h_add_did x i body d = (r, d')"
  obtains (same) fs where "reply_status r \<notin> {201, 204}" "d' = d\<lparr>faults := fs\<rparr>"
  | (added) b raw nt fs where "r = Body 201 (trim_space raw)" "may_write x i d b" "body = Inr (raw, nt)"
      "did_ok (trim_space raw)" "trim_space raw \<notin> d_did ` set (dids d)" "i \<in> (b_id \<circ> r_bot) ` set (bots d)"
      "d' = record_audit x (Some (b_tenant b)) ''did.add'' ''did'' (trim_space raw) (d\<lparr>faults := fs,
         dids := dids d @ [\<lparr>d_did = trim_space raw, d_bot = i, d_note = nt, d_created = x_now x\<rparr>]\<rparr>)"
proof (cases "refuse_write x")
  case (Some s)
  then have "r = Status s" "s \<notin> {201, 204}" "d' = d" using assms
    by (auto simp: h_add_did_def refuse_write_def split: option.splits if_splits)
  then show thesis by (intro same [of "faults d"]) auto
next
  case None
  obtain y d1 where g: "get_bot_by_id i d = (y, d1)" by (cases "get_bot_by_id i d")
  show thesis
  proof (cases "\<exists>b raw nt. y = Inr (Some b) \<and> can_access_bot x b \<and> body = Inr (raw, nt) \<and> trim_space raw \<noteq> []")
    case False
    with None g assms have "reply_status r \<notin> {201, 204} \<and> d' = d1"
      by (auto simp: h_add_did_def Let_def split: sum.splits option.splits if_splits prod.splits)
    with get_bot_by_id_frame [OF g] show thesis using same by blast
  next
    case True
    then obtain b raw nt where y: "y = Inr (Some b)" "can_access_bot x b" "body = Inr (raw, nt)" "trim_space raw \<noteq> []"
      by blast
    obtain fs row where d1: "d1 = d\<lparr>faults := fs\<rparr>" "live_bot d i = Some row" "scan_bot d row = Some b"
      "b_id b = i" "b_tenant b = b_tenant (r_bot row)"
      using g y(1) by (blast elim: get_bot_by_id_Some)
    then have may: "may_write x i d b" using None y(2) by (simp add: may_write_def)
    obtain u d2 where u: "add_did (x_now x) (trim_space raw) i nt d1 = (u, d2)"
      by (cases "add_did (x_now x) (trim_space raw) i nt d1")
    from u show thesis
    proof (cases rule: add_did_cases)
      case (same gs e)
      then show thesis using assms None g y u d1(1) that(1)
        by (cases e) (auto simp: h_add_did_def Let_def)
    next
      case (added gs)
      then show thesis using assms None g y u d1(1) may
        by (intro that(2) [of raw b nt gs]) (auto simp: h_add_did_def Let_def)
    qed
  qed
qed

lemma h_remove_did_cases:
  assumes "h_remove_did x i did d = (r, d')"
  obtains (same) fs where "reply_status r \<notin> {201, 204}" "d' = d\<lparr>faults := fs\<rparr>"
  | (removed) b fs where "r = Status 204" "may_write x i d b"
      "d' = record_audit x (Some (b_tenant b)) ''did.remove'' ''did'' did
             (d\<lparr>faults := fs, dids := filter (\<lambda>x. d_did x \<noteq> did) (dids d)\<rparr>)"
proof (cases "refuse_write x")
  case (Some s)
  then have "r = Status s" "s \<notin> {201, 204}" "d' = d\<lparr>faults := faults d\<rparr>"
    using assms by (auto simp: h_remove_did_def refuse_write_def split: option.splits if_splits)
  then show thesis by (intro same [of "faults d"]) auto
next
  case None
  obtain y d1 where g: "get_bot_by_id i d = (y, d1)" by (cases "get_bot_by_id i d")
  show thesis
  proof (cases "\<exists>b. y = Inr (Some b) \<and> can_access_bot x b")
    case False
    with None g assms have "reply_status r \<notin> {201, 204} \<and> d' = d1"
      by (auto simp: h_remove_did_def split: sum.splits option.splits if_splits)
    with get_bot_by_id_frame [OF g] show thesis using same by blast
  next
    case True
    then obtain b where y: "y = Inr (Some b)" "can_access_bot x b" by blast
    obtain fs row where d1: "d1 = d\<lparr>faults := fs\<rparr>" "live_bot d i = Some row" "scan_bot d row = Some b"
      "b_id b = i" "b_tenant b = b_tenant (r_bot row)"
      using g y(1) by (blast elim: get_bot_by_id_Some)
    then have may: "may_write x i d b" using None y(2) by (simp add: may_write_def)
    obtain u d2 where u: "remove_did did d1 = (u, d2)" by (cases "remove_did did d1")
    from u show thesis
    proof (cases rule: remove_did_cases)
      case (same gs e)
      then show thesis using assms None g y u d1(1) that(1) by (auto simp: h_remove_did_def)
    next
      case (removed gs)
      then show thesis using assms None g y u d1(1) may
        by (intro that(2) [of b gs]) (auto simp: h_remove_did_def)
    qed
  qed
qed

section \<open>Requests to the bot API\<close>

datatype bots_op =
  OpList | OpGet uuid | OpCreate "bot_req result" | OpUpdate uuid "bot_req result" | OpDelete uuid
| OpDids uuid | OpAddDid uuid "(gostring \<times> gostring) result" | OpDelDid uuid gostring

fun bots_step :: "ctx \<Rightarrow> bots_op \<Rightarrow> db \<Rightarrow> nat \<times> db" where
  "bots_step x OpList d = map_prod reply_status id (h_list_bots x d)"
| "bots_step x (OpGet i) d = map_prod reply_status id (h_get_bot x i d)"
| "bots_step x (OpCreate q) d = map_prod reply_status id (h_create_bot x q d)"
| "bots_step x (OpUpdate i q) d = map_prod reply_status id (h_update_bot x i q d)"
| "bots_step x (OpDelete i) d = map_prod reply_status id (h_delete_bot x i d)"
| "bots_step x (OpDids i) d = map_prod reply_status id (h_list_dids x i d)"
| "bots_step x (OpAddDid i q) d = map_prod reply_status id (h_add_did x i q d)"
| "bots_step x (OpDelDid i did) d = map_prod reply_status id (h_remove_did x i did d)"

lemma map_prod_eqD: "map_prod f id p = (a, b) \<Longrightarrow> \<exists>r. p = (r, b) \<and> a = f r"
  by (cases p) auto

lemma h_list_bots_frame:
  "h_list_bots x d = (r, d') \<Longrightarrow> (\<exists>fs. d' = d\<lparr>faults := fs\<rparr>) \<and> reply_status r \<notin> {201, 204}"
  using same_refl [of d] list_bots_frame
  by (auto simp: h_list_bots_def split: option.splits sum.splits prod.splits)

lemma h_get_bot_frame:
  "h_get_bot x i d = (r, d') \<Longrightarrow> (\<exists>fs. d' = d\<lparr>faults := fs\<rparr>) \<and> reply_status r \<notin> {201, 204}"
  by (auto simp: h_get_bot_def split: option.splits sum.splits prod.splits if_splits
      dest!: get_bot_by_id_frame list_dids_frame)

lemma h_list_dids_frame:
  "h_list_dids x i d = (r, d') \<Longrightarrow> (\<exists>fs. d' = d\<lparr>faults := fs\<rparr>) \<and> reply_status r \<notin> {201, 204}"
  by (auto simp: h_list_dids_def split: option.splits sum.splits prod.splits if_splits
      dest!: get_bot_by_id_frame list_dids_frame)

text \<open>What a request may do to the tables of bots and numbers.\<close>

lemma bots_step_cases:
  assumes "bots_step x op d = (st, d')"
  obtains (same) "bots d' = bots d" "dids d' = dids d" "tenants d' = tenants d" "audit_queue d' = audit_queue d"
      "st \<notin> {201, 204}"
  | (created) c q tid w where "op = OpCreate (Inr q)" "st = 201" "x_id x = Some c" "can_manage_bots (Some c)"
      "w_tenant w = tid" "is_platform_admin c \<or> i_tenant c = Some tid" "w_tenant w \<in> t_id ` set (tenants d)"
      "bot_check (new_bot (x_fresh x) (x_now x) w)" "\<not> slug_taken d (x_fresh x) (w_tenant w) (w_slug w)"
      "bots d' = bots d @ [\<lparr>r_bot = new_bot (x_fresh x) (x_now x) w, r_deleted = False\<rparr>]"
      "dids d' = dids d" "tenants d' = tenants d" "length (audit_queue d') = Suc (length (audit_queue d))"
  | (updated) i q b v w row where "op = OpUpdate i (Inr q)" "st = 204" "may_write x i d b" "br_version q = Some v"
      "to_write_input (b_tenant b) (map_option i_user (x_id x)) False q = Some w"
      "first_row (update_match i v) (bots d) = Some row" "bot_check (apply_update (x_now x) w (r_bot row))"
      "\<not> slug_taken d i (b_tenant (r_bot row)) (w_slug w)" "bots d' = updated_bots (x_now x) i w v (bots d)"
      "dids d' = dids d" "tenants d' = tenants d" "length (audit_queue d') = Suc (length (audit_queue d))"
  | (deleted) i b where "op = OpDelete i" "st = 204" "may_write x i d b" "bots d' = deleted_bots i (bots d)"
      "dids d' = dids d" "tenants d' = tenants d" "length (audit_queue d') = Suc (length (audit_queue d))"
  | (added) i b did nt where "op = OpAddDid i (Inr (did, nt))" "st = 201" "may_write x i d b" "did_ok (trim_space did)"
      "trim_space did \<notin> d_did ` set (dids d)" "i \<in> (b_id \<circ> r_bot) ` set (bots d)"
      "dids d' = dids d @ [\<lparr>d_did = trim_space did, d_bot = i, d_note = nt, d_created = x_now x\<rparr>]"
      "bots d' = bots d" "tenants d' = tenants d" "length (audit_queue d') = Suc (length (audit_queue d))"
  | (removed) i b did where "op = OpDelDid i did" "st = 204" "may_write x i d b"
      "dids d' = filter (\<lambda>y. d_did y \<noteq> did) (dids d)"
      "bots d' = bots d" "tenants d' = tenants d" "length (audit_queue d') = Suc (length (audit_queue d))"
proof (cases op)
  case OpList
  then obtain r where "h_list_bots x d = (r, d')" "st = reply_status r" using assms by (auto dest: map_prod_eqD)
  then show ?thesis using h_list_bots_frame same by fastforce
next
  case (OpGet i)
  then obtain r where "h_get_bot x i d = (r, d')" "st = reply_status r" using assms by (auto dest: map_prod_eqD)
  then show ?thesis using h_get_bot_frame same by fastforce
next
  case (OpDids i)
  then obtain r where "h_list_dids x i d = (r, d')" "st = reply_status r" using assms by (auto dest: map_prod_eqD)
  then show ?thesis using h_list_dids_frame same by fastforce
next
  case (OpCreate body)
  then obtain r where r: "h_create_bot x body d = (r, d')" "st = reply_status r" using assms by (auto dest: map_prod_eqD)
  from r(1) show ?thesis
  proof (cases rule: h_create_bot_cases)
    case (same fs)
    then show ?thesis using r by (intro that(1)) auto
  next
    case (created c q tid w fs d1)
    moreover from created have "w_tenant w = tid" by (auto simp: to_write_input_def split: if_splits)
    moreover from created have "is_platform_admin c \<or> i_tenant c = Some tid"
      by (auto simp: resolve_target_tenant_def split: if_splits)
    ultimately show ?thesis using r OpCreate by (intro that(2) [of q c w tid]) (auto simp: record_audit_def)
  qed
next
  case (OpUpdate i body)
  then obtain r where r: "h_update_bot x i body d = (r, d')" "st = reply_status r" using assms by (auto dest: map_prod_eqD)
  from r(1) show ?thesis
  proof (cases rule: h_update_bot_cases)
    case (same fs)
    then show ?thesis using r by (intro that(1)) auto
  next
    case (updated b q v w fs d2)
    from updated(6) show ?thesis
    proof (cases rule: update_bot_cases)
      case (changed fs' row)
      then show ?thesis using updated r OpUpdate
        by (intro that(3) [of i q b v w row]) (auto simp: record_audit_def)
    qed simp
  qed
next
  case (OpDelete i)
  then obtain r where r: "h_delete_bot x i d = (r, d')" "st = reply_status r" using assms by (auto dest: map_prod_eqD)
  from r(1) show ?thesis
  proof (cases rule: h_delete_bot_cases)
    case (same fs)
    then show ?thesis using r by (intro that(1)) auto
  next
    case (deleted b fs)
    then show ?thesis using r OpDelete by (intro that(4) [of i b]) (auto simp: record_audit_def)
  qed
next
  case (OpAddDid i body)
  then obtain r where r: "h_add_did x i body d = (r, d')" "st = reply_status r" using assms by (auto dest: map_prod_eqD)
  from r(1) show ?thesis
  proof (cases rule: h_add_did_cases)
    case (same fs)
    then show ?thesis using r by (intro that(1)) auto
  next
    case (added b raw nt fs)
    then show ?thesis using r OpAddDid by (intro that(5) [of i raw nt b]) (auto simp: record_audit_def)
  qed
next
  case (OpDelDid i did)
  then obtain r where r: "h_remove_did x i did d = (r, d')" "st = reply_status r" using assms by (auto dest: map_prod_eqD)
  from r(1) show ?thesis
  proof (cases rule: h_remove_did_cases)
    case (same fs)
    then show ?thesis using r by (intro that(1)) auto
  next
    case (removed b fs)
    then show ?thesis using r OpDelDid by (intro that(6) [of i did b]) (auto simp: record_audit_def)
  qed
qed

end
