(* ===== verification/BotsProps.thy ===== *)
theory BotsProps
  imports BotsSafety
begin

text \<open>
  The guarantees of the bot API over sequences of requests: the constraints of the tables hold in
  every reachable state, tenants are isolated, an edit based on a stale version is refused, a
  deleted bot stays unreachable, tokens stay masked, and each change queues one audit entry.
\<close>

section \<open>The constraints of the tables\<close>

definition bot_ids :: "db \<Rightarrow> uuid list" where
  "bot_ids d = map (b_id \<circ> r_bot) (bots d)"

definition bots_ok :: "db \<Rightarrow> bool" where
  "bots_ok d \<longleftrightarrow>
     distinct (bot_ids d) \<and>
     (\<forall>r\<in>set (bots d). bot_check (r_bot r) \<and> b_tenant (r_bot r) \<in> t_id ` set (tenants d) \<and>
        \<not> slug_taken d (b_id (r_bot r)) (b_tenant (r_bot r)) (b_slug (r_bot r))) \<and>
     distinct (map d_did (dids d)) \<and>
     (\<forall>x\<in>set (dids d). did_ok (d_did x) \<and> d_bot x \<in> set (bot_ids d))"

text \<open>A request; the id it would give a new bot is unused.\<close>

definition bots_request :: "db \<Rightarrow> db \<Rightarrow> bool" where
  "bots_request d d' \<longleftrightarrow> (\<exists>x op st. x_fresh x \<notin> set (bot_ids d) \<and> bots_step x op d = (st, d'))"

lemma bots_request_of: "x_fresh x \<notin> set (bot_ids d) \<Longrightarrow> bots_request d (snd (bots_step x op d))"
  unfolding bots_request_def by (metis prod.collapse)

definition empty_bots :: "db \<Rightarrow> bool" where
  "empty_bots d \<longleftrightarrow> bots d = [] \<and> dids d = []"

lemma new_bot_fields [simp]:
  "b_id (new_bot n now w) = n" "b_tenant (new_bot n now w) = w_tenant w" "b_slug (new_bot n now w) = w_slug w"
  "b_version (new_bot n now w) = 1"
  by (simp_all add: new_bot_def)

lemma apply_update_fields [simp]:
  "b_id (apply_update now w b) = b_id b" "b_tenant (apply_update now w b) = b_tenant b"
  "b_slug (apply_update now w b) = w_slug w" "b_version (apply_update now w b) = b_version b + 1"
  by (simp_all add: apply_update_def)

lemma ids_updated [simp]: "map (b_id \<circ> r_bot) (updated_bots now i w v rs) = map (b_id \<circ> r_bot) rs"
  by (simp add: updated_bots_def)

lemma ids_deleted [simp]: "map (b_id \<circ> r_bot) (deleted_bots i rs) = map (b_id \<circ> r_bot) rs"
  by (simp add: deleted_bots_def)

lemma bots_deleted [simp]: "map r_bot (deleted_bots i rs) = map r_bot rs"
  by (simp add: deleted_bots_def)

lemma slug_taken_bots:
  "slug_taken d self tid s \<longleftrightarrow> (\<exists>b\<in>set (map r_bot (bots d)). b_id b \<noteq> self \<and> b_tenant b = tid \<and> b_slug b = s)"
  by (simp add: slug_taken_def)

lemma in_updated_bots:
  "r \<in> set (updated_bots now i w v rs) \<Longrightarrow>
     (r \<in> set rs \<and> \<not> update_match i v r) \<or>
     (\<exists>s\<in>set rs. update_match i v s \<and> r = s\<lparr>r_bot := apply_update now w (r_bot s)\<rparr>)"
  by (auto simp: updated_bots_def)

lemma in_deleted_bots:
  "r \<in> set (deleted_bots i rs) \<Longrightarrow> \<exists>s\<in>set rs. r_bot r = r_bot s \<and> (r_deleted s \<longrightarrow> r_deleted r)"
  by (auto simp: deleted_bots_def)

lemma bots_ok_distinct: "bots_ok d \<Longrightarrow> distinct (bot_ids d)"
  by (simp add: bots_ok_def)

lemma same_id_same_row:
  "distinct (bot_ids d) \<Longrightarrow> r \<in> set (bots d) \<Longrightarrow> s \<in> set (bots d) \<Longrightarrow>
     b_id (r_bot r) = b_id (r_bot s) \<Longrightarrow> r = s"
  by (auto simp: bot_ids_def distinct_map inj_on_def)

lemma bots_ok_cong:
  "bots d' = bots d \<Longrightarrow> tenants d' = tenants d \<Longrightarrow> dids d' = dids d \<Longrightarrow> bots_ok d' = bots_ok d"
  by (simp add: bots_ok_def bot_ids_def slug_taken_def)

lemma bots_ok_created:
  assumes ok: "bots_ok d" and n: "n \<notin> set (bot_ids d)"
    and w: "w_tenant w \<in> t_id ` set (tenants d)" "bot_check (new_bot n now w)"
      "\<not> slug_taken d n (w_tenant w) (w_slug w)"
    and d': "bots d' = bots d @ [\<lparr>r_bot = new_bot n now w, r_deleted = False\<rparr>]" "dids d' = dids d" "tenants d' = tenants d"
  shows "bots_ok d'"
proof -
  have taken: "slug_taken d' i t s \<longleftrightarrow> slug_taken d i t s \<or> (n \<noteq> i \<and> w_tenant w = t \<and> w_slug w = s)" for i t s
    by (auto simp: slug_taken_def d')
  have "\<not> slug_taken d' (b_id (r_bot r)) (b_tenant (r_bot r)) (b_slug (r_bot r))" if "r \<in> set (bots d)" for r
  proof -
    from that n have "b_id (r_bot r) \<noteq> n" by (auto simp: bot_ids_def)
    with that w(3) have "\<not> (w_tenant w = b_tenant (r_bot r) \<and> w_slug w = b_slug (r_bot r))"
      by (auto simp: slug_taken_def)
    then show ?thesis using that ok by (simp add: taken bots_ok_def)
  qed
  moreover have "\<not> slug_taken d' n (w_tenant w) (w_slug w)" using w(3) by (simp add: taken)
  ultimately show ?thesis using assms by (auto simp: bots_ok_def bot_ids_def)
qed

lemma bots_ok_updated:
  assumes ok: "bots_ok d" and row: "first_row (update_match i v) (bots d) = Some row"
    and w: "bot_check (apply_update now w (r_bot row))" "\<not> slug_taken d i (b_tenant (r_bot row)) (w_slug w)"
    and d': "bots d' = updated_bots now i w v (bots d)" "dids d' = dids d" "tenants d' = tenants d"
  shows "bots_ok d'"
proof -
  from row have r: "row \<in> set (bots d)" "b_id (r_bot row) = i" by (auto dest: first_row_SomeD simp: update_match_def)
  have only: "s = row" if "s \<in> set (bots d)" "update_match i v s" for s
    using same_id_same_row [OF bots_ok_distinct [OF ok] that(1) r(1)] that(2) r(2) by (simp add: update_match_def)
  have old: "\<not> slug_taken d (b_id (r_bot s)) (b_tenant (r_bot s)) (b_slug (r_bot s))" "bot_check (r_bot s)"
    "b_tenant (r_bot s) \<in> t_id ` set (tenants d)" if "s \<in> set (bots d)" for s
    using ok that by (auto simp: bots_ok_def)
  have in': "\<exists>s\<in>set (bots d). b_id (r_bot r) = b_id (r_bot s) \<and> b_tenant (r_bot r) = b_tenant (r_bot s) \<and>
      (b_slug (r_bot r) = (if s = row then w_slug w else b_slug (r_bot s))) \<and> bot_check (r_bot r)"
    if "r \<in> set (bots d')" for r
  proof -
    from in_updated_bots [OF that [unfolded d'(1)]] show ?thesis
    proof (elim disjE bexE conjE)
      assume "r \<in> set (bots d)" "\<not> update_match i v r"
      moreover have "update_match i v row" using first_row_SomeD [OF row] by simp
      ultimately show ?thesis using old(2) by (intro bexI [of _ r]) auto
    next
      fix s assume s: "s \<in> set (bots d)" "update_match i v s" "r = s\<lparr>r_bot := apply_update now w (r_bot s)\<rparr>"
      then show ?thesis using only [OF s(1,2)] w(1) by (intro bexI [of _ row]) simp_all
    qed
  qed
  have free: "\<not> (b_id (r_bot s) \<noteq> b_id (r_bot t) \<and> b_tenant (r_bot s) = b_tenant (r_bot t) \<and>
      (if s = row then w_slug w else b_slug (r_bot s)) = (if t = row then w_slug w else b_slug (r_bot t)))"
    if "s \<in> set (bots d)" "t \<in> set (bots d)" for s t
  proof (cases "s = row \<or> t = row")
    case True
    have other: "u \<in> set (bots d) \<Longrightarrow> b_id (r_bot u) \<noteq> i \<Longrightarrow> b_tenant (r_bot u) = b_tenant (r_bot row) \<Longrightarrow>
        b_slug (r_bot u) \<noteq> w_slug w" for u using w(2) by (auto simp: slug_taken_def)
    with True show ?thesis using other [OF that(1)] other [OF that(2)] r(2) not_sym by (auto split: if_splits)
  next
    case False
    then show ?thesis using old(1) [OF that(1)] that(2) by (auto simp: slug_taken_def)
  qed
  have "\<not> slug_taken d' (b_id (r_bot r)) (b_tenant (r_bot r)) (b_slug (r_bot r))" if r': "r \<in> set (bots d')" for r
  proof
    assume "slug_taken d' (b_id (r_bot r)) (b_tenant (r_bot r)) (b_slug (r_bot r))"
    then obtain q where q: "q \<in> set (bots d')" "b_id (r_bot q) \<noteq> b_id (r_bot r)" "b_tenant (r_bot q) = b_tenant (r_bot r)"
      "b_slug (r_bot q) = b_slug (r_bot r)" by (auto simp: slug_taken_def)
    from in' [OF r'] in' [OF q(1)] show False using free q(2-4) by metis
  qed
  moreover have "b_tenant (r_bot r) \<in> t_id ` set (tenants d')" "bot_check (r_bot r)" if "r \<in> set (bots d')" for r
    using in' [OF that] old(3) d'(3) by auto
  ultimately show ?thesis using ok d' by (auto simp: bots_ok_def bot_ids_def)
qed

lemma bots_ok_deleted:
  assumes ok: "bots_ok d"
    and d': "bots d' = deleted_bots i (bots d)" "dids d' = dids d" "tenants d' = tenants d"
  shows "bots_ok d'"
proof -
  have "slug_taken d' = slug_taken d" by (simp add: slug_taken_bots fun_eq_iff d')
  then show ?thesis using ok d' by (fastforce simp: bots_ok_def bot_ids_def dest: in_deleted_bots)
qed

lemma bots_ok_step:
  assumes "bots_request d d'" "bots_ok d"
  shows "bots_ok d'"
proof -
  from assms(1) obtain x op st where n: "x_fresh x \<notin> set (bot_ids d)" and s: "bots_step x op d = (st, d')"
    unfolding bots_request_def by blast
  from s show ?thesis
  proof (cases rule: bots_step_cases)
    case same then show ?thesis using assms(2) bots_ok_cong by metis
  next
    case (created c q tid w) then show ?thesis using bots_ok_created [OF assms(2) n] by blast
  next
    case (updated i q b v w row) then show ?thesis using bots_ok_updated [OF assms(2)] by blast
  next
    case (deleted i b) then show ?thesis using bots_ok_deleted [OF assms(2)] by blast
  next
    case (added i b did nt)
    then show ?thesis using assms(2) by (auto simp: bots_ok_def bot_ids_def slug_taken_def)
  next
    case (removed i b did)
    then show ?thesis using assms(2) by (auto simp: bots_ok_def bot_ids_def slug_taken_def distinct_map_filter)
  qed
qed

interpretation bot_api: transition_system empty_bots bots_request bots_ok
proof unfold_locales
  show "empty_bots s \<Longrightarrow> bots_ok s" for s by (simp add: empty_bots_def bots_ok_def bot_ids_def)
  show "bots_request s t \<Longrightarrow> bots_ok s \<Longrightarrow> bots_ok t" for s t by (rule bots_ok_step)
qed

section \<open>Versions and deletion along runs\<close>

definition newer :: "uuid \<Rightarrow> int \<Rightarrow> db \<Rightarrow> bool" where
  "newer i v d \<longleftrightarrow> i \<in> set (bot_ids d) \<and> (\<forall>r\<in>set (bots d). b_id (r_bot r) = i \<longrightarrow> v < b_version (r_bot r))"

definition gone :: "uuid \<Rightarrow> db \<Rightarrow> bool" where
  "gone i d \<longleftrightarrow> i \<in> set (bot_ids d) \<and> (\<forall>r\<in>set (bots d). b_id (r_bot r) = i \<longrightarrow> r_deleted r)"

text \<open>What no request undoes: the version of a bot never falls, and a deleted bot stays deleted.\<close>

lemma bots_request_mono:
  assumes "bots_request d d'"
  shows "newer i v d \<Longrightarrow> newer i v d'" "gone i d \<Longrightarrow> gone i d'"
proof -
  from assms obtain x op st where n: "x_fresh x \<notin> set (bot_ids d)" and s: "bots_step x op d = (st, d')"
    unfolding bots_request_def by blast
  have "(newer i v d \<longrightarrow> newer i v d') \<and> (gone i d \<longrightarrow> gone i d')"
    using s
  proof (cases rule: bots_step_cases)
    case same then show ?thesis by (simp add: newer_def gone_def bot_ids_def)
  next
    case (created c q tid w) then show ?thesis using n by (auto simp: newer_def gone_def bot_ids_def)
  next
    case (updated j q b u w row)
    then have "bot_ids d' = bot_ids d" by (simp add: bot_ids_def)
    then show ?thesis unfolding newer_def gone_def updated(9)
      by (force simp: update_match_def dest: in_updated_bots)
  next
    case (deleted j b)
    then have "bot_ids d' = bot_ids d" by (simp add: bot_ids_def)
    then show ?thesis unfolding newer_def gone_def deleted(4)
      by (fastforce dest: in_deleted_bots)
  next
    case added then show ?thesis by (simp add: newer_def gone_def bot_ids_def)
  next
    case removed then show ?thesis by (simp add: newer_def gone_def bot_ids_def)
  qed
  then show "newer i v d \<Longrightarrow> newer i v d'" "gone i d \<Longrightarrow> gone i d'" by auto
qed

lemma newer_steps: "steps_from bots_request d d' \<Longrightarrow> newer i v d \<Longrightarrow> newer i v d'"
  by (erule steps_from_keeps) (auto intro: bots_request_mono)

lemma gone_steps: "steps_from bots_request d d' \<Longrightarrow> gone i d \<Longrightarrow> gone i d'"
  by (erule steps_from_keeps) (auto intro: bots_request_mono)

lemma updated_newer:
  assumes "bots_ok d" "bots_step x (OpUpdate i (Inr q)) d = (204, d')" "br_version q = Some v"
  shows "newer i v d'"
  using assms(2)
proof (cases rule: bots_step_cases)
  case (updated j q' b u w row)
  then have row: "row \<in> set (bots d)" "b_id (r_bot row) = i" "update_match i v row"
    using assms(3) by (auto dest: first_row_SomeD simp: update_match_def)
  have "v < b_version (r_bot r)" if "r \<in> set (bots d')" "b_id (r_bot r) = i" for r
  proof -
    from updated assms(3) that(1) have "r \<in> set (updated_bots (x_now x) i w v (bots d))" by simp
    from in_updated_bots [OF this] show ?thesis
    proof (elim disjE bexE conjE)
      assume "r \<in> set (bots d)" "\<not> update_match i v r"
      moreover from this have "r = row"
        using same_id_same_row [OF bots_ok_distinct [OF assms(1)]] row(1,2) that(2) by simp
      ultimately show ?thesis using row(3) by simp
    next
      fix s assume "update_match i v s" "r = s\<lparr>r_bot := apply_update (x_now x) w (r_bot s)\<rparr>"
      then show ?thesis by (simp add: update_match_def)
    qed
  qed
  moreover have "i \<in> set (bot_ids d')" using row updated by (auto simp: bot_ids_def updated_bots_def)
  ultimately show ?thesis by (simp add: newer_def)
qed simp_all

lemma deleted_gone:
  assumes "bots_step x (OpDelete i) d = (204, d')"
  shows "gone i d'"
  using assms
proof (cases rule: bots_step_cases)
  case (deleted j b)
  then obtain row where "live_bot d i = Some row" by (auto simp: may_write_def)
  then have "i \<in> set (bot_ids d)" using live_botD [of d i row] by (auto simp: bot_ids_def)
  with deleted show ?thesis by (auto simp: gone_def bot_ids_def deleted_bots_def)
qed simp_all

lemma get_bot_by_did_Some:
  assumes "get_bot_by_did did d = (Inr (Some b), d')"
  obtains x row where "x \<in> set (dids d)" "d_did x = did" "d_bot x = b_id b" "live_bot d (b_id b) = Some row"
    "b_enabled (r_bot row)" "tenant_on d (b_tenant b)" "scan_bot d row = Some b"
proof -
  have "Option.bind (first_row (\<lambda>x. d_did x = did) (dids d)) (\<lambda>x.
     Option.bind (live_bot d (d_bot x)) (\<lambda>r.
       if b_enabled (r_bot r) \<and> tenant_on d (b_tenant (r_bot r)) then scan_bot d r else None)) = Some b"
    by (rule fetch_ok [OF assms [unfolded get_bot_by_did_def], symmetric]) (simp add: tenant_on_def cong: if_cong)
  then obtain x r where x: "first_row (\<lambda>x. d_did x = did) (dids d) = Some x" "live_bot d (d_bot x) = Some r"
    "b_enabled (r_bot r)" "tenant_on d (b_tenant (r_bot r))" "scan_bot d r = Some b"
    by (auto simp: bind_eq_Some_conv split: if_splits)
  then show thesis using that first_row_SomeD [OF x(1)] live_botD [OF x(2)] scan_bot_fields [OF x(5)] by metis
qed

lemma first_row_snoc: "\<forall>x\<in>set xs. \<not> P x \<Longrightarrow> first_row P (xs @ [y]) = (if P y then Some y else None)"
  by (simp add: first_row_def filter_empty_conv)

section \<open>Tenants\<close>

definition tenant_rows :: "uuid \<Rightarrow> db \<Rightarrow> bot_row list" where
  "tenant_rows tid d = filter (\<lambda>r. b_tenant (r_bot r) = tid) (bots d)"

definition bot_dids :: "uuid \<Rightarrow> db \<Rightarrow> did_row list" where
  "bot_dids i d = filter (\<lambda>x. d_bot x = i) (dids d)"

lemma filter_map_id:
  "(\<And>x. x \<in> set xs \<Longrightarrow> P (f x) = P x) \<Longrightarrow> (\<And>x. x \<in> set xs \<Longrightarrow> P x \<Longrightarrow> f x = x) \<Longrightarrow>
     filter P (map f xs) = filter P xs"
  by (induction xs) auto

lemma may_write_tenant:
  assumes "may_write x i d b" "x_id x = Some c" "\<not> is_platform_admin c"
  obtains row where "row \<in> set (bots d)" "b_id (r_bot row) = i" "i_tenant c = Some (b_tenant (r_bot row))"
proof -
  from assms(1) obtain row where "live_bot d i = Some row" "b_tenant b = b_tenant (r_bot row)" "can_access_bot x b"
    by (auto simp: may_write_def)
  with assms(2,3) that live_botD [of d i row] show thesis by (auto simp: can_access_bot_def)
qed

lemma foreign_rows:
  assumes "bots_ok d" "bots_step x op d = (st, d')" "x_id x = Some c" "\<not> is_platform_admin c" "i_tenant c \<noteq> Some tid"
  shows "tenant_rows tid d' = tenant_rows tid d"
  using assms(2)
proof (cases rule: bots_step_cases)
  case (created c' q tid' w)
  then show ?thesis using assms(3-5) by (auto simp: tenant_rows_def)
next
  case (updated i q b v w row)
  from may_write_tenant [OF updated(3) assms(3,4)] obtain s where s: "s \<in> set (bots d)" "b_id (r_bot s) = i"
    "i_tenant c = Some (b_tenant (r_bot s))" .
  have "\<not> update_match i v r" if "r \<in> set (bots d)" "b_tenant (r_bot r) = tid" for r
    using same_id_same_row [OF bots_ok_distinct [OF assms(1)] that(1) s(1)] s that assms(5) by (auto simp: update_match_def)
  then show ?thesis unfolding tenant_rows_def updated(9) updated_bots_def by (intro filter_map_id) auto
next
  case (deleted i b)
  from may_write_tenant [OF deleted(3) assms(3,4)] obtain s where s: "s \<in> set (bots d)" "b_id (r_bot s) = i"
    "i_tenant c = Some (b_tenant (r_bot s))" .
  have "b_id (r_bot r) \<noteq> i" if "r \<in> set (bots d)" "b_tenant (r_bot r) = tid" for r
    using same_id_same_row [OF bots_ok_distinct [OF assms(1)] that(1) s(1)] s that assms(5) by auto
  then show ?thesis unfolding tenant_rows_def deleted(4) deleted_bots_def by (intro filter_map_id) auto
qed (simp_all add: tenant_rows_def)

lemma foreign_dids:
  assumes "bots_ok d" "bots_step x op d = (st, d')" "x_id x = Some c" "\<not> is_platform_admin c" "i_tenant c \<noteq> Some tid"
    and r: "r \<in> set (bots d)" "b_tenant (r_bot r) = tid" and op: "\<And>i did. op \<noteq> OpDelDid i did"
  shows "bot_dids (b_id (r_bot r)) d' = bot_dids (b_id (r_bot r)) d"
  using assms(2)
proof (cases rule: bots_step_cases)
  case (added i b did nt)
  from may_write_tenant [OF added(3) assms(3,4)] obtain s where s: "s \<in> set (bots d)" "b_id (r_bot s) = i"
    "i_tenant c = Some (b_tenant (r_bot s))" .
  then have "b_id (r_bot r) \<noteq> i"
    using same_id_same_row [OF bots_ok_distinct [OF assms(1)] r(1) s(1)] r assms(5) by auto
  with added show ?thesis by (simp add: bot_dids_def)
next
  case (removed i b did)
  with op show ?thesis by blast
qed (simp_all add: bot_dids_def)

section \<open>Data for the witnesses\<close>

definition demo_admin :: ctx where
  "demo_admin = \<lparr>x_id = Some \<lparr>i_user = ''u0'', i_name = ''root'', i_role = ''platform_admin'', i_tenant = None,
      i_evaluator = False, i_bot_admin = True\<rparr>, x_ip = ''10.0.0.1'', x_agent = [], x_now = 7, x_fresh = ''b1''\<rparr>"

definition demo_user :: "uuid \<Rightarrow> uuid \<Rightarrow> ctx" where
  "demo_user tid fresh = \<lparr>x_id = Some \<lparr>i_user = ''u1'', i_name = ''tu'', i_role = ''tenant_user'', i_tenant = Some tid,
      i_evaluator = False, i_bot_admin = True\<rparr>, x_ip = ''10.0.0.1'', x_agent = [], x_now = 8, x_fresh = fresh\<rparr>"

definition demo_req :: bot_req where
  "demo_req = \<lparr>br_tenant = Some ''t1'', br_tenant_slug = [], br_slug = ''shop'', br_name = ''Shop'', br_enabled = None,
      br_url = ''http://bot'', br_first_byte_ms = 0, br_total_ms = 0, br_asr_provider = [], br_asr_endpoint = ''a:1'',
      br_asr_token = Some ''asrsecret'', br_tts_provider = [], br_tts_endpoint = ''t:1'', br_tts_token = None,
      br_voice = [], br_tempo = 0, br_silence_sec = 0, br_speech_sec = 0, br_max_sec = 0, br_single = None,
      br_bargein = None, br_min_words = 0, br_filler = None, br_filler_mode = [], br_intent_url = [], br_intent_ms = 0,
      br_prefix = [], br_version = None\<rparr>"

definition demo_db :: db where
  "demo_db = \<lparr>faults = [], tenants = [\<lparr>t_id = ''t1'', t_slug = ''one'', t_name = ''One'', t_enabled = True\<rparr>,
      \<lparr>t_id = ''t2'', t_slug = ''two'', t_name = ''Two'', t_enabled = True\<rparr>], users = [], bots = [], dids = [],
      calls = [], qcs = [], web_sessions = [], web_turns = [], audit_queue = [], audit_log = []\<rparr>"

text \<open>One bot of tenant \<open>t1\<close>, one of tenant \<open>t2\<close>, a number for each.\<close>

definition demo_row :: "uuid \<Rightarrow> uuid \<Rightarrow> bot_row" where
  "demo_row i tid = \<lparr>r_bot = new_bot i 7 (case to_write_input tid None True demo_req of Some w \<Rightarrow> w | None \<Rightarrow> undefined),
      r_deleted = False\<rparr>"

definition demo_bots :: db where
  "demo_bots = demo_db\<lparr>bots := [demo_row ''b1'' ''t1'', demo_row ''b2'' ''t2''],
      dids := [\<lparr>d_did = ''100'', d_bot = ''b1'', d_note = [], d_created = 1\<rparr>,
               \<lparr>d_did = ''200'', d_bot = ''b2'', d_note = [], d_created = 2\<rparr>]\<rparr>"

lemmas demo_bots_defs = demo_admin_def demo_user_def demo_req_def demo_db_def demo_row_def demo_bots_def

lemma demo_row_eval:
  "b_id (r_bot (demo_row i t)) = i" "b_tenant (r_bot (demo_row i t)) = t" "b_slug (r_bot (demo_row i t)) = ''shop''"
  "b_version (r_bot (demo_row i t)) = 1" "b_enabled (r_bot (demo_row i t))" "\<not> r_deleted (demo_row i t)"
  "asr_token (r_bot (demo_row i t)) = ''asrsecret''" "bot_check (r_bot (demo_row i t))"
  by (simp_all add: demo_bots_defs new_bot_def to_write_input_def coalesce_bool_def default_int_def default_str_def
      default_float_def normalize_filler_mode_def bot_check_def providers_def fill_mode_def fill_intent_ms_def
      slug_ok_def slug_char_def less_eq_char_def)

lemma demo_bots_ok: "bots_ok demo_bots"
  by (simp add: bots_ok_def bot_ids_def slug_taken_def demo_row_eval demo_bots_def demo_db_def did_ok_def less_eq_char_def)

lemma demo_may_write: "may_write (demo_user ''t1'' n) ''b1'' demo_bots ((r_bot (demo_row ''b1'' ''t1''))\<lparr>b_tenant_slug := ''one''\<rparr>)"
  by (simp add: may_write_def refuse_write_def is_platform_admin_def can_access_bot_def demo_user_def
      live_bot_def first_row_def scan_bot_def demo_row_eval demo_bots_def demo_db_def)

definition demo_deleted :: db where
  "demo_deleted = demo_bots\<lparr>bots := [(demo_row ''b1'' ''t1'')\<lparr>r_deleted := True\<rparr>, demo_row ''b2'' ''t2''],
       audit_queue := [\<lparr>a_tenant = Some ''t1'', a_actor = Some ''u1'', a_name = ''tu'', a_role = ''tenant_user'',
          a_action = ''bot.delete'', a_entity = ''bot'', a_target = ''b1'', a_ip = ''10.0.0.1'', a_agent = [], a_created = 8\<rparr>]\<rparr>"

lemma demo_delete: "bots_step (demo_user ''t1'' n) (OpDelete ''b1'') demo_bots = (204, demo_deleted)"
  by (simp add: h_delete_bot_def refuse_write_def is_platform_admin_def can_access_bot_def demo_user_def get_bot_by_id_def
      fetch_def run_query_def live_bot_def first_row_def scan_bot_def demo_row_eval soft_delete_bot_def record_audit_def
      demo_bots_def demo_db_def demo_deleted_def)

lemma demo_user_id:
  obtains c where "x_id (demo_user tid n) = Some c" "\<not> is_platform_admin c" "i_tenant c = Some tid"
  by (simp add: demo_user_def is_platform_admin_def)

section \<open>Properties\<close>

text \<open>C2: Starting with no bots and no numbers, after any sequence of requests to the bot API, by any
  callers and with any query failures, the tables satisfy their constraints: bot ids are distinct, slugs unique within a
  tenant, every configuration within its bounds and of an existing tenant, every number well formed, routed once
  and routed to a bot that exists.\<close>

theorem bot_tables_keep_constraints:
  assumes "empty_bots d" "steps_from bots_request d d'"
  shows "bots_ok d'"
  using assms by (rule bot_api.reach_inv)

theorem bot_tables_keep_constraints_witness:
  "bots_ok (snd (bots_step demo_admin (OpCreate (Inr demo_req)) demo_db))"
  by (rule bot_tables_keep_constraints [OF _ steps_from_one [of bots_request, OF bots_request_of]])
    (simp_all add: empty_bots_def bot_ids_def demo_db_def)

text \<open>C1: Tenants are isolated: no request of a caller who is not a platform administrator changes, adds
  or deletes a bot of another tenant, and none but the removal of a number changes which numbers reach one.\<close>

theorem tenants_isolated:
  assumes "bots_ok d" "bots_step x op d = (st, d')" "x_id x = Some c" "\<not> is_platform_admin c" "i_tenant c \<noteq> Some tid"
  shows "tenant_rows tid d' = tenant_rows tid d \<and>
    ((\<exists>i did. op = OpDelDid i did) \<or>
     (\<forall>r. r \<in> set (tenant_rows tid d) \<longrightarrow> bot_dids (b_id (r_bot r)) d' = bot_dids (b_id (r_bot r)) d))"
  using foreign_rows [OF assms] foreign_dids [OF assms] by (auto simp: tenant_rows_def)

theorem tenants_isolated_witness:
  "bots_step (demo_user ''t1'' ''b3'') (OpDelete ''b1'') demo_bots = (204, demo_deleted) \<and>
     tenant_rows ''t2'' demo_deleted = tenant_rows ''t2'' demo_bots \<and>
     tenant_rows ''t1'' demo_deleted \<noteq> tenant_rows ''t1'' demo_bots"
proof (intro conjI)
  obtain c where "x_id (demo_user ''t1'' ''b3'') = Some c" "\<not> is_platform_admin c" "i_tenant c = Some ''t1''"
    by (rule demo_user_id)
  from tenants_isolated [OF demo_bots_ok demo_delete this(1,2), of "''t2''"] this(3)
  show "tenant_rows ''t2'' demo_deleted = tenant_rows ''t2'' demo_bots" by simp
  have "r_deleted (hd (tenant_rows ''t1'' demo_deleted))" "\<not> r_deleted (hd (tenant_rows ''t1'' demo_bots))"
    by (simp_all add: tenant_rows_def demo_deleted_def demo_bots_def demo_row_eval)
  then show "tenant_rows ''t1'' demo_deleted \<noteq> tenant_rows ''t1'' demo_bots" by metis
qed (rule demo_delete)

text \<open>Removing a number looks only at the bot in the path: whoever may write some bot removes any number,
  including one routed to another tenant's bot, whose calls then reach nobody.\<close>

theorem any_number_removed:
  assumes "may_write x i d b" "faults d = []"
  shows "\<exists>d'. bots_step x (OpDelDid i did) d = (204, d') \<and> did \<notin> d_did ` set (dids d') \<and>
    fst (get_bot_by_did did d') = Inr None"
proof -
  from assms obtain row where row: "live_bot d i = Some row" "scan_bot d row = Some b" "refuse_write x = None"
    "can_access_bot x b" by (auto simp: may_write_def)
  then have "get_bot_by_id i d = (Inr (Some b), d)" using assms(2)
    by (simp add: get_bot_by_id_def fetch_no_fault)
  moreover define d' where "d' = record_audit x (Some (b_tenant b)) ''did.remove'' ''did'' did
      (d\<lparr>dids := filter (\<lambda>x. d_did x \<noteq> did) (dids d)\<rparr>)"
  ultimately have "bots_step x (OpDelDid i did) d = (204, d')" using row assms(2)
    by (simp add: h_remove_did_def remove_did_def run_query_def)
  moreover have free: "did \<notin> d_did ` set (dids d')" "faults d' = []" using assms(2) by (auto simp: d'_def)
  moreover from free(1) have "first_row (\<lambda>x. d_did x = did) (dids d') = None" by (auto simp: first_row_None)
  then have "fst (get_bot_by_did did d') = Inr None" using free(2) by (simp add: get_bot_by_did_def fetch_no_fault)
  ultimately show ?thesis by blast
qed

theorem any_number_removed_witness:
  "(\<exists>x\<in>set (dids demo_bots). d_did x = ''200'' \<and> d_bot x = ''b2'') \<and>
   (\<exists>d'. bots_step (demo_user ''t1'' ''b3'') (OpDelDid ''b1'' ''200'') demo_bots = (204, d') \<and> ''200'' \<notin> d_did ` set (dids d'))"
proof
  show "\<exists>x\<in>set (dids demo_bots). d_did x = ''200'' \<and> d_bot x = ''b2''" by (simp add: demo_bots_def)
  have "faults demo_bots = []" by (simp add: demo_bots_def demo_db_def)
  from any_number_removed [OF demo_may_write this]
  show "\<exists>d'. bots_step (demo_user ''t1'' ''b3'') (OpDelDid ''b1'' ''200'') demo_bots = (204, d') \<and> ''200'' \<notin> d_did ` set (dids d')"
    by blast
qed

text \<open>C17: Edits are not lost: after an edit of version \<open>v\<close> of a bot was accepted, no later edit that is based on
  version \<open>v\<close> is, however many other requests come between: it is refused and leaves every bot as it is.\<close>

theorem stale_edit_refused:
  assumes "bots_ok d" "bots_step x (OpUpdate i (Inr q)) d = (204, d1)" "br_version q = Some v"
    and "steps_from bots_request d1 d2"
    and "bots_step y (OpUpdate i (Inr q')) d2 = (st, d3)" "br_version q' = Some v"
  shows "st \<notin> {201, 204} \<and> bots d3 = bots d2"
proof -
  have nw: "newer i v d2" by (rule newer_steps [OF assms(4) updated_newer [OF assms(1-3)]])
  from assms(5) show ?thesis
  proof (cases rule: bots_step_cases)
    case (updated j q'' b u w row)
    then have "row \<in> set (bots d2)" "b_id (r_bot row) = i" "b_version (r_bot row) = v"
      using assms(6) by (auto dest: first_row_SomeD simp: update_match_def)
    with nw show ?thesis by (auto simp: newer_def)
  qed simp_all
qed

lemma demo_update:
  "\<exists>d'. bots_step (demo_user ''t1'' n) (OpUpdate ''b1'' (Inr (demo_req\<lparr>br_version := Some 1\<rparr>))) demo_bots = (204, d')"
  by (simp add: h_update_bot_def refuse_write_def is_platform_admin_def can_access_bot_def demo_user_def get_bot_by_id_def
      fetch_def run_query_def live_bot_def first_row_def scan_bot_def demo_row_eval record_audit_def update_bot_def
      update_match_def slug_taken_def apply_update_def coalesce_bool_def default_int_def default_str_def
      default_float_def normalize_filler_mode_def bot_check_def providers_def fill_mode_def fill_intent_ms_def
      slug_ok_def slug_char_def less_eq_char_def to_write_input_def demo_req_def demo_bots_def demo_db_def)

theorem stale_edit_refused_witness:
  "\<exists>d1. bots_step (demo_user ''t1'' ''b3'') (OpUpdate ''b1'' (Inr (demo_req\<lparr>br_version := Some 1\<rparr>))) demo_bots = (204, d1) \<and>
     fst (bots_step (demo_user ''t1'' ''b4'') (OpUpdate ''b1'' (Inr (demo_req\<lparr>br_version := Some 1\<rparr>))) d1) \<noteq> 204"
proof -
  obtain d1 where d1: "bots_step (demo_user ''t1'' ''b3'') (OpUpdate ''b1'' (Inr (demo_req\<lparr>br_version := Some 1\<rparr>))) demo_bots = (204, d1)"
    using demo_update by blast
  obtain st d3 where d3: "bots_step (demo_user ''t1'' ''b4'') (OpUpdate ''b1'' (Inr (demo_req\<lparr>br_version := Some 1\<rparr>))) d1 = (st, d3)"
    by (cases "bots_step (demo_user ''t1'' ''b4'') (OpUpdate ''b1'' (Inr (demo_req\<lparr>br_version := Some 1\<rparr>))) d1")
  from stale_edit_refused [OF demo_bots_ok d1 _ steps_from.here [of bots_request] d3, of 1] d1
  have "st \<noteq> 204" by simp
  with d1 d3 show ?thesis by (metis fst_conv)
qed



text \<open>A request to the bot API queues exactly one audit entry when it succeeded in changing something (201 or
  204) and none otherwise.\<close>

theorem changes_audited_once:
  assumes "bots_step x op d = (st, d')"
  shows "length (audit_queue d') = length (audit_queue d) + (if st = 201 \<or> st = 204 then 1 else 0)"
  using assms by (cases rule: bots_step_cases) auto

theorem changes_audited_once_witness: "length (audit_queue demo_deleted) = length (audit_queue demo_bots) + 1"
  using changes_audited_once [OF demo_delete [of "''b3''"]] by simp

text \<open>What was created is read back: after an accepted creation the same caller gets, under the id of the
  reply, the fields of the request, version 1, no numbers, and the tokens masked.\<close>

theorem created_bot_read_back:
  assumes "bots_ok d" "x_fresh x \<notin> set (bot_ids d)" "faults d = []"
    and "h_create_bot x (Inr q) d = (Body 201 n, d')"
  shows "\<exists>det. h_get_bot x n d' = (Body 200 (det, []), d') \<and> bs_id det = n \<and> bs_slug det = br_slug q \<and>
    bs_name det = br_name q \<and> bs_url det = br_url q \<and> bs_asr_endpoint det = br_asr_endpoint q \<and>
    bs_tts_endpoint det = br_tts_endpoint q \<and> bs_voice det = br_voice q \<and> bd_prefix det = br_prefix q \<and> bs_version det = 1 \<and>
    bd_asr_mask det = mask_token (case br_asr_token q of None \<Rightarrow> [] | Some t \<Rightarrow> t) \<and>
    bd_tts_mask det = mask_token (case br_tts_token q of None \<Rightarrow> [] | Some t \<Rightarrow> t)"
  using assms(4)
proof (cases rule: h_create_bot_cases)
  case (created c q' tid w fs d1)
  have n: "n = x_fresh x" "q' = q" using created by auto
  let ?b = "new_bot n (x_now x) w"
  have w: "w_tenant w = tid" "is_platform_admin c \<or> i_tenant c = Some tid"
    using created by (auto simp: to_write_input_def resolve_target_tenant_def split: if_splits)
  from created(9) obtain t where t: "first_row (\<lambda>t. t_id t = w_tenant w) (tenants d) = Some t"
    by (metis (mono_tags, lifting) first_row_None image_iff option.exhaust)
  have "d1 = d" using created(5) assms(3)
    by (auto simp: resolve_target_tenant_def get_tenant_by_slug_def fetch_no_fault split: if_splits option.splits)
  with assms(3,4) created(2-6) have fs: "faults d' = []"
    by (auto simp: h_create_bot_def create_bot_def run_query_def Let_def split: if_splits)
  have live: "live_bot d' n = Some \<lparr>r_bot = ?b, r_deleted = False\<rparr>"
  proof -
    have "\<forall>r\<in>set (bots d). \<not> (b_id (r_bot r) = n \<and> \<not> r_deleted r)" using assms(2) n(1) by (force simp: bot_ids_def)
    from first_row_snoc [OF this] show ?thesis using n(1) by (simp add: live_bot_def created(10))
  qed
  have scan: "scan_bot d' \<lparr>r_bot = ?b, r_deleted = False\<rparr> = Some (?b\<lparr>b_tenant_slug := t_slug t\<rparr>)"
    using t by (simp add: scan_bot_def created(10))
  have "d_bot y \<noteq> n" if "y \<in> set (dids d')" for y
    using that assms(1,2) n(1) by (auto simp: created(10) bots_ok_def)
  then have "filter (\<lambda>y. d_bot y = n) (dids d') = []" by (simp add: filter_empty_conv)
  then have "h_get_bot x n d' = (Body 200 (bot_detail_of (?b\<lparr>b_tenant_slug := t_slug t\<rparr>), []), d')"
    using live scan fs w created(2)
    by (auto simp: h_get_bot_def get_bot_by_id_def fetch_no_fault can_access_bot_def list_dids_def)
  moreover have "to_write_input tid (Some (i_user c)) True q = Some w" using created n by simp
  ultimately show ?thesis
    by (auto simp: bot_detail_of_def bot_summary_of_def new_bot_def to_write_input_def bot_summary.defs bot_detail.defs
        split: if_splits)
qed simp

text \<open>A request in which every optional field is omitted or within its bounds yields a configuration that
  satisfies every constraint of the table, provided its slug does: the defaults are valid.\<close>

theorem defaults_are_valid:
  assumes "to_write_input tid actor force q = Some w" "slug_ok 40 (br_slug q)"
    and "br_first_byte_ms q = 0 \<or> (100 \<le> br_first_byte_ms q \<and> br_first_byte_ms q \<le> 60000)"
    and "br_total_ms q = 0 \<or> (1000 \<le> br_total_ms q \<and> br_total_ms q \<le> 300000)"
    and "br_asr_provider q = [] \<or> br_asr_provider q \<in> providers" "br_tts_provider q = [] \<or> br_tts_provider q \<in> providers"
    and "br_tempo q = 0 \<or> (1 / 2 \<le> br_tempo q \<and> br_tempo q \<le> 2)"
    and "br_silence_sec q = 0 \<or> (1 / 10 \<le> br_silence_sec q \<and> br_silence_sec q \<le> 60)"
    and "br_speech_sec q = 0 \<or> (1 / 10 \<le> br_speech_sec q \<and> br_speech_sec q \<le> 60)"
    and "br_max_sec q = 0 \<or> (1 \<le> br_max_sec q \<and> br_max_sec q \<le> 600)"
    and "br_min_words q = 0 \<or> (1 \<le> br_min_words q \<and> br_min_words q \<le> 20)"
    and "br_intent_ms q = 0 \<or> (50 \<le> br_intent_ms q \<and> br_intent_ms q \<le> 5000)"
  shows "bot_check (new_bot n now w)"
proof -
  have ints: "1 \<le> lo \<Longrightarrow> v = 0 \<or> (lo \<le> v \<and> v \<le> hi) \<Longrightarrow> lo \<le> dflt \<Longrightarrow> dflt \<le> hi \<Longrightarrow>
      lo \<le> default_int v dflt \<and> default_int v dflt \<le> hi" for v lo hi dflt :: int
    by (auto simp: default_int_def)
  have reals: "v = 0 \<or> (lo \<le> v \<and> v \<le> hi) \<Longrightarrow> lo \<le> dflt \<Longrightarrow> dflt \<le> hi \<Longrightarrow>
      lo \<le> default_float v dflt \<and> default_float v dflt \<le> hi" for v lo hi dflt :: real
    by (auto simp: default_float_def)
  have prov: "v = [] \<or> v \<in> providers \<Longrightarrow> default_str v ''viettel'' \<in> providers" for v
    by (auto simp: default_str_def providers_def)
  have w: "b_slug (new_bot n now w) = br_slug q"
    "bot_first_byte_ms (new_bot n now w) = default_int (br_first_byte_ms q) 5000"
    "bot_total_ms (new_bot n now w) = default_int (br_total_ms q) 25000"
    "asr_provider (new_bot n now w) = default_str (br_asr_provider q) ''viettel''"
    "tts_provider (new_bot n now w) = default_str (br_tts_provider q) ''viettel''"
    "tts_tempo (new_bot n now w) = default_float (br_tempo q) 1"
    "asr_silence_sec (new_bot n now w) = default_float (br_silence_sec q) 5"
    "asr_speech_sec (new_bot n now w) = default_float (br_speech_sec q) 1"
    "asr_max_sec (new_bot n now w) = default_float (br_max_sec q) 30"
    "bargein_min_words (new_bot n now w) = default_int (br_min_words q) 3"
    "filler_mode (new_bot n now w) = fill_mode (normalize_filler_mode (br_filler_mode q))"
    "filler_intent_ms (new_bot n now w) = fill_intent_ms (default_int (br_intent_ms q) 1500)"
    using assms(1) by (auto simp: to_write_input_def new_bot_def split: if_splits)
  have "fill_intent_ms (default_int (br_intent_ms q) 1500) = default_int (br_intent_ms q) 1500"
    using ints [OF _ assms(12), of 1500] by (simp add: fill_intent_ms_def)
  moreover have "fill_mode (normalize_filler_mode m) \<in> {''short'', ''hybrid''}" for m
    by (simp add: fill_mode_def normalize_filler_mode_def)
  ultimately show ?thesis
    unfolding bot_check_def w
    using assms(2) ints [OF _ assms(3), of 5000] ints [OF _ assms(4), of 25000] prov [OF assms(5)] prov [OF assms(6)]
      reals [OF assms(7), of 1] reals [OF assms(8), of 5] reals [OF assms(9), of 1] reals [OF assms(10), of 30]
      ints [OF _ assms(11), of 3] ints [OF _ assms(12), of 1500] by simp
qed

theorem created_bot_read_back_witness:
  "\<exists>d' det. h_create_bot demo_admin (Inr demo_req) demo_db = (Body 201 ''b1'', d') \<and>
     h_get_bot demo_admin ''b1'' d' = (Body 200 (det, []), d') \<and> bs_slug det = ''shop'' \<and>
     bd_asr_mask det = bullets @ ''cret'' \<and> bd_tts_mask det = []"
proof -
  have "\<exists>d'. h_create_bot demo_admin (Inr demo_req) demo_db = (Body 201 ''b1'', d')"
    by (simp add: h_create_bot_def is_platform_admin_def resolve_target_tenant_def create_bot_def run_query_def
      slug_taken_def new_bot_def coalesce_bool_def default_int_def default_str_def
      default_float_def normalize_filler_mode_def bot_check_def providers_def fill_mode_def fill_intent_ms_def
      slug_ok_def slug_char_def less_eq_char_def to_write_input_def Let_def demo_req_def demo_admin_def demo_db_def)
  then obtain d' where d': "h_create_bot demo_admin (Inr demo_req) demo_db = (Body 201 ''b1'', d')" ..
  have "bots_ok demo_db" "x_fresh demo_admin \<notin> set (bot_ids demo_db)" "faults demo_db = []"
    by (simp_all add: bots_ok_def bot_ids_def demo_db_def)
  from created_bot_read_back [OF this d'] d' show ?thesis
    by (auto simp: demo_req_def mask_token_def last_n_def)
qed

theorem defaults_are_valid_witness:
  "\<exists>w. to_write_input ''t1'' None True demo_req = Some w \<and> bot_check (new_bot ''b1'' 7 w)"
proof -
  have "\<exists>w. to_write_input ''t1'' None True demo_req = Some w" by (simp add: to_write_input_def demo_req_def)
  then obtain w where "to_write_input ''t1'' None True demo_req = Some w" ..
  then show ?thesis
    using defaults_are_valid [of "''t1''" None True demo_req w "''b1''" 7]
    by (auto simp: demo_req_def slug_ok_def slug_char_def less_eq_char_def)
qed

end
