(* ===== verification/ApiUsers.thy ===== *)
theory ApiUsers
  imports AuditLog
begin

text \<open>
  \<open>internal/api/auth.go\<close>, \<open>users.go\<close> and \<open>tenants.go\<close>: login, users and tenants.  The password hash is
  not code of the repository: \<open>hash\<close> and \<open>pw\<close> (does this hash match this password) are parameters of the
  handlers that use them.  A reply shows a user without its hash.
\<close>

section \<open>Login\<close>

record user_view =
  uv_id :: uuid
  uv_name :: gostring
  uv_role :: gostring
  uv_enabled :: bool
  uv_evaluator :: bool
  uv_bot_admin :: bool
  uv_tenant :: "uuid option"
  uv_last_login :: "time option"

definition user_json :: "user \<Rightarrow> user_view" where
  "user_json u =
     \<lparr>uv_id = u_id u, uv_name = u_name u, uv_role = u_role u, uv_enabled = u_enabled u,
      uv_evaluator = u_evaluator u, uv_bot_admin = u_bot_admin u, uv_tenant = u_tenant u,
      uv_last_login = u_last_login u\<rparr>"

definition identity_of :: "user \<Rightarrow> identity" where
  "identity_of u =
     \<lparr>i_user = u_id u, i_name = u_name u, i_role = u_role u, i_tenant = u_tenant u,
      i_evaluator = u_evaluator u, i_bot_admin = u_bot_admin u\<rparr>"

text \<open>A login replies with the session cookie: the token and its expiry.\<close>

definition h_login ::
  "signer \<Rightarrow> (gostring \<Rightarrow> gostring \<Rightarrow> bool) \<Rightarrow> issuer \<Rightarrow> time \<Rightarrow> (gostring \<times> gostring) result \<Rightarrow> db \<Rightarrow>
     ((gostring \<times> time) \<times> user_view) reply \<times> db"
where
  "h_login sign pw iss now body d =
     (case body of
        Inl _ \<Rightarrow> (Status 400, d)
      | Inr (n, p) \<Rightarrow>
         if n = [] \<or> p = [] then (Status 400, d)
         else (case get_user_by_name n d of
           (Inl _, d) \<Rightarrow> (Status 500, d)
         | (Inr None, d) \<Rightarrow> (Status 401, d)
         | (Inr (Some u), d) \<Rightarrow>
            if \<not> u_enabled u then (Status 401, d)
            else if \<not> pw (u_hash u) p then (Status 401, d)
            else (case issue sign iss now (identity_of u) of
              Inl _ \<Rightarrow> (Status 500, d)
            | Inr cookie \<Rightarrow> (Body 200 (cookie, user_json u), mark_login now (u_id u) d))))"

definition h_me :: "ctx \<Rightarrow> db \<Rightarrow> user_view reply \<times> db" where
  "h_me x d =
     (case x_id x of
        None \<Rightarrow> (Status 401, d)
      | Some i \<Rightarrow>
         (case get_user_by_id (i_user i) d of
            (Inr (Some u), d) \<Rightarrow> (Body 200 (user_json u), d)
          | (_, d) \<Rightarrow> (Status 401, d)))"

section \<open>Users\<close>

definition h_list_users :: "ctx \<Rightarrow> db \<Rightarrow> user_view list reply \<times> db" where
  "h_list_users x d =
     (case x_id x of
        None \<Rightarrow> (Status 401, d)
      | Some i \<Rightarrow>
         (case list_users (if is_platform_admin i then None else i_tenant i) d of
            (Inl _, d) \<Rightarrow> (Status 500, d)
          | (Inr us, d) \<Rightarrow> (Body 200 (map user_json us), d)))"

text \<open>The body: user name, password, and the text of the tenant's id, when there is one.\<close>

definition h_create_user ::
  "uuid_parser \<Rightarrow> (gostring \<Rightarrow> gostring result) \<Rightarrow> ctx \<Rightarrow> (gostring \<times> gostring \<times> gostring option) result \<Rightarrow> db \<Rightarrow>
     uuid reply \<times> db"
where
  "h_create_user up hash x body d =
     (case refuse_non_admin x of
        Some s \<Rightarrow> (Status s, d)
      | None \<Rightarrow>
         (case body of
            Inl _ \<Rightarrow> (Status 400, d)
          | Inr (raw, p, tid) \<Rightarrow>
             (let n = trim_space raw in
              case tid of
                None \<Rightarrow> (Status 400, d)
              | Some t \<Rightarrow>
                 if n = [] \<or> p = [] then (Status 400, d)
                 else (case up t of
                   None \<Rightarrow> (Status 400, d)
                 | Some t' \<Rightarrow>
                    (case hash p of
                       Inl _ \<Rightarrow> (Status 500, d)
                     | Inr h \<Rightarrow>
                        (case create_tenant_user (x_fresh x) n h t' d of
                           (Inl UniqueViolation, d) \<Rightarrow> (Status 409, d)
                         | (Inl _, d) \<Rightarrow> (Status 500, d)
                         | (Inr i, d) \<Rightarrow> (Body 201 i, record_audit x (Some t') ''user.create'' ''user'' i d)))))))"

text \<open>One optional column of an update; later columns are left alone once a write has failed.\<close>

definition optional_write :: "('a \<Rightarrow> unit query) \<Rightarrow> 'a option \<Rightarrow> nat option \<times> db \<Rightarrow> nat option \<times> db" where
  "optional_write f v s =
     (case (fst s, v) of
        (None, Some b) \<Rightarrow>
          (case f b (snd s) of
             (Inl NotFound, d) \<Rightarrow> (Some 404, d)
           | (Inl _, d) \<Rightarrow> (Some 500, d)
           | (Inr _, d) \<Rightarrow> (None, d))
      | _ \<Rightarrow> s)"

definition h_update_user ::
  "ctx \<Rightarrow> uuid \<Rightarrow> (bool option \<times> bool option \<times> bool option) result \<Rightarrow> db \<Rightarrow> unit reply \<times> db"
where
  "h_update_user x i body d =
     (case refuse_non_admin x of
        Some s \<Rightarrow> (Status s, d)
      | None \<Rightarrow>
         (case body of
            Inl _ \<Rightarrow> (Status 400, d)
          | Inr (en, ev, ba) \<Rightarrow>
             if en = None \<and> ev = None \<and> ba = None then (Status 400, d)
             else (case optional_write (set_user_bot_admin i) ba
                     (optional_write (set_user_evaluator i) ev
                       (optional_write (update_user_enabled i) en (None, d))) of
               (Some s, d) \<Rightarrow> (Status s, d)
             | (None, d) \<Rightarrow> (Status 204, record_audit x None ''user.update'' ''user'' i d))))"

definition h_delete_user :: "ctx \<Rightarrow> uuid \<Rightarrow> db \<Rightarrow> unit reply \<times> db" where
  "h_delete_user x i d =
     (case refuse_non_admin x of
        Some s \<Rightarrow> (Status s, d)
      | None \<Rightarrow>
         if map_option i_user (x_id x) = Some i then (Status 400, d)
         else (case delete_user i d of
           (Inl NotFound, d) \<Rightarrow> (Status 404, d)
         | (Inl LastAdmin, d) \<Rightarrow> (Status 400, d)
         | (Inl _, d) \<Rightarrow> (Status 500, d)
         | (Inr _, d) \<Rightarrow> (Status 204, record_audit x None ''user.delete'' ''user'' i d)))"

definition h_reset_password :: "(gostring \<Rightarrow> gostring result) \<Rightarrow> ctx \<Rightarrow> uuid \<Rightarrow> gostring result \<Rightarrow> db \<Rightarrow> unit reply \<times> db" where
  "h_reset_password hash x i body d =
     (case refuse_non_admin x of
        Some s \<Rightarrow> (Status s, d)
      | None \<Rightarrow>
         (case body of
            Inl _ \<Rightarrow> (Status 400, d)
          | Inr p \<Rightarrow>
             if length p < 6 then (Status 400, d)
             else (case hash p of
               Inl _ \<Rightarrow> (Status 500, d)
             | Inr h \<Rightarrow>
                (case update_user_password i h d of
                   (Inl _, d) \<Rightarrow> (Status 500, d)
                 | (Inr _, d) \<Rightarrow> (Status 204, record_audit x None ''user.password_admin_reset'' ''user'' i d)))))"

definition h_change_own_password ::
  "(gostring \<Rightarrow> gostring result) \<Rightarrow> (gostring \<Rightarrow> gostring \<Rightarrow> bool) \<Rightarrow> ctx \<Rightarrow> (gostring \<times> gostring) result \<Rightarrow> db \<Rightarrow> unit reply \<times> db"
where
  "h_change_own_password hash pw x body d =
     (case x_id x of
        None \<Rightarrow> (Status 401, d)
      | Some c \<Rightarrow>
         (case body of
            Inl _ \<Rightarrow> (Status 400, d)
          | Inr (cur, new) \<Rightarrow>
             if length new < 6 then (Status 400, d)
             else (case get_user_by_id (i_user c) d of
               (Inr (Some u), d) \<Rightarrow>
                 if \<not> pw (u_hash u) cur then (Status 401, d)
                 else (case hash new of
                   Inl _ \<Rightarrow> (Status 500, d)
                 | Inr h \<Rightarrow>
                    (case update_user_password (u_id u) h d of
                       (Inl _, d) \<Rightarrow> (Status 500, d)
                     | (Inr _, d) \<Rightarrow>
                        (Status 204, record_audit x (u_tenant u) ''user.password_self_change'' ''user'' (u_id u) d)))
             | (_, d) \<Rightarrow> (Status 401, d))))"

datatype user_route = RUOwnPassword | RUResetPassword uuid | RUUpdate uuid | RUDelete uuid

text \<open>\<open>item\<close>: what follows \<open>/api/v1/users/\<close>; a third path element other than a password is ignored.\<close>

definition user_route_of :: "uuid_parser \<Rightarrow> gostring \<Rightarrow> gostring \<Rightarrow> nat + user_route" where
  "user_route_of up meth rest =
     (if rest = [] then Inl 404
      else let parts = split_byte CHR ''/'' rest in
        if parts = [''me'', ''password''] then (if meth = ''PATCH'' then Inr RUOwnPassword else Inl 405)
        else case up (hd parts) of
          None \<Rightarrow> Inl 400
        | Some i \<Rightarrow>
            if tl parts = [''password''] then (if meth = ''PATCH'' then Inr (RUResetPassword i) else Inl 405)
            else if meth = ''PATCH'' then Inr (RUUpdate i)
            else if meth = ''DELETE'' then Inr (RUDelete i)
            else Inl 405)"

section \<open>Tenants\<close>

definition h_list_tenants :: "ctx \<Rightarrow> db \<Rightarrow> tenant list reply \<times> db" where
  "h_list_tenants x d =
     (case x_id x of
        None \<Rightarrow> (Status 401, d)
      | Some i \<Rightarrow>
         (case list_tenants d of
            (Inl _, d) \<Rightarrow> (Status 500, d)
          | (Inr ts, d) \<Rightarrow>
             (Body 200 (if is_platform_admin i then ts else filter (\<lambda>t. i_tenant i = Some (t_id t)) ts), d)))"

definition h_get_tenant :: "ctx \<Rightarrow> uuid \<Rightarrow> db \<Rightarrow> tenant reply \<times> db" where
  "h_get_tenant x i d =
     (case get_tenant_by_id i d of
        (Inl _, d) \<Rightarrow> (Status 500, d)
      | (Inr None, d) \<Rightarrow> (Status 404, d)
      | (Inr (Some t), d) \<Rightarrow>
         (case x_id x of
            None \<Rightarrow> (Status 401, d)
          | Some c \<Rightarrow>
             if \<not> is_platform_admin c \<and> i_tenant c \<noteq> Some (t_id t) then (Status 403, d) else (Body 200 t, d)))"

definition h_create_tenant :: "ctx \<Rightarrow> (gostring \<times> gostring) result \<Rightarrow> db \<Rightarrow> uuid reply \<times> db" where
  "h_create_tenant x body d =
     (case refuse_non_admin x of
        Some s \<Rightarrow> (Status s, d)
      | None \<Rightarrow>
         (case body of
            Inl _ \<Rightarrow> (Status 400, d)
          | Inr (s, n) \<Rightarrow>
             (let slug = trim_space s; name = trim_space n in
              if slug = [] \<or> name = [] then (Status 400, d)
              else case create_tenant (x_fresh x) slug name d of
                (Inl SlugTaken, d) \<Rightarrow> (Status 409, d)
              | (Inl _, d) \<Rightarrow> (Status 500, d)
              | (Inr i, d) \<Rightarrow> (Body 201 i, record_audit x (Some i) ''tenant.create'' ''tenant'' i d))))"

definition h_update_tenant :: "ctx \<Rightarrow> uuid \<Rightarrow> (gostring \<times> bool option) result \<Rightarrow> db \<Rightarrow> unit reply \<times> db" where
  "h_update_tenant x i body d =
     (case refuse_non_admin x of
        Some s \<Rightarrow> (Status s, d)
      | None \<Rightarrow>
         (case body of
            Inl _ \<Rightarrow> (Status 400, d)
          | Inr (n, en) \<Rightarrow>
             if n = [] then (Status 400, d)
             else case update_tenant i n (case en of None \<Rightarrow> True | Some b \<Rightarrow> b) d of
               (Inl NotFound, d) \<Rightarrow> (Status 404, d)
             | (Inl _, d) \<Rightarrow> (Status 500, d)
             | (Inr _, d) \<Rightarrow> (Status 204, record_audit x (Some i) ''tenant.update'' ''tenant'' i d)))"

definition h_delete_tenant :: "ctx \<Rightarrow> uuid \<Rightarrow> db \<Rightarrow> unit reply \<times> db" where
  "h_delete_tenant x i d =
     (case refuse_non_admin x of
        Some s \<Rightarrow> (Status s, d)
      | None \<Rightarrow>
         (case delete_tenant i d of
            (Inl NotFound, d) \<Rightarrow> (Status 404, d)
          | (Inl TenantHasDependents, d) \<Rightarrow> (Status 409, d)
          | (Inl _, d) \<Rightarrow> (Status 500, d)
          | (Inr _, d) \<Rightarrow> (Status 204, record_audit x (Some i) ''tenant.delete'' ''tenant'' i d)))"

end
