(* ===== verification/UsersProps.thy ===== *)
theory UsersProps
  imports ApiBots ApiUsers Transition
begin

text \<open>
  Sessions and users: a session token opens the API until it expires and share tokens are told apart,
  what a public link opens nevertheless, and that an administrator always remains but not
  necessarily one who can log in.
\<close>

section \<open>User requests\<close>

inductive user_request ::
  "uuid_parser \<Rightarrow> (gostring \<Rightarrow> gostring result) \<Rightarrow> (gostring \<Rightarrow> gostring \<Rightarrow> bool) \<Rightarrow> signer \<Rightarrow> db \<Rightarrow> db \<Rightarrow> bool"
  for up hash pw sign
where
  create: "h_create_user up hash x b d = (r, d') \<Longrightarrow> x_fresh x \<notin> u_id ` set (users d) \<Longrightarrow> user_request up hash pw sign d d'"
| update: "h_update_user x i b' d = (r', d') \<Longrightarrow> user_request up hash pw sign d d'"
| delete: "h_delete_user x i d = (r', d') \<Longrightarrow> user_request up hash pw sign d d'"
| reset: "h_reset_password hash x i p d = (r', d') \<Longrightarrow> user_request up hash pw sign d d'"
| own: "h_change_own_password hash pw x c d = (r', d') \<Longrightarrow> user_request up hash pw sign d d'"
| login: "h_login sign pw iss now c d = (l, d') \<Longrightarrow> user_request up hash pw sign d d'"

definition roles :: "db \<Rightarrow> (uuid \<times> gostring) list" where
  "roles d = map (\<lambda>u. (u_id u, u_role u)) (users d)"

definition some_admin :: "db \<Rightarrow> bool" where
  "some_admin d \<longleftrightarrow> distinct (map u_id (users d)) \<and> admins d \<noteq> []"

lemma some_admin_roles: "some_admin d \<longleftrightarrow> distinct (map fst (roles d)) \<and> ''platform_admin'' \<in> snd ` set (roles d)"
  by (force simp: some_admin_def roles_def admins_def filter_empty_conv comp_def image_iff)

lemma roles_set_users:
  "(\<And>u. u_id (f u) = u_id u \<and> u_role (f u) = u_role u) \<Longrightarrow> roles (set_users i f d) = roles d"
  by (simp add: roles_def set_users_def comp_def)

lemma roles_faults [simp]: "roles (d\<lparr>faults := fs\<rparr>) = roles d" by (simp add: roles_def)

lemma roles_audit [simp]: "roles (record_audit x t a e k d) = roles d" by (simp add: roles_def)

lemma roles_fetch: "fetch f d = (r, d') \<Longrightarrow> roles d' = roles d"
  by (drule fetch_frame) auto

lemma roles_get_user: "get_user_by_name n d = (r, d') \<Longrightarrow> roles d' = roles d"
  "get_user_by_id i d = (r, d') \<Longrightarrow> roles d' = roles d"
  unfolding get_user_by_name_def get_user_by_id_def by (rule roles_fetch, assumption)+

lemma roles_run_set:
  assumes "run_query (\<lambda>d. if P d then (Inl e, d) else (Inr (), set_users i f d)) d = (r, d')"
    and "\<And>u. u_id (f u) = u_id u \<and> u_role (f u) = u_role u"
  shows "roles d' = roles d"
  using assms(1) by (rule run_query_cases) (auto simp: roles_set_users [OF assms(2)] split: if_splits)

lemma roles_updates:
  "update_user_password i h d = (r, d') \<Longrightarrow> roles d' = roles d"
  "update_user_enabled i b d = (r, d') \<Longrightarrow> roles d' = roles d"
  "set_user_evaluator i b d = (r, d') \<Longrightarrow> roles d' = roles d"
  "set_user_bot_admin i b d = (r, d') \<Longrightarrow> roles d' = roles d"
  unfolding update_user_password_def update_user_enabled_def set_user_evaluator_def set_user_bot_admin_def update_user_def
  by (rule roles_run_set [where P = "\<lambda>_. False"], simp, simp) (rule roles_run_set, assumption, simp)+

lemma roles_mark_login: "roles (mark_login now i d) = roles d"
  unfolding mark_login_def
  by (cases "run_query (\<lambda>d. (Inr (), set_users i (\<lambda>u. u\<lparr>u_last_login := Some now\<rparr>) d)) d")
    (auto dest!: roles_run_set [where P = "\<lambda>_. False", simplified])

lemma roles_optional:
  assumes "\<And>b d r d'. f b d = (r, d') \<Longrightarrow> roles d' = roles d"
  shows "roles (snd (optional_write f v s)) = roles (snd s)"
proof (cases "fst s = None \<and> v \<noteq> None")
  case True
  then obtain b where v: "v = Some b" by blast
  obtain r d' where r: "f b (snd s) = (r, d')" by (cases "f b (snd s)")
  from assms [OF r] show ?thesis using True v r by (auto simp: optional_write_def split: sum.splits db_err.splits)
next
  case False
  then show ?thesis by (auto simp: optional_write_def split: option.splits)
qed

text \<open>What a request does to ids and roles: nothing, add a tenant's user, or delete one that is not the last administrator.\<close>

lemma h_update_user_roles: "h_update_user x i b d = (r, d') \<Longrightarrow> roles d' = roles d"
  by (cases b)
    (auto simp: h_update_user_def roles_optional roles_updates split: option.splits prod.splits if_splits
      dest!: arg_cong [where f = "\<lambda>p. roles (snd p)"])

lemma h_reset_password_roles: "h_reset_password hash x i p d = (r, d') \<Longrightarrow> roles d' = roles d"
  by (auto simp: h_reset_password_def split: option.splits sum.splits if_splits prod.splits dest!: roles_updates(1))

lemma h_change_own_password_roles: "h_change_own_password hash pw x c d = (r, d') \<Longrightarrow> roles d' = roles d"
  by (auto simp: h_change_own_password_def split: option.splits sum.splits if_splits prod.splits
      dest!: roles_updates(1) roles_get_user)

lemma h_login_roles: "h_login sign pw iss now c d = (r, d') \<Longrightarrow> roles d' = roles d"
  by (auto simp: h_login_def roles_mark_login split: option.splits sum.splits if_splits prod.splits dest!: roles_get_user)

lemma create_tenant_user_roles:
  "create_tenant_user n nm h t d = (r, d') \<Longrightarrow> roles d' = roles d \<or> roles d' = roles d @ [(n, ''tenant_user'')]"
  unfolding create_tenant_user_def by (erule run_query_cases) (auto simp: roles_def split: if_splits)

lemma h_create_user_roles:
  "h_create_user up hash x b d = (r, d') \<Longrightarrow> roles d' = roles d \<or> roles d' = roles d @ [(x_fresh x, ''tenant_user'')]"
  by (auto simp: h_create_user_def Let_def split: option.splits sum.splits if_splits prod.splits db_err.splits
      dest!: create_tenant_user_roles)

lemma some_admin_step:
  assumes "user_request up hash pw sign d d'" "some_admin d"
  shows "some_admin d'"
  using assms(1)
proof cases
  case (create x b r)
  then have "x_fresh x \<notin> fst ` set (roles d)" by (auto simp: roles_def)
  then show ?thesis using h_create_user_roles [OF create(1)] assms(2) by (auto simp: some_admin_roles)
next
  case (delete x i r)
  then show ?thesis
  proof (cases "delete_user i d")
    case (Pair q d1)
    have "distinct (map u_id (users d1))" using Pair assms(2) unfolding delete_user_def
      by (elim run_query_cases) (auto simp: some_admin_def distinct_map_filter split: option.splits if_splits)
    moreover have "admins d1 \<noteq> []" using delete_user_keeps_admin [OF Pair] assms(2) by (simp add: some_admin_def)
    moreover have "d' = d \<or> users d' = users d1" using delete Pair
      by (auto simp: h_delete_user_def split: option.splits if_splits sum.splits db_err.splits)
    ultimately show ?thesis using assms(2) by (auto simp: some_admin_def admins_def)
  qed
next
  case update then show ?thesis using assms(2) h_update_user_roles by (metis some_admin_roles)
next
  case reset then show ?thesis using assms(2) h_reset_password_roles by (metis some_admin_roles)
next
  case own then show ?thesis using assms(2) h_change_own_password_roles by (metis some_admin_roles)
next
  case login then show ?thesis using assms(2) h_login_roles by (metis some_admin_roles)
qed

interpretation user_api: transition_system some_admin "user_request up hash pw sign" some_admin
  for up hash pw sign
  by unfold_locales (auto intro: some_admin_step)

section \<open>Data for the witnesses\<close>

text \<open>A signing function for one claim set, and the verification that goes with it.\<close>

definition demo_sign :: "payload \<Rightarrow> signer" where
  "demo_sign p0 s p = (if p = p0 then Inr ''tok'' else Inl ''no'')"

definition demo_verify :: "payload \<Rightarrow> verifier" where
  "demo_verify p0 now s tok =
     (case j_exp p0 of None \<Rightarrow> Inl ''no'' | Some e \<Rightarrow> if now < e \<and> tok = ''tok'' then Inr p0 else Inl ''expired'')"

lemma demo_laws: "jwt_laws (demo_sign p0) (demo_verify p0)"
  by (auto simp: jwt_laws_def demo_sign_def demo_verify_def split: if_splits)

definition demo_issuer :: issuer where
  "demo_issuer = \<lparr>iss_secret = ''0123456789abcdef0123456789abcdef'', iss_ttl = 3600000000000\<rparr>"

definition demo_root :: user where
  "demo_root = \<lparr>u_id = ''u0'', u_name = ''root'', u_hash = ''h'', u_role = ''platform_admin'', u_tenant = None,
      u_enabled = True, u_evaluator = False, u_bot_admin = True, u_last_login = None\<rparr>"

definition demo_users :: db where
  "demo_users = \<lparr>faults = [], tenants = [\<lparr>t_id = ''t1'', t_slug = ''one'', t_name = ''One'', t_enabled = True\<rparr>],
      users = [demo_root], bots = [], dids = [], calls = [], qcs = [], web_sessions = [], web_turns = [],
      audit_queue = [], audit_log = []\<rparr>"

definition demo_caller :: ctx where
  "demo_caller = \<lparr>x_id = Some (identity_of demo_root), x_ip = [], x_agent = [], x_now = 0, x_fresh = ''u9''\<rparr>"

definition demo_get :: request where
  "demo_get = \<lparr>rq_method = ''GET'', rq_path = ''/api/v1/bots'', rq_cookie = Some ''tok'', rq_auth = []\<rparr>"

definition demo_bot_link :: payload where
  "demo_bot_link = bot_share_payload ''b1'' ''both'' 0 week"

section \<open>Properties\<close>


lemma demo_delete_self: "h_delete_user demo_caller ''u0'' demo_users = (Status 400, demo_users)"
  by (simp add: h_delete_user_def refuse_non_admin_def demo_caller_def identity_of_def is_platform_admin_def demo_root_def)


text \<open>The protection against losing the last platform administrator does not cover disabling: an administrator,
  the last one included, may disable the only administrator, with 204, and then every login of an administrator is refused.\<close>

theorem last_admin_disabled:
  assumes "admins d = [u]" "faults d = []" "x_id x = Some c" "is_platform_admin c"
  shows "\<exists>d'. h_update_user x (u_id u) (Inr (Some False, None, None)) d = (Status 204, d') \<and>
    (\<forall>a p iss now. a \<in> set (admins d') \<longrightarrow> first_row (\<lambda>w. u_name w = u_name a) (users d') = Some a \<longrightarrow>
        fst (h_login sign pw iss now (Inr (u_name a, p)) d') \<in> {Status 400, Status 401})"
proof -
  have u: "u \<in> set (users d)" using assms(1) by (auto simp: admins_def dest: filter_eq_ConsD)
  define d1 where "d1 = set_users (u_id u) (\<lambda>w. w\<lparr>u_enabled := False\<rparr>) d"
  have d1: "faults d1 = []" "users d1 = map (\<lambda>w. if u_id w = u_id u then w\<lparr>u_enabled := False\<rparr> else w) (users d)"
    using assms(2) by (simp_all add: d1_def set_users_def)
  define d' where "d' = record_audit x None ''user.update'' ''user'' (u_id u) d1"
  have "h_update_user x (u_id u) (Inr (Some False, None, None)) d = (Status 204, d')"
    using assms u by (auto simp: h_update_user_def refuse_non_admin_def optional_write_def update_user_enabled_def
        update_user_def run_query_def d'_def d1_def)
  moreover have "\<not> u_enabled a" if "a \<in> set (admins d')" for a
  proof -
    from that d1(2) obtain w where w: "w \<in> set (users d)" "a = (if u_id w = u_id u then w\<lparr>u_enabled := False\<rparr> else w)"
      "u_role w = ''platform_admin''" by (auto simp: d'_def admins_def split: if_splits)
    then have "w \<in> set (admins d)" by (simp add: admins_def)
    with w(2) assms(1) show ?thesis by simp
  qed
  moreover have "faults d' = []" by (simp add: d'_def d1)
  ultimately show ?thesis by (intro exI [of _ d']) (auto simp: h_login_def get_user_by_name_def fetch_no_fault)
qed

theorem last_admin_disabled_witness:
  "\<exists>d'. h_update_user demo_caller ''u0'' (Inr (Some False, None, None)) demo_users = (Status 204, d')"
proof -
  have "admins demo_users = [demo_root]" "faults demo_users = []" "x_id demo_caller = Some (identity_of demo_root)"
    "is_platform_admin (identity_of demo_root)" "u_id demo_root = ''u0''"
    by (simp_all add: demo_users_def admins_def demo_root_def demo_caller_def identity_of_def is_platform_admin_def)
  from last_admin_disabled [OF this(1-4)] this(5) show ?thesis by metis
qed

text \<open>The token of a login, however it is presented.\<close>

lemma login_token_opens:
  assumes "jwt_laws sign verify" "h_login sign pw iss now (Inr (n, p)) d = (Body 200 ((tok, e), v), d')"
    and "up (uv_id v) = Some (uv_id v)" "\<And>t. uv_tenant v = Some t \<Longrightarrow> up t = Some t" "tok \<noteq> []"
    and "\<not> public_request rq" "has_prefix (rq_path rq) ''/api/''" "token_from_request rq = tok"
  shows "auth_chain verify up iss t rq =
    (if t < num_date e
     then ToMux (Some \<lparr>i_user = uv_id v, i_name = uv_name v, i_role = uv_role v, i_tenant = uv_tenant v,
                      i_evaluator = uv_evaluator v, i_bot_admin = uv_bot_admin v\<rparr>)
     else Refuse 401)"
proof -
  from assms(2) obtain u where u: "v = user_json u" "issue sign iss now (identity_of u) = Inr (tok, e)"
    by (auto simp: h_login_def split: if_splits sum.splits option.splits prod.splits)
  then have s: "sign (iss_secret iss) (session_payload iss now (identity_of u)) = Inr tok" "e = now + iss_ttl iss"
    by (auto simp: issue_signed)
  have exp: "j_exp (session_payload iss now (identity_of u)) = Some (num_date e)" by (simp add: session_payload_def s(2))
  have "decode_claims up (session_payload iss now (identity_of u)) = Inr (identity_of u)"
    by (rule decode_session) (use assms(3,4) u(1) in \<open>auto simp: user_json_def identity_of_def\<close>)
  then show ?thesis
    using verify_signed [OF assms(1) s(1) exp, of t] assms(5-8) u(1)
    by (cases "t < num_date e")
      (auto simp: auth_chain_def middleware_def Let_def parse_session_def user_json_def identity_of_def)
qed

text \<open>Sessions: the cookie of a login opens every API path as exactly the identity of the user that logged in,
  until its expiry (in whole seconds), and nothing from then on.\<close>

theorem session_opens_until_expiry:
  assumes "jwt_laws sign verify" "h_login sign pw iss now (Inr (n, p)) d = (Body 200 ((tok, e), v), d')"
    and "up (uv_id v) = Some (uv_id v)" "\<And>t. uv_tenant v = Some t \<Longrightarrow> up t = Some t" "tok \<noteq> []"
    and "\<not> public_request rq" "has_prefix (rq_path rq) ''/api/''" "rq_cookie rq = Some tok"
  shows "auth_chain verify up iss t rq =
    (if t < num_date e
     then ToMux (Some \<lparr>i_user = uv_id v, i_name = uv_name v, i_role = uv_role v, i_tenant = uv_tenant v,
                      i_evaluator = uv_evaluator v, i_bot_admin = uv_bot_admin v\<rparr>)
     else Refuse 401)"
  using assms(4,5,8) by (intro login_token_opens [where up = up, OF assms(1-3)] assms(5-7)) (auto simp: token_from_request_def)

theorem session_opens_until_expiry_witness:
  "auth_chain (demo_verify (session_payload demo_issuer 0 (identity_of demo_root))) Some demo_issuer 5 demo_get =
     ToMux (Some (identity_of demo_root))"
proof -
  let ?p = "session_payload demo_issuer 0 (identity_of demo_root)"
  have l: "h_login (demo_sign ?p) (\<lambda>h p. True) demo_issuer 0 (Inr (''root'', ''pw'')) demo_users =
      (Body 200 ((''tok'', 3600000000000), user_json demo_root), mark_login 0 ''u0'' demo_users)"
    by (simp add: h_login_def get_user_by_name_def fetch_no_fault demo_users_def first_row_def demo_root_def
        issue_def demo_sign_def demo_issuer_def session_payload_def)
  have "\<not> public_request demo_get" "has_prefix (rq_path demo_get) ''/api/''" "rq_cookie demo_get = Some ''tok''"
    by (simp_all add: public_request_def demo_get_def has_prefix_def)
  from session_opens_until_expiry [OF demo_laws l _ _ _ this, of Some 5]
  show ?thesis by (simp add: num_date_def user_json_def identity_of_def)
qed

lemma share_tokens_apart:
  assumes "jwt_laws sign verify"
  shows "issue_share sign iss now call ttl = Inr (tok, e) \<Longrightarrow> t < num_date e \<Longrightarrow>
      parse_share verify iss t tok = Inr call \<and> (\<exists>m. parse_bot_share verify iss t tok = Inl m)"
    and "issue_bot_share sign iss now bid ch ttl = Inr (tok, e) \<Longrightarrow> t < num_date e \<Longrightarrow>
      parse_bot_share verify iss t tok = Inr (bid, if ch = [] then ''both'' else ch, Some (num_date now)) \<and>
      (\<exists>m. parse_share verify iss t tok = Inl m)"
    and "issue sign iss now i = Inr (tok, e) \<Longrightarrow> t < num_date e \<Longrightarrow>
      (\<exists>m. parse_share verify iss t tok = Inl m) \<and> (\<exists>m. parse_bot_share verify iss t tok = Inl m)"
proof -
  assume "issue_share sign iss now call ttl = Inr (tok, e)" "t < num_date e"
  moreover from this have "verify t (iss_secret iss) tok = Inr (share_payload call now ttl)"
    by (intro verify_signed(1) [OF assms]) (auto simp: issue_share_signed share_payload_def blank_payload_def)
  ultimately show "parse_share verify iss t tok = Inr call \<and> (\<exists>m. parse_bot_share verify iss t tok = Inl m)"
    by (simp add: parse_share_def parse_bot_share_def share_payload_def blank_payload_def)
next
  assume a: "issue_bot_share sign iss now bid ch ttl = Inr (tok, e)" "t < num_date e"
  then obtain ch' where ch': "mint_channel ch = Inr ch'" "e = now + share_ttl_or_week ttl"
    "sign (iss_secret iss) (bot_share_payload bid ch' now ttl) = Inr tok" by (auto dest: issue_bot_share_signed)
  then have "verify t (iss_secret iss) tok = Inr (bot_share_payload bid ch' now ttl)" using a(2)
    by (intro verify_signed(1) [OF assms]) (auto simp: bot_share_payload_def blank_payload_def)
  moreover have "ch' \<noteq> [] \<and> ch' = (if ch = [] then ''both'' else ch)"
    using ch'(1) by (auto simp: mint_channel_def split: if_splits)
  ultimately show "parse_bot_share verify iss t tok = Inr (bid, if ch = [] then ''both'' else ch, Some (num_date now)) \<and>
      (\<exists>m. parse_share verify iss t tok = Inl m)"
    by (simp add: parse_share_def parse_bot_share_def bot_share_payload_def blank_payload_def)
next
  assume "issue sign iss now i = Inr (tok, e)" "t < num_date e"
  then have "verify t (iss_secret iss) tok = Inr (session_payload iss now i)"
    by (intro verify_signed(1) [OF assms]) (auto simp: issue_signed session_payload_def)
  then show "(\<exists>m. parse_share verify iss t tok = Inl m) \<and> (\<exists>m. parse_bot_share verify iss t tok = Inl m)"
    by (simp add: parse_share_def parse_bot_share_def session_payload_def)
qed

lemma demo_link: "issue_bot_share (demo_sign demo_bot_link) demo_issuer 0 ''b1'' [] week = Inr (''tok'', week)"
  by (simp add: issue_bot_share_def mint_channel_def demo_sign_def demo_bot_link_def share_ttl_or_week_def week_def)

text \<open>Share tokens are told apart: a token minted for a call opens that call and is no bot link, one minted for a
  bot opens that bot on its channel and is no call link, and a session token is neither.\<close>

theorem share_tokens_separate:
  assumes "jwt_laws sign verify"
  shows "(issue_share sign iss now call ttl = Inr (tok, e) \<longrightarrow> t < num_date e \<longrightarrow>
      parse_share verify iss t tok = Inr call \<and> (\<exists>m. parse_bot_share verify iss t tok = Inl m)) \<and>
    (issue_bot_share sign iss now bid ch ttl = Inr (tok, e) \<longrightarrow> t < num_date e \<longrightarrow>
      parse_bot_share verify iss t tok = Inr (bid, if ch = [] then ''both'' else ch, Some (num_date now)) \<and>
      (\<exists>m. parse_share verify iss t tok = Inl m)) \<and>
    (issue sign iss now i = Inr (tok, e) \<longrightarrow> t < num_date e \<longrightarrow>
      (\<exists>m. parse_share verify iss t tok = Inl m) \<and> (\<exists>m. parse_bot_share verify iss t tok = Inl m))"
  by (intro conjI impI share_tokens_apart(1) [OF assms] share_tokens_apart(2) [OF assms] share_tokens_apart(3) [OF assms])

theorem share_tokens_separate_witness:
  "parse_bot_share (demo_verify demo_bot_link) demo_issuer 5 ''tok'' = Inr (''b1'', ''both'', Some 0)"
proof -
  have "(5 :: int) < num_date week" by (simp add: num_date_def week_def)
  with share_tokens_separate [OF demo_laws, of demo_bot_link demo_issuer 0] demo_link show ?thesis
    by (fastforce simp: num_date_def)
qed

text \<open>No bot link lives longer than thirty days, whatever number of hours the mint request asks for: the product
  is computed in 64 bits and may wrap, but what wraps below zero falls back to the default.\<close>

theorem minted_lifetime_bounded:
  assumes "dflt \<le> max_share"
    and "issue_bot_share sign iss now bid ch (requested_ttl dflt hours) = Inr (tok, e)"
  shows "now < e \<and> e \<le> now + max_share"
proof -
  have "requested_ttl dflt hours \<le> max_share" using assms(1) by (auto simp: requested_ttl_def Let_def)
  then have "0 < share_ttl_or_week (requested_ttl dflt hours)" "share_ttl_or_week (requested_ttl dflt hours) \<le> max_share"
    by (auto simp: share_ttl_or_week_def max_share_def week_def)
  then show ?thesis using issue_bot_share_signed [OF assms(2)] by simp
qed

theorem minted_lifetime_bounded_witness:
  "\<exists>e. issue_bot_share (demo_sign demo_bot_link) demo_issuer 0 ''b1'' [] (requested_ttl week 2562048) = Inr (''tok'', e) \<and>
     e \<le> max_share"
proof -
  have "requested_ttl week 2562048 = sint (2562048 * 3600000000000 :: i64)" by (simp add: requested_ttl_def max_share_def)
  moreover have "sint (2562048 * 3600000000000 :: i64) \<le> 0" by simp
  ultimately have "share_ttl_or_week (requested_ttl week 2562048) = week" by (simp add: share_ttl_or_week_def)
  then have l: "issue_bot_share (demo_sign demo_bot_link) demo_issuer 0 ''b1'' [] (requested_ttl week 2562048) = Inr (''tok'', week)"
    by (simp add: issue_bot_share_def mint_channel_def demo_sign_def demo_bot_link_def bot_share_payload_def share_ttl_or_week_def week_def)
  have "week \<le> max_share" by (simp add: week_def max_share_def)
  from minted_lifetime_bounded [OF this l] l show ?thesis by simp
qed

text \<open>C39: A bot link is a session: presented as a bearer token or cookie, the token of a public link passes the session
  gate, as a caller without role or tenant, and since no tenant means no filter, that caller lists the bots and the
  users of every tenant.\<close>

theorem public_link_lists_everything:
  assumes "jwt_laws sign verify" "issue_bot_share sign iss now bid ch ttl = Inr (tok, e)" "t < num_date e"
    and "up bid = Some bid" "tok \<noteq> []"
    and "\<not> public_request rq" "has_prefix (rq_path rq) ''/api/''" "token_from_request rq = tok"
  shows "\<exists>i. auth_chain verify up iss t rq = ToMux (Some i) \<and> \<not> is_platform_admin i \<and>
    (\<forall>x a d. is_platform_admin a \<longrightarrow>
       h_list_bots (x\<lparr>x_id := Some i\<rparr>) d = h_list_bots (x\<lparr>x_id := Some a\<rparr>) d \<and>
       h_list_users (x\<lparr>x_id := Some i\<rparr>) d = h_list_users (x\<lparr>x_id := Some a\<rparr>) d)"
proof -
  obtain ch' where s: "sign (iss_secret iss) (bot_share_payload bid ch' now ttl) = Inr tok" "e = now + share_ttl_or_week ttl"
    using issue_bot_share_signed [OF assms(2)] by blast
  have "verify t (iss_secret iss) tok = Inr (bot_share_payload bid ch' now ttl)"
    by (rule verify_signed(1) [OF assms(1) s(1)]) (use assms(3) s(2) in \<open>auto simp: bot_share_payload_def blank_payload_def\<close>)
  then have "auth_chain verify up iss t rq = ToMux (Some \<lparr>i_user = bid, i_name = [], i_role = [], i_tenant = None,
      i_evaluator = False, i_bot_admin = False\<rparr>)"
    using assms(4-8) by (simp add: auth_chain_def middleware_def parse_session_def decode_bot_share)
  then show ?thesis
    by (intro exI conjI) (auto simp: is_platform_admin_def h_list_bots_def h_list_users_def)
qed

theorem public_link_lists_everything_witness:
  "\<exists>i. auth_chain (demo_verify demo_bot_link) Some demo_issuer 5 demo_get = ToMux (Some i) \<and>
     fst (h_list_users (demo_caller\<lparr>x_id := Some i\<rparr>) demo_users) = Body 200 [user_json demo_root]"
proof -
  have rq: "\<not> public_request demo_get" "has_prefix (rq_path demo_get) ''/api/''" "token_from_request demo_get = ''tok''"
    by (simp_all add: public_request_def demo_get_def has_prefix_def token_from_request_def)
  have t: "5 < num_date week" by (simp add: num_date_def week_def)
  obtain i where i: "auth_chain (demo_verify demo_bot_link) Some demo_issuer 5 demo_get = ToMux (Some i)"
    "\<forall>x a d. is_platform_admin a \<longrightarrow> h_list_users (x\<lparr>x_id := Some i\<rparr>) d = h_list_users (x\<lparr>x_id := Some a\<rparr>) d"
    using public_link_lists_everything [OF demo_laws demo_link t, of Some demo_get] rq by auto
  have adm: "is_platform_admin (identity_of demo_root)" by (simp add: is_platform_admin_def identity_of_def demo_root_def)
  then have "fst (h_list_users (demo_caller\<lparr>x_id := Some (identity_of demo_root)\<rparr>) demo_users) = Body 200 [user_json demo_root]"
    by (simp add: h_list_users_def list_users_def fetch_no_fault demo_users_def)
  with i adm show ?thesis by metis
qed

end
