(* ===== verification/CallStore.thy ===== *)
theory CallStore
  imports Store
begin

text \<open>
  \<open>internal/store\<close>: the call history (\<open>postgres.go\<close>) and the quality evaluations of calls
  (\<open>qc.go\<close>).
\<close>

section \<open>Call history\<close>

text \<open>\<open>COALESCE(new, old)\<close> on a nullable column.\<close>

definition coalesce :: "'a option \<Rightarrow> 'a option \<Rightarrow> 'a option" where
  "coalesce x y = (case x of Some _ \<Rightarrow> x | None \<Rightarrow> y)"

definition merge_call :: "call_record \<Rightarrow> call_record \<Rightarrow> call_record" where
  "merge_call new old =
     old\<lparr>cr_end := cr_end new, cr_status := cr_status new, cr_action := cr_action new,
         cr_history := cr_history new, cr_error := cr_error new,
         cr_tenant := coalesce (cr_tenant new) (cr_tenant old), cr_bot := coalesce (cr_bot new) (cr_bot old)\<rparr>"

definition call_refs_ok :: "call_record \<Rightarrow> db \<Rightarrow> bool" where
  "call_refs_ok r d \<longleftrightarrow>
     (\<forall>t. cr_tenant r = Some t \<longrightarrow> t \<in> t_id ` set (tenants d)) \<and>
     (\<forall>b. cr_bot r = Some b \<longrightarrow> b \<in> (b_id \<circ> r_bot) ` set (bots d))"

definition has_call :: "gostring \<Rightarrow> db \<Rightarrow> bool" where
  "has_call k d \<longleftrightarrow> k \<in> (cr_call_id \<circ> c_rec) ` set (calls d)"

definition insert_call :: "call_record \<Rightarrow> unit query" where
  "insert_call r = run_query (\<lambda>d.
     if \<not> call_refs_ok r d then (Inl FkViolation, d)
     else if has_call (cr_call_id r) d then
       (Inr (), d\<lparr>calls := map (\<lambda>c. if cr_call_id (c_rec c) = cr_call_id r then c\<lparr>c_rec := merge_call r (c_rec c)\<rparr> else c) (calls d)\<rparr>)
     else (Inr (), d\<lparr>calls := calls d @ [\<lparr>c_rec = r, c_recording = []\<rparr>]\<rparr>))"

definition set_recording_url :: "gostring \<Rightarrow> gostring \<Rightarrow> unit query" where
  "set_recording_url k url = run_query (\<lambda>d.
     (Inr (), d\<lparr>calls := map (\<lambda>c. if cr_call_id (c_rec c) = k then c\<lparr>c_recording := url\<rparr> else c) (calls d)\<rparr>))"

text \<open>The evaluation joined to a call: its verdict, if there is one.\<close>

definition verdict_of :: "db \<Rightarrow> call_row \<Rightarrow> gostring option" where
  "verdict_of d c = map_option q_verdict (first_row (\<lambda>q. q_call q = cr_call_id (c_rec c)) (qcs d))"

type_synonym call_view = "call_row \<times> gostring"

definition view_call :: "db \<Rightarrow> call_row \<Rightarrow> call_view" where
  "view_call d c = (c, case verdict_of d c of None \<Rightarrow> [] | Some v \<Rightarrow> v)"

definition get_call :: "gostring \<Rightarrow> call_view option query" where
  "get_call k = fetch (\<lambda>d. map_option (view_call d) (first_row (\<lambda>c. cr_call_id (c_rec c) = k) (calls d)))"

record list_filter =
  lf_phone :: gostring
  lf_phones :: "gostring list"
  lf_scenario :: gostring
  lf_direction :: gostring
  lf_since :: "time option"
  lf_until :: "time option"
  lf_limit :: int
  lf_offset :: nat
  lf_tenant :: "uuid option"
  lf_bot :: "uuid option"
  lf_qc :: gostring

definition page_limit :: "int \<Rightarrow> nat" where
  "page_limit n = (let n = (if n \<le> 0 then 50 else n) in nat (if 5000 < n then 5000 else n))"

definition call_matches :: "db \<Rightarrow> list_filter \<Rightarrow> call_row \<Rightarrow> bool" where
  "call_matches d f c \<longleftrightarrow>
     (if lf_phones f \<noteq> [] then cr_phone (c_rec c) \<in> set (lf_phones f)
      else lf_phone f = [] \<or> cr_phone (c_rec c) = lf_phone f) \<and>
     (lf_scenario f = [] \<or> cr_scenario (c_rec c) = lf_scenario f) \<and>
     (lf_direction f = [] \<or> cr_direction (c_rec c) = lf_direction f) \<and>
     (case lf_since f of None \<Rightarrow> True | Some t \<Rightarrow> t \<le> cr_start (c_rec c)) \<and>
     (case lf_until f of None \<Rightarrow> True | Some t \<Rightarrow> cr_start (c_rec c) < t) \<and>
     (case lf_tenant f of None \<Rightarrow> True | Some t \<Rightarrow> cr_tenant (c_rec c) = Some t) \<and>
     (case lf_bot f of None \<Rightarrow> True | Some b \<Rightarrow> cr_bot (c_rec c) = Some b) \<and>
     (lf_qc f = ''evaluated'' \<longrightarrow> verdict_of d c \<noteq> None) \<and>
     (lf_qc f = ''not_evaluated'' \<longrightarrow> verdict_of d c = None) \<and>
     (lf_qc f \<in> {''like'', ''dislike'', ''skipped''} \<longrightarrow> verdict_of d c = Some (lf_qc f))"

definition list_calls :: "list_filter \<Rightarrow> call_view list query" where
  "list_calls f = fetch (\<lambda>d.
     map (view_call d) (take (page_limit (lf_limit f)) (drop (lf_offset f)
       (sort_key (\<lambda>c. - cr_start (c_rec c)) (filter (call_matches d f) (calls d))))))"

section \<open>Quality evaluations\<close>

record qc_write =
  qw_call :: gostring
  qw_evaluator :: uuid
  qw_verdict :: gostring
  qw_reason :: gostring

text \<open>The checks before the database: the verdict and its reason, or an error.\<close>

definition qc_reason :: "qc_write \<Rightarrow> db_err + gostring" where
  "qc_reason w =
     (if qw_call w = [] \<or> qw_evaluator w = nil_uuid then Inl (QueryErr ''call_id and evaluator_id required'')
      else if qw_verdict w = ''like'' then Inr (trim_space (qw_reason w))
      else if qw_verdict w = ''dislike'' then
        (let r = trim_space (qw_reason w) in if length r < 10 then Inl ReasonRequired else Inr r)
      else if qw_verdict w = ''skipped'' then Inr []
      else Inl (QueryErr ''invalid verdict''))"

text \<open>The table's CHECK counts characters where the code counts bytes.\<close>

definition qc_check :: "gostring \<Rightarrow> gostring \<Rightarrow> bool" where
  "qc_check v r \<longleftrightarrow> v \<in> {''like'', ''dislike'', ''skipped''} \<and> (v = ''dislike'' \<longrightarrow> 10 \<le> char_count r)"

definition call_tenant :: "gostring \<Rightarrow> uuid option option query" where
  "call_tenant k = fetch (\<lambda>d. map_option (\<lambda>c. cr_tenant (c_rec c)) (first_row (\<lambda>c. cr_call_id (c_rec c) = k) (calls d)))"

definition qc_overwrite :: "time \<Rightarrow> qc_write \<Rightarrow> gostring \<Rightarrow> qc_row \<Rightarrow> qc_row" where
  "qc_overwrite now w r q =
     q\<lparr>q_verdict := qw_verdict w, q_reason := r, q_updated := now, q_updated_by := Some (qw_evaluator w)\<rparr>"

definition qc_insert :: "uuid \<Rightarrow> time \<Rightarrow> qc_write \<Rightarrow> gostring \<Rightarrow> uuid \<Rightarrow> qc_row query" where
  "qc_insert fresh now w r tid = run_query (\<lambda>d.
     let new = \<lparr>q_id = fresh, q_call = qw_call w, q_tenant = tid, q_evaluator = qw_evaluator w,
                q_verdict = qw_verdict w, q_reason = r, q_created = now, q_updated = now,
                q_updated_by = Some (qw_evaluator w)\<rparr> in
     if \<not> qc_check (qw_verdict w) r then (Inl CheckViolation, d)
     else if qw_evaluator w \<notin> u_id ` set (users d) then (Inl FkViolation, d)
     else case first_row (\<lambda>q. q_call q = qw_call w) (qcs d) of
       Some q \<Rightarrow> (Inr (new\<lparr>q_id := q_id q, q_created := q_created q, q_updated_by := None\<rparr>),
                  d\<lparr>qcs := map (\<lambda>q. if q_call q = qw_call w then qc_overwrite now w r q else q) (qcs d)\<rparr>)
     | None \<Rightarrow> (Inr (new\<lparr>q_updated_by := None\<rparr>), d\<lparr>qcs := qcs d @ [new]\<rparr>))"

definition upsert_qc :: "uuid \<Rightarrow> time \<Rightarrow> qc_write \<Rightarrow> qc_row query" where
  "upsert_qc fresh now w d =
     (case qc_reason w of
        Inl e \<Rightarrow> (Inl e, d)
      | Inr r \<Rightarrow>
         (case call_tenant (qw_call w) d of
            (Inl e, d') \<Rightarrow> (Inl e, d')
          | (Inr None, d') \<Rightarrow> (Inl (QueryErr (''call not found: '' @ qw_call w)), d')
          | (Inr (Some None), d') \<Rightarrow> (Inl (QueryErr (''call '' @ qw_call w @ '' has no tenant (legacy row, cannot QC)'')), d')
          | (Inr (Some (Some tid)), d') \<Rightarrow> qc_insert fresh now w r tid d'))"

text \<open>The evaluation of a call with the name of its author.\<close>

definition get_qc :: "gostring \<Rightarrow> (qc_row \<times> gostring) option query" where
  "get_qc k = fetch (\<lambda>d.
     Option.bind (first_row (\<lambda>q. q_call q = k) (qcs d)) (\<lambda>q.
       map_option (\<lambda>u. (q, u_name u)) (first_row (\<lambda>u. u_id u = q_evaluator q) (users d))))"

end
