(* ===== verification/ApiCalls.thy ===== *)
theory ApiCalls
  imports CallStore AuditLog
begin

text \<open>
  The call history API: listing, reading and exporting calls (\<open>internal/api/calls.go\<close>,
  \<open>calls_export.go\<close>), sharing a call (\<open>share.go\<close>) and evaluating its quality (\<open>qc.go\<close>).  Query
  parameters are a function from a name to its values; \<open>tm\<close> parses an RFC 3339 time.
\<close>

section \<open>Query parameters\<close>

type_synonym query_values = "gostring \<Rightarrow> gostring list"
type_synonym time_parser = "gostring \<Rightarrow> time option"

definition qget :: "query_values \<Rightarrow> gostring \<Rightarrow> gostring" where
  "qget q k = (case q k of [] \<Rightarrow> [] | v # _ \<Rightarrow> v)"

definition empty_filter :: list_filter where
  "empty_filter = \<lparr>lf_phone = [], lf_phones = [], lf_scenario = [], lf_direction = [], lf_since = None, lf_until = None,
      lf_limit = 0, lf_offset = 0, lf_tenant = None, lf_bot = None, lf_qc = []\<rparr>"

text \<open>An optional parameter, parsed; \<open>None\<close> is a 400.\<close>

definition opt_param :: "(gostring \<Rightarrow> 'a option) \<Rightarrow> gostring \<Rightarrow> 'a option option" where
  "opt_param f v = (if v = [] then Some None else map_option Some (f v))"

definition natural :: "gostring \<Rightarrow> int option" where
  "natural v = (case atoi v of None \<Rightarrow> None | Some n \<Rightarrow> if n < 0 then None else Some n)"

definition phones_filter :: "query_values \<Rightarrow> list_filter \<Rightarrow> list_filter" where
  "phones_filter q f =
     (if 1 < length (q ''phone'') then f\<lparr>lf_phones := q ''phone''\<rparr>
      else if qget q ''phones'' \<noteq> [] then
        f\<lparr>lf_phones := filter (\<lambda>p. p \<noteq> []) (map trim_space (split_byte CHR '','' (qget q ''phones'')))\<rparr>
      else f\<lparr>lf_phone := qget q ''phone''\<rparr>)"

text \<open>The part of the filter both the list and the export read.\<close>

definition common_filter :: "uuid_parser \<Rightarrow> time_parser \<Rightarrow> query_values \<Rightarrow> list_filter option" where
  "common_filter up tm q =
     (case opt_param up (qget q ''bot_id'') of
        None \<Rightarrow> None
      | Some bid \<Rightarrow>
         (case (opt_param tm (qget q ''since''), opt_param tm (qget q ''until'')) of
            (Some since, Some until) \<Rightarrow>
              Some (phones_filter q (empty_filter\<lparr>lf_scenario := qget q ''scenario'', lf_direction := qget q ''direction'',
                lf_qc := qget q ''qc_status'', lf_bot := bid, lf_since := since, lf_until := until\<rparr>))
          | _ \<Rightarrow> None))"

definition list_params :: "uuid_parser \<Rightarrow> time_parser \<Rightarrow> query_values \<Rightarrow> list_filter option" where
  "list_params up tm q =
     (case (common_filter up tm q, opt_param natural (qget q ''limit''), opt_param natural (qget q ''offset'')) of
        (Some f, Some lm, Some off) \<Rightarrow>
          Some (f\<lparr>lf_limit := (case lm of None \<Rightarrow> 0 | Some n \<Rightarrow> n),
                  lf_offset := (case off of None \<Rightarrow> 0 | Some n \<Rightarrow> nat n)\<rparr>)
      | _ \<Rightarrow> None)"

section \<open>Calls\<close>

definition h_list_calls :: "uuid_parser \<Rightarrow> time_parser \<Rightarrow> ctx \<Rightarrow> query_values \<Rightarrow> db \<Rightarrow> call_view list reply \<times> db" where
  "h_list_calls up tm x q d =
     (case list_params up tm q of
        None \<Rightarrow> (Status 400, d)
      | Some f \<Rightarrow> (case list_calls f d of (Inl _, d) \<Rightarrow> (Status 500, d) | (Inr cs, d) \<Rightarrow> (Body 200 cs, d)))"

definition h_get_call :: "ctx \<Rightarrow> gostring \<Rightarrow> db \<Rightarrow> call_view reply \<times> db" where
  "h_get_call x k d =
     (case get_call k d of
        (Inl _, d) \<Rightarrow> (Status 500, d)
      | (Inr None, d) \<Rightarrow> (Status 404, d)
      | (Inr (Some c), d) \<Rightarrow> (Body 200 c, d))"

definition newline :: gostring where "newline = [CHR 0x0A]"

definition conversation_line :: "gostring \<Rightarrow> gostring \<Rightarrow> gostring" where
  "conversation_line who t = (if t = [] then [] else who @ t @ newline)"

definition conversation_cell :: "turn_record list \<Rightarrow> gostring" where
  "conversation_cell turns =
     trim_set_right (set newline)
       (concat (map (\<lambda>t. conversation_line ''[user] '' (user_text t) @ conversation_line ''[assistant] '' (bot_text t)) turns))"

text \<open>One row of the export: its number, the call, the conversation, and the key of the verdict's label.\<close>

datatype qc_label = QcNone | QcPass | QcFail

definition qc_label_of :: "gostring \<Rightarrow> qc_label" where
  "qc_label_of v = (if v = ''like'' then QcPass else if v = ''dislike'' then QcFail else QcNone)"

type_synonym export_row = "nat \<times> call_row \<times> gostring \<times> qc_label"

definition export_rows :: "call_view list \<Rightarrow> export_row list" where
  "export_rows cs = map (\<lambda>(i, c, v). (Suc i, c, conversation_cell (cr_history (c_rec c)), qc_label_of v)) (zip [0..<length cs] cs)"

definition h_export_calls :: "uuid_parser \<Rightarrow> time_parser \<Rightarrow> ctx \<Rightarrow> query_values \<Rightarrow> db \<Rightarrow> export_row list reply \<times> db" where
  "h_export_calls up tm x q d =
     (case common_filter up tm q of
        None \<Rightarrow> (Status 400, d)
      | Some f \<Rightarrow>
         (let f = f\<lparr>lf_limit := 5000\<rparr>;
              f = (case x_id x of None \<Rightarrow> f | Some i \<Rightarrow> if is_platform_admin i then f else f\<lparr>lf_tenant := i_tenant i\<rparr>) in
          case list_calls f d of (Inl _, d) \<Rightarrow> (Status 500, d) | (Inr cs, d) \<Rightarrow> (Body 200 (export_rows cs), d)))"

section \<open>Sharing a call\<close>

text \<open>The tenant rule of sharing and evaluating.\<close>

definition tenant_may :: "identity \<Rightarrow> call_view \<Rightarrow> bool" where
  "tenant_may i c \<longleftrightarrow> is_platform_admin i \<or> (i_tenant i \<noteq> None \<and> i_tenant i = cr_tenant (c_rec (fst c)))"

text \<open>\<open>hours\<close>: the number of the body, 0 when there is none.\<close>

definition h_mint_call_share ::
  "signer \<Rightarrow> issuer \<Rightarrow> duration \<Rightarrow> ctx \<Rightarrow> gostring \<Rightarrow> i64 \<Rightarrow> db \<Rightarrow> (gostring \<times> time) reply \<times> db"
where
  "h_mint_call_share sign iss dflt x k hours d =
     (case x_id x of
        None \<Rightarrow> (Status 401, d)
      | Some i \<Rightarrow>
         (case get_call k d of
            (Inl _, d) \<Rightarrow> (Status 500, d)
          | (Inr None, d) \<Rightarrow> (Status 404, d)
          | (Inr (Some c), d) \<Rightarrow>
             if \<not> tenant_may i c then (Status 403, d)
             else (case issue_share sign iss (x_now x) k (requested_ttl (share_ttl_or_week dflt) hours) of
               Inl _ \<Rightarrow> (Status 500, d)
             | Inr t \<Rightarrow> (Body 200 t, d))))"

definition h_fetch_call_share :: "verifier \<Rightarrow> issuer \<Rightarrow> time \<Rightarrow> gostring \<Rightarrow> db \<Rightarrow> call_view reply \<times> db" where
  "h_fetch_call_share verify iss now tok d =
     (case parse_share verify iss now tok of
        Inl _ \<Rightarrow> (Status 401, d)
      | Inr k \<Rightarrow>
         (case get_call k d of
            (Inl _, d) \<Rightarrow> (Status 500, d)
          | (Inr None, d) \<Rightarrow> (Status 404, d)
          | (Inr (Some c), d) \<Rightarrow> (Body 200 c, d)))"

section \<open>Evaluating a call\<close>

text \<open>The body: call, verdict and reason.  The reply has the evaluator's name when the re-read finds it.\<close>

definition h_evaluate :: "ctx \<Rightarrow> (gostring \<times> gostring \<times> gostring) result \<Rightarrow> db \<Rightarrow> (qc_row \<times> gostring) reply \<times> db" where
  "h_evaluate x body d =
     (case x_id x of
        None \<Rightarrow> (Status 401, d)
      | Some i \<Rightarrow>
         if \<not> can_evaluate (Some i) then (Status 403, d)
         else case body of
           Inl _ \<Rightarrow> (Status 400, d)
         | Inr (raw, verdict, reason) \<Rightarrow>
            (let k = trim_space raw in
             if k = [] then (Status 400, d)
             else if verdict \<noteq> ''like'' \<and> verdict \<noteq> ''dislike'' \<and> verdict \<noteq> ''skipped'' then (Status 400, d)
             else case get_call k d of
               (Inl _, d) \<Rightarrow> (Status 500, d)
             | (Inr None, d) \<Rightarrow> (Status 404, d)
             | (Inr (Some c), d) \<Rightarrow>
                if \<not> tenant_may i c then (Status 403, d)
                else case upsert_qc (x_fresh x) (x_now x)
                    \<lparr>qw_call = k, qw_evaluator = i_user i, qw_verdict = verdict, qw_reason = reason\<rparr> d of
                  (Inl ReasonRequired, d) \<Rightarrow> (Status 400, d)
                | (Inl _, d) \<Rightarrow> (Status 500, d)
                | (Inr q, d) \<Rightarrow>
                   (case get_qc (q_call q) d of
                      (Inr (Some ev), d) \<Rightarrow> (Body 201 ev, d)
                    | (_, d) \<Rightarrow> (Body 201 (q, []), d))))"

definition h_get_evaluation :: "ctx \<Rightarrow> gostring \<Rightarrow> db \<Rightarrow> (qc_row \<times> gostring) option reply \<times> db" where
  "h_get_evaluation x k d =
     (case x_id x of
        None \<Rightarrow> (Status 401, d)
      | Some i \<Rightarrow>
         if k = [] then (Status 400, d)
         else (case get_call k d of
           (Inl _, d) \<Rightarrow> (Status 500, d)
         | (Inr None, d) \<Rightarrow> (Status 404, d)
         | (Inr (Some c), d) \<Rightarrow>
            if \<not> tenant_may i c then (Status 403, d)
            else (case get_qc k d of
              (Inl _, d) \<Rightarrow> (Status 500, d)
            | (Inr ev, d) \<Rightarrow> (Body 200 ev, d))))"

end
