(* ===== verification/CallsProps.thy ===== *)
theory CallsProps
  imports ApiCalls
begin

text \<open>
  Calls: the export is confined to the caller's tenant and the list is not, a shared call opens for
  whoever has the link until it expires, and an evaluation keeps its author through edits.
\<close>

section \<open>Reading calls\<close>

lemma view_call_faults [simp]: "view_call (d\<lparr>faults := fs\<rparr>) = view_call d"
  by (simp add: view_call_def verdict_of_def fun_eq_iff)

lemma call_matches_faults [simp]: "call_matches (d\<lparr>faults := fs\<rparr>) = call_matches d"
  by (simp add: call_matches_def verdict_of_def fun_eq_iff)

lemma set_list_calls:
  assumes "list_calls f d = (Inr cs, d')" "c \<in> set cs"
  shows "fst c \<in> set (calls d) \<and> call_matches d f (fst c)"
proof -
  have "cs = map (view_call d) (take (page_limit (lf_limit f)) (drop (lf_offset f)
      (sort_key (\<lambda>c. - cr_start (c_rec c)) (filter (call_matches d f) (calls d)))))"
    by (rule fetch_ok [OF assms(1) [unfolded list_calls_def]]) simp
  with assms(2) show ?thesis
    by (auto simp: view_call_def dest!: in_set_takeD in_set_dropD)
qed

lemma set_export_rows: "(n, c, t, l) \<in> set (export_rows cs) \<Longrightarrow> \<exists>v. (c, v) \<in> set cs"
  by (auto simp: export_rows_def dest!: set_zip_rightD)

lemma get_call_ok: "faults d = [] \<Longrightarrow>
  get_call k d = (Inr (map_option (view_call d) (first_row (\<lambda>c. cr_call_id (c_rec c) = k) (calls d))), d)"
  by (simp add: get_call_def fetch_no_fault)

section \<open>Evaluations\<close>

text \<open>One evaluation for each call.\<close>

definition qcs_ok :: "db \<Rightarrow> bool" where
  "qcs_ok d \<longleftrightarrow> distinct (map q_call (qcs d))"

definition authors :: "db \<Rightarrow> gostring \<rightharpoonup> uuid" where
  "authors d = map_of (map (\<lambda>q. (q_call q, q_evaluator q)) (qcs d))"

lemma upsert_qc_keeps:
  assumes "upsert_qc n now w d = (r, d')"
  shows "(qcs_ok d \<longrightarrow> qcs_ok d') \<and> authors d \<subseteq>\<^sub>m authors d'"
proof -
  have same: ?thesis if "qcs d' = qcs d" using that by (simp add: qcs_ok_def authors_def)
  have ins: "(qcs_ok e \<longrightarrow> qcs_ok d') \<and> authors e \<subseteq>\<^sub>m authors d'"
    if "qc_insert n now w rr tid e = (s, d')" for rr tid e s
    using that unfolding qc_insert_def
  proof (cases rule: run_query_cases)
    case (fault x fs)
    then show ?thesis by (simp add: qcs_ok_def authors_def)
  next
    case (runs fs)
    have over: "map (\<lambda>q. (q_call q, q_evaluator q)) (map (\<lambda>q. if q_call q = qw_call w then qc_overwrite now w rr q else q) xs) =
        map (\<lambda>q. (q_call q, q_evaluator q)) xs" for xs by (auto simp: qc_overwrite_def)
    have over': "map q_call (map (\<lambda>q. if q_call q = qw_call w then qc_overwrite now w rr q else q) xs) = map q_call xs" for xs
      by (auto simp: qc_overwrite_def)
    show ?thesis
    proof (cases "first_row (\<lambda>q. q_call q = qw_call w) (qcs e)")
      case None
      then have "qw_call w \<notin> q_call ` set (qcs e)" by (auto simp: first_row_None)
      with None runs show ?thesis
        by (auto simp: qcs_ok_def authors_def Let_def map_le_def map_add_def split: if_splits option.splits)
    next
      case (Some q)
      with runs show ?thesis
        by (auto simp: qcs_ok_def authors_def Let_def over over' simp del: map_map split: if_splits)
    qed
  qed
  obtain y e where c: "call_tenant (qw_call w) d = (y, e)" by (cases "call_tenant (qw_call w) d")
  have e: "qcs e = qcs d" using fetch_frame [OF c [unfolded call_tenant_def]] by auto
  show ?thesis
  proof (cases "\<exists>rr tid. qc_reason w = Inr rr \<and> y = Inr (Some (Some tid))")
    case True
    then obtain rr tid where "qc_reason w = Inr rr" "y = Inr (Some (Some tid))" by blast
    with assms c have "qc_insert n now w rr tid e = (r, d')" by (simp add: upsert_qc_def)
    from ins [OF this] e show ?thesis by (simp add: qcs_ok_def authors_def)
  next
    case False
    then have "d' = d \<or> d' = e" using assms c by (auto simp: upsert_qc_def split: sum.splits option.splits)
    with e same show ?thesis by auto
  qed
qed

lemma h_evaluate_frame:
  assumes "h_evaluate x body d = (r, d')"
  shows "(qcs_ok d \<longrightarrow> qcs_ok d') \<and> authors d \<subseteq>\<^sub>m authors d'"
proof -
  have fr: "qcs e' = qcs e \<Longrightarrow> (qcs_ok e \<longrightarrow> qcs_ok e') \<and> authors e \<subseteq>\<^sub>m authors e'" for e e' :: db
    by (simp add: qcs_ok_def authors_def)
  have get: "get_call k e = (y, e') \<Longrightarrow> qcs e' = qcs e" for k e y e'
    unfolding get_call_def by (drule fetch_frame) auto
  have getq: "get_qc k e = (y, e') \<Longrightarrow> qcs e' = qcs e" for k e y e'
    unfolding get_qc_def by (drule fetch_frame) auto
  show ?thesis
  proof (cases "\<exists>i raw v rs. x_id x = Some i \<and> body = Inr (raw, v, rs)")
    case False
    then have "d' = d" using assms by (auto simp: h_evaluate_def split: option.splits sum.splits if_splits)
    then show ?thesis by simp
  next
    case True
    then obtain i raw v rs where b: "x_id x = Some i" "body = Inr (raw, v, rs)" by blast
    let ?w = "\<lparr>qw_call = trim_space raw, qw_evaluator = i_user i, qw_verdict = v, qw_reason = rs\<rparr>"
    obtain y e where g: "get_call (trim_space raw) d = (y, e)" by (cases "get_call (trim_space raw) d")
    obtain z f where u: "upsert_qc (x_fresh x) (x_now x) ?w e = (z, f)" by (cases "upsert_qc (x_fresh x) (x_now x) ?w e")
    have "d' = d \<or> d' = e \<or> d' = f \<or> (\<exists>k y. get_qc k f = (y, d'))"
      using assms b g u
      by (auto simp: h_evaluate_def Let_def split: sum.splits option.splits if_splits prod.splits db_err.splits)
    then have "qcs d' = qcs d \<or> qcs d' = qcs f" using get [OF g] getq by metis
    with upsert_qc_keeps [OF u] fr [of d' f] fr [of d' d] get [OF g] show ?thesis
      by (auto simp: qcs_ok_def authors_def)
  qed
qed


section \<open>Data for the witnesses\<close>

definition demo_call :: "gostring \<Rightarrow> uuid \<Rightarrow> call_row" where
  "demo_call k t = \<lparr>c_rec = \<lparr>cr_call_id = k, cr_direction = ''inbound'', cr_scenario = [], cr_phone = ''0900'', cr_lead_id = [],
      cr_gender = [], cr_name = [], cr_start = 1, cr_end = 2, cr_status = ''ended'', cr_action = None, cr_history = [],
      cr_error = None, cr_tenant = Some t, cr_bot = None\<rparr>, c_recording = []\<rparr>"

definition demo_evaluator :: ctx where
  "demo_evaluator = \<lparr>x_id = Some \<lparr>i_user = ''u1'', i_name = ''tu'', i_role = ''tenant_user'', i_tenant = Some ''t1'',
      i_evaluator = True, i_bot_admin = False\<rparr>, x_ip = [], x_agent = [], x_now = 8, x_fresh = ''q1''\<rparr>"

definition demo_calls :: db where
  "demo_calls = \<lparr>faults = [], tenants = [\<lparr>t_id = ''t1'', t_slug = ''one'', t_name = ''One'', t_enabled = True\<rparr>,
      \<lparr>t_id = ''t2'', t_slug = ''two'', t_name = ''Two'', t_enabled = True\<rparr>],
      users = [\<lparr>u_id = ''u1'', u_name = ''tu'', u_hash = [], u_role = ''tenant_user'', u_tenant = Some ''t1'', u_enabled = True,
        u_evaluator = True, u_bot_admin = False, u_last_login = None\<rparr>],
      bots = [], dids = [], calls = [demo_call ''c1'' ''t1'', demo_call ''c2'' ''t2''], qcs = [], web_sessions = [], web_turns = [],
      audit_queue = [], audit_log = []\<rparr>"

definition no_params :: query_values where "no_params k = []"

lemma first_row_Nil: "first_row P [] = None"
  by (simp add: first_row_def)

lemma demo_call_eval:
  "cr_call_id (c_rec (demo_call k t)) = k" "cr_tenant (c_rec (demo_call k t)) = Some t"
  by (simp_all add: demo_call_def)

lemma demo_calls_row:
  "faults demo_calls = []" "first_row (\<lambda>c. cr_call_id (c_rec c) = ''c1'') (calls demo_calls) = Some (demo_call ''c1'' ''t1'')"
  "view_call demo_calls (demo_call ''c1'' ''t1'') = (demo_call ''c1'' ''t1'', [])" "qcs_ok demo_calls"
  "qcs demo_calls = []" "u_id ` set (users demo_calls) = {''u1''}"
  by (simp_all add: demo_calls_def first_row_def demo_call_eval view_call_def verdict_of_def qcs_ok_def)

lemma no_params_filter: "list_params up tm no_params = Some empty_filter"
  by (simp add: list_params_def common_filter_def opt_param_def qget_def no_params_def phones_filter_def empty_filter_def)

section \<open>Properties\<close>

text \<open>The export of a caller who is not a platform administrator and has a tenant holds only calls of that tenant;
  the list, said to follow the same rule, does not: without parameters it shows whoever asks every call there is (the
  page being large enough).\<close>

theorem export_scoped_list_not:
  assumes "x_id x = Some i" "\<not> is_platform_admin i" "i_tenant i = Some t"
  shows "(\<forall>q rows e. h_export_calls up tm x q d = (Body 200 rows, e) \<longrightarrow>
       (\<forall>(n, c, cell, l) \<in> set rows. cr_tenant (c_rec c) = Some t)) \<and>
    (faults d = [] \<and> length (calls d) \<le> 50 \<longrightarrow>
       (\<exists>cs. h_list_calls up tm x no_params d = (Body 200 cs, d) \<and> fst ` set cs = set (calls d)))"
proof (intro conjI allI impI)
  fix q rows e assume "h_export_calls up tm x q d = (Body 200 rows, e)"
  with assms obtain f0 cs d' where
    f0: "list_calls (f0\<lparr>lf_limit := 5000, lf_tenant := Some t\<rparr>) d = (Inr cs, d')" "rows = export_rows cs"
    by (auto simp: h_export_calls_def Let_def split: option.splits sum.splits prod.splits)
  show "\<forall>(n, c, cell, l) \<in> set rows. cr_tenant (c_rec c) = Some t"
    using set_list_calls [OF f0(1)] by (fastforce simp: f0(2) call_matches_def dest!: set_export_rows)
next
  assume a: "faults d = [] \<and> length (calls d) \<le> 50"
  have all: "call_matches d empty_filter = (\<lambda>_. True)" by (simp add: call_matches_def empty_filter_def fun_eq_iff)
  have "list_calls empty_filter d = (Inr (map (view_call d) (sort_key (\<lambda>c. - cr_start (c_rec c)) (calls d))), d)"
    using a by (simp add: list_calls_def fetch_no_fault all page_limit_def) (simp add: empty_filter_def)
  then show "\<exists>cs. h_list_calls up tm x no_params d = (Body 200 cs, d) \<and> fst ` set cs = set (calls d)"
    by (auto simp: h_list_calls_def no_params_filter view_call_def image_image)
qed

theorem export_scoped_list_not_witness:
  "\<exists>cs. h_list_calls Some (\<lambda>_. None) demo_evaluator no_params demo_calls = (Body 200 cs, demo_calls) \<and>
     demo_call ''c2'' ''t2'' \<in> fst ` set cs"
proof -
  obtain i where "x_id demo_evaluator = Some i" "\<not> is_platform_admin i" "i_tenant i = Some ''t1''"
    by (simp add: demo_evaluator_def is_platform_admin_def)
  moreover have "faults demo_calls = [] \<and> length (calls demo_calls) \<le> 50" "set (calls demo_calls) = {demo_call ''c1'' ''t1'', demo_call ''c2'' ''t2''}"
    by (simp_all add: demo_calls_def)
  ultimately show ?thesis using export_scoped_list_not [of demo_evaluator i "''t1''" Some "\<lambda>_. None" demo_calls] by auto
qed

text \<open>A shared call opens: the link minted for a call shows, until its expiry (in whole seconds), exactly that call
  to anyone, and from then on nothing.\<close>

theorem shared_call_opens:
  assumes "jwt_laws sign verify" "faults d = []"
    and "h_mint_call_share sign iss dflt x k hours d = (Body 200 (tok, e), d')"
  shows "h_fetch_call_share verify iss t tok d =
    (if t < num_date e
     then (Body 200 (view_call d (the (first_row (\<lambda>c. cr_call_id (c_rec c) = k) (calls d)))), d)
     else (Status 401, d))"
proof -
  let ?row = "first_row (\<lambda>c. cr_call_id (c_rec c) = k) (calls d)"
  from assms(2,3) obtain ttl where ttl: "issue_share sign iss (x_now x) k ttl = Inr (tok, e)" and row: "?row \<noteq> None"
    by (auto simp: h_mint_call_share_def get_call_ok split: option.splits sum.splits if_splits)
  then have s: "sign (iss_secret iss) (share_payload k (x_now x) ttl) = Inr tok"
    and e: "j_exp (share_payload k (x_now x) ttl) = Some (num_date e)"
    by (auto simp: issue_share_signed share_payload_def blank_payload_def)
  show ?thesis
  proof (cases "t < num_date e")
    case True
    have "parse_share verify iss t tok = Inr k"
      using verify_signed(1) [OF assms(1) s e True] by (simp add: parse_share_def share_payload_def blank_payload_def)
    with True row assms(2) show ?thesis by (auto simp: h_fetch_call_share_def get_call_ok)
  next
    case False
    obtain m where "verify t (iss_secret iss) tok = Inl m" using verify_signed(2) [OF assms(1) s e] False by force
    with False show ?thesis by (simp add: h_fetch_call_share_def parse_share_def)
  qed
qed

definition demo_call_sign :: signer where
  "demo_call_sign s p = (if p = share_payload ''c1'' 8 week then Inr ''tok'' else Inl ''no'')"

definition demo_call_verify :: verifier where
  "demo_call_verify now s tok = (if tok = ''tok'' \<and> now < num_date (8 + week) then Inr (share_payload ''c1'' 8 week) else Inl ''no'')"

theorem shared_call_opens_witness:
  "h_fetch_call_share demo_call_verify \<lparr>iss_secret = [], iss_ttl = 1\<rparr> 9 ''tok'' demo_calls =
     (Body 200 (demo_call ''c1'' ''t1'', []), demo_calls)"
proof -
  have "j_exp (share_payload ''c1'' 8 week) = Some (num_date (8 + week))"
    by (simp add: share_payload_def blank_payload_def share_ttl_or_week_def week_def)
  then have laws: "jwt_laws demo_call_sign demo_call_verify"
    by (auto simp: jwt_laws_def demo_call_sign_def demo_call_verify_def split: if_splits)
  have "h_mint_call_share demo_call_sign \<lparr>iss_secret = [], iss_ttl = 1\<rparr> week demo_evaluator ''c1'' 0 demo_calls =
      (Body 200 (''tok'', 8 + week), demo_calls)"
    by (simp add: h_mint_call_share_def get_call_ok demo_calls_row tenant_may_def issue_share_def demo_call_sign_def
        requested_ttl_def share_ttl_or_week_def week_def demo_evaluator_def demo_call_eval)
  from shared_call_opens [OF laws demo_calls_row(1) this, of 9] demo_calls_row show ?thesis by (simp add: num_date_def week_def)
qed

text \<open>Evaluations are kept one for each call, and an edit never takes a call's evaluation from its first author,
  whatever the caller, the request and the failures of the database.\<close>

theorem evaluations_keep_author:
  assumes "qcs_ok d" "h_evaluate x body d = (r, d')" "authors d k = Some u"
  shows "qcs_ok d' \<and> authors d' k = Some u"
  using h_evaluate_frame [OF assms(2)] assms(1,3) by (metis domI map_le_def)

theorem evaluations_keep_author_witness:
  "\<exists>d1. snd (h_evaluate demo_evaluator (Inr (''c1'', ''like'', [])) demo_calls) = d1 \<and> authors d1 ''c1'' = Some ''u1'' \<and>
     authors (snd (h_evaluate demo_evaluator (Inr (''c1'', ''skipped'', [])) d1)) ''c1'' = Some ''u1''"
proof -
  have trim: "trim_space ''c1'' = ''c1''" by (simp add: eval_strings)
  obtain r d1 where h: "h_evaluate demo_evaluator (Inr (''c1'', ''like'', [])) demo_calls = (r, d1)"
    by (cases "h_evaluate demo_evaluator (Inr (''c1'', ''like'', [])) demo_calls")
  then have "authors d1 ''c1'' = Some ''u1''"
    by (auto simp: h_evaluate_def trim Let_def get_call_ok demo_calls_row tenant_may_def upsert_qc_def
        qc_reason_def nil_uuid_def call_tenant_def fetch_no_fault qc_insert_def run_query_def qc_check_def authors_def
        demo_call_eval first_row_Nil demo_evaluator_def is_platform_admin_def get_qc_def split: option.splits)
  moreover have "qcs_ok d1" using h_evaluate_frame [OF h] demo_calls_row(4) by blast
  moreover obtain r2 d2 where h2: "h_evaluate demo_evaluator (Inr (''c1'', ''skipped'', [])) d1 = (r2, d2)"
    by (cases "h_evaluate demo_evaluator (Inr (''c1'', ''skipped'', [])) d1")
  ultimately show ?thesis using evaluations_keep_author [OF _ h2, of "''c1''" "''u1''"] h by simp
qed

end
