(* ===== verification/WebStore.thy ===== *)
theory WebStore
  imports Store
begin

text \<open>
  \<open>internal/store/web_sessions.go\<close>: the playground's conversations and their turns.
\<close>

section \<open>Sessions\<close>

text \<open>
  \<open>safeIP\<close>; \<open>split_host_port\<close> and \<open>parse_ip\<close> are those of package \<open>net\<close>.
\<close>

definition safe_ip :: "(gostring \<Rightarrow> gostring option) \<Rightarrow> (gostring \<Rightarrow> bool) \<Rightarrow> gostring \<Rightarrow> gostring" where
  "safe_ip split_host_port parse_ip s =
     (if s = [] then []
      else let h = (case split_host_port s of Some h \<Rightarrow> h | None \<Rightarrow> s) in if parse_ip h then h else [])"

definition null_if_empty :: "gostring \<Rightarrow> gostring option" where
  "null_if_empty s = (if s = [] then None else Some s)"

text \<open>\<open>ip\<close> is the address after \<open>safeIP\<close>.\<close>

definition create_web_session ::
  "uuid \<Rightarrow> time \<Rightarrow> uuid \<Rightarrow> uuid \<Rightarrow> gostring \<Rightarrow> time option \<Rightarrow> gostring \<Rightarrow> gostring \<Rightarrow> gostring \<Rightarrow> web_session query"
where
  "create_web_session fresh now bid tid ch iat ip agent dir d =
     (if bid = nil_uuid \<or> tid = nil_uuid then (Inl (QueryErr ''bot_id and tenant_id required''), d)
      else if ch \<noteq> ''chat'' \<and> ch \<noteq> ''voice'' then (Inl (QueryErr (''invalid channel: '' @ ch)), d)
      else run_query (\<lambda>d.
        if bid \<notin> (b_id \<circ> r_bot) ` set (bots d) \<or> tid \<notin> t_id ` set (tenants d) then (Inl FkViolation, d)
        else let s = \<lparr>ws_id = fresh, ws_bot = bid, ws_tenant = tid, ws_channel = ch, ws_iat = iat,
                      ws_ip = null_if_empty ip, ws_agent = agent, ws_started = now, ws_ended = None,
                      ws_status = ''active'', ws_total = 0, ws_dir = dir, ws_error = []\<rparr>
             in (Inr s, d\<lparr>web_sessions := web_sessions d @ [s]\<rparr>)) d)"

definition end_web_session :: "time \<Rightarrow> uuid \<Rightarrow> gostring \<Rightarrow> gostring \<Rightarrow> unit query" where
  "end_web_session now i st err = run_query (\<lambda>d.
     let st' = (if st = [] then ''ended'' else st) in
     if st' \<notin> {''active'', ''ended'', ''aborted'', ''error''} \<and> i \<in> ws_id ` set (web_sessions d)
     then (Inl CheckViolation, d)
     else (Inr (), d\<lparr>web_sessions := map (\<lambda>s. if ws_id s = i
        then s\<lparr>ws_ended := (case ws_ended s of Some t \<Rightarrow> Some t | None \<Rightarrow> Some now), ws_status := st', ws_error := err\<rparr>
        else s) (web_sessions d)\<rparr>))"

section \<open>Turns\<close>

definition turns_of :: "uuid \<Rightarrow> db \<Rightarrow> web_turn list" where
  "turns_of i d = filter (\<lambda>t. wt_session t = i) (web_turns d)"

text \<open>\<open>SELECT COALESCE(MAX(idx),0)+1\<close>.\<close>

definition next_idx :: "uuid \<Rightarrow> db \<Rightarrow> nat" where
  "next_idx i d = Suc (fold max (map wt_idx (turns_of i d)) 0)"

text \<open>
  The three queries of the transaction; a failing one rolls all of it back.
\<close>

definition in_tx :: "'a query \<Rightarrow> 'a query" where
  "in_tx f d = (case f d of (Inl e, d') \<Rightarrow> (Inl e, d\<lparr>faults := faults d'\<rparr>) | (Inr x, d') \<Rightarrow> (Inr x, d'))"

definition insert_web_turn :: "web_turn \<Rightarrow> unit query" where
  "insert_web_turn t = run_query (\<lambda>d.
     if wt_role t \<noteq> ''user'' \<and> wt_role t \<noteq> ''bot'' then (Inl CheckViolation, d)
     else if wt_session t \<notin> ws_id ` set (web_sessions d) then (Inl FkViolation, d)
     else if wt_idx t \<in> wt_idx ` set (turns_of (wt_session t) d) then (Inl UniqueViolation, d)
     else (Inr (), d\<lparr>web_turns := web_turns d @ [t]\<rparr>))"

definition bump_total :: "uuid \<Rightarrow> unit query" where
  "bump_total i = run_query (\<lambda>d. (Inr (), d\<lparr>web_sessions := map (\<lambda>s. if ws_id s = i
     then s\<lparr>ws_total := length (turns_of i d)\<rparr> else s) (web_sessions d)\<rparr>))"

definition append_web_turn :: "web_turn \<Rightarrow> unit query" where
  "append_web_turn t d =
     (if wt_session t = nil_uuid \<or> wt_role t = [] then (Inl (QueryErr ''session_id and role required''), d)
      else in_tx (\<lambda>d.
        case (if wt_idx t = 0 then fetch (next_idx (wt_session t)) d else (Inr (wt_idx t), d)) of
          (Inl e, d1) \<Rightarrow> (Inl e, d1)
        | (Inr i, d1) \<Rightarrow>
           (case insert_web_turn (t\<lparr>wt_idx := i\<rparr>) d1 of
              (Inl e, d2) \<Rightarrow> (Inl e, d2)
            | (Inr _, d2) \<Rightarrow> bump_total (wt_session t) d2)) d)"

section \<open>Reading\<close>

record web_filter =
  wf_bot :: uuid
  wf_tenant :: uuid
  wf_channel :: gostring
  wf_status :: gostring
  wf_limit :: int
  wf_offset :: int

definition web_limit :: "int \<Rightarrow> nat" where
  "web_limit n = (if n \<le> 0 \<or> 500 < n then 100 else nat n)"

definition web_matches :: "web_filter \<Rightarrow> web_session \<Rightarrow> bool" where
  "web_matches f s \<longleftrightarrow>
     (wf_bot f = nil_uuid \<or> ws_bot s = wf_bot f) \<and> (wf_tenant f = nil_uuid \<or> ws_tenant s = wf_tenant f) \<and>
     (wf_channel f = [] \<or> ws_channel s = wf_channel f) \<and> (wf_status f = [] \<or> ws_status s = wf_status f)"

text \<open>The address is scanned into a Go string, which a NULL does not fit.\<close>

definition scan_web_session :: "web_session \<Rightarrow> bool" where
  "scan_web_session s \<longleftrightarrow> ws_ip s \<noteq> None"

definition list_web_sessions :: "web_filter \<Rightarrow> web_session list query" where
  "list_web_sessions f = run_query (\<lambda>d.
     let rows = take (web_limit (wf_limit f)) (drop (nat (wf_offset f))
                  (sort_key (\<lambda>s. - ws_started s) (filter (web_matches f) (web_sessions d))))
     in if wf_offset f < 0 then (Inl (QueryErr ''OFFSET must not be negative''), d)
        else if list_all scan_web_session rows then (Inr rows, d) else (Inl (QueryErr ''cannot scan NULL''), d))"

definition get_web_session :: "uuid \<Rightarrow> (web_session \<times> web_turn list) option query" where
  "get_web_session i d =
     (case run_query (\<lambda>d. case first_row (\<lambda>s. ws_id s = i) (web_sessions d) of
                            None \<Rightarrow> (Inr None, d)
                          | Some s \<Rightarrow> if scan_web_session s then (Inr (Some s), d) else (Inl (QueryErr ''cannot scan NULL''), d)) d of
        (Inl e, d1) \<Rightarrow> (Inl e, d1)
      | (Inr None, d1) \<Rightarrow> (Inr None, d1)
      | (Inr (Some s), d1) \<Rightarrow>
         (case fetch (\<lambda>d. sort_key wt_idx (turns_of i d)) d1 of
            (Inl e, d2) \<Rightarrow> (Inl e, d2)
          | (Inr ts, d2) \<Rightarrow> (Inr (Some (s, ts)), d2)))"

section \<open>Turn numbers\<close>

text \<open>The turns of every session are numbered from one without gaps, and its total counts them.\<close>

definition turns_ok :: "db \<Rightarrow> bool" where
  "turns_ok d \<longleftrightarrow>
     (\<forall>i. map wt_idx (turns_of i d) = [1..<Suc (length (turns_of i d))]) \<and>
     (\<forall>s\<in>set (web_sessions d). ws_total s = length (turns_of (ws_id s) d))"

lemma fold_max_upt: "fold max [Suc 0..<Suc n] 0 = (n :: nat)"
proof (induction n)
  case (Suc n)
  have "[Suc 0..<Suc (Suc n)] = [Suc 0..<Suc n] @ [Suc n]" by simp
  with Suc show ?case by (simp only: fold_append) simp
qed simp

lemma next_idx_ok: "turns_ok d \<Longrightarrow> next_idx i d = Suc (length (turns_of i d))"
  unfolding turns_ok_def next_idx_def One_nat_def by (simp only: fold_max_upt)

lemma turns_of_faults [simp]: "turns_of i (d\<lparr>faults := fs\<rparr>) = turns_of i d"
  by (simp add: turns_of_def)

lemma next_idx_faults [simp]: "next_idx i (d\<lparr>faults := fs\<rparr>) = next_idx i d"
  by (simp add: next_idx_def)

lemma turns_ok_faults [simp]: "turns_ok (d\<lparr>faults := fs\<rparr>) = turns_ok d"
  by (simp add: turns_ok_def)

lemma turns_of_append:
  "turns_of i (d\<lparr>web_turns := web_turns d @ [t]\<rparr>) = turns_of i d @ (if wt_session t = i then [t] else [])"
  by (simp add: turns_of_def)

lemma turns_of_sessions [simp]: "turns_of i (d\<lparr>web_sessions := ss\<rparr>) = turns_of i d"
  by (simp add: turns_of_def)

definition with_turn :: "web_turn \<Rightarrow> db \<Rightarrow> db" where
  "with_turn t d =
     (let d2 = d\<lparr>web_turns := web_turns d @ [t]\<rparr>
      in d2\<lparr>web_sessions := map (\<lambda>s. if ws_id s = wt_session t then s\<lparr>ws_total := length (turns_of (wt_session t) d2)\<rparr> else s) (web_sessions d)\<rparr>)"

lemma with_turn_ok:
  assumes "turns_ok d" "wt_idx t = next_idx (wt_session t) d"
  shows "turns_ok (with_turn t d)"
proof -
  have of: "turns_of i (with_turn t d) = turns_of i d @ (if wt_session t = i then [t] else [])" for i
    by (simp add: with_turn_def Let_def turns_of_append)
  have idx: "map wt_idx (turns_of i d) = [1..<Suc (length (turns_of i d))]" for i
    using assms(1) by (simp add: turns_ok_def)
  have "map wt_idx (turns_of i (with_turn t d)) = [1..<Suc (length (turns_of i (with_turn t d)))]" for i
    using assms(2) next_idx_ok [OF assms(1)] idx [of i] by (simp add: of)
  moreover have "ws_total s = length (turns_of (ws_id s) (with_turn t d))" if "s \<in> set (web_sessions (with_turn t d))" for s
  proof -
    from that obtain s0 where s0: "s0 \<in> set (web_sessions d)"
      "s = (if ws_id s0 = wt_session t then s0\<lparr>ws_total := Suc (length (turns_of (wt_session t) d))\<rparr> else s0)"
      by (auto simp: with_turn_def Let_def turns_of_append)
    moreover from s0(1) assms(1) have "ws_total s0 = length (turns_of (ws_id s0) d)" by (simp add: turns_ok_def)
    ultimately show ?thesis by (auto simp: of)
  qed
  ultimately show ?thesis unfolding turns_ok_def by blast
qed

text \<open>A turn that names no index either leaves the tables as they were or gets the next one.\<close>

lemma insert_web_turn_cases:
  assumes "insert_web_turn t d = (Inr u, d')"
  shows "\<exists>fs. d' = d\<lparr>faults := fs, web_turns := web_turns d @ [t]\<rparr>"
  using assms unfolding insert_web_turn_def
  by (auto elim!: run_query_cases split: if_splits)

lemma append_web_turn_cases:
  assumes "append_web_turn t d = (r, d')" "wt_idx t = 0"
  obtains fs where "d' = d\<lparr>faults := fs\<rparr>"
  | fs where "d' = with_turn (t\<lparr>wt_idx := next_idx (wt_session t) d\<rparr>) (d\<lparr>faults := fs\<rparr>)"
proof (cases "wt_session t = nil_uuid \<or> wt_role t = []")
  case True
  then have "d' = d\<lparr>faults := faults d\<rparr>" using assms by (auto simp: append_web_turn_def)
  then show thesis by (rule that(1))
next
  case False
  obtain x d1 where f: "fetch (next_idx (wt_session t)) d = (x, d1)" by (cases "fetch (next_idx (wt_session t)) d")
  show thesis
  proof (cases x)
    case (Inl e)
    then have "d' = d\<lparr>faults := faults d1\<rparr>"
      using assms False f by (simp add: append_web_turn_def in_tx_def)
    then show thesis by (rule that(1))
  next
    case (Inr i)
    have i: "i = next_idx (wt_session t) d" using f Inr by (auto intro: fetch_ok)
    have d1: "\<exists>fs. d1 = d\<lparr>faults := fs\<rparr>" using f unfolding fetch_def by (auto elim!: run_query_cases)
    obtain y d2 where g: "insert_web_turn (t\<lparr>wt_idx := i\<rparr>) d1 = (y, d2)" by (cases "insert_web_turn (t\<lparr>wt_idx := i\<rparr>) d1")
    obtain z d3 where h: "bump_total (wt_session t) d2 = (z, d3)" by (cases "bump_total (wt_session t) d2")
    show thesis
    proof (cases "isl y \<or> isl z")
      case True
      then have "\<exists>fs. d' = d\<lparr>faults := fs\<rparr>"
        using assms False f g h Inr by (cases y; cases z) (auto simp: append_web_turn_def in_tx_def)
      then show thesis using that(1) by blast
    next
      case ok: False
      then obtain u v where uv: "y = Inr u" "z = Inr v" by (cases y; cases z) auto
      then have "d' = d3" using assms False f g h Inr by (simp add: append_web_turn_def in_tx_def)
      moreover obtain fs where "d2 = d1\<lparr>faults := fs, web_turns := web_turns d1 @ [t\<lparr>wt_idx := i\<rparr>]\<rparr>"
        using insert_web_turn_cases g uv by blast
      moreover obtain fs1 where "d1 = d\<lparr>faults := fs1\<rparr>" using d1 by blast
      moreover obtain fs3 where "d3 = (d2\<lparr>faults := fs3\<rparr>)\<lparr>web_sessions := map (\<lambda>s. if ws_id s = wt_session t
          then s\<lparr>ws_total := length (turns_of (wt_session t) d2)\<rparr> else s) (web_sessions d2)\<rparr>"
        using h uv(2) unfolding bump_total_def by (auto elim!: run_query_cases cong: if_cong)
      ultimately have "d' = with_turn (t\<lparr>wt_idx := next_idx (wt_session t) d\<rparr>) (d\<lparr>faults := fs3\<rparr>)"
        using i by (simp add: with_turn_def Let_def turns_of_def cong: if_cong)
      then show thesis by (rule that(2))
    qed
  qed
qed

lemma append_web_turn_ok:
  assumes "append_web_turn t d = (r, d')" "wt_idx t = 0" "turns_ok d"
  shows "turns_ok d'"
  using assms(1,2)
proof (cases rule: append_web_turn_cases)
  case (2 fs)
  then show ?thesis using assms(3) by (simp add: with_turn_ok)
qed (use assms(3) in simp)

end
