(* ===== verification/ApiWeb.thy ===== *)
theory ApiWeb
  imports BotStore WebStore ApiCalls
begin

text \<open>
  The public web playground: minting a bot link, what the link opens, text chat over it
  (\<open>internal/api/web.go\<close>, \<open>web_chat.go\<close>), and the review of its sessions (\<open>web.go\<close>,
  \<open>web_export.go\<close>).
\<close>

section \<open>Bot links\<close>

definition h_mint_bot_share ::
  "signer \<Rightarrow> issuer \<Rightarrow> duration \<Rightarrow> uuid_parser \<Rightarrow> ctx \<Rightarrow> gostring \<Rightarrow> i64 \<Rightarrow> gostring \<Rightarrow> db \<Rightarrow>
     (uuid \<times> gostring \<times> gostring \<times> time) reply \<times> db"
where
  "h_mint_bot_share sign iss dflt up x rest hours ch d =
     (case x_id x of
        None \<Rightarrow> (Status 401, d)
      | Some i \<Rightarrow>
         (case up rest of
            None \<Rightarrow> (Status 400, d)
          | Some bid \<Rightarrow>
             (case get_bot_by_id bid d of
                (Inl _, d) \<Rightarrow> (Status 500, d)
              | (Inr None, d) \<Rightarrow> (Status 404, d)
              | (Inr (Some b), d) \<Rightarrow>
                 if \<not> is_platform_admin i \<and> i_tenant i \<noteq> Some (b_tenant b) then (Status 403, d)
                 else let chn = (if ch = [] then ''both'' else ch) in
                   (case issue_bot_share sign iss (x_now x) (b_id b) chn (requested_ttl (share_ttl_or_week dflt) hours) of
                      Inl _ \<Rightarrow> (Status 400, d)
                    | Inr (tok, e) \<Rightarrow> (Body 200 (b_id b, chn, tok, e), d)))))"

text \<open>\<open>resolveToken\<close>; \<open>want\<close> is empty when any channel will do.\<close>

definition resolve_token ::
  "verifier \<Rightarrow> uuid_parser \<Rightarrow> issuer \<Rightarrow> time \<Rightarrow> gostring \<Rightarrow> gostring \<Rightarrow> (bot_config \<times> gostring \<times> time option) option query"
where
  "resolve_token verify up iss now tok want d =
     (if tok = [] then (Inr None, d)
      else case parse_bot_share verify iss now tok of
        Inl _ \<Rightarrow> (Inr None, d)
      | Inr (bid, ch, iat) \<Rightarrow>
         if want \<noteq> [] \<and> \<not> channel_allows ch want then (Inr None, d)
         else case up bid of
           None \<Rightarrow> (Inr None, d)
         | Some i \<Rightarrow>
            (case get_bot_by_id i d of
               (Inl e, d) \<Rightarrow> (Inl e, d)
             | (Inr None, d) \<Rightarrow> (Inr None, d)
             | (Inr (Some b), d) \<Rightarrow> (Inr (if b_enabled b then Some (b, ch, iat) else None), d)))"

record bootstrap =
  bo_id :: uuid
  bo_name :: gostring
  bo_slug :: gostring
  bo_tenant_slug :: gostring
  bo_voice :: gostring
  bo_channel :: gostring
  bo_chat :: bool
  bo_voice_ok :: bool

definition h_bootstrap :: "verifier \<Rightarrow> uuid_parser \<Rightarrow> issuer \<Rightarrow> time \<Rightarrow> gostring \<Rightarrow> db \<Rightarrow> bootstrap reply \<times> db" where
  "h_bootstrap verify up iss now tok d =
     (case resolve_token verify up iss now tok [] d of
        (Inr (Some (b, ch, _)), d) \<Rightarrow>
          (Body 200 \<lparr>bo_id = b_id b, bo_name = b_name b, bo_slug = b_slug b, bo_tenant_slug = b_tenant_slug b,
             bo_voice = tts_voice_id b, bo_channel = ch, bo_chat = channel_allows ch ''chat'',
             bo_voice_ok = channel_allows ch ''voice''\<rparr>, d)
      | (_, d) \<Rightarrow> (Status 401, d))"

section \<open>Chat\<close>

text \<open>
  The outcome of the bot's stream: its sentences in order, the action it ends with (the empty one as
  \<open>None\<close>), and whether that came with an error.
\<close>

record chat_stream =
  cs_sentences :: "gostring list"
  cs_action :: "action option"
  cs_failed :: bool

definition action_text :: "action option \<Rightarrow> gostring" where
  "action_text a = (case a of None \<Rightarrow> [] | Some ActionChat \<Rightarrow> ''CHAT'' | Some ActionEndCall \<Rightarrow> ''ENDCALL'')"

text \<open>
  The loop over the sentences: what was collected and what was written, when the client goes away
  at the write number \<open>lost_at\<close>.
\<close>

fun chat_loop :: "gostring list \<Rightarrow> nat option \<Rightarrow> gostring \<Rightarrow> gostring list \<Rightarrow> gostring \<times> gostring list" where
  "chat_loop [] lost_at acc out = (acc, out)"
| "chat_loop (s # ss) lost_at acc out =
     (if s = [] then chat_loop ss lost_at acc out
      else if lost_at = Some (length out) then (acc @ s, out)
      else chat_loop ss lost_at (acc @ s) (out @ [s]))"

definition blank_turn :: "uuid \<Rightarrow> gostring \<Rightarrow> gostring \<Rightarrow> web_turn" where
  "blank_turn sid role text =
     \<lparr>wt_session = sid, wt_idx = 0, wt_role = role, wt_text = text, wt_audio = [], wt_asr_partial = None,
      wt_asr_final = None, wt_first_byte = None, wt_bot_done = None, wt_tts_first = None, wt_tts_done = None,
      wt_action = []\<rparr>"

text \<open>The session of a message: the one it names, which must be of this bot's chat, or a new one.\<close>

definition chat_session ::
  "uuid_parser \<Rightarrow> ctx \<Rightarrow> bot_config \<Rightarrow> time option \<Rightarrow> gostring \<Rightarrow> gostring \<Rightarrow> db \<Rightarrow> (nat + uuid) \<times> db"
where
  "chat_session up x b iat ip sid d =
     (if sid \<noteq> [] then
        (case up sid of
           None \<Rightarrow> (Inl 400, d)
         | Some i \<Rightarrow>
            (case get_web_session i d of
               (Inl _, d) \<Rightarrow> (Inl 500, d)
             | (Inr None, d) \<Rightarrow> (Inl 404, d)
             | (Inr (Some (s, _)), d) \<Rightarrow>
                (if ws_bot s \<noteq> b_id b \<or> ws_channel s \<noteq> ''chat'' then Inl 404 else Inr (ws_id s), d)))
      else
        (case create_web_session (x_fresh x) (x_now x) (b_id b) (b_tenant b) ''chat'' iat ip (x_agent x) [] d of
           (Inl _, d) \<Rightarrow> (Inl 500, d)
         | (Inr s, d) \<Rightarrow> (Inr (ws_id s), d)))"

text \<open>The bot's turn, once the stream is over, and the end of the session when the bot asked for it.\<close>

definition chat_finish :: "time \<Rightarrow> uuid \<Rightarrow> chat_stream \<Rightarrow> gostring \<Rightarrow> time option \<Rightarrow> db \<Rightarrow> db" where
  "chat_finish done_at sid st acc first d =
     (let t = (blank_turn sid ''bot'' (trim_space acc))\<lparr>wt_first_byte := first, wt_bot_done := Some done_at,
                wt_action := (if cs_failed st \<and> cs_action st = None then ''ERROR'' else action_text (cs_action st))\<rparr>;
          d = snd (append_web_turn t d)
      in if cs_action st = Some ActionEndCall then snd (end_web_session done_at sid ''ended'' [] d) else d)"

text \<open>
  One message in session \<open>i\<close>: \<open>client\<close> is the bot factory's result (\<open>False\<close>: no client),
  \<open>open_stream\<close> the bot's reply to a conversation id and a message, \<open>first_at\<close> and \<open>done_at\<close> the clock at
  the first sentence and at the end.
\<close>

type_synonym bot_opener = "gostring \<Rightarrow> gostring \<Rightarrow> chat_stream result"

definition chat_message ::
  "time \<Rightarrow> bool \<Rightarrow> bot_opener \<Rightarrow> nat option \<Rightarrow> time \<Rightarrow> time \<Rightarrow> uuid \<Rightarrow> gostring \<Rightarrow> db \<Rightarrow>
     (uuid \<times> gostring list \<times> gostring) reply \<times> db"
where
  "chat_message now client open_stream lost_at first_at done_at i msg d =
     (if \<not> client then (Status 500, d)
      else case append_web_turn ((blank_turn i ''user'' msg)\<lparr>wt_asr_final := Some now\<rparr>) d of
        (Inl _, d) \<Rightarrow> (Status 500, d)
      | (Inr _, d) \<Rightarrow>
         (case open_stream (''web-'' @ i) msg of
            Inl _ \<Rightarrow> (Status 502, snd (append_web_turn ((blank_turn i ''bot'' [])\<lparr>wt_action := ''ERROR''\<rparr>) d))
          | Inr st \<Rightarrow>
             (let (acc, out) = chat_loop (cs_sentences st) lost_at [] [] in
              (Body 200 (i, out, action_text (cs_action st)),
               chat_finish done_at i st acc (if list_all (\<lambda>s. s = []) (cs_sentences st) then None else Some first_at) d))))"

text \<open>The handler; \<open>ip\<close> is the peer address after \<open>safeIP\<close>.\<close>

definition h_chat ::
  "verifier \<Rightarrow> uuid_parser \<Rightarrow> issuer \<Rightarrow> ctx \<Rightarrow> gostring \<Rightarrow> (bot_config \<Rightarrow> bool) \<Rightarrow> bot_opener \<Rightarrow> nat option \<Rightarrow> time \<Rightarrow>
   time \<Rightarrow> gostring \<Rightarrow> (gostring \<times> gostring) result \<Rightarrow> db \<Rightarrow> (uuid \<times> gostring list \<times> gostring) reply \<times> db"
where
  "h_chat verify up iss x ip client open_stream lost_at first_at done_at tok body d =
     (case resolve_token verify up iss (x_now x) tok ''chat'' d of
        (Inr (Some (b, _, iat)), d) \<Rightarrow>
          (case body of
             Inl _ \<Rightarrow> (Status 400, d)
           | Inr (sid, msg) \<Rightarrow>
              if trim_space msg = [] \<and> sid \<noteq> [] then (Status 400, d)
              else (case chat_session up x b iat ip sid d of
                (Inl s, d) \<Rightarrow> (Status s, d)
              | (Inr i, d) \<Rightarrow> chat_message (x_now x) (client b) open_stream lost_at first_at done_at i msg d))
      | (_, d) \<Rightarrow> (Status 401, d))"

section \<open>Review of sessions\<close>

text \<open>\<open>fmt.Sscanf(v, "%d")\<close> into a zero: blanks, a sign and digits; anything else leaves the zero.\<close>

definition scan_d :: "gostring \<Rightarrow> int" where
  "scan_d v =
     (let s = dropWhile (\<lambda>c. c = CHR '' '' \<or> c = CHR 0x09) v;
          (sign, rest) = (case s of c # r \<Rightarrow> if c = CHR ''-'' then (- 1, r) else if c = CHR ''+'' then (1, r) else (1, s)
                          | [] \<Rightarrow> (1, s))
      in case digits_value (takeWhile (\<lambda>c. 48 \<le> (of_char c :: nat) \<and> (of_char c :: nat) \<le> 57) rest) of
           None \<Rightarrow> 0
         | Some n \<Rightarrow> let k = sign * n in if - (2 ^ 63) \<le> k \<and> k < 2 ^ 63 then k else 0)"

definition web_tenant_scope :: "identity \<Rightarrow> uuid" where
  "web_tenant_scope i = (if is_platform_admin i then nil_uuid else case i_tenant i of None \<Rightarrow> nil_uuid | Some t \<Rightarrow> t)"

definition h_list_web_sessions :: "uuid_parser \<Rightarrow> ctx \<Rightarrow> query_values \<Rightarrow> db \<Rightarrow> web_session list reply \<times> db" where
  "h_list_web_sessions up x q d =
     (case x_id x of
        None \<Rightarrow> (Status 401, d)
      | Some i \<Rightarrow>
         (case opt_param up (qget q ''bot_id'') of
            None \<Rightarrow> (Status 400, d)
          | Some bid \<Rightarrow>
             (case list_web_sessions
                 \<lparr>wf_bot = (case bid of None \<Rightarrow> nil_uuid | Some b \<Rightarrow> b), wf_tenant = web_tenant_scope i,
                  wf_channel = qget q ''channel'', wf_status = qget q ''status'',
                  wf_limit = scan_d (qget q ''limit''), wf_offset = scan_d (qget q ''offset'')\<rparr> d of
                (Inl _, d) \<Rightarrow> (Status 500, d)
              | (Inr ss, d) \<Rightarrow> (Body 200 ss, d))))"

definition h_get_web_session :: "uuid_parser \<Rightarrow> ctx \<Rightarrow> gostring \<Rightarrow> db \<Rightarrow> (web_session \<times> web_turn list) reply \<times> db" where
  "h_get_web_session up x rest d =
     (case x_id x of
        None \<Rightarrow> (Status 401, d)
      | Some i \<Rightarrow>
         (case up rest of
            None \<Rightarrow> (Status 400, d)
          | Some sid \<Rightarrow>
             (case get_web_session sid d of
                (Inl _, d) \<Rightarrow> (Status 500, d)
              | (Inr None, d) \<Rightarrow> (Status 404, d)
              | (Inr (Some (s, ts)), d) \<Rightarrow>
                 if \<not> is_platform_admin i \<and> i_tenant i \<noteq> Some (ws_tenant s) then (Status 403, d)
                 else (Body 200 (s, ts), d))))"

definition web_conversation_cell :: "web_turn list \<Rightarrow> gostring" where
  "web_conversation_cell ts =
     trim_set_right (set newline)
       (concat (map (\<lambda>t. (if wt_role t = ''user'' then ''[user] '' else ''[assistant] '') @ wt_text t @ newline) ts))"

definition web_audio_link :: "web_session \<Rightarrow> gostring" where
  "web_audio_link s =
     (if ws_dir s = [] \<or> ws_channel s \<noteq> ''voice'' then []
      else ''/web-recordings/'' @ ws_bot s @ ''/'' @ ws_id s @ ''/'')"

text \<open>Whole seconds, towards zero.\<close>

definition seconds_between :: "time \<Rightarrow> time option \<Rightarrow> int" where
  "seconds_between s e = (case e of None \<Rightarrow> 0 | Some t \<Rightarrow> if s \<le> t then (t - s) div 1000000000 else - ((s - t) div 1000000000))"

definition in_range :: "time option \<Rightarrow> time option \<Rightarrow> time \<Rightarrow> bool" where
  "in_range since until t \<longleftrightarrow>
     (case since of None \<Rightarrow> True | Some s \<Rightarrow> s \<le> t) \<and> (case until of None \<Rightarrow> True | Some u \<Rightarrow> t < u)"

type_synonym web_export_row = "nat \<times> web_session \<times> gostring \<times> gostring \<times> int"

fun web_export_rows :: "web_session list \<Rightarrow> nat \<Rightarrow> db \<Rightarrow> web_export_row list \<times> db" where
  "web_export_rows [] n d = ([], d)"
| "web_export_rows (s # ss) n d =
     (case get_web_session (ws_id s) d of
        (Inr (Some (full_s, ts)), d) \<Rightarrow>
          (let (rows, d) = web_export_rows ss (Suc n) d in
           ((Suc n, full_s, web_conversation_cell ts, web_audio_link full_s,
             seconds_between (ws_started full_s) (ws_ended full_s)) # rows, d))
      | (_, d) \<Rightarrow> web_export_rows ss n d)"

definition h_export_web_sessions :: "uuid_parser \<Rightarrow> time_parser \<Rightarrow> ctx \<Rightarrow> query_values \<Rightarrow> db \<Rightarrow> web_export_row list reply \<times> db" where
  "h_export_web_sessions up tm x q d =
     (case x_id x of
        None \<Rightarrow> (Status 401, d)
      | Some i \<Rightarrow>
         (case (opt_param up (qget q ''bot_id''), opt_param tm (qget q ''since''), opt_param tm (qget q ''until'')) of
            (Some bid, Some since, Some until) \<Rightarrow>
              (case list_web_sessions
                  \<lparr>wf_bot = (case bid of None \<Rightarrow> nil_uuid | Some b \<Rightarrow> b), wf_tenant = web_tenant_scope i,
                   wf_channel = qget q ''channel'', wf_status = qget q ''status'', wf_limit = 500, wf_offset = 0\<rparr> d of
                 (Inl _, d) \<Rightarrow> (Status 500, d)
               | (Inr ss, d) \<Rightarrow>
                  (let (rows, d) = web_export_rows (filter (\<lambda>s. in_range since until (ws_started s)) ss) 0 d in
                   (Body 200 rows, d)))
          | _ \<Rightarrow> (Status 400, d)))"

end
