(* ===== verification/Providers.thy ===== *)
theory Providers
  imports BotStore Transition
begin

text \<open>
  What a call is given: filler files by voice and label (\<open>internal/filler\<close>, \<open>internal/intent\<close>), the
  pool of speech clients (\<open>internal/registry\<close>), and the handler that gives them to an inbound call
  (\<open>internal/pipeline/inbound.go\<close>).
\<close>

section \<open>Intent labels\<close>

definition normalize_label :: "(nat \<Rightarrow> nat) \<Rightarrow> gostring \<Rightarrow> gostring" where
  "normalize_label up raw =
     to_upper up (trim_space (trim_set {char_of (34 :: nat), char_of (39 :: nat)} (trim_space raw)))"

text \<open>\<open>Classify\<close>, after the request: its error, or status and (the first 1024 bytes of the) body.\<close>

definition classify :: "(nat \<Rightarrow> nat) \<Rightarrow> gostring \<Rightarrow> (nat \<times> gostring) result \<Rightarrow> gostring result" where
  "classify up url resp =
     (if url = [] then Inl ''intent client not configured''
      else case resp of
        Inl e \<Rightarrow> Inl (''intent request: '' @ e)
      | Inr (status, body) \<Rightarrow>
         if status \<noteq> 200 then Inl ''intent status''
         else let label = normalize_label up (take 1024 body) in
           if label = [] then Inl ''intent returned empty label'' else Inr label)"

section \<open>Filler files\<close>

text \<open>A directory entry; a directory that cannot be read is \<open>None\<close>.\<close>

datatype dir_entry = Entry (entry_name: gostring) (entry_is_dir: bool)

type_synonym file_system = "gostring \<Rightarrow> dir_entry list option"

record filler_pool =
  fp_base :: gostring
  fp_cache :: "gostring \<times> gostring \<rightharpoonup> gostring list"

definition new_pool :: "gostring \<Rightarrow> filler_pool" where
  "new_pool base = \<lparr>fp_base = base, fp_cache = Map.empty\<rparr>"

text \<open>\<open>join\<close> is \<open>filepath.Join\<close>, \<open>lo\<close> the lower case of the runes outside ASCII.\<close>

definition list_dir :: "(gostring \<Rightarrow> gostring \<Rightarrow> gostring) \<Rightarrow> (nat \<Rightarrow> nat) \<Rightarrow> file_system \<Rightarrow> gostring \<Rightarrow> gostring list" where
  "list_dir join lo fs dir =
     (case fs dir of
        None \<Rightarrow> []
      | Some es \<Rightarrow>
         map (\<lambda>e. join dir (entry_name e))
           (filter (\<lambda>e. \<not> entry_is_dir e \<and> (let n = to_lower lo (entry_name e) in has_suffix n ''.wav'' \<or> has_suffix n ''.mp3'')) es))"

definition pool_dir :: "(gostring \<Rightarrow> gostring \<Rightarrow> gostring) \<Rightarrow> gostring \<Rightarrow> gostring \<Rightarrow> gostring \<Rightarrow> gostring" where
  "pool_dir join base voice label = (let d = join base voice in if label \<noteq> [] then join d label else d)"

text \<open>\<open>list\<close>: the cached listing, or the directory, which is then cached, even when it could not be read.\<close>

definition pool_list ::
  "(gostring \<Rightarrow> gostring \<Rightarrow> gostring) \<Rightarrow> (nat \<Rightarrow> nat) \<Rightarrow> file_system \<Rightarrow> gostring \<Rightarrow> gostring \<Rightarrow> filler_pool \<Rightarrow> gostring list \<times> filler_pool"
where
  "pool_list join lo fs voice label p =
     (case fp_cache p (voice, label) of
        Some files \<Rightarrow> (files, p)
      | None \<Rightarrow>
         (let files = list_dir join lo fs (pool_dir join (fp_base p) voice label)
          in (files, p\<lparr>fp_cache := (fp_cache p)((voice, label) \<mapsto> files)\<rparr>)))"

text \<open>\<open>r\<close> is what \<open>rand.Intn\<close> returns for a number of files.\<close>

definition pick_random :: "(nat \<Rightarrow> nat) \<Rightarrow> gostring list \<Rightarrow> gostring" where
  "pick_random r files = (if length files = 1 then hd files else files ! r (length files))"

definition pick_label ::
  "(gostring \<Rightarrow> gostring \<Rightarrow> gostring) \<Rightarrow> (nat \<Rightarrow> nat) \<Rightarrow> (nat \<Rightarrow> nat) \<Rightarrow> file_system \<Rightarrow> gostring \<Rightarrow> gostring \<Rightarrow> filler_pool \<Rightarrow>
     gostring \<times> filler_pool"
where
  "pick_label join lo r fs voice label p =
     (if fp_base p = [] \<or> voice = [] then ([], p)
      else
        let (labelled, p) = (if label \<noteq> [] then pool_list join lo fs voice label p else ([], p)) in
        if labelled \<noteq> [] then (pick_random r labelled, p)
        else let (flat, p) = pool_list join lo fs voice [] p in
          (if flat = [] then [] else pick_random r flat, p))"

section \<open>The registry of speech clients\<close>

text \<open>A client is the number of its connection; \<open>rg_dials\<close> counts the connections ever made.\<close>

record registry =
  rg_pool :: "gostring \<times> gostring \<rightharpoonup> nat"
  rg_dials :: nat
  rg_open :: "nat set"

definition new_registry :: registry where
  "new_registry = \<lparr>rg_pool = Map.empty, rg_dials = 0, rg_open = {}\<rparr>"

definition registry_close :: "registry \<Rightarrow> registry" where
  "registry_close g = g\<lparr>rg_pool := Map.empty, rg_open := rg_open g - ran (rg_pool g)\<rparr>"

definition supported :: "gostring \<Rightarrow> bool" where
  "supported p \<longleftrightarrow> p = ''viettel'' \<or> p = []"

text \<open>\<open>dial\<close> is the error of a new connection, if it fails.\<close>

definition asr_for :: "(gostring \<times> gostring \<Rightarrow> gostring option) \<Rightarrow> bot_config \<Rightarrow> registry \<Rightarrow> nat result \<times> registry" where
  "asr_for dial b g =
     (if \<not> supported (asr_provider b) then (Inl ''asr provider not supported yet'', g)
      else case rg_pool g (asr_endpoint b, asr_token b) of
        Some c \<Rightarrow> (Inr c, g)
      | None \<Rightarrow>
         (case dial (asr_endpoint b, asr_token b) of
            Some e \<Rightarrow> (Inl e, g)
          | None \<Rightarrow>
             (Inr (rg_dials g),
              \<lparr>rg_pool = (rg_pool g)((asr_endpoint b, asr_token b) \<mapsto> rg_dials g), rg_dials = Suc (rg_dials g),
               rg_open = insert (rg_dials g) (rg_open g)\<rparr>)))"

text \<open>The bundle of a call: its speech client, what synthesis is made of, and the reply deadlines.\<close>

record call_providers =
  cp_asr :: nat
  cp_tts :: "gostring \<times> gostring \<times> gostring \<times> real"
  cp_bot :: "gostring \<times> duration \<times> duration"

definition providers_for ::
  "(gostring \<times> gostring \<Rightarrow> gostring option) \<Rightarrow> bot_config option \<Rightarrow> registry \<Rightarrow> call_providers result \<times> registry"
where
  "providers_for dial bo g =
     (case bo of
        None \<Rightarrow> (Inl ''bot config is nil'', g)
      | Some b \<Rightarrow>
         (case asr_for dial b g of
            (Inl e, g) \<Rightarrow> (Inl (''asr: '' @ e), g)
          | (Inr c, g) \<Rightarrow>
             if \<not> supported (tts_provider b) then (Inl ''tts: tts provider not supported yet'', g)
             else (Inr \<lparr>cp_asr = c, cp_tts = (tts_endpoint b, tts_token b, tts_voice_id b, tts_tempo b),
                        cp_bot = (bot_url b, bot_first_byte_ms b * 1000000, bot_total_ms b * 1000000)\<rparr>, g)))"

section \<open>Inbound calls\<close>

text \<open>The headers of an event; an absent one is empty.\<close>

type_synonym esl_headers = "gostring \<Rightarrow> gostring"

definition pick_inbound_dest :: "esl_headers \<Rightarrow> gostring" where
  "pick_inbound_dest h =
     (case filter (\<lambda>v. v \<noteq> []) (map h [''Caller-Destination-Number'', ''variable_sip_to_user'',
              ''variable_destination_number'', ''variable_dialed_extension'']) of
        [] \<Rightarrow> [] | v # _ \<Rightarrow> v)"

definition inbound_opts :: "gostring \<Rightarrow> gostring \<Rightarrow> time \<Rightarrow> bot_config \<Rightarrow> run_opts" where
  "inbound_opts uuid caller now b =
     \<lparr>ro_uuid = uuid, ro_caller = caller, ro_phone = [], ro_scenario = b_slug b, ro_direction = DirectionInbound,
      needs_answer = True, ro_started = now, has_on_end = False, ro_bot = Some b, ro_asr = True, ro_tts = True,
      ro_botimpl = True, ro_lead_id = [], ro_gender = [], ro_name = []\<rparr>"

text \<open>The state an inbound call meets: the database, the registry, the ids of live sessions, the runs started.\<close>

record inbound =
  ib_db :: db
  ib_reg :: registry
  ib_sessions :: "gostring set"
  ib_runs :: "run_opts list"

text \<open>\<open>onPark\<close>; \<open>wired\<close>: resolver and registry are there.\<close>

definition on_park ::
  "(gostring \<times> gostring \<Rightarrow> gostring option) \<Rightarrow> bool \<Rightarrow> time \<Rightarrow> esl_headers \<Rightarrow> inbound \<Rightarrow> inbound"
where
  "on_park dial wired now h s =
     (let uuid = h ''Unique-Id'' in
      if uuid = [] \<or> \<not> wired \<or> uuid \<in> ib_sessions s then s
      else case get_bot_by_did (pick_inbound_dest h) (ib_db s) of
        (Inl _, d) \<Rightarrow> s\<lparr>ib_db := d\<rparr>
      | (Inr None, d) \<Rightarrow> s\<lparr>ib_db := d\<rparr>
      | (Inr (Some b), d) \<Rightarrow>
         (case providers_for dial (Some b) (ib_reg s) of
            (Inl _, g) \<Rightarrow> s\<lparr>ib_db := d, ib_reg := g\<rparr>
          | (Inr _, g) \<Rightarrow>
             s\<lparr>ib_db := d, ib_reg := g,
               ib_runs := ib_runs s @ [inbound_opts uuid (h ''Caller-Caller-Id-Number'') now b]\<rparr>))"

text \<open>The start and the end of a run, seen from its goroutine.\<close>

definition run_enters :: "gostring \<Rightarrow> inbound \<Rightarrow> inbound" where
  "run_enters u s = s\<lparr>ib_sessions := insert u (ib_sessions s)\<rparr>"

definition run_leaves :: "gostring \<Rightarrow> inbound \<Rightarrow> inbound" where
  "run_leaves u s = s\<lparr>ib_sessions := ib_sessions s - {u}\<rparr>"

section \<open>Lemmas\<close>

text \<open>The pool of connections: one for each endpoint and token, all of them open.\<close>

definition registry_ok :: "registry \<Rightarrow> bool" where
  "registry_ok g \<longleftrightarrow> inj_on (rg_pool g) (dom (rg_pool g)) \<and> ran (rg_pool g) \<subseteq> rg_open g \<and>
     (\<forall>c \<in> ran (rg_pool g). c < rg_dials g) \<and> card (dom (rg_pool g)) \<le> rg_dials g \<and> finite (dom (rg_pool g))"

lemma registry_ok_new: "registry_ok new_registry"
  by (simp add: registry_ok_def new_registry_def)

lemma asr_for_ok:
  assumes "registry_ok g" "asr_for dial b g = (r, g')"
  shows "registry_ok g' \<and> rg_pool g \<subseteq>\<^sub>m rg_pool g' \<and> (\<forall>c. r = Inr c \<longrightarrow> rg_pool g' (asr_endpoint b, asr_token b) = Some c)"
proof -
  let ?k = "(asr_endpoint b, asr_token b)"
  have "registry_ok \<lparr>rg_pool = (rg_pool g)(?k \<mapsto> rg_dials g), rg_dials = Suc (rg_dials g), rg_open = insert (rg_dials g) (rg_open g)\<rparr>"
    if new: "rg_pool g ?k = None"
  proof -
    have "inj_on ((rg_pool g)(?k \<mapsto> rg_dials g)) (insert ?k (dom (rg_pool g)))"
      using assms(1) new by (force simp: registry_ok_def inj_on_def ran_def)
    then show ?thesis using assms(1) new
      by (auto simp: registry_ok_def card_insert_if less_Suc_eq)
  qed
  then show ?thesis using assms
    by (auto simp: asr_for_def map_le_def split: if_splits option.splits)
qed

lemma providers_for_ok:
  assumes "registry_ok g" "providers_for dial bo g = (r, g')"
  shows "registry_ok g' \<and> rg_pool g \<subseteq>\<^sub>m rg_pool g'"
proof (cases bo)
  case None
  with assms show ?thesis by (simp add: providers_for_def)
next
  case (Some b)
  obtain c g1 where a: "asr_for dial b g = (c, g1)" by (cases "asr_for dial b g")
  then have "g' = g1" using assms(2) Some by (auto simp: providers_for_def split: sum.splits if_splits)
  with asr_for_ok [OF assms(1) a] show ?thesis by simp
qed

lemma pool_list_set: "fst (pool_list join lo fs v l p) = fs_files \<Longrightarrow> fp_cache (snd (pool_list join lo fs v l p)) (v, l) = Some fs_files"
  by (auto simp: pool_list_def Let_def split: option.splits)

section \<open>Runs of the registry\<close>

definition registry_request :: "registry \<Rightarrow> registry \<Rightarrow> bool" where
  "registry_request g g' \<longleftrightarrow> (\<exists>dial bo r. providers_for dial bo g = (r, g'))"

interpretation registry_pool: transition_system "(=) new_registry" registry_request registry_ok
  by unfold_locales (auto simp: registry_ok_new registry_request_def dest: providers_for_ok)

lemma registry_grows: "steps_from registry_request g g' \<Longrightarrow> registry_ok g \<Longrightarrow> registry_ok g' \<and> rg_pool g \<subseteq>\<^sub>m rg_pool g'"
proof (induction rule: steps_from.induct)
  case (more s t u)
  then show ?case unfolding registry_request_def
    using providers_for_ok by (metis map_le_trans)
qed simp

section \<open>Data for the witnesses\<close>

definition demo_google :: bot_config where
  "demo_google = \<lparr>b_id = ''b1'', b_tenant = ''t1'', b_tenant_slug = ''one'', b_slug = ''shop'', b_name = ''Shop'', b_enabled = True,
      bot_url = ''u'', bot_first_byte_ms = 5000, bot_total_ms = 25000, asr_provider = ''google'', asr_endpoint = ''a:1'', asr_token = [],
      tts_provider = ''viettel'', tts_endpoint = ''t:1'', tts_token = [], tts_voice_id = ''v'', tts_tempo = 1, asr_silence_sec = 5,
      asr_speech_sec = 1, asr_max_sec = 30, asr_single = True, bargein_enabled = True, bargein_min_words = 3, filler_enabled_b = False,
      filler_mode = ''short'', filler_intent_url = [], filler_intent_ms = 1500, outbound_prefix = [], b_version = 1, b_created = 0,
      b_updated = 0\<rparr>"

definition demo_inbound :: "gostring \<Rightarrow> inbound" where
  "demo_inbound prov = \<lparr>ib_db = \<lparr>faults = [], tenants = [\<lparr>t_id = ''t1'', t_slug = ''one'', t_name = ''One'', t_enabled = True\<rparr>], users = [],
       bots = [\<lparr>r_bot = demo_google\<lparr>asr_provider := prov\<rparr>, r_deleted = False\<rparr>],
       dids = [\<lparr>d_did = ''100'', d_bot = ''b1'', d_note = [], d_created = 1\<rparr>], calls = [], qcs = [], web_sessions = [], web_turns = [],
       audit_queue = [], audit_log = []\<rparr>, ib_reg = new_registry, ib_sessions = {}, ib_runs = []\<rparr>"

definition demo_event :: esl_headers where
  "demo_event k = (if k = ''Unique-Id'' then ''c1'' else if k = ''Caller-Destination-Number'' then ''100'' else [])"

lemma demo_routed:
  "get_bot_by_did (pick_inbound_dest demo_event) (ib_db (demo_inbound p)) =
     (Inr (Some (demo_google\<lparr>asr_provider := p\<rparr>)), ib_db (demo_inbound p))"
  by (simp add: get_bot_by_did_def fetch_no_fault demo_inbound_def pick_inbound_dest_def demo_event_def first_row_def live_bot_def
      tenant_on_def scan_bot_def demo_google_def)

section \<open>Properties\<close>

text \<open>One connection each: in every state the registry reaches from empty, two calls whose bots name the same
  speech endpoint and token get the same connection, whatever calls came between and however dialling went, different
  ones different connections, and every pooled connection is open.\<close>

theorem one_connection_each:
  assumes "steps_from registry_request new_registry g" "providers_for dial (Some b) g = (Inr c, g1)"
    and "steps_from registry_request g1 g2" "providers_for dial' (Some b') g2 = (Inr c', g3)"
  shows "(cp_asr c' = cp_asr c \<longleftrightarrow> (asr_endpoint b', asr_token b') = (asr_endpoint b, asr_token b)) \<and>
    {cp_asr c, cp_asr c'} \<subseteq> rg_open g3"
proof -
  have ok: "registry_ok g" by (rule registry_pool.reach_inv [OF refl assms(1)])
  have one: "rg_pool e' (asr_endpoint d, asr_token d) = Some (cp_asr x)"
    if "registry_ok e" "providers_for di (Some d) e = (Inr x, e')" for di d e x e'
  proof -
    obtain r e1 where a: "asr_for di d e = (r, e1)" by (cases "asr_for di d e")
    with that(2) have "r = Inr (cp_asr x)" "e1 = e'" by (auto simp: providers_for_def split: sum.splits if_splits)
    with asr_for_ok [OF that(1) a] show ?thesis by simp
  qed
  have ok1: "registry_ok g1" using providers_for_ok [OF ok assms(2)] by simp
  have ok2: "registry_ok g2" "rg_pool g1 \<subseteq>\<^sub>m rg_pool g2" using registry_grows [OF assms(3) ok1] by auto
  have ok3: "registry_ok g3" "rg_pool g2 \<subseteq>\<^sub>m rg_pool g3" using providers_for_ok [OF ok2(1) assms(4)] by auto
  have "rg_pool g3 (asr_endpoint b, asr_token b) = Some (cp_asr c)"
    using one [OF ok assms(2)] ok2(2) ok3(2) by (metis domI map_le_def)
  moreover have "rg_pool g3 (asr_endpoint b', asr_token b') = Some (cp_asr c')" by (rule one [OF ok2(1) assms(4)])
  ultimately have "cp_asr c' = cp_asr c \<longleftrightarrow> (asr_endpoint b', asr_token b') = (asr_endpoint b, asr_token b)"
    "cp_asr c \<in> ran (rg_pool g3)" "cp_asr c' \<in> ran (rg_pool g3)"
    using ok3(1) unfolding registry_ok_def by (metis domI inj_onD option.inject, auto intro: ranI)
  with ok3(1) show ?thesis unfolding registry_ok_def by blast
qed

lemma demo_dial: "providers_for (\<lambda>_. None) (Some (demo_google\<lparr>asr_provider := []\<rparr>)) new_registry =
    (Inr \<lparr>cp_asr = 0, cp_tts = (''t:1'', [], ''v'', 1), cp_bot = (''u'', 5000000000, 25000000000)\<rparr>,
     \<lparr>rg_pool = [(''a:1'', []) \<mapsto> 0], rg_dials = 1, rg_open = {0}\<rparr>)"
  by (simp add: providers_for_def asr_for_def supported_def new_registry_def demo_google_def)

theorem one_connection_each_witness:
  "\<exists>g c. providers_for (\<lambda>_. Some ''down'') (Some (demo_google\<lparr>asr_provider := []\<rparr>))
      \<lparr>rg_pool = [(''a:1'', []) \<mapsto> 0], rg_dials = 1, rg_open = {0}\<rparr> = (Inr c, g) \<and> cp_asr c = 0"
proof -
  let ?g = "\<lparr>rg_pool = [(''a:1'', []) \<mapsto> 0], rg_dials = 1, rg_open = {0}\<rparr> :: registry"
  obtain c g where d: "providers_for (\<lambda>_. Some ''down'') (Some (demo_google\<lparr>asr_provider := []\<rparr>)) ?g = (Inr c, g)"
    by (simp add: providers_for_def asr_for_def supported_def demo_google_def)
  from one_connection_each [OF steps_from.here [of registry_request] demo_dial steps_from.here [of registry_request] d] d
  show ?thesis by auto
qed

text \<open>A bot the API accepts may be unable to take a call: the table admits the providers google and azure, the
  registry only viettel, so that a call parked for such a bot is never answered, while a bot of the supported
  providers gets its run (the speech endpoint being reachable).\<close>

theorem accepted_provider_not_served:
  assumes "h ''Unique-Id'' \<noteq> []" "h ''Unique-Id'' \<notin> ib_sessions s" "get_bot_by_did (pick_inbound_dest h) (ib_db s) = (Inr (Some b), d)"
  shows "(asr_provider b \<in> {''google'', ''azure''} \<or> tts_provider b \<in> {''google'', ''azure''} \<longrightarrow> ib_runs (on_park dial True now h s) = ib_runs s) \<and>
    (supported (asr_provider b) \<and> supported (tts_provider b) \<and> (\<forall>k. dial k = None) \<longrightarrow>
       ib_runs (on_park dial True now h s) = ib_runs s @ [inbound_opts (h ''Unique-Id'') (h ''Caller-Caller-Id-Number'') now b]) \<and>
    {''google'', ''azure''} \<subseteq> providers"
proof (intro conjI impI)
  assume "asr_provider b \<in> {''google'', ''azure''} \<or> tts_provider b \<in> {''google'', ''azure''}"
  then have "\<not> supported (asr_provider b) \<or> \<not> supported (tts_provider b)" by (auto simp: supported_def)
  then obtain e g where "providers_for dial (Some b) (ib_reg s) = (Inl e, g)"
    by (cases "asr_for dial b (ib_reg s)"; cases "fst (asr_for dial b (ib_reg s))")
      (auto simp: providers_for_def, auto simp: asr_for_def split: if_splits)
  then show "ib_runs (on_park dial True now h s) = ib_runs s" using assms by (simp add: on_park_def Let_def)
next
  assume "supported (asr_provider b) \<and> supported (tts_provider b) \<and> (\<forall>k. dial k = None)"
  then obtain c g where "providers_for dial (Some b) (ib_reg s) = (Inr c, g)"
    by (cases "rg_pool (ib_reg s) (asr_endpoint b, asr_token b)") (auto simp: providers_for_def asr_for_def)
  then show "ib_runs (on_park dial True now h s) = ib_runs s @ [inbound_opts (h ''Unique-Id'') (h ''Caller-Caller-Id-Number'') now b]"
    using assms by (simp add: on_park_def Let_def)
qed (simp add: providers_def)

theorem accepted_provider_not_served_witness:
  "bot_check demo_google \<and> ib_runs (on_park (\<lambda>_. None) True 7 demo_event (demo_inbound ''google'')) = []"
proof
  show "bot_check demo_google"
    by (simp add: bot_check_def demo_google_def providers_def slug_ok_def slug_char_def less_eq_char_def)
  show "ib_runs (on_park (\<lambda>_. None) True 7 demo_event (demo_inbound ''google'')) = []"
    using accepted_provider_not_served [OF _ _ demo_routed, of "''google''" "\<lambda>_. None" 7]
    by (simp add: demo_event_def demo_google_def) (simp add: demo_inbound_def)
qed

text \<open>The guard against a duplicate park event does not cover the time before the run has registered its session:
  a second event for the same call, handled in that window, starts a second run of the same call; once the
  session is there, it is ignored.\<close>

theorem duplicate_park_runs_twice:
  assumes "h ''Unique-Id'' = u" "faults (ib_db s) = []" "on_park dial True now h s = s1" "ib_runs s1 \<noteq> ib_runs s"
  shows "(\<exists>o1 o2. ib_runs (on_park dial True later h s1) = ib_runs s @ [o1, o2] \<and> ro_uuid o1 = u \<and> ro_uuid o2 = u) \<and>
    on_park dial True later h (run_enters u s1) = run_enters u s1"
proof -
  obtain y d where g: "get_bot_by_did (pick_inbound_dest h) (ib_db s) = (y, d)"
    by (cases "get_bot_by_did (pick_inbound_dest h) (ib_db s)")
  have d: "d = ib_db s" using g assms(2) by (simp add: get_bot_by_did_def fetch_no_fault)
  have u: "u \<noteq> []" "u \<notin> ib_sessions s" using assms by (auto simp: on_park_def Let_def split: if_splits)
  from assms g u obtain b where b: "y = Inr (Some b)"
    by (cases y) (auto simp: on_park_def Let_def split: option.splits)
  obtain r g1 where p: "providers_for dial (Some b) (ib_reg s) = (r, g1)" by (cases "providers_for dial (Some b) (ib_reg s)")
  from assms g u b p obtain c where c: "r = Inr c" by (cases r) (auto simp: on_park_def Let_def)
  have s1: "s1 = s\<lparr>ib_db := d, ib_reg := g1, ib_runs := ib_runs s @ [inbound_opts u (h ''Caller-Caller-Id-Number'') now b]\<rparr>"
    using assms(1,3) g u b p c by (auto simp: on_park_def Let_def)
  obtain c' g2 where "providers_for dial (Some b) g1 = (Inr c', g2)"
    using p c by (auto simp: providers_for_def asr_for_def split: if_splits option.splits sum.splits)
  with s1 g d b u assms(1) have "ib_runs (on_park dial True later h s1) =
      ib_runs s @ [inbound_opts u (h ''Caller-Caller-Id-Number'') now b, inbound_opts u (h ''Caller-Caller-Id-Number'') later b]"
    by (simp add: on_park_def Let_def)
  then show ?thesis using assms(1) by (auto simp: inbound_opts_def on_park_def run_enters_def Let_def)
qed

theorem duplicate_park_runs_twice_witness:
  "\<exists>s1 o1 o2. on_park (\<lambda>_. None) True 7 demo_event (demo_inbound []) = s1 \<and>
     ib_runs (on_park (\<lambda>_. None) True 8 demo_event s1) = [o1, o2] \<and> ro_uuid o1 = ''c1'' \<and> ro_uuid o2 = ''c1''"
proof -
  have "ib_runs (on_park (\<lambda>_. None) True 7 demo_event (demo_inbound [])) \<noteq> ib_runs (demo_inbound [])"
    using demo_dial demo_routed [of "[]"] by (simp add: on_park_def demo_event_def) (simp add: demo_inbound_def)
  from duplicate_park_runs_twice [OF _ _ refl this, of "''c1''" 8] show ?thesis
    by (auto simp: demo_event_def demo_inbound_def)
qed

text \<open>A filler comes from the folder of its label, else from the flat pool of the voice, else there is none; and
  once picked for a voice and label, later picks for them do not depend on the file system any more.\<close>

theorem filler_picked_from_its_folder:
  assumes "pick_label join lo r fs voice label p = (f, p1)" "\<And>n. 0 < n \<Longrightarrow> r n < n"
    and "fp_base p \<noteq> []" "voice \<noteq> []" "fp_cache p = Map.empty"
  shows "(let own = (if label = [] then [] else list_dir join lo fs (pool_dir join (fp_base p) voice label));
              flat = list_dir join lo fs (pool_dir join (fp_base p) voice []) in
          if own \<noteq> [] then f \<in> set own else if flat \<noteq> [] then f \<in> set flat else f = []) \<and>
    pick_label join lo r fs' voice label p1 = (f, p1)"
proof -
  have pick: "fs \<noteq> [] \<Longrightarrow> pick_random r fs \<in> set fs" for fs
    using assms(2) [of "length fs"] nth_mem [of "r (length fs)" fs] by (auto simp: pick_random_def)
  show ?thesis
  proof (cases "label = []")
    case True
    then show ?thesis using assms(1,3-5)
      by (auto simp: pick_label_def pool_list_def Let_def pick split: if_splits)
  next
    case False
    then show ?thesis using assms(1,3-5)
      by (auto simp: pick_label_def pool_list_def Let_def pick split: if_splits)
  qed
qed

theorem filler_picked_from_its_folder_witness:
  "fst (pick_label (\<lambda>a b. a @ ''/'' @ b) id (\<lambda>n. 0) (\<lambda>d. if d = ''f/v'' then Some [Entry ''a.wav'' False] else None) ''v'' ''X'' (new_pool ''f'')) = ''f/v/a.wav''"
proof -
  let ?fs = "\<lambda>d. if d = ''f/v'' then Some [Entry ''a.wav'' False] else None"
  obtain f p1 where p: "pick_label (\<lambda>a b. a @ ''/'' @ b) id (\<lambda>n. 0) ?fs ''v'' ''X'' (new_pool ''f'') = (f, p1)"
    by (cases "pick_label (\<lambda>a b. a @ ''/'' @ b) id (\<lambda>n. 0) ?fs ''v'' ''X'' (new_pool ''f'')")
  have lower: "to_lower id ''a.wav'' = ''a.wav''" by (simp add: to_lower_ascii_cons ascii_lower_def char_of_eq_iff)
  have "list_dir (\<lambda>a b. a @ ''/'' @ b) id ?fs ''f/v'' = [''f/v/a.wav'']" "list_dir (\<lambda>a b. a @ ''/'' @ b) id ?fs ''f/v/X'' = []"
    using lower by (simp_all add: list_dir_def has_suffix_def)
  with filler_picked_from_its_folder [OF p, of ?fs] p show ?thesis
    by (simp add: new_pool_def pool_dir_def)
qed

end
