(* ===== verification/Wav.thy ===== *)
theory Wav
  imports Prelude
begin

text \<open>
  The recorder of \<open>internal/api/web_voice.go\<close>, which writes each turn of a voice session to a WAV file, and the
  framing with which the same file format is played back as a filler.  The reference is a reader of canonical
  RIFF/WAVE files.
\<close>

section \<open>Little-endian integers\<close>

definition put_le :: "nat \<Rightarrow> nat \<Rightarrow> bytes" where
  "put_le k n = map (\<lambda>i. char_of (n div 256 ^ i)) [0..<k]"

definition get_le :: "bytes \<Rightarrow> nat" where
  "get_le bs = foldr (\<lambda>b n. of_char b + 256 * n) bs 0"

text \<open>\<open>binary.LittleEndian.PutUint32\<close> and \<open>PutUint16\<close>.\<close>

definition put_u32 :: "32 word \<Rightarrow> bytes" where "put_u32 w = put_le 4 (unat w)"
definition put_u16 :: "16 word \<Rightarrow> bytes" where "put_u16 w = put_le 2 (unat w)"

section \<open>The recorder\<close>

record wav_rec =
  wr_file :: bytes
  wr_rate :: int
  wr_bytes :: "32 word"
  wr_open :: bool

definition new_wav :: "int \<Rightarrow> wav_rec" where
  "new_wav rate = \<lparr>wr_file = replicate 44 (char_of (0::nat)), wr_rate = rate, wr_bytes = 0, wr_open = True\<rparr>"

text \<open>The operating system took the first \<open>n\<close> bytes of \<open>p\<close>, all of them unless the write failed.\<close>

definition wav_write :: "nat \<Rightarrow> bytes \<Rightarrow> wav_rec \<Rightarrow> wav_rec" where
  "wav_write n p w =
     w\<lparr>wr_file := wr_file w @ take n p, wr_bytes := wr_bytes w + of_nat (length (take n p))\<rparr>"

definition wav_header :: "int \<Rightarrow> 32 word \<Rightarrow> bytes" where
  "wav_header rate n =
     (let channels = 1; bits = 16;
          byte_rate = of_int (rate * channels * bits div 8) :: 32 word;
          block_align = of_int (channels * bits div 8) :: 16 word
      in ''RIFF'' @ put_u32 (36 + n) @ ''WAVE'' @ ''fmt '' @ put_u32 16 @ put_u16 1 @ put_u16 (of_int channels) @
         put_u32 (of_int rate) @ put_u32 byte_rate @ put_u16 block_align @ put_u16 (of_int bits) @ ''data'' @ put_u32 n)"

text \<open>How the patching goes: the seek fails, or so many bytes of the header are written.\<close>

datatype patch = SeekFails | Patched nat

definition wav_close :: "patch \<Rightarrow> wav_rec \<Rightarrow> wav_rec" where
  "wav_close r w =
     (if \<not> wr_open w then w
      else case r of
        SeekFails \<Rightarrow> w\<lparr>wr_open := False\<rparr>
      | Patched k \<Rightarrow>
         w\<lparr>wr_file := copy_at (wr_file w) 0 (take k (wav_header (wr_rate w) (wr_bytes w))), wr_open := False\<rparr>)"

text \<open>A recording: every write succeeds, and so does the patching of the header.\<close>

definition record_all :: "int \<Rightarrow> bytes list \<Rightarrow> wav_rec" where
  "record_all rate fs = fold (\<lambda>p. wav_write (length p) p) fs (new_wav rate)"

section \<open>Playing a file as a filler\<close>

text \<open>The payload behind the 44 bytes of header, none if the file is no longer than that.\<close>

definition filler_pcm :: "bytes \<Rightarrow> bytes" where
  "filler_pcm body = (if length body \<le> 44 then [] else drop 44 body)"

text \<open>The loop over 20 ms frames at 16 kHz.\<close>

function chunk_loop :: "bytes \<Rightarrow> nat \<Rightarrow> bytes list" where
  "chunk_loop pcm i =
     (if i < length pcm
      then gslice pcm i (if length pcm < i + 640 then length pcm else i + 640) # chunk_loop pcm (i + 640)
      else [])"
  by pat_completeness auto
termination
  by (relation "measure (\<lambda>(pcm, i). length pcm - i)") auto

declare chunk_loop.simps [simp del]

section \<open>The reference reader\<close>

text \<open>Sampling rate and payload of a canonical file: one channel of 16-bit samples, sizes that fit the file.\<close>

definition field :: "bytes \<Rightarrow> nat \<Rightarrow> nat \<Rightarrow> bytes" where
  "field f at n = take n (drop at f)"

definition riff_read :: "bytes \<Rightarrow> (nat \<times> bytes) option" where
  "riff_read f =
     (if 44 \<le> length f \<and> field f 0 4 = ''RIFF'' \<and> get_le (field f 4 4) = length f - 8 \<and>
         field f 8 8 = ''WAVEfmt '' \<and> get_le (field f 16 4) = 16 \<and> get_le (field f 20 2) = 1 \<and>
         get_le (field f 22 2) = 1 \<and> get_le (field f 28 4) = 2 * get_le (field f 24 4) \<and>
         get_le (field f 32 2) = 2 \<and> get_le (field f 34 2) = 16 \<and> field f 36 4 = ''data'' \<and>
         get_le (field f 40 4) = length f - 44
      then Some (get_le (field f 24 4), drop 44 f) else None)"

section \<open>Lemmas\<close>

lemma length_put_le [simp]: "length (put_le k n) = k"
  by (simp add: put_le_def)

lemma put_le_Suc: "put_le (Suc k) n = char_of n # put_le k (n div 256)"
proof -
  have "[0..<Suc k] = 0 # map Suc [0..<k]" by (simp add: upt_conv_Cons map_Suc_upt del: upt_Suc)
  then show ?thesis by (simp add: put_le_def div_mult2_eq)
qed

lemma get_put_le [simp]: "n < 256 ^ k \<Longrightarrow> get_le (put_le k n) = n"
proof (induction k arbitrary: n)
  case 0
  then show ?case by (simp add: put_le_def get_le_def)
next
  case (Suc k)
  then have "n div 256 < 256 ^ k" by (simp add: less_mult_imp_div_less mult.commute)
  with Suc.IH [of "n div 256"] have "get_le (put_le k (n div 256)) = n div 256" by simp
  then show ?case by (simp add: put_le_Suc get_le_def of_char_of)
qed

lemma get_put_u32 [simp]: "get_le (put_u32 w) = unat w"
  proof -
  have "unat w < 2 ^ LENGTH(32)" by (rule unsigned_less)
  then show ?thesis by (simp add: put_u32_def)
qed

lemma get_put_u16 [simp]: "get_le (put_u16 w) = unat w"
  proof -
  have "unat w < 2 ^ LENGTH(16)" by (rule unsigned_less)
  then show ?thesis by (simp add: put_u16_def)
qed

lemma length_put_u [simp]: "length (put_u32 w) = 4" "length (put_u16 v) = 2"
  by (simp_all add: put_u32_def put_u16_def)

lemma length_header [simp]: "length (wav_header rate n) = 44"
  by (simp add: wav_header_def Let_def)

lemma record_all_fields:
  "wr_file (fold (\<lambda>p. wav_write (length p) p) fs w) = wr_file w @ concat fs \<and>
   wr_bytes (fold (\<lambda>p. wav_write (length p) p) fs w) = wr_bytes w + of_nat (length (concat fs)) \<and>
   wr_rate (fold (\<lambda>p. wav_write (length p) p) fs w) = wr_rate w \<and>
   wr_open (fold (\<lambda>p. wav_write (length p) p) fs w) = wr_open w"
  by (induction fs arbitrary: w) (simp_all add: wav_write_def)

lemma recorded_file:
  "wr_file (wav_close (Patched 44) (record_all rate fs)) =
     wav_header rate (of_nat (length (concat fs))) @ concat fs"
  by (simp add: wav_close_def record_all_def record_all_fields new_wav_def copy_at_def)

lemma header_fields:
  fixes rate :: int and n :: "32 word" and pcm :: bytes
  defines "f \<equiv> wav_header rate n @ pcm"
  shows "field f 0 4 = ''RIFF''" "get_le (field f 4 4) = unat (36 + n)" "field f 8 8 = ''WAVEfmt ''"
    "get_le (field f 16 4) = 16" "get_le (field f 20 2) = 1" "get_le (field f 22 2) = 1"
    "get_le (field f 24 4) = unat (of_int rate :: 32 word)"
    "get_le (field f 28 4) = unat (of_int (2 * rate) :: 32 word)"
    "get_le (field f 32 2) = 2" "get_le (field f 34 2) = 16" "field f 36 4 = ''data''"
    "get_le (field f 40 4) = unat n"
  unfolding f_def wav_header_def Let_def field_def
  by (simp_all add: mult.commute)

lemma chunk_loop_spec:
  "concat (chunk_loop pcm i) = drop i pcm \<and>
   (\<forall>c\<in>set (chunk_loop pcm i). c \<noteq> [] \<and> length c \<le> 640) \<and>
   (\<forall>c\<in>set (butlast (chunk_loop pcm i)). length c = 640)"
proof (induction pcm i rule: chunk_loop.induct)
  case (1 pcm i)
  show ?case
  proof (cases "i < length pcm")
    case True
    let ?r = "chunk_loop pcm (i + 640)"
    define c where "c = take 640 (drop i pcm)"
    have "gslice pcm i (if length pcm < i + 640 then length pcm else i + 640) = c"
      by (simp add: c_def gslice_def)
    then have u: "chunk_loop pcm i = c # ?r" by (subst chunk_loop.simps) (simp add: True)
    have d: "c @ drop (i + 640) pcm = drop i pcm"
      using append_take_drop_id [of 640 "drop i pcm"] by (simp add: c_def add.commute)
    have "i + 640 < length pcm" if "?r \<noteq> []"
      using that by (subst (asm) chunk_loop.simps) (simp split: if_splits)
    then have full: "?r \<noteq> [] \<Longrightarrow> length c = 640" by (simp add: c_def)
    have ne: "c \<noteq> []" "length c \<le> 640" using True by (simp_all add: c_def)
    from "1.IH" [OF True] d ne full show ?thesis by (cases "?r = []") (simp_all add: u)
  qed (simp add: chunk_loop.simps)
qed


section \<open>A recording is a file that can be played\<close>

text \<open>C31: A recorded turn is a valid file: if its payload is shorter than \<open>2^32 - 36\<close> bytes, the reference reader
  finds the sampling rate and exactly the frames that were written; from that size on the size in the header has
  wrapped and the reader refuses the file.  Played as a filler, the file sounds as the frames that were recorded, cut
  into frames of 640 bytes of which only the last may be shorter.\<close>

theorem recording_plays_back:
  assumes "0 \<le> rate" "2 * rate < 2 ^ 32"
  shows "let f = wr_file (wav_close (Patched 44) (record_all rate frames)); pcm = concat frames in
    (riff_read f = (if length pcm < 2 ^ 32 - 36 then Some (nat rate, pcm) else None)) \<and>
    concat (chunk_loop (filler_pcm f) 0) = pcm \<and>
    (\<forall>c\<in>set (butlast (chunk_loop (filler_pcm f) 0)). length c = 640)"
proof -
  let ?pcm = "concat frames" and ?n = "of_nat (length (concat frames)) :: 32 word"
  let ?f = "wr_file (wav_close (Patched 44) (record_all rate frames))"
  have f: "?f = wav_header rate ?n @ ?pcm" by (rule recorded_file)
  have play: "filler_pcm ?f = ?pcm" by (simp add: f filler_pcm_def)
  have small: "unat (of_int k :: 32 word) = nat k" if "0 \<le> k" "k < 2 ^ 32" for k
    using that by (simp add: unsigned_of_int take_bit_int_eq_self)
  have r: "unat (of_int rate :: 32 word) = nat rate" "unat (2 * of_int rate :: 32 word) = 2 * nat rate"
    using small [of rate] small [of "2 * rate"] assms by (simp_all add: nat_mult_distrib)
  have sizes: "unat (36 + ?n) = length ?pcm + 36 \<and> unat ?n = length ?pcm \<longleftrightarrow> length ?pcm < 2 ^ 32 - 36"
    by (auto simp: unat_word_ariths unat_of_nat)
  have "riff_read ?f = (if length ?pcm < 2 ^ 32 - 36 then Some (nat rate, ?pcm) else None)"
    using sizes by (auto simp: riff_read_def f header_fields r)
  with chunk_loop_spec [of ?pcm 0] show ?thesis by (simp add: play)
qed

theorem recording_plays_back_witness:
  "riff_read (wr_file (wav_close (Patched 44) (record_all 16000 [''ab'', ''cd'']))) = Some (16000, ''abcd'')"
  using recording_plays_back [of 16000 "[''ab'', ''cd'']"] by (simp add: Let_def)

end
