(* ===== verification/WebVoice.thy ===== *)
theory WebVoice
  imports ApiWeb Providers Wav
begin

text \<open>
  \<open>internal/api/web_voice.go\<close>: a voice session over a WebSocket.  The bot's turn is a step relation, given as
  an executable function on events: the goroutine of the turn, the forwarder of audio, the barge-in monitor and
  the filler take their steps in the order of the events.  Listening, the loop of the session and the handler are
  functions of the scripts of their environment; \<open>None\<close> means that they have not returned when the script ends.
\<close>

section \<open>Frames\<close>

text \<open>The values of \<open>wsFrame\<close> the server sends, one constructor for each \<open>type\<close>.\<close>

datatype ws_frame =
  FrSession uuid gostring | FrState gostring | FrPartial gostring | FrFinal gostring | FrBotText gostring
| FrBotDone gostring | FrAudio bytes int | FrInterrupt | FrError gostring gostring

text \<open>What the read loop gets: an audio frame is \<open>None\<close> when its text is empty or no base64.\<close>

datatype ws_in = WsReadErr | WsBadJson | WsHello | WsAudio "bytes option" | WsEnd | WsOther

text \<open>
  One message: the channel of 64 frames after it, and whether the reader returns.  \<open>gone\<close>: the context is done and
  the select takes that case.
\<close>

definition read_frame :: "bool \<Rightarrow> ws_in \<Rightarrow> bytes list \<Rightarrow> bytes list \<times> bool" where
  "read_frame gone m q =
     (case m of
        WsReadErr \<Rightarrow> (q, True)
      | WsEnd \<Rightarrow> (q, True)
      | WsAudio (Some pcm) \<Rightarrow> if gone then (q, True) else (if length q < 64 then q @ [pcm] else q, False)
      | _ \<Rightarrow> (q, False))"

text \<open>The reader over a script of messages, nobody taking frames out: whether it has returned.\<close>

fun read_loop_over :: "ws_in list \<Rightarrow> bool" where
  "read_loop_over [] = False"
| "read_loop_over (m # ms) = (snd (read_frame False m []) \<or> read_loop_over ms)"

section \<open>Configuration of a session\<close>

record voice_conf =
  vo_session :: uuid
  vo_bot :: bot_config
  vo_asr_rate :: int
  vo_tts_rate :: int
  vo_record :: gostring
  vo_filler :: gostring

definition or_default :: "int \<Rightarrow> int \<Rightarrow> int" where
  "or_default dflt n = (if n = 0 then dflt else n)"

text \<open>\<open>int(sec * 1000)\<close> truncates towards zero.\<close>

definition sec_ms :: "real \<Rightarrow> int" where
  "sec_ms x = (if 0 \<le> x then \<lfloor>x * 1000\<rfloor> else \<lceil>x * 1000\<rceil>)"

definition voice_listen_opts :: "voice_conf \<Rightarrow> asr_opts" where
  "voice_listen_opts c =
     \<lparr>conversation_id = ''web-'' @ vo_session c, asr_sample_rate = vo_asr_rate c, channels = 1,
      single_sentence = asr_single (vo_bot c), silence_timeout_ms = sec_ms (asr_silence_sec (vo_bot c)),
      speech_timeout_ms = sec_ms (asr_speech_sec (vo_bot c)), speech_max_ms = sec_ms (asr_max_sec (vo_bot c))\<rparr>"

definition voice_barge_opts :: "voice_conf \<Rightarrow> asr_opts" where
  "voice_barge_opts c =
     \<lparr>conversation_id = ''web-barge-'' @ vo_session c, asr_sample_rate = vo_asr_rate c, channels = 1,
      single_sentence = True, silence_timeout_ms = 60000,
      speech_timeout_ms = sec_ms (asr_speech_sec (vo_bot c)), speech_max_ms = sec_ms (asr_max_sec (vo_bot c))\<rparr>"

section \<open>Listening\<close>

datatype pump_end = PumpCtx ctx_err | PumpClosed | PumpSend gostring

datatype voice_err =
  VoCtx ctx_err | VoClosed | VoAsrStart gostring | VoAsrSend gostring | VoBotStream gostring
| VoTtsStream gostring | VoWrite gostring | VoEndCall

datatype vlisten_ev = VlCtx ctx_err | VlPump pump_end | VlResult asr_result | VlClosed

text \<open>The frames sent, and the final text, empty when the recogniser closed its stream.\<close>

fun voice_listen :: "vlisten_ev list \<Rightarrow> ws_frame list \<Rightarrow> (ws_frame list \<times> (voice_err + gostring)) option" where
  "voice_listen [] out = None"
| "voice_listen (VlCtx e # es) out = Some (out, Inl (VoCtx e))"
| "voice_listen (VlPump (PumpCtx e) # es) out =
     (if e = Canceled then voice_listen es out else Some (out, Inl (VoCtx e)))"
| "voice_listen (VlPump PumpClosed # es) out = Some (out, Inl VoClosed)"
| "voice_listen (VlPump (PumpSend m) # es) out = Some (out, Inl (VoAsrSend m))"
| "voice_listen (VlClosed # es) out = Some (out, Inr [])"
| "voice_listen (VlResult r # es) out =
     (let text = trim_space (res_text r) in
      if \<not> is_final r then voice_listen es (if text \<noteq> [] then out @ [FrPartial text] else out)
      else Some (if text \<noteq> [] then out @ [FrFinal text] else out, Inr text))"

section \<open>Fillers\<close>

definition scan_wavs :: "file_system \<Rightarrow> gostring \<Rightarrow> gostring list" where
  "scan_wavs fs dir =
     (case fs dir of
        None \<Rightarrow> []
      | Some es \<Rightarrow>
         map entry_name (filter (\<lambda>e. \<not> entry_is_dir e \<and> 4 \<le> length (entry_name e) \<and>
           last_n 4 (entry_name e) \<in> {''.wav'', ''.WAV''}) es))"

text \<open>The label of a transcript: \<open>resp\<close> is what the intent service answers within the time-out.\<close>

definition resolve_filler_label :: "(nat \<Rightarrow> nat) \<Rightarrow> bot_config \<Rightarrow> gostring \<Rightarrow> (nat \<times> gostring) result \<Rightarrow> gostring" where
  "resolve_filler_label up b heard resp =
     (if filler_mode b \<noteq> ''hybrid'' \<or> filler_intent_url b = [] \<or> heard = [] then []
      else case classify up (filler_intent_url b) resp of Inl _ \<Rightarrow> [] | Inr l \<Rightarrow> l)"

text \<open>What the fillers depend on: paths, directories, files, the intent service and the clock.\<close>

record filler_env =
  fe_join :: "gostring \<Rightarrow> gostring \<Rightarrow> gostring"
  fe_up :: "nat \<Rightarrow> nat"
  fe_dirs :: file_system
  fe_read :: "gostring \<Rightarrow> bytes option"
  fe_intent :: "(nat \<times> gostring) result"
  fe_nanos :: nat

definition play_filler :: "voice_conf \<Rightarrow> filler_env \<Rightarrow> gostring \<Rightarrow> bool \<Rightarrow> bytes list" where
  "play_filler c fe heard short =
     (let label = (if short then [] else resolve_filler_label (fe_up fe) (vo_bot c) heard (fe_intent fe));
          base = fe_join fe (vo_filler c) (tts_voice_id (vo_bot c));
          own = (if label \<noteq> [] then scan_wavs (fe_dirs fe) (fe_join fe base label) else []);
          (dir, wavs) = (if own = [] then (base, scan_wavs (fe_dirs fe) base) else (fe_join fe base label, own)) in
      if wavs = [] then []
      else case fe_read fe (fe_join fe dir (wavs ! (fe_nanos fe mod length wavs))) of
        None \<Rightarrow> []
      | Some body \<Rightarrow> chunk_loop (filler_pcm body) 0)"

section \<open>The bot's turn\<close>

text \<open>
  Where the goroutine of the turn is: taking sentences, waiting for the action, waiting for the audio or the
  cancellation, waiting for the monitor, and past that.
\<close>

datatype main_pc = MPump | MAction | MDrain | MJoin | MEnd

text \<open>
  \<open>vt_said\<close> is what the synthesiser accepted, \<open>vt_monitor\<close> whether the monitor runs, \<open>vt_filler\<close> the frames the
  filler has left, \<open>vt_go\<close> that it has found the context alive for the next one.
\<close>

record vturn =
  vt_pc :: main_pc
  vt_cancelled :: bool
  vt_first_byte :: "time option"
  vt_acc :: gostring
  vt_said :: "gostring list"
  vt_eos :: bool
  vt_action :: "action option"
  vt_audio_done :: bool
  vt_first_audio :: "time option"
  vt_wav :: "wav_rec option"
  vt_monitor :: bool
  vt_barged :: "gostring option"
  vt_filler :: "bytes list"
  vt_go :: bool
  vt_out :: "ws_frame list"

definition vturn_begin :: "voice_conf \<Rightarrow> bytes list \<Rightarrow> wav_rec option \<Rightarrow> vturn" where
  "vturn_begin c filler wav =
     \<lparr>vt_pc = MPump, vt_cancelled = False, vt_first_byte = None, vt_acc = [], vt_said = [], vt_eos = False,
      vt_action = None, vt_audio_done = False, vt_first_audio = None, vt_wav = wav,
      vt_monitor = bargein_enabled (vo_bot c), vt_barged = None, vt_filler = filler, vt_go = False, vt_out = []\<rparr>"

text \<open>
  A sentence, whether the synthesiser takes it, and when; the end of the sentences; the action once the reply is
  over; a frame of audio, how much of it reaches the file, and when; the end of the audio; the two halves of a
  step of the filler; a result of the monitor's recogniser, the end of that stream or the failure to open it, and
  the monitor's noticing the cancellation; the two waits; a cancellation from outside.
\<close>

datatype vev =
  VSentence gostring bool time | VSentencesOver | VAction "action option"
| VAudio bytes nat time | VAudioOver | VFillerCheck | VFillerSend
| VMonResult asr_result | VMonOver | VMonCtx | VDrained | VJoined | VCancel

definition on_sentence :: "gostring \<Rightarrow> bool \<Rightarrow> time \<Rightarrow> vturn \<Rightarrow> vturn" where
  "on_sentence s ok t v =
     (let v = (if vt_first_byte v = None then v\<lparr>vt_first_byte := Some t\<rparr> else v);
          clean = trim_space s in
      if clean = [] then v
      else let v = v\<lparr>vt_acc := vt_acc v @ clean @ '' '', vt_out := vt_out v @ [FrBotText clean]\<rparr> in
        if ok then v\<lparr>vt_said := vt_said v @ [clean]\<rparr> else v\<lparr>vt_eos := True, vt_pc := MAction\<rparr>)"

definition on_audio :: "voice_conf \<Rightarrow> bytes \<Rightarrow> nat \<Rightarrow> time \<Rightarrow> vturn \<Rightarrow> vturn" where
  "on_audio c frame n t v =
     (let v = (if vt_first_audio v = None
               then v\<lparr>vt_first_audio := Some t, vt_out := vt_out v @ [FrState ''speaking'']\<rparr> else v)
      in v\<lparr>vt_out := vt_out v @ [FrAudio frame (vo_tts_rate c)], vt_wav := map_option (wav_write n frame) (vt_wav v)\<rparr>)"

definition on_monitor :: "voice_conf \<Rightarrow> asr_result \<Rightarrow> vturn \<Rightarrow> vturn" where
  "on_monitor c r v =
     (let text = trim_space (res_text r) in
      if \<not> is_final r \<or> text = [] then v
      else if count_words text < bargein_min_words (vo_bot c) then v
      else v\<lparr>vt_barged := Some text, vt_cancelled := True, vt_monitor := False\<rparr>)"

definition filler_half :: "voice_conf \<Rightarrow> vturn \<Rightarrow> vturn" where
  "filler_half c v =
     (if vt_go v then v\<lparr>vt_out := vt_out v @ [FrAudio (hd (vt_filler v)) (vo_tts_rate c)], vt_filler := tl (vt_filler v), vt_go := False\<rparr>
      else if vt_cancelled v then v\<lparr>vt_filler := []\<rparr> else v\<lparr>vt_go := True\<rparr>)"

definition vturn_step :: "voice_conf \<Rightarrow> vev \<Rightarrow> vturn \<Rightarrow> vturn option" where
  "vturn_step c e v =
     (case e of
        VSentence s ok t \<Rightarrow> if vt_pc v = MPump then Some (on_sentence s ok t v) else None
      | VSentencesOver \<Rightarrow> if vt_pc v = MPump then Some (v\<lparr>vt_eos := True, vt_pc := MAction\<rparr>) else None
      | VAction a \<Rightarrow> if vt_pc v = MAction then Some (v\<lparr>vt_action := a, vt_pc := MDrain\<rparr>) else None
      | VAudio f n t \<Rightarrow> if \<not> vt_audio_done v then Some (on_audio c f n t v) else None
      | VAudioOver \<Rightarrow> if \<not> vt_audio_done v then Some (v\<lparr>vt_audio_done := True\<rparr>) else None
      | VFillerCheck \<Rightarrow> if vt_filler v \<noteq> [] \<and> \<not> vt_go v then Some (filler_half c v) else None
      | VFillerSend \<Rightarrow> if vt_filler v \<noteq> [] \<and> vt_go v then Some (filler_half c v) else None
      | VMonResult r \<Rightarrow> if vt_monitor v then Some (on_monitor c r v) else None
      | VMonOver \<Rightarrow> if vt_monitor v then Some (v\<lparr>vt_monitor := False\<rparr>) else None
      | VMonCtx \<Rightarrow> if vt_monitor v \<and> vt_cancelled v then Some (v\<lparr>vt_monitor := False\<rparr>) else None
      | VDrained \<Rightarrow> if vt_pc v = MDrain \<and> (vt_audio_done v \<or> vt_cancelled v) then Some (v\<lparr>vt_pc := MJoin\<rparr>) else None
      | VJoined \<Rightarrow> if vt_pc v = MJoin \<and> \<not> vt_monitor v then Some (v\<lparr>vt_pc := MEnd\<rparr>) else None
      | VCancel \<Rightarrow> Some (v\<lparr>vt_cancelled := True\<rparr>))"

fun vturn_run :: "voice_conf \<Rightarrow> vev list \<Rightarrow> vturn \<Rightarrow> vturn option" where
  "vturn_run c [] v = Some v"
| "vturn_run c (e # es) v = Option.bind (vturn_step c e v) (vturn_run c es)"

section \<open>The session\<close>

text \<open>The database, the frames sent, and the recordings by the number in their name.\<close>

record vsess =
  vs_db :: db
  vs_out :: "ws_frame list"
  vs_files :: "nat \<rightharpoonup> bytes"

text \<open>
  One turn's environment: how the two streams open, whether the file can be created, the events, the clock, how
  the header is patched, and whether the last state frame can be written.
\<close>

record vturn_env =
  ve_bot_err :: "gostring option"
  ve_tts_err :: "gostring option"
  ve_wav :: bool
  ve_filler :: filler_env
  ve_events :: "vev list"
  ve_done :: time
  ve_barged_at :: time
  ve_patch :: patch
  ve_write :: "gostring option"

definition send :: "ws_frame list \<Rightarrow> vsess \<Rightarrow> vsess" where
  "send fs s = s\<lparr>vs_out := vs_out s @ fs\<rparr>"

definition save_turn :: "web_turn \<Rightarrow> vsess \<Rightarrow> vsess" where
  "save_turn t s = s\<lparr>vs_db := snd (append_web_turn t (vs_db s))\<rparr>"

definition save_file :: "nat \<Rightarrow> wav_rec option \<Rightarrow> vsess \<Rightarrow> vsess" where
  "save_file i w s = (case w of None \<Rightarrow> s | Some w \<Rightarrow> s\<lparr>vs_files := (vs_files s)(i \<mapsto> wr_file w)\<rparr>)"

definition user_turn :: "uuid \<Rightarrow> gostring \<Rightarrow> time \<Rightarrow> web_turn" where
  "user_turn sid text t = (blank_turn sid ''user'' text)\<lparr>wt_asr_final := Some t\<rparr>"

definition wav_name :: "voice_conf \<Rightarrow> nat \<Rightarrow> gostring" where
  "wav_name c i = (if vo_record c = [] then [] else show_nat i @ ''.wav'')"

definition bot_turn :: "voice_conf \<Rightarrow> nat \<Rightarrow> time \<Rightarrow> vturn \<Rightarrow> web_turn" where
  "bot_turn c i t v = (blank_turn (vo_session c) ''bot'' (trim_space (vt_acc v)))
     \<lparr>wt_audio := wav_name c i, wt_first_byte := vt_first_byte v, wt_bot_done := Some t,
      wt_tts_first := vt_first_audio v, wt_tts_done := Some t, wt_action := action_text (vt_action v)\<rparr>"

text \<open>The turn as it starts, with its filler and its recorder.\<close>

definition begin_turn :: "voice_conf \<Rightarrow> vturn_env \<Rightarrow> gostring \<Rightarrow> bool \<Rightarrow> vturn" where
  "begin_turn c e user short =
     vturn_begin c
       (if user \<noteq> [] \<and> vo_filler c \<noteq> [] \<and> tts_voice_id (vo_bot c) \<noteq> [] then play_filler c (ve_filler e) user short else [])
       (if vo_record c \<noteq> [] \<and> ve_wav e then Some (new_wav (vo_tts_rate c)) else None)"

text \<open>Once the goroutines are joined: the last frame and the row of the bot's turn.\<close>

definition persist_turn :: "voice_conf \<Rightarrow> vturn_env \<Rightarrow> nat \<Rightarrow> vturn \<Rightarrow> vsess \<Rightarrow> vsess" where
  "persist_turn c e i v s =
     save_turn (bot_turn c i (ve_done e) v)
       (save_file i (vt_wav v) (send (vt_out v @ [FrBotDone (action_text (vt_action v))]) s))"

definition close_file :: "vturn_env \<Rightarrow> nat \<Rightarrow> vturn \<Rightarrow> vsess \<Rightarrow> vsess" where
  "close_file e i v = save_file i (map_option (wav_close (ve_patch e)) (vt_wav v))"

definition take_over :: "voice_conf \<Rightarrow> vturn_env \<Rightarrow> gostring \<Rightarrow> vsess \<Rightarrow> vsess" where
  "take_over c e text s = save_turn (user_turn (vo_session c) text (ve_barged_at e)) (send [FrInterrupt] s)"

text \<open>\<open>runBotTurn\<close> calls itself after a barge-in; the files are closed when the calls return.\<close>

fun run_bot_turn ::
  "voice_conf \<Rightarrow> vturn_env list \<Rightarrow> nat \<Rightarrow> gostring \<Rightarrow> bool \<Rightarrow> vsess \<Rightarrow> (vsess \<times> (voice_err + unit) \<times> vturn_env list) option"
where
  "run_bot_turn c [] i user short s = None"
| "run_bot_turn c (e # es) i user short s =
     (case ve_bot_err e of
        Some m \<Rightarrow> Some (s, Inl (VoBotStream m), es)
      | None \<Rightarrow>
     (case ve_tts_err e of
        Some m \<Rightarrow> Some (s, Inl (VoTtsStream m), es)
      | None \<Rightarrow>
     (case vturn_run c (ve_events e) (begin_turn c e user short) of
        None \<Rightarrow> None
      | Some v \<Rightarrow>
         if vt_pc v \<noteq> MEnd then None
         else
           (let s = persist_turn c e i v s in
            case vt_barged v of
              Some text \<Rightarrow>
                (case ve_write e of
                   Some m \<Rightarrow> Some (close_file e i v (take_over c e text s), Inl (VoWrite m), es)
                 | None \<Rightarrow>
                    (case run_bot_turn c es (Suc i) text (vt_first_audio v = None)
                            (send [FrState ''thinking''] (take_over c e text s)) of
                       None \<Rightarrow> None
                     | Some (s', r, rest) \<Rightarrow> Some (close_file e i v s', r, rest)))
            | None \<Rightarrow>
                if vt_action v = Some ActionEndCall
                then Some (close_file e i v (send [FrState ''ended''] s), Inl VoEndCall, es)
                else Some (close_file e i v s, Inr (), es)))))"

text \<open>One round of the loop: the two state frames, the recogniser's stream, what it hears, and the clock.\<close>

record vround =
  vr_write :: "gostring option"
  vr_asr_err :: "gostring option"
  vr_listen :: "vlisten_ev list"
  vr_at :: time
  vr_write2 :: "gostring option"

fun voice_loop :: "voice_conf \<Rightarrow> vround list \<Rightarrow> vturn_env list \<Rightarrow> nat \<Rightarrow> vsess \<Rightarrow> (vsess \<times> (voice_err + unit)) option" where
  "voice_loop c [] envs i s = None"
| "voice_loop c (r # rs) envs i s =
     (case vr_write r of
        Some m \<Rightarrow> Some (s, Inl (VoWrite m))
      | None \<Rightarrow>
         (let s = send [FrState ''listening''] s in
          case vr_asr_err r of
            Some m \<Rightarrow> Some (s, Inl (VoAsrStart m))
          | None \<Rightarrow>
             (case voice_listen (vr_listen r) [] of
                None \<Rightarrow> None
              | Some (out, Inl e) \<Rightarrow>
                  Some (send out s, if e = VoCtx Canceled \<or> e = VoClosed then Inr () else Inl e)
              | Some (out, Inr text) \<Rightarrow>
                  if text = [] then voice_loop c rs envs i (send out s)
                  else
                    (let s = save_turn (user_turn (vo_session c) text (vr_at r)) (send out s) in
                     case vr_write2 r of
                       Some m \<Rightarrow> Some (s, Inl (VoWrite m))
                     | None \<Rightarrow>
                        (case run_bot_turn c envs (Suc i) text False (send [FrState ''thinking''] s) of
                           None \<Rightarrow> None
                         | Some (s, Inl e, _) \<Rightarrow> Some (s, Inl e)
                         | Some (s, Inr _, envs) \<Rightarrow> voice_loop c rs envs (Suc i) s)))))"

text \<open>\<open>run\<close>: the greeting, the loop, and then the wait for the reader.\<close>

definition voice_run ::
  "voice_conf \<Rightarrow> ws_in list \<Rightarrow> gostring option \<Rightarrow> vround list \<Rightarrow> vturn_env list \<Rightarrow> vsess \<Rightarrow> (vsess \<times> (voice_err + unit)) option"
where
  "voice_run c reader write rounds envs s =
     (if \<not> read_loop_over reader then None
      else case write of
        Some m \<Rightarrow> Some (s, Inl (VoWrite m))
      | None \<Rightarrow>
         (case run_bot_turn c envs 1 [] False (send [FrState ''thinking''] s) of
            None \<Rightarrow> None
          | Some (s, Inl e, _) \<Rightarrow> Some (s, Inl e)
          | Some (s, Inr _, envs) \<Rightarrow> voice_loop c rounds envs 1 s))"

section \<open>The handler\<close>

fun voice_err_text :: "voice_err \<Rightarrow> gostring" where
  "voice_err_text (VoCtx Canceled) = ''context canceled''"
| "voice_err_text (VoCtx DeadlineExceeded) = ''context deadline exceeded''"
| "voice_err_text VoClosed = ''client closed''"
| "voice_err_text (VoAsrStart m) = ''asr start: '' @ m"
| "voice_err_text (VoAsrSend m) = m"
| "voice_err_text (VoBotStream m) = ''bot stream: '' @ m"
| "voice_err_text (VoTtsStream m) = ''tts stream: '' @ m"
| "voice_err_text (VoWrite m) = m"
| "voice_err_text VoEndCall = ''bot signalled ENDCALL''"

text \<open>The part of \<open>WebDeps\<close> that voice uses; \<open>vd_join\<close> is \<open>filepath.Join\<close>.\<close>

record voice_deps =
  vd_join :: "gostring \<Rightarrow> gostring \<Rightarrow> gostring"
  vd_record_dir :: gostring
  vd_filler_dir :: gostring
  vd_asr_endpoint :: gostring
  vd_asr_rate :: int
  vd_tts_rate :: int
  vd_factory :: "(bot_config \<Rightarrow> unit result) option"

text \<open>
  The handler's environment: whether the upgrade succeeds, the error of dialling the recogniser, of writing the
  session frame, the scripts of the session, the time of its end.
\<close>

record voice_env =
  vx_upgraded :: bool
  vx_dial :: "gostring \<Rightarrow> gostring \<Rightarrow> gostring option"
  vx_write :: "gostring option"
  vx_reader :: "ws_in list"
  vx_write1 :: "gostring option"
  vx_rounds :: "vround list"
  vx_turns :: "vturn_env list"
  vx_end :: time

definition voice_conf_of :: "voice_deps \<Rightarrow> bot_config \<Rightarrow> web_session \<Rightarrow> voice_conf" where
  "voice_conf_of vd b ws =
     \<lparr>vo_session = ws_id ws, vo_bot = b, vo_asr_rate = or_default 16000 (vd_asr_rate vd),
      vo_tts_rate = or_default 16000 (vd_tts_rate vd),
      vo_record = (if ws_dir ws \<noteq> [] then vd_join vd (ws_dir ws) (ws_id ws) else []), vo_filler = vd_filler_dir vd\<rparr>"

text \<open>What happens between the row of the session and its end: the last status and error with the session.\<close>

definition voice_session ::
  "voice_deps \<Rightarrow> voice_env \<Rightarrow> bot_config \<Rightarrow> web_session \<Rightarrow> db \<Rightarrow> (gostring \<times> gostring \<times> vsess) option"
where
  "voice_session vd vx b ws d =
     (let c = voice_conf_of vd b ws;
          s = \<lparr>vs_db = d, vs_out = [], vs_files = Map.empty\<rparr> in
      case vx_dial vx (if vd_asr_endpoint vd = [] then asr_endpoint b else vd_asr_endpoint vd) (asr_token b) of
        Some m \<Rightarrow> Some (''error'', ''asr dial: '' @ m, send [FrError ''asr_dial'' m] s)
      | None \<Rightarrow>
         (case vd_factory vd of
            None \<Rightarrow> Some (''error'', ''no bot factory'', send [FrError ''config'' ''bot factory not configured''] s)
          | Some f \<Rightarrow>
             (case f b of
                Inl m \<Rightarrow> Some (''error'', m, send [FrError ''bot_init'' m] s)
              | Inr _ \<Rightarrow>
                 (case vx_write vx of
                    Some _ \<Rightarrow> Some (''ended'', [], s)
                  | None \<Rightarrow>
                     (case voice_run c (vx_reader vx) (vx_write1 vx) (vx_rounds vx) (vx_turns vx)
                             (send [FrSession (ws_id ws) (tts_voice_id b)] s) of
                        None \<Rightarrow> None
                      | Some (s, Inr _) \<Rightarrow> Some (''ended'', [], s)
                      | Some (s, Inl e) \<Rightarrow>
                          Some (''error'', voice_err_text e, send [FrError ''loop'' (voice_err_text e)] s))))))"

text \<open>The handler: a status when there is no session, else the frames and recordings.\<close>

definition h_voice ::
  "verifier \<Rightarrow> uuid_parser \<Rightarrow> issuer \<Rightarrow> ctx \<Rightarrow> gostring \<Rightarrow> voice_deps \<Rightarrow> voice_env \<Rightarrow> gostring \<Rightarrow> db \<Rightarrow>
     ((nat + ws_frame list \<times> (nat \<rightharpoonup> bytes)) \<times> db) option"
where
  "h_voice verify up iss x ip vd vx tok d =
     (case resolve_token verify up iss (x_now x) tok ''voice'' d of
        (Inr (Some (b, _, iat)), d) \<Rightarrow>
          if \<not> vx_upgraded vx then Some (Inl 400, d)
          else
            (case create_web_session (x_fresh x) (x_now x) (b_id b) (b_tenant b) ''voice'' iat ip (x_agent x)
                    (if vd_record_dir vd \<noteq> [] then vd_join vd (vd_record_dir vd) (b_id b) else []) d of
               (Inl _, d) \<Rightarrow> Some (Inr ([FrError ''session_create'' []], Map.empty), d)
             | (Inr ws, d) \<Rightarrow>
                (case voice_session vd vx b ws d of
                   None \<Rightarrow> None
                 | Some (st, err, s) \<Rightarrow>
                    Some (Inr (vs_out s, vs_files s), snd (end_web_session (vx_end vx) (ws_id ws) st err (vs_db s)))))
      | (_, d) \<Rightarrow> Some (Inl 401, d))"

end
