(* ===== verification/WebProps.thy ===== *)
theory WebProps
  imports ApiWeb BotsProps UsersProps
begin

text \<open>
  The playground: a bot link reaches only its bot, and only while the bot is there; chatting keeps the turns of
  every session numbered from one, and touches no session but the caller's.
\<close>

section \<open>Effects\<close>

lemma resolve_token_cases:
  assumes "resolve_token verify up iss now tok want d = (r, d')"
  shows "\<exists>fs. d' = d\<lparr>faults := fs\<rparr>"
    "r = Inr (Some (b, ch, iat)) \<Longrightarrow> \<exists>bid. parse_bot_share verify iss now tok = Inr (bid, ch, iat) \<and> up bid = Some (b_id b) \<and>
       b_enabled b \<and> live_bot d (b_id b) \<noteq> None"
proof -
  have refl: "\<exists>fs. d = d\<lparr>faults := fs\<rparr>" by (rule same_refl)
  show "\<exists>fs. d' = d\<lparr>faults := fs\<rparr>"
    using assms refl by (auto simp: resolve_token_def split: sum.splits prod.splits option.splits if_splits
        dest!: get_bot_by_id_frame)
  assume "r = Inr (Some (b, ch, iat))"
  with assms obtain bid i where a: "parse_bot_share verify iss now tok = Inr (bid, ch, iat)" "up bid = Some i"
    "get_bot_by_id i d = (Inr (Some b), d')" "b_enabled b"
    by (auto simp: resolve_token_def split: sum.splits prod.splits option.splits if_splits)
  from a(3) have "b_id b = i \<and> live_bot d i \<noteq> None" by (auto elim: get_bot_by_id_Some)
  with a show "\<exists>bid. parse_bot_share verify iss now tok = Inr (bid, ch, iat) \<and> up bid = Some (b_id b) \<and>
       b_enabled b \<and> live_bot d (b_id b) \<noteq> None" by auto
qed

text \<open>What a chat may do to the sessions and turns: nothing but add turns to session \<open>i\<close> and touch its row.\<close>

definition chat_frame :: "uuid \<Rightarrow> db \<Rightarrow> db \<Rightarrow> bool" where
  "chat_frame i d d' \<longleftrightarrow> (turns_ok d \<longrightarrow> turns_ok d') \<and> (\<forall>j. j \<noteq> i \<longrightarrow> turns_of j d' = turns_of j d)"

lemma chat_frame_refl: "chat_frame i d d"
  by (simp add: chat_frame_def)

lemma chat_frame_faults: "chat_frame i d (d\<lparr>faults := fs\<rparr>)"
  by (simp add: chat_frame_def)

lemma chat_frame_trans: "chat_frame i d e \<Longrightarrow> chat_frame i e f \<Longrightarrow> chat_frame i d f"
  by (simp add: chat_frame_def)

lemma append_web_turn_frame:
  assumes "append_web_turn t d = (r, d')" "wt_idx t = 0" "wt_session t = i"
  shows "chat_frame i d d'"
proof -
  have "turns_of j d' = turns_of j d" if "j \<noteq> i" for j
    using assms(1,2)
  proof (cases rule: append_web_turn_cases)
    case (2 fs)
    then show ?thesis using that assms(3) by (simp add: with_turn_def Let_def turns_of_def)
  qed simp
  with append_web_turn_ok [OF assms(1,2)] show ?thesis by (simp add: chat_frame_def)
qed

lemma append_frame: "wt_idx t = 0 \<Longrightarrow> chat_frame (wt_session t) d (snd (append_web_turn t d))"
  by (cases "append_web_turn t d") (auto intro: append_web_turn_frame)

lemma turns_ok_totals:
  "turns_ok d \<longleftrightarrow> (\<forall>i. map wt_idx (turns_of i d) = [1..<Suc (length (turns_of i d))]) \<and>
     (\<forall>(i, n)\<in>set (map (\<lambda>s. (ws_id s, ws_total s)) (web_sessions d)). n = length (turns_of i d))"
  by (simp add: turns_ok_def)

lemma end_web_session_frame: "chat_frame i d (snd (end_web_session now j st err d))"
proof -
  obtain r d' where e: "end_web_session now j st err d = (r, d')" by (cases "end_web_session now j st err d")
  have ts: "turns_of k d' = turns_of k d" for k
    using e unfolding end_web_session_def by (rule run_query_cases) (auto simp: turns_of_def Let_def split: if_splits)
  moreover have tot: "map (\<lambda>s. (ws_id s, ws_total s)) (web_sessions d') = map (\<lambda>s. (ws_id s, ws_total s)) (web_sessions d)"
    using e unfolding end_web_session_def by (rule run_query_cases) (auto simp: Let_def split: if_splits)
  ultimately have "turns_ok d \<Longrightarrow> turns_ok d'" by (simp add: turns_ok_totals)
  with ts show ?thesis by (simp add: e chat_frame_def)
qed

lemma blank_turn_fields [simp]:
  "wt_idx (blank_turn i role txt) = 0" "wt_session (blank_turn i role txt) = i"
  by (simp_all add: blank_turn_def)

lemma chat_finish_frame: "chat_frame i d (chat_finish t i st acc first d)"
proof -
  let ?t = "(blank_turn i ''bot'' (trim_space acc))\<lparr>wt_first_byte := first, wt_bot_done := Some t,
      wt_action := (if cs_failed st \<and> cs_action st = None then ''ERROR'' else action_text (cs_action st))\<rparr>"
  have "chat_frame i d (snd (append_web_turn ?t d))" using append_frame [of ?t d] by simp
  from this chat_frame_trans [OF this end_web_session_frame] show ?thesis
    unfolding chat_finish_def Let_def by (simp only: split: if_split) blast
qed

text \<open>The session a message is for: one of this bot's chats, or a new one.\<close>

lemma create_web_session_cases:
  assumes "create_web_session n now bid tid ch iat ip ag dir d = (y, d')"
  obtains (same) fs e where "y = Inl e" "d' = d\<lparr>faults := fs\<rparr>"
  | (created) fs s where "y = Inr s" "ws_id s = n" "ws_total s = 0" "d' = d\<lparr>faults := fs, web_sessions := web_sessions d @ [s]\<rparr>"
proof (cases "bid = nil_uuid \<or> tid = nil_uuid \<or> (ch \<noteq> ''chat'' \<and> ch \<noteq> ''voice'')")
  case True
  then have "\<exists>e. y = Inl e \<and> d' = d\<lparr>faults := faults d\<rparr>" using assms by (auto simp: create_web_session_def split: if_splits)
  then show thesis using same by blast
next
  case False
  let ?s = "\<lparr>ws_id = n, ws_bot = bid, ws_tenant = tid, ws_channel = ch, ws_iat = iat, ws_ip = null_if_empty ip, ws_agent = ag,
      ws_started = now, ws_ended = None, ws_status = ''active'', ws_total = 0, ws_dir = dir, ws_error = []\<rparr>"
  from False assms have "run_query (\<lambda>d. if bid \<notin> (b_id \<circ> r_bot) ` set (bots d) \<or> tid \<notin> t_id ` set (tenants d)
      then (Inl FkViolation, d) else (Inr ?s, d\<lparr>web_sessions := web_sessions d @ [?s]\<rparr>)) d = (y, d')"
    unfolding create_web_session_def Let_def by (auto cong: if_cong)
  then show thesis
  proof (cases rule: run_query_cases)
    case (runs fs)
    show thesis
    proof (cases "bid \<notin> (b_id \<circ> r_bot) ` set (bots d) \<or> tid \<notin> t_id ` set (tenants d)")
      case True
      with runs show thesis by (intro same [of FkViolation fs]) auto
    next
      case False
      with runs show thesis by (intro created [of ?s fs]) auto
    qed
  qed (rule same)
qed

lemma faults_ex: "\<exists>gs. d\<lparr>faults := fs\<rparr> = d\<lparr>faults := gs\<rparr>"
  by blast

lemma chat_session_frame:
  assumes "chat_session up x b iat ip sid d = (y, d')" "turns_of (x_fresh x) d = []"
  shows "chat_frame j d d' \<and> (\<forall>i. y = Inr i \<longrightarrow> i = x_fresh x \<or>
    (\<exists>s\<in>set (web_sessions d). ws_id s = i \<and> ws_bot s = b_id b \<and> ws_channel s = ''chat''))"
proof (cases "sid = []")
  case True
  obtain z e where c: "create_web_session (x_fresh x) (x_now x) (b_id b) (b_tenant b) ''chat'' iat ip (x_agent x) [] d = (z, e)"
    by (cases "create_web_session (x_fresh x) (x_now x) (b_id b) (b_tenant b) ''chat'' iat ip (x_agent x) [] d")
  from c show ?thesis
  proof (cases rule: create_web_session_cases)
    case (same fs k)
    then show ?thesis using assms(1) c True by (auto simp: chat_session_def chat_frame_faults)
  next
    case (created fs s)
    have "turns_ok d \<Longrightarrow> turns_ok e" using created assms(2) by (simp add: turns_ok_def turns_of_def)
    moreover have "turns_of k e = turns_of k d" for k using created by (simp add: turns_of_def)
    ultimately show ?thesis using assms(1) c True created by (auto simp: chat_session_def chat_frame_def)
  qed
next
  case False
  have refl: "\<exists>fs. d = d\<lparr>faults := fs\<rparr>" by (rule same_refl)
  have g: "(\<exists>fs. e = d\<lparr>faults := fs\<rparr>) \<and> (\<forall>s ts. z = Inr (Some (s, ts)) \<longrightarrow> s \<in> set (web_sessions d))"
    if "get_web_session i d = (z, e)" for i z e
    using that unfolding get_web_session_def
    by (auto simp: faults_ex split: sum.splits prod.splits option.splits if_splits elim!: run_query_cases
        dest!: fetch_frame first_row_SomeD)
  from False assms(1) refl show ?thesis
    by (auto simp: chat_session_def split: option.splits sum.splits prod.splits if_splits
        dest!: g intro: chat_frame_refl chat_frame_faults)
qed

lemma chat_message_frame:
  "chat_frame i d (snd (chat_message now client open_stream lost_at first_at done_at i msg d))"
proof -
  let ?u = "(blank_turn i ''user'' msg)\<lparr>wt_asr_final := Some now\<rparr>"
  let ?e = "(blank_turn i ''bot'' [])\<lparr>wt_action := ''ERROR''\<rparr>"
  obtain v d3 where u: "append_web_turn ?u d = (v, d3)" by (cases "append_web_turn ?u d")
  have d3: "chat_frame i d d3" using append_web_turn_frame [OF u] by simp
  have e: "chat_frame i d (snd (append_web_turn ?e d3))" using chat_frame_trans [OF d3] append_frame [of ?e d3] by simp
  have f: "chat_frame i d (chat_finish done_at i st acc first d3)" for st acc first
    by (rule chat_frame_trans [OF d3 chat_finish_frame])
  show ?thesis using d3 e f
    by (auto simp: chat_message_def u chat_frame_refl split: sum.split prod.split)
qed

lemma h_chat_frame:
  assumes "h_chat verify up iss x ip client open_stream lost_at first_at done_at tok body d = (r, d')"
    and "turns_of (x_fresh x) d = []" "parse_bot_share verify iss (x_now x) tok = Inr (bid, ch, iat)" "up bid = Some k"
  shows "\<exists>i. chat_frame i d d' \<and> (i = x_fresh x \<or> (\<exists>s\<in>set (web_sessions d). ws_id s = i \<and> ws_bot s = k \<and> ws_channel s = ''chat''))"
proof -
  obtain y d1 where t: "resolve_token verify up iss (x_now x) tok ''chat'' d = (y, d1)"
    by (cases "resolve_token verify up iss (x_now x) tok ''chat'' d")
  obtain fs where d1: "d1 = d\<lparr>faults := fs\<rparr>" using resolve_token_cases(1) [OF t] by blast
  have default: ?thesis if "chat_frame (x_fresh x) d d'" using that by blast
  show ?thesis
  proof (cases "\<exists>b iat sid msg. y = Inr (Some (b, iat)) \<and> body = Inr (sid, msg) \<and> \<not> (trim_space msg = [] \<and> sid \<noteq> [])")
    case False
    then have "d' = d1" using assms(1) t by (auto simp: h_chat_def split: sum.splits option.splits prod.splits if_splits)
    then show ?thesis using default d1 by (simp add: chat_frame_faults)
  next
    case True
    then obtain b c iat' sid msg where b: "y = Inr (Some (b, c, iat'))" "body = Inr (sid, msg)"
      "\<not> (trim_space msg = [] \<and> sid \<noteq> [])" by auto
    have k: "b_id b = k" using resolve_token_cases(2) [OF t b(1)] assms(3,4) by simp
    obtain z d2 where s: "chat_session up x b iat' ip sid d1 = (z, d2)" by (cases "chat_session up x b iat' ip sid d1")
    have sf: "chat_frame j d d2 \<and> (\<forall>i. z = Inr i \<longrightarrow> i = x_fresh x \<or>
        (\<exists>s\<in>set (web_sessions d). ws_id s = i \<and> ws_bot s = k \<and> ws_channel s = ''chat''))" for j
      using chat_session_frame [OF s, of j] assms(2) d1 k chat_frame_trans [OF chat_frame_faults [of j d fs]] by simp
    show ?thesis
    proof (cases z)
      case (Inl n)
      then have "d' = d2" using assms(1) t b s by (auto simp: h_chat_def)
      then show ?thesis using default sf by blast
    next
      case (Inr i)
      then have "d' = snd (chat_message (x_now x) (client b) open_stream lost_at first_at done_at i msg d2)"
        using assms(1) t b s by (auto simp: h_chat_def)
      then have "chat_frame i d d'" using chat_frame_trans [OF conjunct1 [OF sf] chat_message_frame] by simp
      with sf Inr show ?thesis by blast
    qed
  qed
qed

section \<open>Properties\<close>


text \<open>A bot link dies with its bot: once the bot was deleted, after any sequence of requests to the bot API, its
  links bootstrap nothing and chat with nobody (401, the tables untouched).\<close>

theorem link_dies_with_bot:
  assumes "bots_step x (OpDelete i) d = (204, d1)" "steps_from bots_request d1 d2" "faults d2 = []"
    and "parse_bot_share verify iss t tok = Inr (bid, ch, iat)" "up bid = Some i"
  shows "h_bootstrap verify up iss t tok d2 = (Status 401, d2) \<and>
    h_chat verify up iss (y\<lparr>x_now := t\<rparr>) ip client open_stream lost_at first_at done_at tok body d2 = (Status 401, d2)"
proof -
  have "gone i d2" by (rule gone_steps [OF assms(2) deleted_gone [OF assms(1)]])
  then have "live_bot d2 i = None" by (auto simp: live_bot_def first_row_None gone_def)
  then have "resolve_token verify up iss t tok want d2 = (Inr None, d2)" for want
    using assms(3-5) by (simp add: resolve_token_def get_bot_by_id_def fetch_no_fault)
  then show ?thesis by (simp add: h_bootstrap_def h_chat_def)
qed

lemma demo_link_opens: "parse_bot_share (demo_verify demo_bot_link) demo_issuer 5 ''tok'' = Inr (''b1'', ''both'', Some 0)"
  by (simp add: parse_bot_share_def demo_verify_def demo_bot_link_def bot_share_payload_def blank_payload_def num_date_def
      share_ttl_or_week_def week_def)

theorem link_dies_with_bot_witness:
  "h_bootstrap (demo_verify demo_bot_link) Some demo_issuer 5 ''tok'' demo_deleted = (Status 401, demo_deleted)"
  using link_dies_with_bot [OF demo_delete [of "''b3''"] steps_from.here [of bots_request] _ demo_link_opens, of Some]
  by (simp add: demo_deleted_def demo_bots_def demo_db_def)

section \<open>Witness of the chat\<close>

definition demo_session :: web_session where
  "demo_session = \<lparr>ws_id = ''s2'', ws_bot = ''b2'', ws_tenant = ''t2'', ws_channel = ''chat'', ws_iat = None, ws_ip = None,
      ws_agent = [], ws_started = 1, ws_ended = None, ws_status = ''active'', ws_total = 1, ws_dir = [], ws_error = []\<rparr>"

definition demo_web :: db where
  "demo_web = demo_bots\<lparr>web_sessions := [demo_session], web_turns := [(blank_turn ''s2'' ''user'' ''hi'')\<lparr>wt_idx := 1\<rparr>]\<rparr>"

lemma demo_web_ok: "turns_ok demo_web"
proof -
  have "map wt_idx (turns_of i demo_web) = [1..<Suc (length (turns_of i demo_web))]" for i
    by (cases "i = ''s2''") (auto simp: turns_of_def demo_web_def blank_turn_def)
  moreover have "\<forall>s\<in>set (web_sessions demo_web). ws_total s = length (turns_of (ws_id s) demo_web)"
    by (simp add: demo_web_def demo_session_def turns_of_def blank_turn_def)
  ultimately show ?thesis by (simp add: turns_ok_def)
qed


end
