(* ===== verification/VoiceProps.thy ===== *)
theory VoiceProps
  imports WebVoice WebProps
begin

text \<open>
  Voice sessions: what a turn says, writes and records agrees; a turn with barge-in is not over before the monitor is;
  the session touches no row but its own, and how it ends is what its row says.
\<close>

section \<open>Runs of a turn\<close>

lemma vturn_run_append:
  "vturn_run c (es @ fs) v = Option.bind (vturn_run c es v) (vturn_run c fs)"
  by (induction es arbitrary: v) (auto split: bind_split)

lemma vturn_run_keeps:
  assumes "vturn_run c es v = Some v'" "P v"
    and "\<And>e u u'. e \<in> set es \<Longrightarrow> vturn_step c e u = Some u' \<Longrightarrow> P u \<Longrightarrow> P u'"
  shows "P v'"
  using assms
proof (induction es arbitrary: v)
  case (Cons e es)
  then obtain u where u: "vturn_step c e v = Some u" "vturn_run c es u = Some v'" by (auto split: bind_splits)
  from Cons.prems(3) [OF _ u(1)] Cons.prems(2) have "P u" by simp
  with Cons.IH [OF u(2)] Cons.prems(3) show ?case by (meson list.set_intros(2))
qed simp

text \<open>A quantity that every event adds to.\<close>

lemma vturn_run_adds:
  fixes f :: "vturn \<Rightarrow> 'a list"
  assumes "vturn_run c es v = Some v'"
    and "\<And>e u u'. e \<in> set es \<Longrightarrow> vturn_step c e u = Some u' \<Longrightarrow> f u' = f u @ g e"
  shows "f v' = f v @ concat (map g es)"
  using assms
proof (induction es arbitrary: v)
  case (Cons e es)
  then obtain u where u: "vturn_step c e v = Some u" "vturn_run c es u = Some v'" by (auto split: bind_splits)
  from Cons.prems(2) [OF _ u(1)] have "f u = f v @ g e" by simp
  moreover from Cons.IH [OF u(2)] Cons.prems(2) have "f v' = f u @ concat (map g es)" by (meson list.set_intros(2))
  ultimately show ?case by simp
qed simp

text \<open>The events of each goroutine, in turn.\<close>

lemmas vturn_defs = vturn_step_def on_sentence_def on_audio_def on_monitor_def filler_half_def Let_def

section \<open>A turn with barge-in waits for the monitor\<close>

definition too_short :: "voice_conf \<Rightarrow> asr_result \<Rightarrow> bool" where
  "too_short c r \<longleftrightarrow> is_final r \<longrightarrow> count_words (trim_space (res_text r)) < bargein_min_words (vo_bot c)"

definition awaits_monitor :: "vturn \<Rightarrow> bool" where
  "awaits_monitor v \<longleftrightarrow> vt_monitor v \<and> \<not> vt_cancelled v \<and> vt_barged v = None \<and> vt_pc v \<noteq> MEnd"

lemma awaits_monitor_step:
  assumes "vturn_step c e v = Some v'" "awaits_monitor v" "e \<notin> {VMonOver, VCancel}" "\<And>r. e = VMonResult r \<Longrightarrow> too_short c r"
  shows "awaits_monitor v'"
  using assms by (cases e) (auto simp: vturn_defs awaits_monitor_def too_short_def split: if_splits)

lemma begin_turn_fields:
  "vt_monitor (begin_turn c e user short) = bargein_enabled (vo_bot c)" "\<not> vt_cancelled (begin_turn c e user short)"
  "vt_barged (begin_turn c e user short) = None" "vt_pc (begin_turn c e user short) = MPump"
  "vt_out (begin_turn c e user short) = []" "vt_said (begin_turn c e user short) = []" "vt_acc (begin_turn c e user short) = []"
  by (simp_all add: begin_turn_def vturn_begin_def)

section \<open>What a turn says, writes and records\<close>

definition sentences_of :: "vev \<Rightarrow> gostring list" where
  "sentences_of e = (case e of VSentence s ok t \<Rightarrow> (let k = trim_space s in if k = [] then [] else [k]) | _ \<Rightarrow> [])"

definition accepted_of :: "vev \<Rightarrow> gostring list" where
  "accepted_of e = (case e of VSentence s ok t \<Rightarrow> if ok then sentences_of e else [] | _ \<Rightarrow> [])"

definition texts_of :: "ws_frame list \<Rightarrow> gostring list" where
  "texts_of fs = concat (map (\<lambda>f. case f of FrBotText t \<Rightarrow> [t] | _ \<Rightarrow> []) fs)"

definition states_of :: "ws_frame list \<Rightarrow> gostring list" where
  "states_of fs = concat (map (\<lambda>f. case f of FrState t \<Rightarrow> [t] | _ \<Rightarrow> []) fs)"

definition writes_of :: "vev \<Rightarrow> (nat \<times> bytes) list" where
  "writes_of e = (case e of VAudio f n t \<Rightarrow> [(n, f)] | _ \<Rightarrow> [])"

lemma texts_of_simps [simp]: "texts_of (fs @ gs) = texts_of fs @ texts_of gs" "texts_of [] = []"
  by (simp_all add: texts_of_def)

lemma states_of_simps [simp]: "states_of (fs @ gs) = states_of fs @ states_of gs" "states_of [] = []"
  by (simp_all add: states_of_def)

lemmas frame_lists = texts_of_def states_of_def sentences_of_def accepted_of_def

lemma turn_texts: "vturn_run c es v = Some v' \<Longrightarrow> texts_of (vt_out v') = texts_of (vt_out v) @ concat (map sentences_of es)"
  by (erule vturn_run_adds) (auto simp: vturn_defs frame_lists split: vev.splits if_splits)

lemma turn_said: "vturn_run c es v = Some v' \<Longrightarrow> vt_said v' = vt_said v @ concat (map accepted_of es)"
  by (erule vturn_run_adds) (auto simp: vturn_defs frame_lists split: vev.splits if_splits)

lemma turn_acc:
  "vturn_run c es v = Some v' \<Longrightarrow>
     vt_acc v' = vt_acc v @ concat (map (\<lambda>t. t @ '' '') (concat (map sentences_of es)))"
proof -
  assume r: "vturn_run c es v = Some v'"
  have "vt_acc v' = vt_acc v @ concat (map (\<lambda>e. concat (map (\<lambda>t. t @ '' '') (sentences_of e))) es)"
    using r by (rule vturn_run_adds) (auto simp: vturn_defs frame_lists split: vev.splits if_splits)
  also have "concat (map (\<lambda>e. concat (map (\<lambda>t. t @ '' '') (sentences_of e))) es) =
      concat (map (\<lambda>t. t @ '' '') (concat (map sentences_of es)))"
    by (induction es) simp_all
  finally show ?thesis .
qed

text \<open>A sentence the synthesiser refuses is the last of the turn.\<close>

lemma turn_sentence_last:
  "vturn_run c es v = Some v' \<Longrightarrow> vt_pc v \<noteq> MPump \<Longrightarrow> concat (map sentences_of es) = [] \<and> vt_pc v' \<noteq> MPump"
proof (induction es arbitrary: v)
  case (Cons e es)
  then obtain u where u: "vturn_step c e v = Some u" "vturn_run c es u = Some v'" by (auto split: bind_splits)
  from u(1) Cons.prems(2) have "sentences_of e = [] \<and> vt_pc u \<noteq> MPump"
    by (cases e) (auto simp: vturn_defs sentences_of_def split: if_splits)
  with Cons.IH [OF u(2)] show ?case by simp
qed simp

lemma turn_accepted:
  "vturn_run c es v = Some v' \<Longrightarrow>
     concat (map accepted_of es) \<in> {concat (map sentences_of es), butlast (concat (map sentences_of es))}"
proof (induction es arbitrary: v)
  case (Cons e es)
  then obtain u where u: "vturn_step c e v = Some u" "vturn_run c es u = Some v'" by (auto split: bind_splits)
  show ?case
  proof (cases "accepted_of e = sentences_of e")
    case True
    then show ?thesis using Cons.IH [OF u(2)]
      by (cases "concat (map sentences_of es) = []") (auto simp only: butlast_append concat.simps list.map butlast.simps if_False)
  next
    case False
    then obtain k where k: "sentences_of e = [k]" "accepted_of e = []" "vt_pc u \<noteq> MPump"
      using u(1) by (cases e) (auto simp: accepted_of_def sentences_of_def vturn_defs split: if_splits bool.splits)
    from turn_sentence_last [OF u(2) k(3)] have none: "concat (map sentences_of es) = []" by simp
    with Cons.IH [OF u(2)] have "concat (map accepted_of es) = []" by auto
    with none k show ?thesis by simp
  qed
qed simp

lemma turn_wav:
  "vturn_run c es v = Some v' \<Longrightarrow>
     vt_wav v' = map_option (fold (\<lambda>(n, f). wav_write n f) (concat (map writes_of es))) (vt_wav v)"
proof (induction es arbitrary: v)
  case (Cons e es)
  then obtain u where u: "vturn_step c e v = Some u" "vturn_run c es u = Some v'" by (auto split: bind_splits)
  have "vt_wav u = map_option (fold (\<lambda>(n, f). wav_write n f) (writes_of e)) (vt_wav v)"
    using u(1) by (cases e; cases "vt_wav v") (auto simp: vturn_defs writes_of_def split: if_splits)
  with Cons.IH [OF u(2)] show ?case by (cases "vt_wav v") simp_all
qed (simp add: id_def option.map_ident)

text \<open>The state frame of the turn is sent once, with its first audio.\<close>

lemma turn_states:
  "vturn_run c es v = Some v' \<Longrightarrow>
     states_of (vt_out v') = states_of (vt_out v) @ (if vt_first_audio v = None \<and> vt_first_audio v' \<noteq> None then [''speaking''] else []) \<and>
     (vt_first_audio v \<noteq> None \<longrightarrow> vt_first_audio v' \<noteq> None)"
proof (induction es arbitrary: v)
  case (Cons e es)
  then obtain u where u: "vturn_step c e v = Some u" "vturn_run c es u = Some v'" by (auto split: bind_splits)
  have "states_of (vt_out u) = states_of (vt_out v) @ (if vt_first_audio v = None \<and> vt_first_audio u \<noteq> None then [''speaking''] else []) \<and>
     (vt_first_audio v \<noteq> None \<longrightarrow> vt_first_audio u \<noteq> None)"
    using u(1) by (cases e) (auto simp: vturn_defs states_of_def split: if_splits)
  with Cons.IH [OF u(2)] show ?case by (auto split: if_splits)
qed auto

lemma turn_eos: "vturn_run c es v = Some v' \<Longrightarrow> vt_pc v = MPump \<or> vt_eos v \<Longrightarrow> vt_pc v' = MPump \<or> vt_eos v'"
  by (erule vturn_run_keeps) (auto simp: vturn_defs split: vev.splits if_splits)

lemma fold_full_writes:
  "\<forall>(n, f)\<in>set ws. n = length f \<Longrightarrow> fold (\<lambda>(n, f). wav_write n f) ws w = fold (\<lambda>p. wav_write (length p) p) (map snd ws) w"
  by (induction ws arbitrary: w) auto

section \<open>Sessions\<close>

lemma listen_states: "voice_listen es out = Some (out', r) \<Longrightarrow> states_of out' = states_of out"
  by (induction es out rule: voice_listen.induct) (auto simp: Let_def states_of_def split: if_splits)

lemma begin_turn_states:
  "vturn_run c es (begin_turn c e user short) = Some v \<Longrightarrow> ''ended'' \<notin> set (states_of (vt_out v))"
  using turn_states [of c es "begin_turn c e user short" v] by (auto simp: begin_turn_fields)

text \<open>
  A relation that every primitive effect of a session respects is respected by the session; if it does not allow the
  frame that says the session has ended, then unless the bot ended it.
\<close>

locale session_relation =
  fixes c :: voice_conf and any :: bool and R :: "vsess \<Rightarrow> vsess \<Rightarrow> bool"
  assumes unchanged: "R s s"
    and chained: "R s s1 \<Longrightarrow> R s1 s2 \<Longrightarrow> R s s2"
    and sends: "any \<or> ''ended'' \<notin> set (states_of fs) \<Longrightarrow> R s (send fs s)"
    and files: "R s (save_file i w s)"
    and turns: "wt_session t = vo_session c \<Longrightarrow> wt_idx t = 0 \<Longrightarrow> R s (save_turn t s)"
begin

lemma send_state: "x \<noteq> ''ended'' \<Longrightarrow> R s (send [FrState x] s)"
  by (rule sends) (simp add: states_of_def)

lemma user_rel: "R s (save_turn (user_turn (vo_session c) tx t) s)"
  by (rule turns) (simp_all add: user_turn_def)

lemma persist_rel:
  assumes "vturn_run c es (begin_turn c e user short) = Some v"
  shows "R s (persist_turn c e' i v s)"
proof -
  have "R s (send (vt_out v @ [FrBotDone (action_text (vt_action v))]) s)"
    using begin_turn_states [OF assms] by (intro sends) (simp add: states_of_def)
  then show ?thesis
    unfolding persist_turn_def by (rule chained [OF chained [OF _ files] turns]) (simp_all add: bot_turn_def)
qed

lemma close_rel: "R s t \<Longrightarrow> R s (close_file e i v t)"
  unfolding close_file_def by (rule chained [OF _ files])

lemma take_over_rel: "R s (take_over c e tx s)"
  unfolding take_over_def by (rule chained [OF sends user_rel]) (simp add: states_of_def)

lemma bot_turn_rel:
  "run_bot_turn c envs i user short s = Some (s', r, rest) \<Longrightarrow> any \<or> r \<noteq> Inl VoEndCall \<Longrightarrow> R s s'"
proof (induction envs arbitrary: i user short s s')
  case (Cons e es)
  show ?case
  proof (cases "ve_bot_err e = None \<and> ve_tts_err e = None")
    case False
    with Cons.prems(1) show ?thesis by (auto split: option.splits intro: unchanged)
  next
    case True
    then obtain v where v: "vturn_run c (ve_events e) (begin_turn c e user short) = Some v" "vt_pc v = MEnd"
      using Cons.prems(1) by (auto split: option.splits if_splits)
    let ?p = "persist_turn c e i v s"
    note p = persist_rel [OF v(1), of s e i]
    show ?thesis
    proof (cases "vt_barged v")
      case None
      with True v Cons.prems p show ?thesis
        by (auto simp: Let_def split: if_splits intro: close_rel chained [OF p sends])
    next
      case (Some tx)
      have tk: "R s (take_over c e tx ?p)" by (rule chained [OF p take_over_rel])
      show ?thesis
      proof (cases "ve_write e")
        case None
        with True v Some Cons.prems(1) obtain s2 where s2: "run_bot_turn c es (Suc i) tx (vt_first_audio v = None)
            (send [FrState ''thinking''] (take_over c e tx ?p)) = Some (s2, r, rest)" "s' = close_file e i v s2"
          by (auto simp: Let_def split: option.splits prod.splits)
        have "R s s2"
          by (rule chained [OF chained [OF tk send_state] Cons.IH [OF s2(1) Cons.prems(2)]]) simp
        then show ?thesis unfolding s2(2) by (rule close_rel)
      next
        case (Some m)
        with True v \<open>vt_barged v = Some tx\<close> Cons.prems(1) have "s' = close_file e i v (take_over c e tx ?p)" by (simp add: Let_def)
        with tk show ?thesis by (simp add: close_rel)
      qed
    qed
  qed
qed simp

text \<open>One round: it returns, or another round follows.\<close>

lemma round_rel:
  assumes "voice_loop c (x # rs) envs i s = Some (s', r)" "any \<or> r \<noteq> Inl VoEndCall"
  obtains "R s s'" | s2 envs' j where "R s s2" "voice_loop c rs envs' j s2 = Some (s', r)"
proof (cases "vr_write x = None \<and> vr_asr_err x = None")
  case False
  with assms(1) have "s' = s \<or> s' = send [FrState ''listening''] s" by (auto simp: Let_def split: option.splits)
  then show thesis using that(1) unchanged send_state [of "''listening''" s] by fastforce
next
  case True
  let ?s = "send [FrState ''listening''] s"
  from True assms(1) obtain out y where l: "voice_listen (vr_listen x) [] = Some (out, y)"
    by (auto simp: Let_def split: option.splits)
  have o: "R s (send out ?s)"
    by (rule chained [OF send_state sends]) (use listen_states [OF l] in simp_all)
  show thesis
  proof (cases "\<exists>tx. y = Inr tx \<and> tx \<noteq> []")
    case False
    with True l assms(1) o show thesis by (cases y) (auto simp: Let_def intro: that)
  next
    case True
    then obtain tx where tx: "y = Inr tx" "tx \<noteq> []" by blast
    let ?u = "save_turn (user_turn (vo_session c) tx (vr_at x)) (send out ?s)"
    have u: "R s ?u" by (rule chained [OF o user_rel])
    show thesis
    proof (cases "vr_write2 x")
      case (Some m)
      with tx l assms(1) \<open>vr_write x = None \<and> vr_asr_err x = None\<close> u show thesis by (intro that(1)) (simp add: Let_def)
    next
      case None
      with tx l assms(1) \<open>vr_write x = None \<and> vr_asr_err x = None\<close> obtain s2 q envs' where
        t: "run_bot_turn c envs (Suc i) tx False (send [FrState ''thinking''] ?u) = Some (s2, q, envs')"
        "(\<exists>e. q = Inl e \<and> r = Inl e) \<and> s' = s2 \<or> (\<exists>w. q = Inr w) \<and> voice_loop c rs envs' (Suc i) s2 = Some (s', r)"
        by (auto simp: Let_def split: option.splits prod.splits sum.splits)
      then have "R s s2" using assms(2) by (intro chained [OF chained [OF u send_state] bot_turn_rel [OF t(1)]]) auto
      with t(2) show thesis using that by blast
    qed
  qed
qed

lemma loop_rel: "voice_loop c rs envs i s = Some (s', r) \<Longrightarrow> any \<or> r \<noteq> Inl VoEndCall \<Longrightarrow> R s s'"
proof (induction rs arbitrary: envs i s)
  case (Cons x rs)
  from Cons.prems show ?case by (rule round_rel) (auto intro: chained Cons.IH [OF _ Cons.prems(2)])
qed simp

lemma run_rel:
  assumes "voice_run c reader w rs envs s = Some (s', r)" "any \<or> r \<noteq> Inl VoEndCall"
  shows "R s s'"
proof (cases w)
  case (Some m)
  with assms(1) show ?thesis by (auto simp: voice_run_def unchanged split: if_splits)
next
  case None
  with assms(1) obtain s2 q envs' where
    t: "run_bot_turn c envs 1 [] False (send [FrState ''thinking''] s) = Some (s2, q, envs')"
    "(\<exists>e. q = Inl e \<and> r = Inl e) \<and> s' = s2 \<or> (\<exists>w. q = Inr w) \<and> voice_loop c rs envs' 1 s2 = Some (s', r)"
    by (auto simp: voice_run_def split: option.splits prod.splits sum.splits if_splits)
  then have "R s s2" using assms(2) by (intro chained [OF send_state bot_turn_rel [OF t(1)]]) auto
  with t(2) assms(2) show ?thesis by (auto intro: chained loop_rel)
qed

end

section \<open>What a session does to the database\<close>

text \<open>Nothing but its own turns and its own row.\<close>

definition voice_frame :: "uuid \<Rightarrow> db \<Rightarrow> db \<Rightarrow> bool" where
  "voice_frame i d d' \<longleftrightarrow> chat_frame i d d' \<and>
     filter (\<lambda>s. ws_id s \<noteq> i) (web_sessions d') = filter (\<lambda>s. ws_id s \<noteq> i) (web_sessions d)"

definition rows_frame :: "db \<Rightarrow> db \<Rightarrow> bool" where
  "rows_frame d d' \<longleftrightarrow> map ws_id (web_sessions d') = map ws_id (web_sessions d) \<and> (faults d = [] \<longrightarrow> faults d' = [])"

lemma filter_map_same:
  "(\<And>x. x \<in> set xs \<Longrightarrow> P (f x) = P x \<and> (P x \<longrightarrow> f x = x)) \<Longrightarrow> filter P (map f xs) = filter P xs"
  by (induction xs) auto

lemma append_voice_frame:
  assumes "wt_session t = i" "wt_idx t = 0"
  shows "voice_frame i d (snd (append_web_turn t d))"
proof -
  obtain r d' where a: "append_web_turn t d = (r, d')" by (cases "append_web_turn t d")
  have "filter (\<lambda>s. ws_id s \<noteq> i) (web_sessions d') = filter (\<lambda>s. ws_id s \<noteq> i) (web_sessions d)"
    using a assms(2) by (cases rule: append_web_turn_cases)
      (auto simp: with_turn_def Let_def assms(1) intro: filter_map_same)
  then show ?thesis using append_web_turn_frame [OF a assms(2,1)] by (simp add: voice_frame_def a)
qed

lemma voice_frame_trans: "voice_frame i d e \<Longrightarrow> voice_frame i e f \<Longrightarrow> voice_frame i d f"
  by (auto simp: voice_frame_def intro: chat_frame_trans)

lemma end_voice_frame: "voice_frame i d (snd (end_web_session now i st err d))"
proof -
  obtain r d' where e: "end_web_session now i st err d = (r, d')" by (cases "end_web_session now i st err d")
  have "filter (\<lambda>s. ws_id s \<noteq> i) (web_sessions d') = filter (\<lambda>s. ws_id s \<noteq> i) (web_sessions d)"
    using e unfolding end_web_session_def
    by (rule run_query_cases) (auto simp: Let_def filter_map_same split: if_splits)
  then show ?thesis using end_web_session_frame [of i d now i st err] by (simp add: voice_frame_def e)
qed

lemma end_web_session_row:
  assumes "i \<in> ws_id ` set (web_sessions d)" "faults d = []" "st = ''ended'' \<or> st = ''error''"
  shows "\<exists>s\<in>set (web_sessions (snd (end_web_session now i st err d))). ws_id s = i \<and> ws_status s = st \<and> ws_error s = err"
proof -
  let ?f = "\<lambda>s. if ws_id s = i then s\<lparr>ws_ended := (case ws_ended s of Some t \<Rightarrow> Some t | None \<Rightarrow> Some now),
      ws_status := st, ws_error := err\<rparr> else s"
  from assms(1) obtain s where s: "s \<in> set (web_sessions d)" "ws_id s = i" by blast
  have "web_sessions (snd (end_web_session now i st err d)) = map ?f (web_sessions d)"
    using assms by (auto simp: end_web_session_def run_query_def Let_def)
  with s(1) have "?f s \<in> set (web_sessions (snd (end_web_session now i st err d)))" by (simp only: set_map) (rule imageI)
  then show ?thesis by (rule bexI [rotated]) (simp add: s(2))
qed

lemma append_rows_frame: "wt_idx t = 0 \<Longrightarrow> rows_frame d (snd (append_web_turn t d))"
proof -
  assume z: "wt_idx t = 0"
  obtain r d' where a: "append_web_turn t d = (r, d')" by (cases "append_web_turn t d")
  have "map ws_id (web_sessions d') = map ws_id (web_sessions d)"
    using a z by (cases rule: append_web_turn_cases) (auto simp: with_turn_def Let_def)
  moreover have "faults d = [] \<Longrightarrow> faults d' = []"
    using a by (auto simp: append_web_turn_def in_tx_def fetch_no_fault insert_web_turn_def bump_total_def run_query_def z
        split: if_splits)
  ultimately show ?thesis by (simp add: rows_frame_def a)
qed

lemma save_fields [simp]:
  "vs_db (send fs s) = vs_db s" "vs_db (save_file i w s) = vs_db s"
  "vs_out (send fs s) = vs_out s @ fs" "vs_out (save_file i w s) = vs_out s" "vs_out (save_turn t s) = vs_out s"
  "vs_db (save_turn t s) = snd (append_web_turn t (vs_db s))"
  by (simp_all add: send_def save_file_def save_turn_def split: option.split)

interpretation confined: session_relation c True "\<lambda>s s'. voice_frame (vo_session c) (vs_db s) (vs_db s')"
  by unfold_locales (auto simp: append_voice_frame, auto simp: voice_frame_def chat_frame_def)

interpretation rows: session_relation c True "\<lambda>s s'. rows_frame (vs_db s) (vs_db s')"
  by unfold_locales (auto simp: append_rows_frame, auto simp: rows_frame_def)

interpretation not_ended: session_relation c False
  "\<lambda>s s'. ''ended'' \<in> set (states_of (vs_out s')) \<longrightarrow> ''ended'' \<in> set (states_of (vs_out s))"
  by unfold_locales auto

lemma voice_session_cases:
  assumes "voice_session vd vx b ws d = Some (st, err, s)"
  obtains (early) fs where "s = send fs \<lparr>vs_db = d, vs_out = [], vs_files = Map.empty\<rparr>" "states_of fs = []"
  | (ran) s1 r where
      "voice_run (voice_conf_of vd b ws) (vx_reader vx) (vx_write1 vx) (vx_rounds vx) (vx_turns vx)
         (send [FrSession (ws_id ws) (tts_voice_id b)] \<lparr>vs_db = d, vs_out = [], vs_files = Map.empty\<rparr>) = Some (s1, r)"
      "case r of Inr _ \<Rightarrow> st = ''ended'' \<and> err = [] \<and> s = s1
       | Inl e \<Rightarrow> st = ''error'' \<and> err = voice_err_text e \<and> s = send [FrError ''loop'' (voice_err_text e)] s1"
proof -
  have e: thesis if "s = send [FrError x y] \<lparr>vs_db = d, vs_out = [], vs_files = Map.empty\<rparr>" for x y
    using that by (rule early) (simp add: states_of_def)
  have n: thesis if "s = \<lparr>vs_db = d, vs_out = [], vs_files = Map.empty\<rparr>"
    using that by (intro early [of "[]"]) (simp_all add: send_def)
  show thesis
    using assms unfolding voice_session_def Let_def
    by (auto split: option.splits sum.splits prod.splits intro: e n ran)
qed

lemma voice_session_frames:
  assumes "voice_session vd vx b ws d = Some (st, err, s)"
  shows "voice_frame (ws_id ws) d (vs_db s) \<and> rows_frame d (vs_db s)"
  using assms
proof (cases rule: voice_session_cases)
  case (early fs)
  then show ?thesis by (simp add: voice_frame_def chat_frame_refl rows_frame_def)
next
  case (ran s1 r)
  then have "vs_db s = vs_db s1" by (auto split: sum.splits)
  with confined.run_rel [OF ran(1)] rows.run_rel [OF ran(1)] show ?thesis
    by (simp add: voice_conf_of_def)
qed

text \<open>Only the bot's ending the call sends the state \<open>ended\<close>, and that is an error of the loop.\<close>

lemma voice_session_ended:
  assumes "voice_session vd vx b ws d = Some (st, err, s)" "''ended'' \<in> set (states_of (vs_out s))"
  shows "st = ''error'' \<and> err = ''bot signalled ENDCALL'' \<and> last (vs_out s) = FrError ''loop'' ''bot signalled ENDCALL''"
  using assms(1)
proof (cases rule: voice_session_cases)
  case (early fs)
  with assms(2) show ?thesis by simp
next
  case (ran s1 r)
  have "r = Inl VoEndCall"
  proof (rule ccontr)
    assume "r \<noteq> Inl VoEndCall"
    with not_ended.run_rel [OF ran(1)] have "''ended'' \<notin> set (states_of (vs_out s1))" by (simp add: states_of_def)
    with ran(2) assms(2) show False by (auto simp: states_of_def split: sum.splits)
  qed
  with ran(2) show ?thesis by simp
qed

section \<open>Properties\<close>


text \<open>With barge-in on, a turn of the bot is over only when the monitor is: as long as the recogniser's stream stays
  open and hears nothing of the least number of words, the turn does not return, although the bot has finished speaking:
  the loop does not listen again, and a short answer like a plain yes is never taken as the visitor's turn.\<close>

theorem short_answer_swallowed:
  assumes "bargein_enabled (vo_bot c)" "ve_bot_err e = None" "ve_tts_err e = None"
    and "VMonOver \<notin> set (ve_events e)" "VCancel \<notin> set (ve_events e)"
    and "\<And>r. VMonResult r \<in> set (ve_events e) \<Longrightarrow> is_final r \<Longrightarrow>
           count_words (trim_space (res_text r)) < bargein_min_words (vo_bot c)"
  shows "run_bot_turn c (e # es) i user short s = None"
proof (cases "vturn_run c (ve_events e) (begin_turn c e user short)")
  case None
  with assms(2,3) show ?thesis by simp
next
  case (Some v)
  then have "awaits_monitor v"
  proof (rule vturn_run_keeps)
    show "awaits_monitor (begin_turn c e user short)" using assms(1) by (simp add: awaits_monitor_def begin_turn_fields)
    show "awaits_monitor w" if "ev \<in> set (ve_events e)" "vturn_step c ev u = Some w" "awaits_monitor u" for ev u w
      using that(2,3) by (rule awaits_monitor_step) (use that(1) assms(4-6) in \<open>auto simp: too_short_def\<close>)
  qed
  with Some assms(2,3) show ?thesis by (simp add: awaits_monitor_def)
qed

text \<open>A voice session that the bot ends in the regular way, telling the visitor so, is stored as an error: the
  handler reports ENDCALL as a failure of the loop, to the visitor and in the session's row.\<close>

theorem endcall_stored_as_error:
  assumes "h_voice verify up iss x ip vd vx tok d = Some (Inr (out, files), d')" "''ended'' \<in> set (states_of out)"
    and "faults d = []"
  shows "last out = FrError ''loop'' ''bot signalled ENDCALL'' \<and>
    (\<exists>s\<in>set (web_sessions d'). ws_id s = x_fresh x \<and> ws_status s = ''error'' \<and> ws_error s = ''bot signalled ENDCALL'')"
proof -
  obtain y d1 where t: "resolve_token verify up iss (x_now x) tok ''voice'' d = (y, d1)"
    by (cases "resolve_token verify up iss (x_now x) tok ''voice'' d")
  with assms(1) obtain b ch iat where y: "y = Inr (Some (b, ch, iat))" "vx_upgraded vx"
    by (auto simp: h_voice_def split: sum.splits option.splits prod.splits if_splits)
  let ?dir = "if vd_record_dir vd \<noteq> [] then vd_join vd (vd_record_dir vd) (b_id b) else []"
  obtain z d2 where cr: "create_web_session (x_fresh x) (x_now x) (b_id b) (b_tenant b) ''voice'' iat ip (x_agent x) ?dir d1 = (z, d2)"
    by (cases "create_web_session (x_fresh x) (x_now x) (b_id b) (b_tenant b) ''voice'' iat ip (x_agent x) ?dir d1")
  have "\<exists>ws. z = Inr ws" using assms(1,2) t y cr by (cases z) (auto simp: h_voice_def states_of_def)
  then obtain ws where z: "z = Inr ws" by blast
  have d1: "faults d1 = []"
    using t assms(3) by (auto simp: resolve_token_def get_bot_by_id_def fetch_no_fault split: sum.splits prod.splits option.splits if_splits)
  from cr z d1 have ws: "ws_id ws = x_fresh x" "ws \<in> set (web_sessions d2)" "faults d2 = []"
    by (auto simp: create_web_session_def run_query_def Let_def split: if_splits)
  from assms(1) t y cr z obtain st err s where s: "voice_session vd vx b ws d2 = Some (st, err, s)" "out = vs_out s"
    "d' = snd (end_web_session (vx_end vx) (ws_id ws) st err (vs_db s))"
    by (auto simp: h_voice_def split: option.splits prod.splits)
  have e: "st = ''error''" "err = ''bot signalled ENDCALL''" "last out = FrError ''loop'' ''bot signalled ENDCALL''"
    using voice_session_ended [OF s(1)] assms(2) s(2) by simp_all
  from voice_session_frames [OF s(1)] ws(3)
  have r: "map ws_id (web_sessions (vs_db s)) = map ws_id (web_sessions d2)" "faults (vs_db s) = []"
    by (simp_all add: rows_frame_def)
  have "ws_id ws \<in> ws_id ` set (web_sessions (vs_db s))" using arg_cong [OF r(1), of set] ws(2) by simp
  note r(2) this
  from end_web_session_row [OF this(2,1)] e ws(1) show ?thesis unfolding s(3) by fastforce
qed

text \<open>C14: A voice session is confined: whatever the visitor, the bot, the recogniser, the synthesiser and the database
  do, the turns of every session stay numbered from one without gaps, no other session gets or loses a turn, and
  no row of another session changes.\<close>

theorem voice_confined:
  assumes "h_voice verify up iss x ip vd vx tok d = Some (r, d')" "turns_ok d" "turns_of (x_fresh x) d = []"
  shows "turns_ok d' \<and> (\<forall>i. i \<noteq> x_fresh x \<longrightarrow> turns_of i d' = turns_of i d) \<and>
    filter (\<lambda>s. ws_id s \<noteq> x_fresh x) (web_sessions d') = filter (\<lambda>s. ws_id s \<noteq> x_fresh x) (web_sessions d)"
proof -
  let ?i = "x_fresh x"
  have same: "voice_frame ?i d (d\<lparr>faults := fs\<rparr>)" for fs by (simp add: voice_frame_def chat_frame_faults)
  have "voice_frame ?i d d'"
  proof -
    obtain y d1 where t: "resolve_token verify up iss (x_now x) tok ''voice'' d = (y, d1)"
      by (cases "resolve_token verify up iss (x_now x) tok ''voice'' d")
    obtain fs where d1: "d1 = d\<lparr>faults := fs\<rparr>" using resolve_token_cases(1) [OF t] by blast
    show ?thesis
    proof (cases "\<exists>b ch iat. y = Inr (Some (b, ch, iat)) \<and> vx_upgraded vx")
      case False
      with assms(1) t have "d' = d1" by (auto simp: h_voice_def split: sum.splits option.splits prod.splits if_splits)
      then show ?thesis using d1 same by simp
    next
      case True
      then obtain b ch iat where y: "y = Inr (Some (b, ch, iat))" "vx_upgraded vx" by blast
      let ?dir = "if vd_record_dir vd \<noteq> [] then vd_join vd (vd_record_dir vd) (b_id b) else []"
      obtain z d2 where cr: "create_web_session ?i (x_now x) (b_id b) (b_tenant b) ''voice'' iat ip (x_agent x) ?dir d1 = (z, d2)"
        by (cases "create_web_session ?i (x_now x) (b_id b) (b_tenant b) ''voice'' iat ip (x_agent x) ?dir d1")
      from cr show ?thesis
      proof (cases rule: create_web_session_cases)
        case (same gs e)
        with assms(1) t y cr d1 have "d' = d\<lparr>faults := gs\<rparr>" by (simp add: h_voice_def)
        then show ?thesis by (simp add: voice_frame_def chat_frame_faults)
      next
        case (created gs ws)
        have d2: "voice_frame ?i d d2"
          using created d1 assms(3) by (auto simp: voice_frame_def chat_frame_def turns_ok_def turns_of_def)
        from created(1) assms(1) t y cr obtain st err s where s: "voice_session vd vx b ws d2 = Some (st, err, s)"
          "d' = snd (end_web_session (vx_end vx) (ws_id ws) st err (vs_db s))"
          by (auto simp: h_voice_def split: option.splits prod.splits)
        show ?thesis
          using voice_frame_trans [OF voice_frame_trans [OF d2] end_voice_frame] voice_session_frames [OF s(1)] created(2)
          by (simp add: s(2))
      qed
    qed
  qed
  then show ?thesis using assms(2) by (simp add: voice_frame_def chat_frame_def)
qed

section \<open>Witnesses\<close>

definition demo_filler :: filler_env where
  "demo_filler = \<lparr>fe_join = (\<lambda>a b. a @ ''/'' @ b), fe_up = id, fe_dirs = (\<lambda>_. None), fe_read = (\<lambda>_. None), fe_intent = Inl [], fe_nanos = 0\<rparr>"

definition demo_turn_env :: "vev list \<Rightarrow> vturn_env" where
  "demo_turn_env es = \<lparr>ve_bot_err = None, ve_tts_err = None, ve_wav = True, ve_filler = demo_filler, ve_events = es,
      ve_done = 20, ve_barged_at = 21, ve_patch = Patched 44, ve_write = None\<rparr>"

text \<open>The bot says goodbye, the audio ends, the monitor's stream too.\<close>

definition demo_goodbye :: "vev list" where
  "demo_goodbye = [VSentence ''Bye.'' True 10, VSentencesOver, VAction (Some ActionEndCall), VAudio ''pcm0'' 4 11, VAudioOver,
      VDrained, VMonOver, VJoined]"

text \<open>It asks a question and falls silent; the visitor says yes.\<close>

definition demo_question :: "vev list" where
  "demo_question = [VSentence ''Well?'' True 10, VSentencesOver, VAction (Some ActionChat), VAudio ''pcm0'' 4 11, VAudioOver,
      VDrained, VMonResult \<lparr>res_text = ''yes'', is_final = True\<rparr>]"

definition demo_voice_deps :: voice_deps where
  "demo_voice_deps = \<lparr>vd_join = (\<lambda>a b. a @ ''/'' @ b), vd_record_dir = ''/rec'', vd_filler_dir = [], vd_asr_endpoint = [],
      vd_asr_rate = 0, vd_tts_rate = 0, vd_factory = Some (\<lambda>_. Inr ())\<rparr>"

definition demo_voice_env :: "vev list \<Rightarrow> voice_env" where
  "demo_voice_env es = \<lparr>vx_upgraded = True, vx_dial = (\<lambda>_ _. None), vx_write = None, vx_reader = [WsHello, WsEnd],
      vx_write1 = None, vx_rounds = [], vx_turns = [demo_turn_env es], vx_end = 30\<rparr>"

definition demo_voice_conf :: voice_conf where
  "demo_voice_conf = \<lparr>vo_session = ''s9'', vo_bot = r_bot (demo_row ''b1'' ''t1''), vo_asr_rate = 16000, vo_tts_rate = 16000,
      vo_record = ''/rec'', vo_filler = []\<rparr>"

lemmas demo_voice_defs = demo_turn_env_def demo_voice_deps_def demo_voice_env_def demo_voice_conf_def

lemma demo_trim: "trim_space ''Bye.'' = ''Bye.''" "trim_space ''Bye. '' = ''Bye.''" "trim_space ''Well?'' = ''Well?''"
  "trim_space ''yes'' = ''yes''"
  by (simp_all add: eval_strings)

lemma demo_words: "count_words ''yes'' = 1"
  by (simp add: count_words_def string_fields_def fields_from.simps eval_strings)

lemma demo_bargein: "bargein_enabled (r_bot (demo_row i t))" "bargein_min_words (r_bot (demo_row i t)) = 3"
  by (simp_all add: demo_bots_defs new_bot_def to_write_input_def coalesce_bool_def default_int_def)

lemma demo_goodbye_run:
  "bargein_enabled (vo_bot c) \<Longrightarrow> user = [] \<Longrightarrow>
   \<exists>v. vturn_run c demo_goodbye (begin_turn c (demo_turn_env demo_goodbye) user short) = Some v \<and> vt_pc v = MEnd \<and>
     vt_barged v = None \<and> vt_action v = Some ActionEndCall"
  by (simp add: demo_goodbye_def begin_turn_def vturn_begin_def vturn_defs demo_trim)


theorem short_answer_swallowed_witness:
  "run_bot_turn demo_voice_conf [demo_turn_env demo_question] 1 [] False \<lparr>vs_db = demo_bots, vs_out = [], vs_files = Map.empty\<rparr> = None \<and>
   (\<exists>v. vturn_run demo_voice_conf demo_question (begin_turn demo_voice_conf (demo_turn_env demo_question) [] False) = Some v \<and>
      vt_pc v = MJoin \<and> vt_audio_done v)"
proof
  show "run_bot_turn demo_voice_conf [demo_turn_env demo_question] 1 [] False \<lparr>vs_db = demo_bots, vs_out = [], vs_files = Map.empty\<rparr> = None"
    by (rule short_answer_swallowed) (auto simp: demo_voice_defs demo_question_def demo_bargein demo_trim demo_words)
  show "\<exists>v. vturn_run demo_voice_conf demo_question (begin_turn demo_voice_conf (demo_turn_env demo_question) [] False) = Some v \<and>
      vt_pc v = MJoin \<and> vt_audio_done v"
    by (simp add: demo_question_def begin_turn_def vturn_begin_def vturn_defs demo_trim demo_voice_defs demo_bargein demo_words)
qed

text \<open>The whole handler, for a link that opens voice too.\<close>

lemma demo_voice_link: "resolve_token (demo_verify demo_bot_link) Some demo_issuer (x_now (demo_user ''t1'' ''s9'')) ''tok'' ''voice'' demo_bots =
    (Inr (Some ((r_bot (demo_row ''b1'' ''t1''))\<lparr>b_tenant_slug := ''one''\<rparr>, ''both'', Some 0)), demo_bots)"
proof -
  have "parse_bot_share (demo_verify demo_bot_link) demo_issuer (x_now (demo_user ''t1'' ''s9'')) ''tok'' = Inr (''b1'', ''both'', Some 0)"
    by (simp add: parse_bot_share_def demo_verify_def demo_bot_link_def bot_share_payload_def blank_payload_def num_date_def
        share_ttl_or_week_def week_def demo_user_def)
  then show ?thesis
    by (simp add: resolve_token_def channel_allows_def get_bot_by_id_def fetch_def run_query_def live_bot_def first_row_def
        scan_bot_def demo_row_eval demo_bots_def demo_db_def)
qed

lemma demo_deps_fields:
  "vd_factory demo_voice_deps = Some (\<lambda>_. Inr ())" "vd_asr_endpoint demo_voice_deps = []"
  "vd_record_dir demo_voice_deps = ''/rec''" "vd_join demo_voice_deps ''/rec'' ''b1'' = ''/rec/b1''"
  by (simp_all add: demo_voice_deps_def)

lemma demo_env_fields:
  "vx_upgraded (demo_voice_env es)" "vx_dial (demo_voice_env es) a b = None" "vx_write (demo_voice_env es) = None"
  "vx_reader (demo_voice_env es) = [WsHello, WsEnd]" "vx_write1 (demo_voice_env es) = None"
  "vx_turns (demo_voice_env es) = [demo_turn_env es]"
  by (simp_all add: demo_voice_env_def)

lemma demo_voice_ends:
  "\<exists>out files d'. h_voice (demo_verify demo_bot_link) Some demo_issuer (demo_user ''t1'' ''s9'') [] demo_voice_deps
      (demo_voice_env demo_goodbye) ''tok'' demo_bots = Some (Inr (out, files), d') \<and> ''ended'' \<in> set (states_of out)"
proof -
  let ?b = "(r_bot (demo_row ''b1'' ''t1''))\<lparr>b_tenant_slug := ''one''\<rparr>"
  have b: "b_id ?b = ''b1''" "b_tenant ?b = ''t1''" "asr_token ?b = ''asrsecret''" by (simp_all add: demo_row_eval)
  obtain ws d where cr: "create_web_session (x_fresh (demo_user ''t1'' ''s9'')) (x_now (demo_user ''t1'' ''s9'')) ''b1''
      ''t1'' ''voice'' (Some 0) [] (x_agent (demo_user ''t1'' ''s9'')) ''/rec/b1'' demo_bots = (Inr ws, d)"
    by (auto simp: create_web_session_def run_query_def demo_row_eval nil_uuid_def demo_bots_def demo_db_def Let_def)
  have "bargein_enabled (vo_bot (voice_conf_of demo_voice_deps ?b ws))" by (simp add: voice_conf_of_def demo_bargein)
  from demo_goodbye_run [OF this refl] obtain v where v: "vturn_run (voice_conf_of demo_voice_deps ?b ws) demo_goodbye
      (begin_turn (voice_conf_of demo_voice_deps ?b ws) (demo_turn_env demo_goodbye) [] False) = Some v"
    "vt_pc v = MEnd" "vt_barged v = None" "vt_action v = Some ActionEndCall" by blast
  have ev: "ve_events (demo_turn_env demo_goodbye) = demo_goodbye" "ve_bot_err (demo_turn_env demo_goodbye) = None"
    "ve_tts_err (demo_turn_env demo_goodbye) = None" by (simp_all add: demo_turn_env_def)
  let ?s0 = "\<lparr>vs_db = d, vs_out = [], vs_files = Map.empty\<rparr>"
  obtain s where run: "voice_run (voice_conf_of demo_voice_deps ?b ws) [WsHello, WsEnd] None (vx_rounds (demo_voice_env demo_goodbye))
      [demo_turn_env demo_goodbye] (send [FrSession (ws_id ws) (tts_voice_id ?b)] ?s0) = Some (s, Inl VoEndCall)"
      "''ended'' \<in> set (states_of (vs_out s))"
    using v by (simp add: voice_run_def read_frame_def ev close_file_def states_of_def Let_def)
  then have "voice_session demo_voice_deps (demo_voice_env demo_goodbye) ?b ws d =
      Some (''error'', ''bot signalled ENDCALL'', send [FrError ''loop'' ''bot signalled ENDCALL''] s)"
    by (simp add: voice_session_def demo_env_fields demo_deps_fields Let_def)
  with run(2) show ?thesis
    by (simp add: h_voice_def demo_voice_link b cr demo_env_fields demo_deps_fields)
qed

theorem endcall_stored_as_error_witness:
  "\<exists>out files d'. h_voice (demo_verify demo_bot_link) Some demo_issuer (demo_user ''t1'' ''s9'') [] demo_voice_deps
      (demo_voice_env demo_goodbye) ''tok'' demo_bots = Some (Inr (out, files), d') \<and>
    last out = FrError ''loop'' ''bot signalled ENDCALL''"
proof -
  have "faults demo_bots = []" by (simp add: demo_bots_def demo_db_def)
  with demo_voice_ends endcall_stored_as_error show ?thesis by blast
qed

theorem voice_confined_witness:
  "\<exists>r d'. h_voice (demo_verify demo_bot_link) Some demo_issuer (demo_user ''t1'' ''s9'') [] demo_voice_deps
      (demo_voice_env demo_goodbye) ''tok'' demo_bots = Some (r, d') \<and> turns_ok d'"
proof -
  have "turns_ok demo_bots" "turns_of (x_fresh (demo_user ''t1'' ''s9'')) demo_bots = []"
    by (simp_all add: turns_ok_def turns_of_def demo_bots_def demo_db_def)
  with demo_voice_ends voice_confined show ?thesis by blast
qed

end
