(* ===== verification/Vad.thy ===== *)
theory Vad
  imports GoStrings Complex_Main "HOL-Library.Word"
begin

text \<open>
  \<open>internal/vad/timeout.go\<close>: the energy detector that tells speech from silence.  Floating-point
  amplitudes are real numbers.
\<close>

section \<open>Frames\<close>

record vad_config =
  vc_rate :: int
  vc_threshold :: real
  vc_min_speech :: duration
  vc_min_silence :: duration
  vc_mul :: real

definition vad_default :: vad_config where
  "vad_default = \<lparr>vc_rate = 8000, vc_threshold = 500, vc_min_speech = 200000000, vc_min_silence = 600000000, vc_mul = 3\<rparr>"

definition frame_duration :: "nat \<Rightarrow> int \<Rightarrow> duration" where
  "frame_duration n rate = (if rate \<le> 0 \<or> n < 2 then 0 else (int (n div 2) * 1000000000) div rate)"

text \<open>The samples of a frame, little-endian signed 16-bit; an odd last byte is ignored.\<close>

fun pcm_samples :: "8 word list \<Rightarrow> int list" where
  "pcm_samples (lo # hi # rest) =
     (let u = uint lo + 256 * uint hi in if u < 32768 then u else u - 65536) # pcm_samples rest"
| "pcm_samples _ = []"

definition pcm_rms :: "8 word list \<Rightarrow> real" where
  "pcm_rms pcm =
     (if length pcm < 2 then 0
      else sqrt (sum_list (map (\<lambda>s. real_of_int s * real_of_int s) (pcm_samples pcm)) / real (length pcm div 2)))"

section \<open>The detector\<close>

datatype vad_event = EventNone | EventSpeechStart | EventSpeechEnd

record detector =
  vd_cfg :: vad_config
  vd_bot :: bool
  vd_in :: bool
  vd_loud :: duration
  vd_quiet :: duration

definition new_energy :: "vad_config \<Rightarrow> detector" where
  "new_energy c =
     \<lparr>vd_cfg = c\<lparr>vc_rate := (if vc_rate c = 0 then 8000 else vc_rate c), vc_mul := (if vc_mul c = 0 then 1 else vc_mul c)\<rparr>,
      vd_bot = False, vd_in = False, vd_loud = 0, vd_quiet = 0\<rparr>"

definition is_loud :: "detector \<Rightarrow> 8 word list \<Rightarrow> bool" where
  "is_loud v pcm \<longleftrightarrow>
     vc_threshold (vd_cfg v) * (if vd_bot v then vc_mul (vd_cfg v) else 1) \<le> pcm_rms pcm"

definition vad_push :: "8 word list \<Rightarrow> detector \<Rightarrow> vad_event \<times> detector" where
  "vad_push pcm v =
     (let dur = frame_duration (length pcm) (vc_rate (vd_cfg v)) in
      if dur = 0 then (EventNone, v)
      else if \<not> vd_in v then
        (if is_loud v pcm then
           (let v = v\<lparr>vd_loud := vd_loud v + dur, vd_quiet := 0\<rparr> in
            if vc_min_speech (vd_cfg v) \<le> vd_loud v then (EventSpeechStart, v\<lparr>vd_in := True, vd_loud := 0\<rparr>)
            else (EventNone, v))
         else (EventNone, v\<lparr>vd_loud := 0\<rparr>))
      else if \<not> is_loud v pcm then
        (let v = v\<lparr>vd_quiet := vd_quiet v + dur, vd_loud := 0\<rparr> in
         if vc_min_silence (vd_cfg v) \<le> vd_quiet v then (EventSpeechEnd, v\<lparr>vd_in := False, vd_quiet := 0\<rparr>)
         else (EventNone, v))
      else (EventNone, v\<lparr>vd_quiet := 0\<rparr>))"

definition set_bot_speaking :: "bool \<Rightarrow> detector \<Rightarrow> detector" where
  "set_bot_speaking b v = v\<lparr>vd_bot := b\<rparr>"

definition vad_reset :: "detector \<Rightarrow> detector" where
  "vad_reset v = v\<lparr>vd_in := False, vd_loud := 0, vd_quiet := 0\<rparr>"

section \<open>Sequences of frames\<close>

text \<open>A call feeds frames and marks when the bot speaks; the events other than none, in order.\<close>

datatype vad_op = PushFrame "8 word list" | BotSpeaking bool

fun vad_run :: "vad_op list \<Rightarrow> detector \<Rightarrow> vad_event list \<times> detector" where
  "vad_run [] v = ([], v)"
| "vad_run (BotSpeaking b # ops) v = vad_run ops (set_bot_speaking b v)"
| "vad_run (PushFrame pcm # ops) v =
     (let (e, v) = vad_push pcm v; (es, v) = vad_run ops v in ((if e = EventNone then es else e # es), v))"

text \<open>
  The reference: a frame is its duration and whether it is loud; the detector decides on the
  longest run of equal loudness at the end of what it has heard since its last event.
\<close>

fun frames :: "vad_op list \<Rightarrow> detector \<Rightarrow> (duration \<times> bool) list" where
  "frames [] v = []"
| "frames (BotSpeaking b # ops) v = frames ops (set_bot_speaking b v)"
| "frames (PushFrame pcm # ops) v =
     (let dur = frame_duration (length pcm) (vc_rate (vd_cfg v)) in
      if dur = 0 then frames ops v else (dur, is_loud v pcm) # frames ops v)"

definition tail_run :: "bool \<Rightarrow> (duration \<times> bool) list \<Rightarrow> duration" where
  "tail_run b fs = sum_list (map fst (takeWhile (\<lambda>f. snd f = b) (rev fs)))"

fun ref_events :: "duration \<Rightarrow> duration \<Rightarrow> bool \<Rightarrow> (duration \<times> bool) list \<Rightarrow> (duration \<times> bool) list \<Rightarrow> vad_event list" where
  "ref_events sp si speaking heard [] = []"
| "ref_events sp si speaking heard (f # fs) =
     (let heard = heard @ [f] in
      if \<not> speaking \<and> snd f \<and> sp \<le> tail_run True heard then EventSpeechStart # ref_events sp si True [] fs
      else if speaking \<and> \<not> snd f \<and> si \<le> tail_run False heard then EventSpeechEnd # ref_events sp si False [] fs
      else ref_events sp si speaking heard fs)"

lemma tail_run_snoc: "tail_run b (fs @ [f]) = (if snd f = b then fst f + tail_run b fs else 0)"
  by (simp add: tail_run_def)

lemma tail_run_Nil [simp]: "tail_run b [] = 0"
  by (simp add: tail_run_def)

lemma vad_push_cfg [simp]: "vd_cfg (snd (vad_push pcm v)) = vd_cfg v" "vd_bot (snd (vad_push pcm v)) = vd_bot v"
  by (auto simp: vad_push_def Let_def)

lemma is_loud_push: "is_loud (snd (vad_push pcm v)) p = is_loud v p"
  by (simp add: is_loud_def)

lemma frames_cong: "vd_cfg v = vd_cfg w \<Longrightarrow> vd_bot v = vd_bot w \<Longrightarrow> frames ops v = frames ops w"
proof (induction ops arbitrary: v w)
  case (Cons op ops)
  have l: "is_loud v p = is_loud w p" for p using Cons.prems by (simp add: is_loud_def)
  show ?case
  proof (cases op)
    case (BotSpeaking b)
    then show ?thesis using Cons.IH [of "set_bot_speaking b v" "set_bot_speaking b w"] Cons.prems by (simp add: set_bot_speaking_def)
  next
    case (PushFrame pcm)
    then show ?thesis using Cons.IH [OF Cons.prems] Cons.prems l by (simp add: Let_def)
  qed
qed simp

text \<open>What the counters hold: the run of loud frames before speech, the run of quiet ones during it.\<close>

definition heard_ok :: "detector \<Rightarrow> (duration \<times> bool) list \<Rightarrow> bool" where
  "heard_ok v heard \<longleftrightarrow> (if vd_in v then vd_quiet v = tail_run False heard else vd_loud v = tail_run True heard) \<and>
     (if vd_in v then vd_loud v = 0 else vd_quiet v = 0)"

lemma vad_run_ref:
  assumes "heard_ok v heard"
  shows "fst (vad_run ops v) =
    ref_events (vc_min_speech (vd_cfg v)) (vc_min_silence (vd_cfg v)) (vd_in v) heard (frames ops v)"
  using assms
proof (induction ops arbitrary: v heard)
  case (Cons op ops)
  show ?case
  proof (cases op)
    case (BotSpeaking b)
    then show ?thesis using Cons.IH [of "set_bot_speaking b v" heard] Cons.prems
      by (simp add: set_bot_speaking_def heard_ok_def)
  next
    case (PushFrame pcm)
    let ?d = "frame_duration (length pcm) (vc_rate (vd_cfg v))"
    obtain e w where p: "vad_push pcm v = (e, w)" by (cases "vad_push pcm v")
    have cfg: "vd_cfg w = vd_cfg v" "frames ops w = frames ops v"
      using vad_push_cfg [of pcm v] p by (auto intro: frames_cong)
    show ?thesis
    proof (cases "?d = 0")
      case True
      then show ?thesis using Cons PushFrame by (simp add: vad_push_def Let_def split: prod.split)
    next
      case False
      let ?h = "heard @ [(?d, is_loud v pcm)]"
      have "heard_ok w (if e = EventNone then ?h else [])"
        "e = (if \<not> vd_in v \<and> is_loud v pcm \<and> vc_min_speech (vd_cfg v) \<le> tail_run True ?h then EventSpeechStart
              else if vd_in v \<and> \<not> is_loud v pcm \<and> vc_min_silence (vd_cfg v) \<le> tail_run False ?h then EventSpeechEnd
              else EventNone)"
        "vd_in w = (if e = EventSpeechStart then True else if e = EventSpeechEnd then False else vd_in v)"
        using Cons.prems p False
        by (auto simp: vad_push_def Let_def heard_ok_def tail_run_snoc add.commute split: if_splits)
      with Cons.IH [of w "if e = EventNone then ?h else []"] cfg PushFrame False p
      show ?thesis by (auto simp: Let_def split: prod.split if_splits)
    qed
  qed
qed simp

fun alternates :: "vad_event \<Rightarrow> vad_event list \<Rightarrow> bool" where
  "alternates e [] \<longleftrightarrow> True"
| "alternates e (x # xs) \<longleftrightarrow> x = e \<and> alternates (if e = EventSpeechStart then EventSpeechEnd else EventSpeechStart) xs"

lemma ref_alternates:
  "alternates (if speaking then EventSpeechEnd else EventSpeechStart) (ref_events sp si speaking heard fs)"
  by (induction sp si speaking heard fs rule: ref_events.induct) (auto simp: Let_def)

section \<open>Properties\<close>

text \<open>C20: The detector is its reference: from a new detector, whatever frames arrive and whenever the bot speaks, the
  events are exactly those of the specification, a start on the frame that completes the least duration of
  uninterrupted loudness since the last event, an end on the one that completes the least silence, and they alternate,
  a start first.\<close>

theorem detector_is_reference:
  "fst (vad_run ops (new_energy c)) =
     ref_events (vc_min_speech c) (vc_min_silence c) False [] (frames ops (new_energy c)) \<and>
   alternates EventSpeechStart (fst (vad_run ops (new_energy c)))"
proof -
  have "heard_ok (new_energy c) []" by (simp add: heard_ok_def new_energy_def)
  from vad_run_ref [OF this, of ops] ref_alternates [of False] show ?thesis
    by (simp add: new_energy_def)
qed

end
