(* ===== verification/Campaign.thy ===== *)
theory Campaign
  imports Transition GoStrings
begin

text \<open>
  \<open>internal/campaign\<close>: leads read from a CSV file, their status rollup and updates
  (\<open>lead.go\<close>), and the manager with its per-campaign worker pool (\<open>manager.go\<close>).
  The goroutines of \<open>runWorkers\<close> are the step relation \<open>work_step\<close>; what the
  rest of the process does to the campaign meanwhile is \<open>env_step\<close>.
\<close>

section \<open>Leads\<close>

datatype call_status =
  StatusPending | StatusDialing | StatusAnswered | StatusCompleted
| StatusFailed | StatusNoAnswer | StatusCanceled

definition isTerminal :: "call_status \<Rightarrow> bool" where
  "isTerminal s \<longleftrightarrow> s = StatusCompleted \<or> s = StatusFailed \<or> s = StatusNoAnswer \<or> s = StatusCanceled"

text \<open>Values of the \<open>any\<close>-typed maps that the program builds and forwards.\<close>

datatype goval = VStr gostring | VInt int | VBool bool | VOther gostring

record lead =
  phone :: gostring
  lead_id :: gostring
  gender :: gostring
  lead_name :: gostring
  custom_data :: "gostring \<rightharpoonup> goval"
  lead_status :: call_status
  call_uuid :: gostring
  lead_error :: gostring
  started_at :: "time option"
  ended_at :: "time option"

definition new_lead :: lead where
  "new_lead = \<lparr>phone = [], lead_id = [], gender = [], lead_name = [], custom_data = Map.empty,
     lead_status = StatusPending, call_uuid = [], lead_error = [], started_at = None, ended_at = None\<rparr>"

text \<open>The columns the parser knows.\<close>

definition known_columns :: "gostring list" where
  "known_columns = [''phone'', ''lead_id'', ''gender'', ''name'']"

definition set_column :: "gostring \<Rightarrow> gostring \<Rightarrow> lead \<Rightarrow> lead" where
  "set_column col val l =
     (if col = ''phone'' then l\<lparr>phone := val\<rparr>
      else if col = ''lead_id'' then l\<lparr>lead_id := val\<rparr>
      else if col = ''gender'' then l\<lparr>gender := val\<rparr>
      else if col = ''name'' then l\<lparr>lead_name := val\<rparr>
      else if col \<notin> set known_columns then l\<lparr>custom_data := (custom_data l)(col \<mapsto> VStr val)\<rparr>
      else l)"

text \<open>The loop over the cells of a row; cells beyond the header are dropped.\<close>

fun fill_lead :: "gostring list \<Rightarrow> gostring list \<Rightarrow> lead \<Rightarrow> lead" where
  "fill_lead (col # cols) (c # cs) l =
     (let val = trim_space c in
      fill_lead cols cs (if val = [] then l else set_column col val l))"
| "fill_lead _ _ l = l"

text \<open>
  What the calls of \<open>reader.Read()\<close> return in turn; the end of the list is \<open>io.EOF\<close>.
  \<open>low\<close> is \<open>unicode.ToLower\<close> outside ASCII.
\<close>

type_synonym csv_reads = "(gostring + gostring list) list"

fun parse_rows :: "gostring list \<Rightarrow> csv_reads \<Rightarrow> lead list \<Rightarrow> lead list result" where
  "parse_rows header [] leads = Inr leads"
| "parse_rows header (Inl e # rs) leads = Inl (''read row: '' @ e)"
| "parse_rows header (Inr row # rs) leads =
     (let l = fill_lead header row new_lead in
      parse_rows header rs (if phone l \<noteq> [] then leads @ [l] else leads))"

definition parse_csv :: "(nat \<Rightarrow> nat) \<Rightarrow> csv_reads \<Rightarrow> lead list result" where
  "parse_csv low reads = (case reads of
       [] \<Rightarrow> Inl ''read header: EOF''
     | Inl e # _ \<Rightarrow> Inl (''read header: '' @ e)
     | Inr h # rs \<Rightarrow>
         (let header = map (\<lambda>c. trim_space (to_lower low c)) h in
          if ''phone'' \<notin> set header then Inl ''CSV must have a 'phone' column''
          else parse_rows header rs []))"

definition mergeCustomData :: "lead \<Rightarrow> (gostring \<rightharpoonup> goval)" where
  "mergeCustomData l =
     (let m = custom_data l;
          m = (if lead_id l \<noteq> [] then m(''lead_id'' \<mapsto> VStr (lead_id l)) else m);
          m = (if gender l \<noteq> [] then m(''gender'' \<mapsto> VStr (gender l)) else m)
      in if lead_name l \<noteq> [] then m(''name'' \<mapsto> VStr (lead_name l)) else m)"

section \<open>Campaigns\<close>

record campaign =
  camp_id :: gostring
  scenario :: gostring
  caller_id :: gostring
  ccu :: int
  leads :: "lead list"
  camp_status :: gostring
  created_at :: time
  canceled :: bool

record stats =
  total :: nat
  pending :: nat
  dialing :: nat
  answered :: nat
  completed :: nat
  failed :: nat
  no_answer :: nat
  n_canceled :: nat

definition count_lead :: "lead \<Rightarrow> stats \<Rightarrow> stats" where
  "count_lead l s = (case lead_status l of
       StatusPending \<Rightarrow> s\<lparr>pending := pending s + 1\<rparr>
     | StatusDialing \<Rightarrow> s\<lparr>dialing := dialing s + 1\<rparr>
     | StatusAnswered \<Rightarrow> s\<lparr>answered := answered s + 1\<rparr>
     | StatusCompleted \<Rightarrow> s\<lparr>completed := completed s + 1\<rparr>
     | StatusFailed \<Rightarrow> s\<lparr>failed := failed s + 1\<rparr>
     | StatusNoAnswer \<Rightarrow> s\<lparr>no_answer := no_answer s + 1\<rparr>
     | StatusCanceled \<Rightarrow> s\<lparr>n_canceled := n_canceled s + 1\<rparr>)"

definition camp_stats :: "campaign \<Rightarrow> stats" where
  "camp_stats c = fold count_lead (leads c)
     \<lparr>total = length (leads c), pending = 0, dialing = 0, answered = 0, completed = 0, failed = 0,
      no_answer = 0, n_canceled = 0\<rparr>"

definition find_by_uuid :: "gostring \<Rightarrow> campaign \<Rightarrow> lead option" where
  "find_by_uuid u c = List.find (\<lambda>l. call_uuid l = u) (leads c)"

text \<open>The body of \<open>SetLeadStatus\<close> on the lead it found, and the search.\<close>

definition put_status :: "time \<Rightarrow> call_status \<Rightarrow> gostring \<Rightarrow> lead \<Rightarrow> lead" where
  "put_status now st err l =
     (let l = l\<lparr>lead_status := st\<rparr>;
          l = (if err \<noteq> [] then l\<lparr>lead_error := err\<rparr> else l)
      in if isTerminal st then l\<lparr>ended_at := Some now\<rparr> else l)"

fun set_first :: "('a \<Rightarrow> bool) \<Rightarrow> ('a \<Rightarrow> 'a) \<Rightarrow> 'a list \<Rightarrow> 'a list" where
  "set_first P f [] = []"
| "set_first P f (x # xs) = (if P x then f x # xs else x # set_first P f xs)"

definition set_lead_status :: "time \<Rightarrow> gostring \<Rightarrow> call_status \<Rightarrow> gostring \<Rightarrow> campaign \<Rightarrow> campaign" where
  "set_lead_status now u st err c =
     c\<lparr>leads := set_first (\<lambda>l. call_uuid l = u) (put_status now st err) (leads c)\<rparr>"

section \<open>The manager\<close>

record create_opts =
  o_scenario :: gostring
  o_caller_id :: gostring
  o_ccu :: int
  o_leads :: "lead list"
  o_rate :: duration

text \<open>The defaults \<open>Create\<close> fills in.\<close>

definition fill_opts :: "create_opts \<Rightarrow> create_opts" where
  "fill_opts op =
     (let op = (if o_ccu op \<le> 0 then op\<lparr>o_ccu := 1\<rparr> else op);
          op = (if o_rate op \<le> 0 then op\<lparr>o_rate := 500 * 1000000\<rparr> else op);
          op = (if o_scenario op = [] then op\<lparr>o_scenario := ''default''\<rparr> else op)
      in if o_caller_id op = [] then op\<lparr>o_caller_id := ''callbot''\<rparr> else op)"

text \<open>Loop and workers of \<open>runWorkers\<close>.\<close>

datatype loop_pc = AtCheck | AtAcquire | Closed
datatype worker_pc = NotSpawned | Spawned | Calling | Cooling | Exited

record pool =
  camp :: campaign
  next_lead :: nat
  loop :: loop_pc
  workers :: "worker_pc list"
  dials :: "nat list"
  ctx_done :: bool

record manager =
  campaigns :: "gostring \<rightharpoonup> pool"
  counter :: nat

definition new_manager :: manager where
  "new_manager = \<lparr>campaigns = Map.empty, counter = 0\<rparr>"

definition campaign_create :: "time \<Rightarrow> create_opts \<Rightarrow> manager \<Rightarrow> gostring \<times> manager" where
  "campaign_create now op0 m =
     (let n = counter m + 1;
          cid = ''camp-'' @ show_nat n;
          op = fill_opts op0;
          c = \<lparr>camp_id = cid, scenario = o_scenario op, caller_id = o_caller_id op, ccu = o_ccu op,
               leads = o_leads op, camp_status = ''running'', created_at = now, canceled = False\<rparr>;
          run = \<lparr>camp = c, next_lead = 0, loop = AtCheck,
                 workers = replicate (length (leads c)) NotSpawned, dials = [], ctx_done = False\<rparr>
      in (cid, m\<lparr>campaigns := (campaigns m)(cid \<mapsto> run), counter := n\<rparr>))"

definition campaign_get :: "gostring \<Rightarrow> manager \<Rightarrow> campaign option" where
  "campaign_get cid m = map_option camp (campaigns m cid)"

text \<open>\<open>List\<close>; the order in which \<open>Range\<close> visits the map is unspecified, an argument.\<close>

definition campaign_list :: "gostring list \<Rightarrow> manager \<Rightarrow> campaign list" where
  "campaign_list order m = concat (map (\<lambda>cid. case campaign_get cid m of None \<Rightarrow> [] | Some c \<Rightarrow> [c]) order)"

text \<open>\<open>Cancel\<close>: first the locked part, then \<open>run.cancel()\<close>.\<close>

definition cancel_flag :: "campaign \<Rightarrow> campaign" where
  "cancel_flag c = (if canceled c then c else c\<lparr>canceled := True, camp_status := ''canceled''\<rparr>)"

definition campaign_cancel :: "gostring \<Rightarrow> manager \<Rightarrow> bool \<times> manager" where
  "campaign_cancel cid m = (case campaigns m cid of
       None \<Rightarrow> (False, m)
     | Some run \<Rightarrow>
         if canceled (camp run) then (True, m)
         else (True, m\<lparr>campaigns := (campaigns m)(cid \<mapsto>
                  run\<lparr>camp := cancel_flag (camp run), ctx_done := True\<rparr>)\<rparr>))"

section \<open>The worker pool\<close>

definition upd_lead :: "nat \<Rightarrow> (lead \<Rightarrow> lead) \<Rightarrow> campaign \<Rightarrow> campaign" where
  "upd_lead i f c = c\<lparr>leads := (leads c)[i := f (leads c ! i)]\<rparr>"

definition skip_lead :: "time \<Rightarrow> lead \<Rightarrow> lead" where
  "skip_lead now l =
     (if lead_status l = StatusPending then l\<lparr>lead_status := StatusCanceled, ended_at := Some now\<rparr> else l)"

definition start_lead :: "time \<Rightarrow> lead \<Rightarrow> lead" where
  "start_lead now l = l\<lparr>lead_status := StatusDialing, started_at := Some now\<rparr>"

definition fail_lead :: "time \<Rightarrow> gostring \<Rightarrow> lead \<Rightarrow> lead" where
  "fail_lead now e l = l\<lparr>lead_status := StatusFailed, lead_error := e, ended_at := Some now\<rparr>"

definition holds_slot :: "worker_pc \<Rightarrow> bool" where
  "holds_slot w \<longleftrightarrow> w = Spawned \<or> w = Calling \<or> w = Cooling"

definition has_dialed :: "worker_pc \<Rightarrow> bool" where
  "has_dialed w \<longleftrightarrow> w = Calling \<or> w = Cooling \<or> w = Exited"

definition slots :: "pool \<Rightarrow> nat" where
  "slots p = length (filter holds_slot (workers p))"

definition in_flight :: "pool \<Rightarrow> nat" where
  "in_flight p = length (filter (\<lambda>w. w = Calling) (workers p))"

text \<open>
  One step of the pool's goroutines.  \<open>dial\<close> is the locked section of a worker together with the
  call of \<open>originate\<close> it leads to, \<open>call_ok\<close> and \<open>call_err\<close> are its return.
\<close>

inductive work_step :: "pool \<Rightarrow> pool \<Rightarrow> bool" where
  loop_skip: "loop p = AtCheck \<Longrightarrow> next_lead p < length (leads (camp p)) \<Longrightarrow> canceled (camp p) \<or> ctx_done p \<Longrightarrow>
    work_step p (p\<lparr>camp := upd_lead (next_lead p) (skip_lead now) (camp p), next_lead := Suc (next_lead p)\<rparr>)"
| loop_check: "loop p = AtCheck \<Longrightarrow> next_lead p < length (leads (camp p)) \<Longrightarrow> \<not> canceled (camp p) \<Longrightarrow>
    \<not> ctx_done p \<Longrightarrow> work_step p (p\<lparr>loop := AtAcquire\<rparr>)"
| loop_acquire: "loop p = AtAcquire \<Longrightarrow> slots p < nat (ccu (camp p)) \<Longrightarrow>
    work_step p (p\<lparr>workers := (workers p)[next_lead p := Spawned], next_lead := Suc (next_lead p), loop := AtCheck\<rparr>)"
| loop_drop: "loop p = AtAcquire \<Longrightarrow> ctx_done p \<Longrightarrow>
    work_step p (p\<lparr>camp := upd_lead (next_lead p) (skip_lead now) (camp p), next_lead := Suc (next_lead p), loop := AtCheck\<rparr>)"
| dial: "i < length (workers p) \<Longrightarrow> workers p ! i = Spawned \<Longrightarrow>
    work_step p (p\<lparr>camp := upd_lead i (start_lead now) (camp p), workers := (workers p)[i := Calling], dials := dials p @ [i]\<rparr>)"
| call_ok: "i < length (workers p) \<Longrightarrow> workers p ! i = Calling \<Longrightarrow>
    work_step p (p\<lparr>camp := upd_lead i (\<lambda>l. l\<lparr>call_uuid := u\<rparr>) (camp p), workers := (workers p)[i := Cooling]\<rparr>)"
| call_err: "i < length (workers p) \<Longrightarrow> workers p ! i = Calling \<Longrightarrow>
    work_step p (p\<lparr>camp := upd_lead i (fail_lead now e) (camp p), workers := (workers p)[i := Cooling]\<rparr>)"
| cooled: "i < length (workers p) \<Longrightarrow> workers p ! i = Cooling \<Longrightarrow>
    work_step p (p\<lparr>workers := (workers p)[i := Exited]\<rparr>)"
| pool_done: "loop p = AtCheck \<Longrightarrow> next_lead p = length (leads (camp p)) \<Longrightarrow> slots p = 0 \<Longrightarrow>
    work_step p (p\<lparr>loop := Closed,
      camp := (if canceled (camp p) then camp p else (camp p)\<lparr>camp_status := ''done''\<rparr>)\<rparr>)"

text \<open>
  The rest of the process: the two halves of \<open>Cancel\<close>, the end of the parent context, and
  \<open>SetLeadStatus\<close>, which no caller uses to make a lead pending again.
\<close>

inductive env_step :: "pool \<Rightarrow> pool \<Rightarrow> bool" where
  env_cancel: "env_step p (p\<lparr>camp := cancel_flag (camp p)\<rparr>)"
| env_ctx: "env_step p (p\<lparr>ctx_done := True\<rparr>)"
| env_status: "st \<noteq> StatusPending \<Longrightarrow> env_step p (p\<lparr>camp := set_lead_status now u st err (camp p)\<rparr>)"

definition pool_step :: "pool \<Rightarrow> pool \<Rightarrow> bool" where
  "pool_step p q \<longleftrightarrow> work_step p q \<or> env_step p q"

definition pool_start :: "pool \<Rightarrow> bool" where
  "pool_start p \<longleftrightarrow> (\<exists>now op m. campaigns (snd (campaign_create now op m))
     (fst (campaign_create now op m)) = Some p)"

section \<open>Reading leads\<close>

definition lead_ok :: "lead \<Rightarrow> bool" where
  "lead_ok l \<longleftrightarrow> lead_status l = StatusPending \<and> call_uuid l = [] \<and>
     (\<forall>k v. custom_data l k = Some v \<longrightarrow> k \<notin> set known_columns \<and> v \<noteq> VStr [])"

lemma lead_ok_new [inv_intros]: "lead_ok new_lead"
  by (simp add: lead_ok_def new_lead_def)

lemma lead_ok_set_column [inv_intros]: "lead_ok l \<Longrightarrow> v \<noteq> [] \<Longrightarrow> lead_ok (set_column col v l)"
  by (auto simp: lead_ok_def set_column_def)

lemma lead_ok_fill [inv_intros]: "lead_ok l \<Longrightarrow> lead_ok (fill_lead cols cs l)"
  by (induction cols cs l rule: fill_lead.induct) (auto simp: Let_def lead_ok_set_column)

lemma fill_lead_phone:
  "phone (fill_lead cols cs l) \<noteq> [] \<longleftrightarrow>
     phone l \<noteq> [] \<or> (\<exists>x\<in>set (zip cols cs). fst x = ''phone'' \<and> trim_space (snd x) \<noteq> [])"
  by (induction cols cs l rule: fill_lead.induct) (auto simp: Let_def set_column_def)

text \<open>A row that has a phone number.\<close>

definition has_phone :: "gostring list \<Rightarrow> gostring list \<Rightarrow> bool" where
  "has_phone header row \<longleftrightarrow> (\<exists>x\<in>set (zip header row). fst x = ''phone'' \<and> trim_space (snd x) \<noteq> [])"

lemma parse_rows_spec:
  "parse_rows header rs acc = Inr ls \<Longrightarrow>
   ls = acc @ map (\<lambda>row. fill_lead header row new_lead) (filter (has_phone header) (map projr rs)) \<and>
   (\<forall>r\<in>set rs. \<not> isl r)"
proof (induction header rs acc rule: parse_rows.induct)
  case (3 header row rs leads)
  have "phone (fill_lead header row new_lead) \<noteq> [] \<longleftrightarrow> has_phone header row"
    by (simp add: fill_lead_phone has_phone_def) (simp add: new_lead_def)
  with 3 show ?case by (auto simp: Let_def split: if_splits)
qed auto

text \<open>A CSV that parses gives exactly one lead for every row with a non-blank phone cell, in file
  order; each is pending, has a phone and no call yet, and its custom data holds no blank value and
  none of the columns that have a field of their own.\<close>

theorem parse_csv_leads:
  assumes "parse_csv low (Inr h # rs) = Inr ls"
  shows "length ls = length (filter (has_phone (map (\<lambda>c. trim_space (to_lower low c)) h)) (map projr rs)) \<and>
     (\<forall>l\<in>set ls. lead_ok l \<and> phone l \<noteq> [])"
proof -
  let ?H = "map (\<lambda>c. trim_space (to_lower low c)) h"
  from assms have "parse_rows ?H rs [] = Inr ls" by (simp add: parse_csv_def Let_def split: if_splits)
  from parse_rows_spec [OF this] have ls: "ls = map (\<lambda>row. fill_lead ?H row new_lead)
      (filter (has_phone ?H) (map projr rs))" by simp
  have "phone (fill_lead ?H row new_lead) \<noteq> []" if "has_phone ?H row" for row
    using that unfolding has_phone_def fill_lead_phone by blast
  then show ?thesis unfolding ls by (auto intro: inv_intros)
qed

theorem parse_csv_leads_witness:
  "\<exists>ls. parse_csv id [Inr [''Phone '', ''amount''], Inr ['' 0971 '', ''5''], Inr ['' '', ''7'']] = Inr ls \<and>
     length ls = 1 \<and> (\<forall>l\<in>set ls. lead_ok l \<and> phone l \<noteq> [])"
proof -
  let ?r = "[Inr [''Phone '', ''amount''], Inr ['' 0971 '', ''5''], Inr ['' '', ''7'']] :: csv_reads"
  have c: "trim_space (to_lower id ''Phone '') = ''phone''" "trim_space (to_lower id ''amount'') = ''amount''"
    "trim_space '' 0971 '' = ''0971''" "trim_space '' '' = []"
    by (simp_all add: eval_strings)
  have h: "map (\<lambda>c. trim_space (to_lower id c)) [''Phone '', ''amount''] = [''phone'', ''amount'']"
    by (simp add: c)
  have n: "has_phone [''phone'', ''amount''] ['' 0971 '', ''5'']" "\<not> has_phone [''phone'', ''amount''] ['' '', ''7'']"
    by (simp_all add: c has_phone_def)
  obtain ls where "parse_csv id ?r = Inr ls"
    unfolding parse_csv_def Let_def by (simp add: Let_def h [simplified])
  with parse_csv_leads [OF this] h n show ?thesis by simp
qed

text \<open>What a call is originated with: the map handed to the originate function has the lead's own
  id, gender and name where they are set, in preference to custom columns of those names, and every
  other custom column unchanged.\<close>

theorem merge_custom_data:
  "mergeCustomData l k =
     (if k = ''name'' \<and> lead_name l \<noteq> [] then Some (VStr (lead_name l))
      else if k = ''gender'' \<and> gender l \<noteq> [] then Some (VStr (gender l))
      else if k = ''lead_id'' \<and> lead_id l \<noteq> [] then Some (VStr (lead_id l))
      else custom_data l k)"
  by (auto simp: mergeCustomData_def Let_def)

section \<open>Status rollup\<close>

definition stats_sum :: "stats \<Rightarrow> nat" where
  "stats_sum s = pending s + dialing s + answered s + completed s + failed s + no_answer s + n_canceled s"

definition stats_of :: "stats \<Rightarrow> call_status \<Rightarrow> nat" where
  "stats_of s st = (case st of StatusPending \<Rightarrow> pending s | StatusDialing \<Rightarrow> dialing s
     | StatusAnswered \<Rightarrow> answered s | StatusCompleted \<Rightarrow> completed s | StatusFailed \<Rightarrow> failed s
     | StatusNoAnswer \<Rightarrow> no_answer s | StatusCanceled \<Rightarrow> n_canceled s)"

lemma count_lead_of:
  "stats_of (count_lead l s) st = stats_of s st + (if lead_status l = st then 1 else 0)"
  by (cases "lead_status l"; cases st) (simp_all add: count_lead_def stats_of_def)

lemma fold_count_of:
  "stats_of (fold count_lead ls s) st = stats_of s st + length (filter (\<lambda>l. lead_status l = st) ls)"
  by (induction ls arbitrary: s) (simp_all add: count_lead_of)

lemma fold_count_total: "total (fold count_lead ls s) = total s"
  by (induction ls arbitrary: s) (auto simp: count_lead_def split: call_status.split)

lemma fold_count_sum: "stats_sum (fold count_lead ls s) = stats_sum s + length ls"
proof (induction ls arbitrary: s)
  case (Cons l ls)
  have "stats_sum (count_lead l s) = stats_sum s + 1"
    by (cases "lead_status l") (simp_all add: count_lead_def stats_sum_def)
  with Cons show ?case by simp
qed simp

text \<open>The rollup counts the leads of each status, and the counts add up to the total.\<close>

theorem stats_count_leads:
  "total (camp_stats c) = length (leads c) \<and> stats_sum (camp_stats c) = length (leads c) \<and>
   stats_of (camp_stats c) st = length (filter (\<lambda>l. lead_status l = st) (leads c))"
  unfolding camp_stats_def
  by (simp add: fold_count_of fold_count_total fold_count_sum)
     (simp add: stats_sum_def stats_of_def split: call_status.split)

section \<open>Invariant of the pool\<close>

lemma upd_lead_frame [frame_simps]:
  "ccu (upd_lead i f c) = ccu c" "canceled (upd_lead i f c) = canceled c"
  "camp_status (upd_lead i f c) = camp_status c" "length (leads (upd_lead i f c)) = length (leads c)"
  by (simp_all add: upd_lead_def)

lemma length_set_first [simp]: "length (set_first P f xs) = length xs"
  by (induction xs) auto

lemma nth_set_first: "i < length xs \<Longrightarrow> set_first P f xs ! i = xs ! i \<or> set_first P f xs ! i = f (xs ! i)"
  by (induction xs arbitrary: i) (auto simp: nth_Cons split: nat.splits)

lemma set_lead_status_frame [frame_simps]:
  "ccu (set_lead_status now u st err c) = ccu c" "canceled (set_lead_status now u st err c) = canceled c"
  "camp_status (set_lead_status now u st err c) = camp_status c"
  "length (leads (set_lead_status now u st err c)) = length (leads c)"
  by (simp_all add: set_lead_status_def)

lemma cancel_flag_frame [frame_simps]:
  "ccu (cancel_flag c) = ccu c" "leads (cancel_flag c) = leads c" "canceled (cancel_flag c)"
  by (simp_all add: cancel_flag_def)

definition pool_struct :: "pool \<Rightarrow> bool" where
  "pool_struct p \<longleftrightarrow> length (workers p) = length (leads (camp p)) \<and> next_lead p \<le> length (workers p) \<and>
     (\<forall>i. next_lead p \<le> i \<and> i < length (workers p) \<longrightarrow> workers p ! i = NotSpawned) \<and>
     distinct (dials p) \<and> set (dials p) = {i. i < length (workers p) \<and> has_dialed (workers p ! i)} \<and>
     slots p \<le> nat (ccu (camp p)) \<and> 0 < ccu (camp p) \<and>
     (loop p = AtAcquire \<longrightarrow> next_lead p < length (workers p)) \<and>
     (loop p = Closed \<longrightarrow> slots p = 0 \<and> next_lead p = length (workers p))"

definition pool_status :: "pool \<Rightarrow> bool" where
  "pool_status p \<longleftrightarrow>
     (\<forall>i<length (workers p). has_dialed (workers p ! i) \<longrightarrow> lead_status (leads (camp p) ! i) \<noteq> StatusPending) \<and>
     (\<forall>i<next_lead p. workers p ! i = NotSpawned \<longrightarrow>
        (ctx_done p \<or> canceled (camp p)) \<and> lead_status (leads (camp p) ! i) \<noteq> StatusPending) \<and>
     (canceled (camp p) \<longrightarrow> camp_status (camp p) = ''canceled'') \<and>
     (loop p = Closed \<and> \<not> canceled (camp p) \<longrightarrow> camp_status (camp p) = ''done'')"

definition pool_inv :: "pool \<Rightarrow> bool" where
  "pool_inv p \<longleftrightarrow> pool_struct p \<and> pool_status p"

lemma slots_update:
  "i < length (workers p) \<Longrightarrow> length (filter holds_slot ((workers p)[i := w])) + (if holds_slot (workers p ! i) then 1 else 0) =
     slots p + (if holds_slot w then 1 else 0)"
  unfolding slots_def by (rule length_filter_update)

lemmas pc_defs = holds_slot_def has_dialed_def

lemma slot_pos: "i < length (workers p) \<Longrightarrow> holds_slot (workers p ! i) \<Longrightarrow> 0 < slots p"
  unfolding slots_def length_greater_0_conv filter_empty_conv by (blast dest: nth_mem)

lemma work_struct: "work_step p q \<Longrightarrow> pool_struct p \<Longrightarrow> pool_struct q"
proof (induction rule: work_step.induct)
  case (loop_acquire p)
  then have n: "next_lead p < length (workers p)" "workers p ! next_lead p = NotSpawned"
    by (auto simp: pool_struct_def)
  with slots_update [OF n(1), of Spawned] loop_acquire show ?case
    by (auto simp: pool_struct_def slots_def pc_defs nth_list_update)
next
  case (dial i p now)
  with slots_update [OF dial(1), of Calling] slot_pos [OF dial(1)] show ?case
    by (auto simp: pool_struct_def slots_def pc_defs nth_list_update frame_simps)
next
  case (call_ok i p u)
  with slots_update [OF call_ok(1), of Cooling] slot_pos [OF call_ok(1)] show ?case
    by (auto simp: pool_struct_def slots_def pc_defs nth_list_update frame_simps)
next
  case (call_err i p now e)
  with slots_update [OF call_err(1), of Cooling] slot_pos [OF call_err(1)] show ?case
    by (auto simp: pool_struct_def slots_def pc_defs nth_list_update frame_simps)
next
  case (cooled i p)
  with slots_update [OF cooled(1), of Exited] slot_pos [OF cooled(1)] show ?case
    by (auto simp: pool_struct_def slots_def pc_defs nth_list_update)
qed (auto simp: pool_struct_def slots_def frame_simps)

lemma env_struct: "env_step p q \<Longrightarrow> pool_struct p \<Longrightarrow> pool_struct q"
  by (induction rule: env_step.induct) (auto simp: pool_struct_def slots_def frame_simps)

lemma upd_lead_nth:
  "j < length (leads c) \<Longrightarrow> leads (upd_lead i f c) ! j = (if j = i then f (leads c ! i) else leads c ! j)"
  by (simp add: upd_lead_def nth_list_update)

lemma lead_status_ops [simp]:
  "lead_status (skip_lead now l) \<noteq> StatusPending" "lead_status (start_lead now l) = StatusDialing"
  "lead_status (fail_lead now e l) = StatusFailed" "lead_status (put_status now st err l) = st"
  by (simp_all add: skip_lead_def start_lead_def fail_lead_def put_status_def Let_def)

lemma work_status: "work_step p q \<Longrightarrow> pool_struct p \<Longrightarrow> pool_status p \<Longrightarrow> pool_status q"
  by (induction rule: work_step.induct)
     (auto simp: pool_status_def pool_struct_def frame_simps upd_lead_nth nth_list_update has_dialed_def less_Suc_eq)

lemma env_status: "env_step p q \<Longrightarrow> pool_struct p \<Longrightarrow> pool_status p \<Longrightarrow> pool_status q"
proof (induction rule: env_step.induct)
  case (env_status st p now u err)
  have "lead_status (leads (set_lead_status now u st err (camp p)) ! i) \<noteq> StatusPending"
    if "i < length (leads (camp p))" "lead_status (leads (camp p) ! i) \<noteq> StatusPending" for i
    using nth_set_first [OF that(1), of "\<lambda>l. call_uuid l = u" "put_status now st err"] that(2) env_status(1)
    by (auto simp: set_lead_status_def)
  with env_status show ?case
    by (auto simp: pool_status_def pool_struct_def frame_simps)
qed (auto simp: pool_status_def cancel_flag_def)

lemma fill_opts_ccu: "0 < o_ccu (fill_opts op)"
  by (simp add: fill_opts_def Let_def)

lemma pool_start_cases:
  assumes "pool_start p"
  obtains c where "p = \<lparr>camp = c, next_lead = 0, loop = AtCheck,
      workers = replicate (length (leads c)) NotSpawned, dials = [], ctx_done = False\<rparr>"
    and "0 < ccu c" and "\<not> canceled c"
  using assms fill_opts_ccu unfolding pool_start_def campaign_create_def Let_def by fastforce

lemma pool_start_inv: "pool_start p \<Longrightarrow> pool_inv p"
  by (erule pool_start_cases) (simp add: pool_inv_def pool_struct_def pool_status_def slots_def pc_defs)

lemma pool_step_inv: "pool_step p q \<Longrightarrow> pool_inv p \<Longrightarrow> pool_inv q"
  unfolding pool_step_def pool_inv_def
  by (blast intro: work_struct env_struct work_status env_status)

interpretation pool: transition_system pool_start pool_step pool_inv
  by (unfold_locales) (fact pool_start_inv, fact pool_step_inv)

section \<open>Properties of the pool\<close>

lemma pool_reach: "pool_start p0 \<Longrightarrow> steps_from pool_step p0 p \<Longrightarrow> pool_struct p \<and> pool_status p"
  using pool.reach_inv by (auto simp: pool_inv_def)

lemma in_flight_le: "in_flight p \<le> slots p"
proof -
  have "length (filter (\<lambda>w. w = Calling) ws) \<le> length (filter holds_slot ws)" for ws
    by (induction ws) (auto simp: holds_slot_def)
  then show ?thesis by (simp add: in_flight_def slots_def)
qed

lemma ccu_const: "pool_step p q \<Longrightarrow> ccu (camp q) = ccu (camp p)"
  by (auto simp: pool_step_def frame_simps elim!: work_step.cases env_step.cases)

lemma ctx_done_mono: "pool_step p q \<Longrightarrow> ctx_done p \<Longrightarrow> ctx_done q"
  by (auto simp: pool_step_def elim!: work_step.cases env_step.cases)

text \<open>C3: However the loop, the workers, cancellations and status updates interleave, at no moment are
  more than CCU originate calls of a campaign in flight.\<close>

theorem originates_bounded_by_ccu:
  assumes "pool_start p0" and "steps_from pool_step p0 p"
  shows "in_flight p \<le> nat (ccu (camp p0))"
proof -
  have "ccu (camp p) = ccu (camp p0)" using assms(2)
    by (rule steps_from_keeps) (simp_all add: ccu_const)
  then show ?thesis
    using pool_reach [OF assms] in_flight_le [of p] by (simp add: pool_struct_def)
qed

text \<open>C4: No lead is dialed twice.\<close>

theorem no_lead_dialed_twice:
  assumes "pool_start p0" and "steps_from pool_step p0 p"
  shows "distinct (dials p) \<and> set (dials p) \<subseteq> {..<length (leads (camp p))}"
  using pool_reach [OF assms] by (auto simp: pool_struct_def)

lemma closed_no_pending:
  assumes "pool_start p0" and "steps_from pool_step p0 p" and "loop p = Closed" and "l \<in> set (leads (camp p))"
  shows "lead_status l \<noteq> StatusPending"
proof -
  have st: "pool_struct p" "pool_status p" using pool_reach [OF assms(1,2)] by auto
  then have len: "length (workers p) = length (leads (camp p))" "next_lead p = length (workers p)" "slots p = 0"
    using assms(3) by (auto simp: pool_struct_def)
  from assms(4) obtain i where i: "i < length (leads (camp p))" "l = leads (camp p) ! i" by (auto simp: in_set_conv_nth)
  then have "\<not> holds_slot (workers p ! i)" using slot_pos [of i p] len by auto
  then have "has_dialed (workers p ! i) \<or> workers p ! i = NotSpawned" by (cases "workers p ! i") (auto simp: pc_defs)
  then show ?thesis using st(2) len i by (auto simp: pool_status_def)
qed

text \<open>C23: When the pool has closed, no lead is pending; the status is \<open>done\<close> unless the campaign was
  canceled; and if neither a cancel nor the end of the context came, every lead was dialed exactly
  once.\<close>

theorem closed_pool_complete:
  assumes "pool_start p0" and "steps_from pool_step p0 p" and "loop p = Closed"
  shows "(\<forall>l\<in>set (leads (camp p)). lead_status l \<noteq> StatusPending) \<and>
     camp_status (camp p) = (if canceled (camp p) then ''canceled'' else ''done'') \<and>
     (\<not> ctx_done p \<and> \<not> canceled (camp p) \<longrightarrow>
        distinct (dials p) \<and> set (dials p) = {..<length (leads (camp p))})"
proof -
  have st: "pool_struct p" "pool_status p" using pool_reach [OF assms(1,2)] by auto
  then have len: "length (workers p) = length (leads (camp p))" "next_lead p = length (workers p)" "slots p = 0"
    using assms(3) by (auto simp: pool_struct_def)
  have pc: "has_dialed (workers p ! i) \<or> workers p ! i = NotSpawned" if "i < length (workers p)" for i
    using slot_pos [OF that] len by (cases "workers p ! i") (auto simp: pc_defs)
  then have "set (dials p) = {..<length (leads (camp p))}" if "\<not> ctx_done p" "\<not> canceled (camp p)"
    using st len that by (auto simp: pool_struct_def pool_status_def)
  then show ?thesis
    using st assms(3) closed_no_pending [OF assms] by (auto simp: pool_struct_def pool_status_def)
qed

text \<open>No worker beyond those of \<open>p\<close>, but for the one the loop of \<open>p\<close> may be about to spawn.\<close>

definition frozen_since :: "pool \<Rightarrow> pool \<Rightarrow> bool" where
  "frozen_since p q \<longleftrightarrow> pool_struct q \<and> canceled (camp q) \<and> length (workers q) = length (workers p) \<and>
     (loop q = AtAcquire \<longrightarrow> loop p = AtAcquire \<and> next_lead q = next_lead p) \<and>
     (\<forall>i<length (workers p). workers q ! i \<noteq> NotSpawned \<longrightarrow>
        workers p ! i \<noteq> NotSpawned \<or> loop p = AtAcquire \<and> i = next_lead p)"

lemma work_frozen: "work_step x y \<Longrightarrow> pool_struct y \<Longrightarrow> frozen_since p x \<Longrightarrow> frozen_since p y"
  by (induction rule: work_step.induct)
     (auto simp: frozen_since_def nth_list_update frame_simps split: if_splits)

lemma env_frozen: "env_step x y \<Longrightarrow> pool_struct y \<Longrightarrow> frozen_since p x \<Longrightarrow> frozen_since p y"
  by (induction rule: env_step.induct) (auto simp: frozen_since_def frame_simps)

lemma pool_frozen: "pool_step x y \<Longrightarrow> frozen_since p x \<Longrightarrow> frozen_since p y"
  unfolding pool_step_def
  by (blast intro: work_frozen env_frozen work_struct env_struct dest: frozen_since_def [THEN iffD1])

lemma frozen_dials:
  assumes "frozen_since p q" and "i \<in> set (dials q)"
  shows "i < length (workers p) \<and> workers p ! i \<noteq> NotSpawned \<or> loop p = AtAcquire \<and> i = next_lead p"
proof -
  have q: "pool_struct q" "length (workers q) = length (workers p)"
    using assms(1) by (simp_all add: frozen_since_def)
  from q(1) have "set (dials q) = {i. i < length (workers q) \<and> has_dialed (workers q ! i)}"
    by (simp only: pool_struct_def)
  with assms(2) q(2) have i: "i < length (workers p)" "has_dialed (workers q ! i)" by simp_all
  from i(2) have "workers q ! i \<noteq> NotSpawned" by (auto simp: has_dialed_def)
  with assms(1) i(1) show ?thesis unfolding frozen_since_def by blast
qed

text \<open>After a cancel, the only leads still dialed are those whose worker had been spawned, and at most
  the one lead for which the loop was waiting for a slot.\<close>

theorem cancel_stops_dialing:
  assumes "pool_start p0" and "steps_from pool_step p0 p" and "canceled (camp p)"
    and "steps_from pool_step p q"
  shows "set (dials q) \<subseteq> {i. i < length (workers p) \<and> workers p ! i \<noteq> NotSpawned} \<union>
     (if loop p = AtAcquire then {next_lead p} else {})"
proof -
  have "frozen_since p p"
    using pool_reach [OF assms(1,2)] assms(3) by (simp add: frozen_since_def)
  from steps_from_keeps [OF assms(4), of "frozen_since p", OF this pool_frozen]
  show ?thesis using frozen_dials by fastforce
qed

section \<open>The pool terminates\<close>

definition worker_todo :: "worker_pc \<Rightarrow> nat" where
  "worker_todo w = (case w of NotSpawned \<Rightarrow> 0 | Spawned \<Rightarrow> 3 | Calling \<Rightarrow> 2 | Cooling \<Rightarrow> 1 | Exited \<Rightarrow> 0)"

definition pool_todo :: "pool \<Rightarrow> nat" where
  "pool_todo p = (case loop p of Closed \<Rightarrow> 0 | AtAcquire \<Rightarrow> 1 | AtCheck \<Rightarrow> 2) +
     sum_list (map worker_todo (workers p)) + 5 * (length (workers p) - next_lead p)"

lemma todo_update:
  assumes "i < length ws"
  shows "sum_list (map worker_todo (ws[i := w])) + worker_todo (ws ! i) =
    sum_list (map worker_todo ws) + worker_todo w"
proof -
  have "worker_todo (ws ! i) \<le> sum_list (map worker_todo ws)"
    using elem_le_sum_list [of i "map worker_todo ws"] assms by simp
  then show ?thesis using assms by (simp add: map_update sum_list_update)
qed

lemma work_decr: "work_step p q \<Longrightarrow> pool_struct p \<Longrightarrow> pool_todo q < pool_todo p"
proof (induction rule: work_step.induct)
  case (loop_acquire p)
  then have n: "next_lead p < length (workers p)" "workers p ! next_lead p = NotSpawned"
    by (auto simp: pool_struct_def)
  with todo_update [OF n(1), of Spawned] loop_acquire show ?case
    by (simp add: pool_todo_def worker_todo_def)
next
  case (dial i p now)
  with todo_update [OF dial(1), of Calling] show ?case by (simp add: pool_todo_def worker_todo_def)
next
  case (call_ok i p u)
  with todo_update [OF call_ok(1), of Cooling] show ?case by (simp add: pool_todo_def worker_todo_def)
next
  case (call_err i p now e)
  with todo_update [OF call_err(1), of Cooling] show ?case by (simp add: pool_todo_def worker_todo_def)
next
  case (cooled i p)
  with todo_update [OF cooled(1), of Exited] show ?case by (simp add: pool_todo_def worker_todo_def)
qed (auto simp: pool_struct_def pool_todo_def)

interpretation pool_work: bounded_system pool_start work_step pool_inv pool_todo
proof unfold_locales
  show "pool_inv q" if "work_step p q" "pool_inv p" for p q
    using pool_step_inv [of p q] that by (simp add: pool_step_def)
  show "pool_todo q < pool_todo p" if "work_step p q" "pool_inv p" for p q
    using work_decr that by (simp add: pool_inv_def)
qed (fact pool_start_inv)

lemma slot_step: assumes "0 < slots p" shows "\<exists>q. work_step p q"
proof -
  from assms obtain i where i: "i < length (workers p)" "holds_slot (workers p ! i)"
    unfolding slots_def length_greater_0_conv filter_empty_conv by (auto simp: in_set_conv_nth)
  then show ?thesis by (auto simp: holds_slot_def intro: work_step.intros)
qed

lemma pool_progress: assumes "pool_struct p" and "loop p \<noteq> Closed" shows "\<exists>q. work_step p q"
proof (cases "slots p = 0")
  case False
  then show ?thesis using slot_step by simp
next
  case True
  show ?thesis
  proof (cases "loop p")
    case AtAcquire
    with True assms(1) loop_acquire [of p] show ?thesis by (auto simp: pool_struct_def)
  next
    case AtCheck
    with assms(1) have "next_lead p < length (leads (camp p)) \<or> next_lead p = length (leads (camp p))"
      by (auto simp: pool_struct_def)
    with AtCheck True show ?thesis using loop_skip [of p] loop_check [of p] pool_done [of p] by blast
  qed (use assms(2) in simp)
qed

lemma pool_closes: "pool_inv p \<Longrightarrow> \<exists>q. steps_from work_step p q \<and> loop q = Closed"
proof (induction "pool_todo p" arbitrary: p rule: less_induct)
  case less
  show ?case
  proof (cases "loop p = Closed")
    case True
    then have "steps_from work_step p p \<and> loop p = Closed" by (simp add: steps_from.here)
    then show ?thesis ..
  next
    case False
    with less.prems obtain q where q: "work_step p q"
      using pool_progress by (auto simp: pool_inv_def)
    with less.prems have "pool_inv q" "pool_todo q < pool_todo p"
      using pool_work.step_inv pool_work.size_decr by auto
    with less.hyps obtain r where "steps_from work_step q r" "loop r = Closed" by blast
    then have "steps_from work_step p r \<and> loop r = Closed" using steps_from_head [of work_step, OF q] by simp
    then show ?thesis ..
  qed
qed

lemma pool_work_run: "steps_from work_step p q \<Longrightarrow> steps_from pool_step p q"
  by (induction rule: steps_from.induct) (auto intro: steps_from.intros simp: pool_step_def)

lemma start_todo: "pool_start p \<Longrightarrow> pool_todo p = 2 + 5 * length (leads (camp p))"
  by (erule pool_start_cases) (simp add: pool_todo_def worker_todo_def sum_list_replicate)

lemma pool_todo_env: "env_step p q \<Longrightarrow> pool_todo q = pool_todo p"
  by (induction rule: env_step.induct) (simp_all add: pool_todo_def)

lemma pool_todo_reach:
  assumes "pool_start p0" and "steps_from pool_step p0 p"
  shows "pool_todo p \<le> pool_todo p0"
  by (rule pool.reach_le [OF pool_start_inv [OF assms(1)] assms(2)])
     (auto simp: pool_step_def pool_inv_def pool_todo_env dest: work_decr)

text \<open>C24: The worker pool of a campaign with \<open>n\<close> leads makes at most \<open>5 n + 2\<close> steps of its own from any
  moment on, and it is never stuck before it has closed: once every originate call returns, the
  pool closes.\<close>

theorem pool_terminates:
  assumes "pool_start p0" and "steps_from pool_step p0 p"
  shows "(run_of work_step p ts \<longrightarrow> length ts \<le> 5 * length (leads (camp p0)) + 2) \<and>
    (loop p \<noteq> Closed \<longrightarrow> (\<exists>q. work_step p q)) \<and>
    (\<exists>q. steps_from work_step p q \<and> loop q = Closed)"
proof -
  have inv: "pool_inv p" using pool.reach_inv [OF assms] .
  have "length ts \<le> 5 * length (leads (camp p0)) + 2" if "run_of work_step p ts"
    using pool_work.run_bounded [OF inv that] pool_todo_reach [OF assms] start_todo [OF assms(1)] by linarith
  moreover have "\<exists>q. work_step p q" if "loop p \<noteq> Closed"
    using pool_progress that inv by (simp add: pool_inv_def)
  ultimately show ?thesis using pool_closes [OF inv] by blast
qed

section \<open>Witnesses\<close>

definition demo_pool :: pool where
  "demo_pool = (let m = campaign_create 0 \<lparr>o_scenario = [], o_caller_id = [], o_ccu = 1,
       o_leads = [new_lead\<lparr>phone := ''1''\<rparr>, new_lead\<lparr>phone := ''2''\<rparr>], o_rate = 0\<rparr> new_manager
     in the (campaigns (snd m) (fst m)))"

lemma demo_start: "pool_start demo_pool"
  unfolding pool_start_def demo_pool_def by (auto simp: campaign_create_def Let_def)

lemma demo_fields: "leads (camp demo_pool) = [new_lead\<lparr>phone := ''1''\<rparr>, new_lead\<lparr>phone := ''2''\<rparr>]"
  "ccu (camp demo_pool) = 1" "workers demo_pool = [NotSpawned, NotSpawned]" "next_lead demo_pool = 0"
  "loop demo_pool = AtCheck" "\<not> ctx_done demo_pool" "\<not> canceled (camp demo_pool)" "dials demo_pool = []"
  by (simp_all add: demo_pool_def campaign_create_def fill_opts_def Let_def)

text \<open>The first lead's call is in flight.\<close>

definition demo_calling :: pool where
  "demo_calling = demo_pool\<lparr>camp := upd_lead 0 (start_lead 0) (camp demo_pool),
     workers := [Calling, NotSpawned], next_lead := 1, dials := [0]\<rparr>"

lemma demo_run: "steps_from work_step demo_pool demo_calling"
proof -
  have c: "work_step demo_pool (demo_pool\<lparr>loop := AtAcquire\<rparr>)" (is "work_step _ ?a")
    by (rule loop_check) (simp_all add: demo_fields)
  have a: "work_step ?a (?a\<lparr>workers := (workers ?a)[next_lead ?a := Spawned],
      next_lead := Suc (next_lead ?a), loop := AtCheck\<rparr>)" (is "work_step _ ?b")
    by (rule loop_acquire) (simp_all add: demo_fields slots_def pc_defs)
  have "work_step ?b (?b\<lparr>camp := upd_lead 0 (start_lead 0) (camp ?b), workers := (workers ?b)[0 := Calling],
      dials := dials ?b @ [0]\<rparr>)" (is "work_step _ ?c")
    by (rule dial) (simp_all add: demo_fields)
  moreover have "?c = demo_calling" by (simp add: demo_calling_def demo_fields)
  ultimately have "work_step ?b demo_calling" by simp
  with c a show ?thesis by (blast intro: steps_from.intros)
qed

theorem originates_bounded_by_ccu_witness: "in_flight demo_calling \<le> nat (ccu (camp demo_pool)) \<and> in_flight demo_calling = 1"
  using originates_bounded_by_ccu [OF demo_start pool_work_run [OF demo_run]]
  by (simp add: in_flight_def demo_calling_def)

theorem no_lead_dialed_twice_witness:
  "distinct (dials demo_calling) \<and> set (dials demo_calling) \<subseteq> {..<length (leads (camp demo_calling))}"
  by (rule no_lead_dialed_twice [OF demo_start pool_work_run [OF demo_run]])

theorem closed_pool_complete_witness:
  "\<exists>p. steps_from work_step demo_pool p \<and> loop p = Closed \<and> set (dials p) = {0, 1}"
proof -
  obtain p where p: "steps_from work_step demo_pool p" "loop p = Closed"
    using pool_closes [OF pool_start_inv [OF demo_start]] by blast
  have "\<not> ctx_done p \<and> \<not> canceled (camp p) \<and> length (leads (camp p)) = 2" using p(1)
    by (rule steps_from_keeps)
       (auto simp: demo_fields frame_simps elim!: work_step.cases)
  with closed_pool_complete [OF demo_start pool_work_run [OF p(1)] p(2)] p show ?thesis by auto
qed

text \<open>A cancel while the first call is in flight.\<close>

theorem cancel_stops_dialing_witness:
  "set (dials (demo_calling\<lparr>camp := cancel_flag (camp demo_calling)\<rparr>)) \<subseteq> {0} \<and>
   (\<nexists>q. steps_from pool_step (demo_calling\<lparr>camp := cancel_flag (camp demo_calling)\<rparr>) q \<and> 1 \<in> set (dials q))"
proof -
  let ?p = "demo_calling\<lparr>camp := cancel_flag (camp demo_calling)\<rparr>"
  have "pool_step demo_calling ?p" by (simp add: pool_step_def env_cancel)
  with pool_work_run [OF demo_run] have r: "steps_from pool_step demo_pool ?p" by (rule steps_from.more)
  have f: "canceled (camp ?p)" "workers ?p = [Calling, NotSpawned]" "loop ?p = AtCheck" "dials ?p = [0]"
    by (simp_all add: demo_calling_def frame_simps demo_fields)
  have "1 \<notin> set (dials q)" if "steps_from pool_step ?p q" for q
    using cancel_stops_dialing [OF demo_start r f(1) that] f by auto
  then show ?thesis using f by auto
qed

theorem pool_terminates_witness:
  "length ([] :: pool list) \<le> 5 * 2 + 2 \<and> (\<exists>q. steps_from work_step demo_calling q \<and> loop q = Closed)"
  using pool_terminates [OF demo_start pool_work_run [OF demo_run], of "[]"] by (simp add: demo_fields)

end
