(* ===== verification/Outbound.thy ===== *)
theory Outbound
  imports Campaign SessionRunner
begin

unbundle bit_operations_syntax

text \<open>
  \<open>internal/pipeline/outbound.go\<close>, the originate part of \<open>internal/freeswitch\<close>, and how they meet the
  campaign pool: placing a call, the ANSWER and HANGUP handlers, and the callbacks that report the
  call's fate to its lead.  Handlers return the state and what they did, in order.
\<close>

section \<open>Call ids\<close>

definition hex_digit :: "8 word \<Rightarrow> char" where
  "hex_digit w = (let n = unat w in if n < 10 then char_of (48 + n) else char_of (87 + n))"

definition hex_byte :: "8 word \<Rightarrow> gostring" where
  "hex_byte b = [hex_digit (drop_bit 4 b), hex_digit (b AND 0x0f)]"

definition hex_encode :: "8 word list \<Rightarrow> gostring" where
  "hex_encode bs = concat (map hex_byte bs)"

text \<open>\<open>genUUID\<close> on the 16 bytes of \<open>rand.Read\<close>, or its fallback on the clock's nanoseconds.\<close>

definition gen_uuid :: "8 word list option \<Rightarrow> nat \<Rightarrow> gostring" where
  "gen_uuid rnd nanos =
     (case rnd of
        None \<Rightarrow> ''uuid-fallback-'' @ show_nat nanos
      | Some b0 \<Rightarrow>
         (let b1 = b0[6 := (b0 ! 6 AND 0x0f) OR 0x40];
              b = b1[8 := (b1 ! 8 AND 0x3f) OR 0x80]
          in hex_encode (gslice b 0 4) @ ''-'' @ hex_encode (gslice b 4 6) @ ''-'' @ hex_encode (gslice b 6 8) @ ''-'' @
             hex_encode (gslice b 8 10) @ ''-'' @ hex_encode (gslice b 10 16)))"

section \<open>The originate command\<close>

definition dial_endpoint :: "gostring \<Rightarrow> gostring \<Rightarrow> gostring" where
  "dial_endpoint domain target =
     (if CHR ''/'' \<in> set target then target else ''loopback/'' @ target @ ''/'' @ domain)"

definition originate_cmd :: "gostring \<Rightarrow> gostring \<Rightarrow> gostring \<Rightarrow> gostring \<Rightarrow> gostring" where
  "originate_cmd domain uuid target caller =
     ''originate {origination_uuid='' @ uuid @ '',my_call_id='' @ uuid @
     '',callbot_bridge=true,origination_caller_id_number='' @ caller @
     '',ignore_early_media=true,absolute_codec_string=PCMU@8000h@20i}'' @
     dial_endpoint domain target @ '' &park''"

text \<open>The reply of the background job decides.\<close>

definition esl_originate :: "gostring \<Rightarrow> gostring result \<Rightarrow> gostring option" where
  "esl_originate target res =
     (case res of
        Inl e \<Rightarrow> Some (''originate '' @ target @ '': '' @ e)
      | Inr body \<Rightarrow>
         (let r = trim_space body in
          if has_prefix r ''+OK'' then None else Some (''originate failed: '' @ r)))"

text \<open>
  \<open>SendOriginate\<close> and \<open>processEvent\<close>: the waiters by job id, and what each waiter's channel holds.
\<close>

record bg_jobs =
  waiting :: "gostring set"
  delivered :: "gostring \<rightharpoonup> gostring"

definition register_job :: "gostring \<Rightarrow> bg_jobs \<Rightarrow> bg_jobs" where
  "register_job j b = b\<lparr>waiting := insert j (waiting b), delivered := (delivered b)(j := None)\<rparr>"

definition job_event :: "gostring \<Rightarrow> gostring \<Rightarrow> bg_jobs \<Rightarrow> bg_jobs" where
  "job_event j body b =
     (if j \<noteq> [] \<and> j \<in> waiting b
      then b\<lparr>waiting := waiting b - {j}, delivered := (delivered b)(j \<mapsto> body)\<rparr> else b)"

definition job_timeout :: "gostring \<Rightarrow> bg_jobs \<Rightarrow> bg_jobs" where
  "job_timeout j b = b\<lparr>waiting := waiting b - {j}\<rparr>"

section \<open>The handler\<close>

record pending_call =
  pend_phone :: gostring
  pend_scenario :: gostring
  pend_custom :: "gostring \<rightharpoonup> goval"
  pend_bot :: bot_config
  was_answered :: bool

record outbound =
  ob_pending :: "gostring \<rightharpoonup> pending_call"
  ob_sessions :: "gostring set"

datatype ob_fx =
  CbAnswered gostring | CbEnded gostring call_status gostring | StartRun run_opts | CancelSession gostring

definition pend_lookup :: "outbound \<Rightarrow> gostring \<Rightarrow> pending_call option" where
  "pend_lookup ob u = ob_pending ob u"

definition pend_store :: "gostring \<Rightarrow> pending_call \<Rightarrow> outbound \<Rightarrow> outbound" where
  "pend_store u pc ob = ob\<lparr>ob_pending := (ob_pending ob)(u \<mapsto> pc)\<rparr>"

definition pend_delete :: "gostring \<Rightarrow> outbound \<Rightarrow> outbound" where
  "pend_delete u ob = ob\<lparr>ob_pending := (ob_pending ob)(u := None)\<rparr>"

interpretation pending_calls: sync_map pend_lookup pend_store pend_delete
  by unfold_locales (simp_all add: pend_lookup_def pend_store_def pend_delete_def)

text \<open>The number that is dialled: the bot's carrier prefix, unless it is there already.\<close>

definition dial_number :: "gostring \<Rightarrow> gostring \<Rightarrow> gostring" where
  "dial_number pre num = (if pre \<noteq> [] \<and> \<not> has_prefix num pre then pre @ num else num)"

record originate_opts =
  oo_phone :: gostring
  oo_caller :: gostring
  oo_bot :: "bot_config option"
  oo_custom :: "gostring \<rightharpoonup> goval"

text \<open>
  \<open>Originate\<close> up to the command: an early error, or the state with the call pending and what is
  sent.
\<close>

definition originate_begin ::
  "bool \<Rightarrow> gostring option \<Rightarrow> gostring \<Rightarrow> originate_opts \<Rightarrow> outbound \<Rightarrow>
   (gostring + gostring \<times> gostring) \<times> outbound"
where
  "originate_begin has_registry provider_err uuid opts ob =
     (case oo_bot opts of
        None \<Rightarrow> (Inl ''originate: bot config required'', ob)
      | Some b \<Rightarrow>
         if \<not> has_registry then (Inl ''originate: registry not wired'', ob)
         else (case provider_err of
           Some e \<Rightarrow> (Inl (''resolve providers: '' @ e), ob)
         | None \<Rightarrow>
            (let dial = dial_number (outbound_prefix b) (oo_phone opts);
                 pc = \<lparr>pend_phone = dial, pend_scenario = b_slug b, pend_custom = oo_custom opts,
                       pend_bot = b, was_answered = False\<rparr>
             in (Inr (dial, if oo_caller opts = [] then ''callbot'' else oo_caller opts), pend_store uuid pc ob))))"

text \<open>After the command: an error drops the call and reports it failed.\<close>

definition originate_end ::
  "gostring \<Rightarrow> gostring option \<Rightarrow> outbound \<Rightarrow> gostring result \<times> outbound \<times> ob_fx list" where
  "originate_end uuid err ob =
     (case err of
        Some e \<Rightarrow> (Inl e, pend_delete uuid ob, [CbEnded uuid StatusFailed e])
      | None \<Rightarrow> (Inr uuid, ob, []))"

definition str_from_map :: "(gostring \<rightharpoonup> goval) \<Rightarrow> gostring \<Rightarrow> gostring" where
  "str_from_map m k = (case m k of Some (VStr s) \<Rightarrow> s | _ \<Rightarrow> [])"

definition answer_opts :: "gostring \<Rightarrow> time \<Rightarrow> pending_call \<Rightarrow> run_opts" where
  "answer_opts uuid now pc =
     \<lparr>ro_uuid = uuid, ro_caller = pend_phone pc, ro_phone = pend_phone pc, ro_scenario = pend_scenario pc,
      ro_direction = DirectionOutbound, needs_answer = False, ro_started = now, has_on_end = True,
      ro_bot = Some (pend_bot pc), ro_asr = True, ro_tts = True, ro_botimpl = True,
      ro_lead_id = str_from_map (pend_custom pc) ''lead_id'', ro_gender = str_from_map (pend_custom pc) ''gender'',
      ro_name = str_from_map (pend_custom pc) ''name''\<rparr>"

definition on_answer :: "gostring \<Rightarrow> time \<Rightarrow> outbound \<Rightarrow> outbound \<times> ob_fx list" where
  "on_answer uuid now ob =
     (if uuid = [] then (ob, [])
      else case pend_lookup ob uuid of
        None \<Rightarrow> (ob, [])
      | Some pc \<Rightarrow>
         (let ob' = pend_store uuid (pc\<lparr>was_answered := True\<rparr>) ob in
          if uuid \<in> ob_sessions ob then (ob', [])
          else (ob', [CbAnswered uuid, StartRun (answer_opts uuid now pc)])))"

definition classify_hangup :: "gostring \<Rightarrow> call_status" where
  "classify_hangup cause =
     (if cause \<in> {''NO_ANSWER'', ''ALLOTTED_TIMEOUT'', ''USER_NOT_REGISTERED''} then StatusNoAnswer
      else if cause \<in> {''CALL_REJECTED'', ''USER_BUSY'', ''DESTINATION_OUT_OF_ORDER'',
                       ''NORMAL_TEMPORARY_FAILURE'', ''NETWORK_OUT_OF_ORDER''} then StatusFailed
      else StatusFailed)"

definition on_hangup :: "gostring \<Rightarrow> gostring \<Rightarrow> outbound \<Rightarrow> outbound \<times> ob_fx list" where
  "on_hangup uuid cause ob =
     (if uuid = [] then (ob, [])
      else if uuid \<in> ob_sessions ob then (ob, [CancelSession uuid])
      else case pend_lookup ob uuid of
        None \<Rightarrow> (ob, [])
      | Some pc \<Rightarrow>
         (pend_delete uuid ob,
          if was_answered pc then [CbEnded uuid StatusCompleted []]
          else [CbEnded uuid (classify_hangup cause) cause]))"

text \<open>The session goroutine: it registers itself, and at its end runs \<open>OnEnd\<close> and leaves.\<close>

definition session_begin :: "gostring \<Rightarrow> outbound \<Rightarrow> outbound" where
  "session_begin uuid ob = ob\<lparr>ob_sessions := insert uuid (ob_sessions ob)\<rparr>"

definition session_end :: "gostring \<Rightarrow> outbound \<Rightarrow> outbound \<times> ob_fx list" where
  "session_end uuid ob =
     ((pend_delete uuid ob)\<lparr>ob_sessions := ob_sessions ob - {uuid}\<rparr>, [CbEnded uuid StatusCompleted []])"

text \<open>What the campaign's callbacks do with an effect.\<close>

definition campaign_callback :: "time \<Rightarrow> ob_fx \<Rightarrow> campaign \<Rightarrow> campaign" where
  "campaign_callback now x c =
     (case x of
        CbAnswered u \<Rightarrow> set_lead_status now u StatusAnswered [] c
      | CbEnded u st e \<Rightarrow> set_lead_status now u st e c
      | _ \<Rightarrow> c)"

section \<open>Events of one call\<close>

datatype ob_ev = EvAnswer gostring time | EvHangup gostring gostring | EvRunBegins gostring | EvRunEnds gostring

fun ob_step :: "ob_ev \<Rightarrow> outbound \<Rightarrow> outbound \<times> ob_fx list" where
  "ob_step (EvAnswer u t) ob = on_answer u t ob"
| "ob_step (EvHangup u c) ob = on_hangup u c ob"
| "ob_step (EvRunBegins u) ob = (session_begin u ob, [])"
| "ob_step (EvRunEnds u) ob = session_end u ob"

fun ob_run :: "ob_ev list \<Rightarrow> outbound \<Rightarrow> outbound \<times> ob_fx list" where
  "ob_run [] ob = (ob, [])"
| "ob_run (e # es) ob = (let (ob1, f1) = ob_step e ob; (ob2, f2) = ob_run es ob1 in (ob2, f1 @ f2))"

section \<open>Lemmas\<close>

lemma set_first_none: "\<forall>x\<in>set xs. \<not> P x \<Longrightarrow> set_first P f xs = xs"
  by (induction xs) auto

lemma callback_unknown:
  "\<forall>l\<in>set (leads c). call_uuid l \<noteq> u \<Longrightarrow> set_lead_status now u st e c = c"
  by (simp add: set_lead_status_def set_first_none)

lemma dial_number_prefix: "has_prefix (dial_number pre num) pre"
  by (auto simp: dial_number_def has_prefix_def)

lemma version_nibble: "drop_bit 4 ((b AND 0x0f) OR (0x40 :: 8 word)) = 4"
  by (rule bit_word_eqI) (auto simp: bit_simps numeral_eq_Suc less_Suc_eq)

lemma le3_cases: "(w :: 8 word) \<le> 3 \<Longrightarrow> w = 0 \<or> w = 1 \<or> w = 2 \<or> w = 3"
proof -
  assume "w \<le> 3"
  then have "unat w \<le> 3" by (simp add: word_le_nat_alt)
  then have "unat w = unat (0 :: 8 word) \<or> unat w = unat (1 :: 8 word) \<or> unat w = unat (2 :: 8 word) \<or>
      unat w = unat (3 :: 8 word)" by auto
  then show ?thesis by (simp only: word_unat_eq_iff)
qed

lemma variant_nibble:
  "drop_bit 4 ((b AND 0x3f) OR (0x80 :: 8 word)) = 8 OR (drop_bit 4 b AND 3)"
  by (rule bit_word_eqI) (auto simp: bit_simps numeral_eq_Suc less_Suc_eq)

lemma variant_digit: "hex_digit (drop_bit 4 ((b AND 0x3f) OR (0x80 :: 8 word))) \<in> set ''89ab''"
proof -
  have "drop_bit 4 b AND (3 :: 8 word) \<le> 3" by (simp add: word_and_le1)
  from le3_cases [OF this] show ?thesis
    unfolding variant_nibble by (auto simp: hex_digit_def Let_def char_of_eq_iff)
qed

lemma version_digit: "hex_digit (drop_bit 4 ((b AND 0x0f) OR (0x40 :: 8 word))) = CHR ''4''"
  unfolding version_nibble by (simp add: hex_digit_def char_of_eq_iff)

lemma length_hex [simp]: "length (hex_encode bs) = 2 * length bs"
  by (induction bs) (simp_all add: hex_encode_def hex_byte_def)

lemma hex_encode_Cons: "hex_encode (b # bs) = hex_digit (drop_bit 4 b) # hex_digit (b AND 0x0f) # hex_encode bs"
  by (simp add: hex_encode_def hex_byte_def)

section \<open>Properties\<close>

text \<open>Whatever sixteen random bytes it draws, a generated call id has the shape of a version 4 UUID: 36
  characters, dashes in the four places, the version digit 4 and a variant digit 8, 9, a or b.\<close>

theorem gen_uuid_v4:
  assumes "length bs = 16"
  shows "length (gen_uuid (Some bs) n) = 36 \<and>
    (\<forall>i\<in>{8, 13, 18, 23}. gen_uuid (Some bs) n ! i = CHR ''-'') \<and>
    gen_uuid (Some bs) n ! 14 = CHR ''4'' \<and> gen_uuid (Some bs) n ! 19 \<in> set ''89ab''"
proof -
  let ?b = "bs[6 := (bs ! 6 AND 0x0f) OR 0x40, 8 := ((bs[6 := (bs ! 6 AND 0x0f) OR 0x40]) ! 8 AND 0x3f) OR 0x80]"
  let ?p = "\<lambda>i j. hex_encode (gslice ?b i j)"
  have u: "gen_uuid (Some bs) n = ?p 0 4 @ ''-'' @ ?p 4 6 @ ''-'' @ ?p 6 8 @ ''-'' @ ?p 8 10 @ ''-'' @ ?p 10 16"
    by (simp add: gen_uuid_def Let_def)
  have l: "length (?p 0 4) = 8" "length (?p 4 6) = 4" "length (?p 6 8) = 4" "length (?p 8 10) = 4"
    "length (?p 10 16) = 12" using assms by (simp_all add: gslice_def)
  have s6: "gslice ?b 6 8 = (?b ! 6) # gslice ?b 7 8" "gslice ?b 8 10 = (?b ! 8) # gslice ?b 9 10"
    using assms by (simp_all add: gslice_def Cons_nth_drop_Suc [symmetric])
  have n6: "?b ! 6 = (bs ! 6 AND 0x0f) OR 0x40" "?b ! 8 = (bs ! 8 AND 0x3f) OR 0x80"
    using assms by (simp_all add: nth_list_update)
  have d: "?p 6 8 ! 0 = CHR ''4''" "?p 8 10 ! 0 \<in> set ''89ab''"
    unfolding s6 hex_encode_Cons n6 nth_Cons_0 by (fact version_digit, fact variant_digit)
  show ?thesis unfolding u using l d by (simp add: nth_append)
qed

theorem gen_uuid_v4_witness: "gen_uuid (Some (replicate 16 0)) 0 ! 14 = CHR ''4''"
  using gen_uuid_v4 [of "replicate 16 0" 0] by simp

text \<open>In an orderly outbound call (answered, session running, possibly hung up by the callee, session
  over) the lead is reported answered once and completed once, the session gets the dialled number
  and the lead's data, a hangup only cancels the session, and nothing is left pending.\<close>

theorem orderly_call:
  assumes "u \<noteq> []" and "pend_lookup ob u = Some pc" and "u \<notin> ob_sessions ob"
  shows "ob_run [EvAnswer u t, EvRunBegins u, EvHangup u cause, EvRunEnds u] ob =
    (ob\<lparr>ob_pending := (ob_pending ob)(u := None)\<rparr>,
     [CbAnswered u, StartRun (answer_opts u t pc), CancelSession u, CbEnded u StatusCompleted []])"
  using assms
  by (cases ob) (auto simp: on_answer_def on_hangup_def session_begin_def session_end_def pend_lookup_def
      pend_store_def pend_delete_def Let_def)

definition demo_bot :: bot_config where
  "demo_bot = \<lparr>b_id = ''b'', b_tenant = ''t'', b_tenant_slug = ''ts'', b_slug = ''bs'', b_name = ''n'', b_enabled = True,
     bot_url = ''http'', bot_first_byte_ms = 1, bot_total_ms = 1, asr_provider = [], asr_endpoint = [],
     asr_token = [], tts_provider = [], tts_endpoint = [], tts_token = [], tts_voice_id = [], tts_tempo = 1,
     asr_silence_sec = 0, asr_speech_sec = 0, asr_max_sec = 0, asr_single = True, bargein_enabled = True,
     bargein_min_words = 3, filler_enabled_b = False, filler_mode = ''short'', filler_intent_url = [],
     filler_intent_ms = 0, outbound_prefix = ''3323'', b_version = 1, b_created = 0, b_updated = 0\<rparr>"

definition demo_originate :: originate_opts where
  "demo_originate = \<lparr>oo_phone = ''0971'', oo_caller = [], oo_bot = Some demo_bot,
     oo_custom = [''lead_id'' \<mapsto> VStr ''L1'']\<rparr>"

definition demo_pending :: outbound where
  "demo_pending = snd (originate_begin True None ''u1'' demo_originate \<lparr>ob_pending = Map.empty, ob_sessions = {}\<rparr>)"

lemma demo_pending_lookup:
  "pend_lookup demo_pending ''u1'' = Some \<lparr>pend_phone = ''33230971'', pend_scenario = ''bs'',
     pend_custom = [''lead_id'' \<mapsto> VStr ''L1''], pend_bot = demo_bot, was_answered = False\<rparr>"
  "ob_sessions demo_pending = {}"
  by (simp_all add: demo_pending_def originate_begin_def demo_originate_def pending_calls.lookup_store
      dial_number_def has_prefix_def demo_bot_def pend_store_def pend_lookup_def Let_def)

theorem orderly_call_witness:
  "snd (ob_run [EvAnswer ''u1'' 5, EvRunBegins ''u1'', EvHangup ''u1'' ''NORMAL_CLEARING'', EvRunEnds ''u1''] demo_pending) =
     [CbAnswered ''u1'', StartRun (answer_opts ''u1'' 5 (the (pend_lookup demo_pending ''u1''))),
      CancelSession ''u1'', CbEnded ''u1'' StatusCompleted []]"
  using orderly_call [of "''u1''" demo_pending, OF _ demo_pending_lookup(1)] demo_pending_lookup by simp

text \<open>A lead that is not picked up is recorded as failed, not as no answer: its hangup is reported while
  the originate call is still waiting, when no lead carries the call id yet, so the report changes
  nothing, and the originate error that follows marks the lead failed.\<close>

theorem no_answer_lost:
  assumes "u \<noteq> []" and "pend_lookup ob u = Some pc" and "\<not> was_answered pc" and "u \<notin> ob_sessions ob"
    and "\<forall>l\<in>set (leads c). call_uuid l \<noteq> u" and "i < length (leads c)"
  shows "snd (on_hangup u ''NO_ANSWER'' ob) = [CbEnded u StatusNoAnswer ''NO_ANSWER''] \<and>
    campaign_callback now (CbEnded u StatusNoAnswer ''NO_ANSWER'') c = c \<and>
    lead_status (leads (upd_lead i (fail_lead now e) (campaign_callback now (CbEnded u StatusNoAnswer ''NO_ANSWER'') c)) ! i)
      = StatusFailed"
  using assms
  by (simp add: on_hangup_def campaign_callback_def callback_unknown classify_hangup_def upd_lead_nth)

theorem no_answer_lost_witness:
  "lead_status (leads (upd_lead 0 (fail_lead 9 ''-ERR NO_ANSWER'')
     (campaign_callback 9 (CbEnded ''u1'' StatusNoAnswer ''NO_ANSWER'') (camp demo_calling))) ! 0) = StatusFailed"
proof -
  have c: "\<forall>l\<in>set (leads (camp demo_calling)). call_uuid l \<noteq> ''u1''" "0 < length (leads (camp demo_calling))"
    by (simp_all add: demo_calling_def upd_lead_def start_lead_def demo_fields new_lead_def)
  show ?thesis
    by (rule no_answer_lost [OF _ demo_pending_lookup(1) _ _ c, THEN conjunct2, THEN conjunct2])
       (simp_all add: demo_pending_lookup)
qed

text \<open>The result of an originate that FreeSWITCH reports before the waiter is registered is dropped: the
  waiter then finds nothing in its channel and runs into its 60 second timeout, while the same result
  reported after the registration is delivered.\<close>

theorem early_job_event_lost:
  assumes "j \<notin> waiting b" and "j \<noteq> []"
  shows "delivered (register_job j (job_event j body b)) j = None \<and>
    delivered (job_event j body (register_job j b)) j = Some body"
  using assms by (simp add: register_job_def job_event_def)

theorem early_job_event_lost_witness:
  "delivered (register_job ''j'' (job_event ''j'' ''-ERR'' \<lparr>waiting = {}, delivered = Map.empty\<rparr>)) ''j'' = None"
  using early_job_event_lost [of "''j''" "\<lparr>waiting = {}, delivered = Map.empty\<rparr>" "''-ERR''"] by simp

end
