(* ===== verification/ApiDial.thy ===== *)
theory ApiDial
  imports BotStore AuditLog ApiCalls Outbound
begin

text \<open>
  Dialling through the API: one call (\<open>internal/api/originate.go\<close>) and campaigns
  (\<open>internal/api/campaigns.go\<close>).
\<close>

section \<open>Choosing the bot\<close>

text \<open>Which bot a request names: by id, or by slug within a tenant, with the configured defaults.\<close>

record bot_choice =
  bc_id :: gostring
  bc_slug :: gostring
  bc_scenario :: gostring
  bc_tenant :: gostring

definition bot_by_slugs :: "gostring \<Rightarrow> gostring \<Rightarrow> bot_config option query" where
  "bot_by_slugs ts bs d =
     (case get_tenant_by_slug ts d of
        (Inl e, d) \<Rightarrow> (Inl e, d)
      | (Inr None, d) \<Rightarrow> (Inr None, d)
      | (Inr (Some t), d) \<Rightarrow> get_bot_by_slug (t_id t) bs d)"

text \<open>For one call: an unparsable id is an error, missing slugs are no bot.\<close>

definition resolve_dial_bot :: "uuid_parser \<Rightarrow> gostring \<Rightarrow> bot_choice \<Rightarrow> bot_config option query" where
  "resolve_dial_bot up default_tenant c d =
     (if bc_id c \<noteq> [] then
        (case up (bc_id c) of None \<Rightarrow> (Inl (QueryErr ''invalid UUID''), d) | Some i \<Rightarrow> get_bot_by_id i d)
      else if bc_slug c = [] then (Inr None, d)
      else let ts = (if bc_tenant c = [] then default_tenant else bc_tenant c) in
        if ts = [] then (Inr None, d) else bot_by_slugs ts (bc_slug c) d)"

text \<open>For a campaign: missing slugs and an unknown tenant are errors.\<close>

definition resolve_campaign_bot :: "uuid_parser \<Rightarrow> gostring \<Rightarrow> gostring \<Rightarrow> bot_choice \<Rightarrow> bot_config option query" where
  "resolve_campaign_bot up default_tenant default_bot c d =
     (if bc_id c \<noteq> [] then
        (case up (bc_id c) of None \<Rightarrow> (Inl (QueryErr ''bot_id''), d) | Some i \<Rightarrow> get_bot_by_id i d)
      else
        let ts = (if bc_tenant c = [] then default_tenant else bc_tenant c);
            bs = (if bc_slug c \<noteq> [] then bc_slug c else if bc_scenario c \<noteq> [] then bc_scenario c else default_bot)
        in if ts = [] \<or> bs = [] then (Inl (QueryErr ''bot_id or (tenant_slug + bot_slug) required''), d)
           else case get_tenant_by_slug ts d of
             (Inl e, d) \<Rightarrow> (Inl e, d)
           | (Inr None, d) \<Rightarrow> (Inl (QueryErr ''tenant not found''), d)
           | (Inr (Some t), d) \<Rightarrow> get_bot_by_slug (t_id t) bs d)"

section \<open>One call\<close>

record dial_req =
  dr_choice :: bot_choice
  dr_phone :: gostring
  dr_caller :: gostring
  dr_name :: gostring
  dr_lead :: gostring

definition dial_custom :: "dial_req \<Rightarrow> (gostring \<rightharpoonup> goval)" where
  "dial_custom q =
     (let m = (if dr_name q \<noteq> [] then [''name'' \<mapsto> VStr (dr_name q)] else Map.empty)
      in if dr_lead q \<noteq> [] then m(''lead_id'' \<mapsto> VStr (dr_lead q)) else m)"

text \<open>
  \<open>perr\<close> and \<open>esl\<close> tell how the providers of a bot and the command of an id end; \<open>uuid\<close> is the new
  call's.  The reply has the id; the calls of the (absent) callbacks are dropped.
\<close>

definition h_originate ::
  "uuid_parser \<Rightarrow> gostring \<Rightarrow> gostring \<Rightarrow> (bot_config \<Rightarrow> gostring option) \<Rightarrow> gostring \<Rightarrow> (gostring \<times> gostring \<Rightarrow> gostring option) \<Rightarrow>
   ctx \<Rightarrow> dial_req result \<Rightarrow> db \<times> outbound \<Rightarrow> gostring reply \<times> db \<times> outbound"
where
  "h_originate up default_tenant default_caller perr uuid esl x body s =
     (case x_id x of
        None \<Rightarrow> (Status 401, s)
      | Some i \<Rightarrow>
         (case body of
            Inl _ \<Rightarrow> (Status 400, s)
          | Inr q \<Rightarrow>
             if dr_phone q = [] then (Status 400, s)
             else (case resolve_dial_bot up default_tenant (dr_choice q) (fst s) of
               (Inl _, d) \<Rightarrow> (Status 400, d, snd s)
             | (Inr None, d) \<Rightarrow> (Status 404, d, snd s)
             | (Inr (Some b), d) \<Rightarrow>
                if \<not> is_platform_admin i \<and> i_tenant i \<noteq> Some (b_tenant b) then (Status 403, d, snd s)
                else
                  (case originate_begin True (perr b) uuid
                      \<lparr>oo_phone = dr_phone q, oo_caller = (if dr_caller q = [] then default_caller else dr_caller q),
                       oo_bot = Some b, oo_custom = dial_custom q\<rparr> (snd s) of
                     (Inl _, ob) \<Rightarrow> (Status 500, d, ob)
                   | (Inr cmd, ob) \<Rightarrow>
                      (case originate_end uuid (esl cmd) ob of
                         (Inl _, ob, _) \<Rightarrow> (Status 500, d, ob)
                       | (Inr u, ob, _) \<Rightarrow> (Body 202 u, d, ob))))))"

section \<open>Campaigns\<close>

text \<open>The form: bot, caller id, the text of the number of parallel calls, and the rows of the file, if there is one.\<close>

record campaign_req =
  ca_choice :: bot_choice
  ca_caller :: gostring
  ca_ccu :: gostring
  ca_file :: "csv_reads option"

definition parse_ccu :: "gostring \<Rightarrow> int option" where
  "parse_ccu v =
     (if v = [] then Some 1
      else case atoi v of None \<Rightarrow> None | Some n \<Rightarrow> if n \<le> 0 then None else Some n)"

definition default_caller_id :: "gostring \<Rightarrow> gostring" where
  "default_caller_id s = (if s = [] then ''callbot'' else s)"

text \<open>\<open>bound\<close>: the originate function is wired; \<open>Inl\<close>: the form cannot be parsed.  \<open>lo\<close> as in the file parser.\<close>

definition h_create_campaign ::
  "uuid_parser \<Rightarrow> (nat \<Rightarrow> nat) \<Rightarrow> gostring \<Rightarrow> gostring \<Rightarrow> gostring \<Rightarrow> bool \<Rightarrow> time \<Rightarrow> campaign_req result \<Rightarrow> db \<times> manager \<Rightarrow>
     (gostring \<times> nat) reply \<times> db \<times> manager"
where
  "h_create_campaign up lo default_tenant default_bot default_caller bound now body s =
     (if \<not> bound then (Status 503, s)
      else case body of
        Inl _ \<Rightarrow> (Status 400, s)
      | Inr q \<Rightarrow>
         (case resolve_campaign_bot up default_tenant default_bot (ca_choice q) (fst s) of
            (Inl _, d) \<Rightarrow> (Status 400, d, snd s)
          | (Inr None, d) \<Rightarrow> (Status 404, d, snd s)
          | (Inr (Some b), d) \<Rightarrow>
             (case parse_ccu (ca_ccu q) of
                None \<Rightarrow> (Status 400, d, snd s)
              | Some n \<Rightarrow>
                 (case ca_file q of
                    None \<Rightarrow> (Status 400, d, snd s)
                  | Some rows \<Rightarrow>
                     (case parse_csv lo rows of
                        Inl _ \<Rightarrow> (Status 400, d, snd s)
                      | Inr ls \<Rightarrow>
                         if ls = [] then (Status 400, d, snd s)
                         else let (cid, m) = campaign_create now
                             \<lparr>o_scenario = b_slug b,
                              o_caller_id = (if ca_caller q = [] then default_caller_id default_caller else ca_caller q),
                              o_ccu = n, o_leads = ls, o_rate = 0\<rparr> (snd s)
                           in (Body 201 (cid, length ls), d, m))))))"

text \<open>An entry of the list, with the rollup of its campaign.\<close>

record campaign_entry =
  ce_id :: gostring
  ce_status :: gostring
  ce_scenario :: gostring
  ce_caller :: gostring
  ce_ccu :: int
  ce_stats :: stats
  ce_created :: time

definition h_list_campaigns :: "gostring list \<Rightarrow> manager \<Rightarrow> campaign_entry list reply" where
  "h_list_campaigns order m =
     Body 200 (map (\<lambda>c. \<lparr>ce_id = camp_id c, ce_status = camp_status c, ce_scenario = scenario c, ce_caller = caller_id c,
       ce_ccu = ccu c, ce_stats = camp_stats c, ce_created = created_at c\<rparr>) (campaign_list order m))"

definition h_get_campaign :: "gostring \<Rightarrow> manager \<Rightarrow> (campaign \<times> stats) reply" where
  "h_get_campaign cid m =
     (case campaign_get cid m of None \<Rightarrow> Status 404 | Some c \<Rightarrow> Body 200 (c, camp_stats c))"

definition h_cancel_campaign :: "gostring \<Rightarrow> manager \<Rightarrow> gostring reply \<times> manager" where
  "h_cancel_campaign cid m =
     (let (ok, m') = campaign_cancel cid m in if ok then (Body 200 cid, m') else (Status 404, m'))"

datatype campaign_route = RCGet gostring | RCCancel gostring

text \<open>\<open>item\<close>: what follows \<open>/api/v1/campaigns/\<close>.\<close>

definition campaign_route_of :: "gostring \<Rightarrow> gostring \<Rightarrow> nat + campaign_route" where
  "campaign_route_of meth rest =
     (if rest = [] then Inl 404
      else case split2 CHR ''/'' rest of
        [cid, sub] \<Rightarrow>
          if sub = ''cancel'' then (if meth = ''POST'' then Inr (RCCancel cid) else Inl 405) else Inl 404
      | parts \<Rightarrow> if meth = ''GET'' then Inr (RCGet (hd parts)) else Inl 405)"

section \<open>Properties\<close>

lemma h_originate_accepted:
  assumes "h_originate up dt dc perr uuid esl x body s = (Body 202 u, d', ob')"
  obtains i q b where "x_id x = Some i" "body = Inr q" "is_platform_admin i \<or> i_tenant i = Some (b_tenant b)"
    "u = uuid" "ob' = pend_store uuid \<lparr>pend_phone = dial_number (outbound_prefix b) (dr_phone q), pend_scenario = b_slug b,
       pend_custom = dial_custom q, pend_bot = b, was_answered = False\<rparr> (snd s)"
  using assms that
  by (auto simp: h_originate_def originate_begin_def originate_end_def Let_def
      split: option.splits sum.splits if_splits prod.splits)

text \<open>Dialling one call is confined to the caller's tenant: an accepted request leaves the call pending for a bot of
  that tenant (or the caller is a platform administrator), under the dialled number.  Starting a campaign is not: the
  handler never looks at the caller, so that a well-formed file is accepted for any bot, and all its leads are taken on.\<close>

theorem campaigns_not_scoped:
  shows "(h_originate up dt dc perr uuid esl x body s = (Body 202 u, d', ob') \<longrightarrow>
       (\<exists>i pc. x_id x = Some i \<and> pend_lookup ob' u = Some pc \<and>
          (is_platform_admin i \<or> i_tenant i = Some (b_tenant (pend_bot pc))))) \<and>
    (resolve_campaign_bot up dt db (ca_choice q) (fst s') = (Inr (Some b), d) \<and> parse_ccu (ca_ccu q) = Some n \<and>
     ca_file q = Some rows \<and> parse_csv lo rows = Inr ls \<and> ls \<noteq> [] \<longrightarrow>
       (\<exists>cid m c. h_create_campaign up lo dt db dc True now (Inr q) s' = (Body 201 (cid, length ls), d, m) \<and>
          campaign_get cid m = Some c \<and> leads c = ls \<and> ccu c = n \<and> camp_status c = ''running''))"
proof (intro conjI impI)
  assume "h_originate up dt dc perr uuid esl x body s = (Body 202 u, d', ob')"
  then show "\<exists>i pc. x_id x = Some i \<and> pend_lookup ob' u = Some pc \<and>
      (is_platform_admin i \<or> i_tenant i = Some (b_tenant (pend_bot pc)))"
    by (rule h_originate_accepted) (auto simp: pend_lookup_def pend_store_def)
next
  assume a: "resolve_campaign_bot up dt db (ca_choice q) (fst s') = (Inr (Some b), d) \<and> parse_ccu (ca_ccu q) = Some n \<and>
     ca_file q = Some rows \<and> parse_csv lo rows = Inr ls \<and> ls \<noteq> []"
  then have "0 < n" by (auto simp: parse_ccu_def split: if_splits option.splits)
  with a show "\<exists>cid m c. h_create_campaign up lo dt db dc True now (Inr q) s' = (Body 201 (cid, length ls), d, m) \<and>
      campaign_get cid m = Some c \<and> leads c = ls \<and> ccu c = n \<and> camp_status c = ''running''"
    by (auto simp: h_create_campaign_def campaign_create_def Let_def campaign_get_def fill_opts_def)
qed

definition demo_dial_req :: dial_req where
  "demo_dial_req = \<lparr>dr_choice = \<lparr>bc_id = ''b1'', bc_slug = [], bc_scenario = [], bc_tenant = []\<rparr>, dr_phone = ''0900'', dr_caller = [],
      dr_name = [], dr_lead = []\<rparr>"

definition demo_dialer :: ctx where
  "demo_dialer = \<lparr>x_id = Some \<lparr>i_user = ''u1'', i_name = ''tu'', i_role = ''tenant_user'', i_tenant = Some ''t1'',
      i_evaluator = False, i_bot_admin = False\<rparr>, x_ip = [], x_agent = [], x_now = 8, x_fresh = []\<rparr>"

definition demo_dial_db :: db where
  "demo_dial_db = \<lparr>faults = [], tenants = [\<lparr>t_id = ''t1'', t_slug = ''one'', t_name = ''One'', t_enabled = True\<rparr>], users = [],
      bots = [\<lparr>r_bot = demo_bot\<lparr>b_id := ''b1'', b_tenant := ''t1''\<rparr>, r_deleted = False\<rparr>], dids = [], calls = [], qcs = [],
      web_sessions = [], web_turns = [], audit_queue = [], audit_log = []\<rparr>"

theorem campaigns_not_scoped_witness:
  "\<exists>d ob pc. h_originate Some [] [] (\<lambda>_. None) ''c1'' (\<lambda>_. None) demo_dialer (Inr demo_dial_req)
      (demo_dial_db, \<lparr>ob_pending = Map.empty, ob_sessions = {}\<rparr>) = (Body 202 ''c1'', d, ob) \<and>
     pend_lookup ob ''c1'' = Some pc \<and> b_tenant (pend_bot pc) = ''t1''"
proof -
  let ?s = "(demo_dial_db, \<lparr>ob_pending = Map.empty, ob_sessions = {}\<rparr>)"
  have "\<exists>d ob. h_originate Some [] [] (\<lambda>_. None) ''c1'' (\<lambda>_. None) demo_dialer (Inr demo_dial_req) ?s = (Body 202 ''c1'', d, ob)"
    by (simp add: h_originate_def demo_dialer_def demo_dial_req_def resolve_dial_bot_def get_bot_by_id_def fetch_no_fault
        demo_dial_db_def live_bot_def first_row_def scan_bot_def originate_begin_def originate_end_def Let_def)
  then obtain d ob where o: "h_originate Some [] [] (\<lambda>_. None) ''c1'' (\<lambda>_. None) demo_dialer (Inr demo_dial_req) ?s = (Body 202 ''c1'', d, ob)"
    by blast
  from campaigns_not_scoped [THEN conjunct1, THEN mp, OF o] o show ?thesis
    by (auto simp: demo_dialer_def is_platform_admin_def)
qed

end
