(* ===== verification/EslConn.thy ===== *)
theory EslConn
  imports Outbound
begin

text \<open>
  \<open>internal/freeswitch/eventsocket.go\<close> and \<open>commands.go\<close>: the two connections to FreeSWITCH and the
  goroutines that keep them, the dispatch of events, and the commands.  The eventsocket library is not
  part of the repository; how its calls end are the steps of the model.
\<close>

section \<open>The connections\<close>

text \<open>Where the goroutine of \<open>maintainConnection\<close> is; a panic ends the process.\<close>

datatype maintain_pc = AtLoop | AtSubscribe | AtEvents | Panicked

text \<open>\<open>calls\<close>: the sends in progress, each on a connection it took before; \<open>reconn\<close>: the goroutines of \<open>reconnectAPI\<close>.\<close>

record esl =
  ev_conn :: bool
  api_conn :: bool
  maintain :: maintain_pc
  api_calls :: nat
  reconn :: nat

definition new_esl :: esl where
  "new_esl = \<lparr>ev_conn = False, api_conn = False, maintain = AtLoop, api_calls = 0, reconn = 0\<rparr>"

datatype esl_ev =
  Connected | DialFailed | Subscribed | SubscribeFailed | ReadFailed | SendBegins | SendReturns | SendTimesOut
| Reconnected | ReconnectFailed | CloseCalled

text \<open>
  What changes the connections: \<open>Close\<close>, the time-out of a command, which starts \<open>reconnectAPI\<close>, and the
  outcome of that; a connection dialled too late is closed again.
\<close>

definition close_conns :: "esl \<Rightarrow> esl" where
  "close_conns s = s\<lparr>ev_conn := False, api_conn := False\<rparr>"

definition api_timed_out :: "esl \<Rightarrow> esl" where
  "api_timed_out s = s\<lparr>api_conn := False, reconn := Suc (reconn s)\<rparr>"

definition api_redialled :: "bool \<Rightarrow> esl \<Rightarrow> esl" where
  "api_redialled ok s = s\<lparr>reconn := reconn s - 1, api_conn := api_conn s \<or> ok\<rparr>"

definition read_error :: "esl \<Rightarrow> esl" where
  "read_error s = (if ev_conn s then (close_conns s)\<lparr>maintain := AtLoop\<rparr> else s\<lparr>maintain := Panicked\<rparr>)"

lemmas esl_ops = close_conns_def api_timed_out_def api_redialled_def read_error_def

text \<open>\<open>HandleEvents\<close> calls \<open>es.conn.Close()\<close> on a read error, without the lock: on a nil connection it panics.\<close>

inductive esl_step :: "esl_ev \<Rightarrow> esl \<Rightarrow> esl \<Rightarrow> bool" where
  connected: "maintain s = AtLoop \<Longrightarrow> \<not> ev_conn s \<Longrightarrow>
     esl_step Connected s (s\<lparr>ev_conn := True, api_conn := True, maintain := AtSubscribe\<rparr>)"
| dial_failed: "maintain s = AtLoop \<Longrightarrow> \<not> ev_conn s \<Longrightarrow> esl_step DialFailed s s"
| subscribed: "maintain s = AtSubscribe \<Longrightarrow> ev_conn s \<Longrightarrow> esl_step Subscribed s (s\<lparr>maintain := AtEvents\<rparr>)"
| subscribe_failed: "maintain s = AtSubscribe \<Longrightarrow> ev_conn s \<Longrightarrow>
     esl_step SubscribeFailed s (s\<lparr>ev_conn := False, api_conn := False, maintain := AtLoop\<rparr>)"
| subscribe_nil: "maintain s = AtSubscribe \<Longrightarrow> \<not> ev_conn s \<Longrightarrow> esl_step SubscribeFailed s (s\<lparr>maintain := Panicked\<rparr>)"
| read_failed: "maintain s = AtEvents \<Longrightarrow> esl_step ReadFailed s (read_error s)"
| send_begins: "maintain s \<noteq> Panicked \<Longrightarrow> api_conn s \<Longrightarrow> esl_step SendBegins s (s\<lparr>api_calls := Suc (api_calls s)\<rparr>)"
| send_returns: "maintain s \<noteq> Panicked \<Longrightarrow> api_calls s = Suc n \<Longrightarrow> esl_step SendReturns s (s\<lparr>api_calls := n\<rparr>)"
| send_times_out: "maintain s \<noteq> Panicked \<Longrightarrow> api_calls s = Suc n \<Longrightarrow>
     esl_step SendTimesOut s (api_timed_out (s\<lparr>api_calls := n\<rparr>))"
| reconnected: "maintain s \<noteq> Panicked \<Longrightarrow> reconn s = Suc n \<Longrightarrow> esl_step Reconnected s (api_redialled True s)"
| reconnect_failed: "maintain s \<noteq> Panicked \<Longrightarrow> reconn s = Suc n \<Longrightarrow> esl_step ReconnectFailed s (api_redialled False s)"
| close_called: "maintain s \<noteq> Panicked \<Longrightarrow> esl_step CloseCalled s (close_conns s)"

inductive_cases esl_stepE: "esl_step e s t"

inductive esl_run :: "esl_ev list \<Rightarrow> esl \<Rightarrow> esl \<Rightarrow> bool" where
  esl_nil: "esl_run [] s s"
| esl_cons: "esl_step e s t \<Longrightarrow> esl_run es t u \<Longrightarrow> esl_run (e # es) s u"

text \<open>What \<open>SendAPI\<close> returns before it waits: the error of a missing connection.\<close>

definition send_refused :: "esl \<Rightarrow> gostring option" where
  "send_refused s = (if api_conn s then None else Some ''FreeSWITCH not connected'')"

text \<open>How the wait for a reply ends: the body of the reply, which may be missing, an error, or the time-out.\<close>

datatype send_outcome = Replied "gostring option" | SendErr gostring | NoReply

definition send_api :: "gostring \<Rightarrow> send_outcome \<Rightarrow> esl \<Rightarrow> gostring result \<times> esl" where
  "send_api cmd out s =
     (case send_refused s of Some e \<Rightarrow> (Inl e, s) | None \<Rightarrow>
      (case out of
         Replied body \<Rightarrow> (Inr (case body of None \<Rightarrow> [] | Some b \<Rightarrow> b), s)
       | SendErr e \<Rightarrow> (Inl (''api '' @ cmd @ '': '' @ e), s)
       | NoReply \<Rightarrow> (Inl (''api timeout: '' @ cmd), api_timed_out s)))"

text \<open>\<open>SendBgAPI\<close> waits without a limit; its result is the job id in the header of the reply.\<close>

definition send_bg_api :: "gostring \<Rightarrow> gostring option result \<Rightarrow> esl \<Rightarrow> gostring result" where
  "send_bg_api cmd reply s =
     (case send_refused s of Some e \<Rightarrow> Inl e | None \<Rightarrow>
      (case reply of
         Inl e \<Rightarrow> Inl (''bgapi '' @ cmd @ '': '' @ e)
       | Inr header \<Rightarrow> Inr (case header of None \<Rightarrow> [] | Some j \<Rightarrow> j)))"

section \<open>Events\<close>

record dispatcher =
  ds_handlers :: "gostring \<Rightarrow> nat list"
  ds_pre :: bool

definition register_handler :: "gostring \<Rightarrow> nat \<Rightarrow> dispatcher \<Rightarrow> dispatcher" where
  "register_handler ev h ds = ds\<lparr>ds_handlers := (ds_handlers ds)(ev := ds_handlers ds ev @ [h])\<rparr>"

datatype dispatch_fx = Deliver gostring gostring | PreProcess | GoHandler nat

text \<open>\<open>processEvent\<close>: name, job id and body of the event; the effects in order.\<close>

definition process_event :: "dispatcher \<Rightarrow> gostring \<Rightarrow> gostring \<Rightarrow> gostring \<Rightarrow> dispatch_fx list" where
  "process_event ds ev job body =
     (if ev = ''BACKGROUND_JOB'' then (if job \<noteq> [] then [Deliver job body] else [])
      else (if ds_pre ds then [PreProcess] else []) @ map GoHandler (ds_handlers ds ev))"

text \<open>The job id in the reply to \<open>bgapi\<close>: its header, or what follows the marker in the reply text.\<close>

fun after_marker :: "gostring \<Rightarrow> gostring \<Rightarrow> gostring option" where
  "after_marker m s =
     (if has_prefix s m then Some (drop (length m) s)
      else case s of [] \<Rightarrow> None | _ # r \<Rightarrow> after_marker m r)"

declare after_marker.simps [simp del]

definition job_uuid_of :: "gostring \<Rightarrow> gostring \<Rightarrow> gostring" where
  "job_uuid_of header reply_text =
     (if header \<noteq> [] then header
      else case after_marker ''Job-UUID: '' reply_text of None \<Rightarrow> [] | Some r \<Rightarrow> trim_space r)"

definition subscriptions :: "gostring list" where
  "subscriptions = map (\<lambda>e. ''event plain '' @ e)
     [''CHANNEL_CREATE'', ''CHANNEL_PARK'', ''CHANNEL_ANSWER'', ''CHANNEL_HANGUP'', ''CHANNEL_HANGUP_COMPLETE'',
      ''PLAYBACK_STOP'', ''BACKGROUND_JOB'']"

section \<open>Commands\<close>

text \<open>The commands of an operation in order; the result of the last one is the operation's.\<close>

definition start_recording :: "gostring \<Rightarrow> gostring \<Rightarrow> gostring list" where
  "start_recording u f =
     [''uuid_setvar '' @ u @ '' record_read_only true'', ''uuid_setvar '' @ u @ '' record_stereo false'',
      ''uuid_setvar '' @ u @ '' enable_file_write_buffering false'', ''uuid_setvar '' @ u @ '' timer_name soft'',
      ''uuid_record '' @ u @ '' start '' @ f @ '' 8000 1'']"

definition start_wav_recording :: "gostring \<Rightarrow> gostring \<Rightarrow> gostring list" where
  "start_wav_recording u f = [''uuid_record '' @ u @ '' start '' @ f]"

definition start_stereo_recording :: "gostring \<Rightarrow> gostring \<Rightarrow> gostring list" where
  "start_stereo_recording u f =
     [''uuid_setvar '' @ u @ '' record_read_only false'', ''uuid_setvar '' @ u @ '' RECORD_STEREO true'',
      ''uuid_record '' @ u @ '' start '' @ f]"

definition stop_recording :: "gostring \<Rightarrow> gostring \<Rightarrow> gostring list" where
  "stop_recording u f = [''uuid_record '' @ u @ '' stop '' @ f]"

definition answer_cmd :: "gostring \<Rightarrow> gostring list" where "answer_cmd u = [''uuid_answer '' @ u]"
definition play_audio :: "gostring \<Rightarrow> gostring \<Rightarrow> gostring list" where "play_audio u f = [''uuid_broadcast '' @ u @ '' '' @ f]"
definition stop_playback :: "gostring \<Rightarrow> gostring list" where "stop_playback u = [''uuid_break '' @ u @ '' all'']"
definition end_call :: "gostring \<Rightarrow> gostring list" where "end_call u = [''uuid_kill '' @ u]"

section \<open>Lemmas\<close>

lemma esl_run_keeps:
  assumes "esl_run es s t" "P s" "\<And>e x y. e \<in> set es \<Longrightarrow> esl_step e x y \<Longrightarrow> P x \<Longrightarrow> P y"
  shows "P t"
  using assms by (induction rule: esl_run.induct) auto

text \<open>The API channel is down, nobody is dialling it, and no send is left that would.\<close>

definition api_down :: "esl \<Rightarrow> bool" where
  "api_down s \<longleftrightarrow> maintain s = AtEvents \<and> \<not> api_conn s \<and> api_calls s = 0 \<and> reconn s = 0"

lemma api_down_step: "esl_step e s t \<Longrightarrow> api_down s \<Longrightarrow> e \<noteq> ReadFailed \<Longrightarrow> api_down t"
  by (erule esl_stepE) (auto simp: api_down_def esl_ops)

text \<open>A command that is sent is one of the sends of the step relation, from its start to its end.\<close>

lemma send_api_run:
  assumes "maintain s \<noteq> Panicked" "api_conn s"
  shows "esl_run [SendBegins, if out = NoReply then SendTimesOut else SendReturns] s (snd (send_api cmd out s))"
proof -
  let ?s1 = "s\<lparr>api_calls := Suc (api_calls s)\<rparr>"
  have "esl_step SendBegins s ?s1" using assms by (rule send_begins)
  moreover have "esl_step (if out = NoReply then SendTimesOut else SendReturns) ?s1 (snd (send_api cmd out s))"
    using send_times_out [of ?s1 "api_calls s"] send_returns [of ?s1 "api_calls s"] assms
    by (cases out) (simp_all add: send_api_def send_refused_def api_timed_out_def)
  ultimately show ?thesis by (blast intro: esl_nil esl_cons)
qed

text \<open>A closed event connection under the reader.\<close>

definition closed_under_reader :: "esl \<Rightarrow> bool" where
  "closed_under_reader s \<longleftrightarrow> (maintain s = AtEvents \<and> \<not> ev_conn s) \<or> maintain s = Panicked"

lemma closed_step: "esl_step e s t \<Longrightarrow> closed_under_reader s \<Longrightarrow> closed_under_reader t"
  by (erule esl_stepE) (auto simp: closed_under_reader_def esl_ops)

section \<open>Properties\<close>

text \<open>Once the API channel was lost to a time-out and the one attempt to dial it again failed, it stays down and every
  command is refused for as long as the event connection lives, although events keep arriving: nothing but the loss of
  the event connection makes the program dial the API channel again.\<close>

theorem api_channel_stays_down:
  assumes "api_down s" "esl_run es s t" "ReadFailed \<notin> set es"
  shows "api_down t \<and> send_refused t = Some ''FreeSWITCH not connected''"
proof -
  have "api_down t" using assms(2,1)
    by (rule esl_run_keeps) (use assms(3) api_down_step in blast)
  then show ?thesis by (simp add: send_refused_def api_down_def)
qed

theorem api_channel_stays_down_witness:
  "\<exists>s. esl_run [Connected, Subscribed, SendBegins, SendTimesOut, ReconnectFailed] new_esl s \<and> api_down s \<and>
     send_refused s = Some ''FreeSWITCH not connected''"
proof -
  let ?s = "\<lparr>ev_conn = True, api_conn = False, maintain = AtEvents, api_calls = 0, reconn = 0\<rparr>"
  have "api_down ?s" by (simp add: api_down_def)
  moreover have "esl_run [Connected, Subscribed, SendBegins, SendTimesOut, ReconnectFailed] new_esl ?s"
  proof -
    have "esl_step Connected new_esl \<lparr>ev_conn = True, api_conn = True, maintain = AtSubscribe, api_calls = 0, reconn = 0\<rparr>"
      using connected [of new_esl] by (simp add: new_esl_def)
    moreover have "esl_step Subscribed \<lparr>ev_conn = True, api_conn = True, maintain = AtSubscribe, api_calls = 0, reconn = 0\<rparr>
        \<lparr>ev_conn = True, api_conn = True, maintain = AtEvents, api_calls = 0, reconn = 0\<rparr>"
      using subscribed [of "\<lparr>ev_conn = True, api_conn = True, maintain = AtSubscribe, api_calls = 0, reconn = 0\<rparr>"] by simp
    moreover have "esl_step SendBegins \<lparr>ev_conn = True, api_conn = True, maintain = AtEvents, api_calls = 0, reconn = 0\<rparr>
        \<lparr>ev_conn = True, api_conn = True, maintain = AtEvents, api_calls = 1, reconn = 0\<rparr>"
      using send_begins [of "\<lparr>ev_conn = True, api_conn = True, maintain = AtEvents, api_calls = 0, reconn = 0\<rparr>"] by simp
    moreover have "esl_step SendTimesOut \<lparr>ev_conn = True, api_conn = True, maintain = AtEvents, api_calls = 1, reconn = 0\<rparr>
        \<lparr>ev_conn = True, api_conn = False, maintain = AtEvents, api_calls = 0, reconn = 1\<rparr>"
      using send_times_out [of "\<lparr>ev_conn = True, api_conn = True, maintain = AtEvents, api_calls = 1, reconn = 0\<rparr>" 0] by (simp add: esl_ops)
    moreover have "esl_step ReconnectFailed \<lparr>ev_conn = True, api_conn = False, maintain = AtEvents, api_calls = 0, reconn = 1\<rparr> ?s"
      using reconnect_failed [of "\<lparr>ev_conn = True, api_conn = False, maintain = AtEvents, api_calls = 0, reconn = 1\<rparr>" 0] by (simp add: esl_ops)
    ultimately show ?thesis by (blast intro: esl_nil esl_cons)
  qed
  ultimately show ?thesis using api_channel_stays_down [OF _ esl_nil [of ?s]] by force
qed

text \<open>Closing the sockets while events are being read ends in a panic: the reader's read can only fail on the closed
  connection, and then it closes what is no longer there; until then no step brings a connection back under it.\<close>

theorem close_panics_reader:
  assumes "maintain s = AtEvents" "esl_run (CloseCalled # es) s t"
  shows "maintain t = Panicked \<or>
    (maintain t = AtEvents \<and> \<not> ev_conn t \<and> (\<forall>u. esl_step ReadFailed t u \<longrightarrow> maintain u = Panicked))"
proof -
  from assms(2) obtain s1 where s1: "esl_step CloseCalled s s1" "esl_run es s1 t" by cases auto
  have "closed_under_reader s1" using s1(1) assms(1) by (auto elim!: esl_stepE simp: closed_under_reader_def esl_ops)
  with s1(2) have "closed_under_reader t" by (rule esl_run_keeps) (auto dest: closed_step)
  then show ?thesis by (auto simp: closed_under_reader_def esl_ops elim!: esl_stepE)
qed

theorem close_panics_reader_witness:
  "maintain \<lparr>ev_conn = False, api_conn = False, maintain = AtEvents, api_calls = 0, reconn = 0\<rparr> = Panicked \<or>
   (\<forall>u. esl_step ReadFailed \<lparr>ev_conn = False, api_conn = False, maintain = AtEvents, api_calls = 0, reconn = 0\<rparr> u \<longrightarrow> maintain u = Panicked)"
proof -
  let ?s = "\<lparr>ev_conn = True, api_conn = True, maintain = AtEvents, api_calls = 0, reconn = 0\<rparr>"
  have "esl_run [CloseCalled] ?s \<lparr>ev_conn = False, api_conn = False, maintain = AtEvents, api_calls = 0, reconn = 0\<rparr>"
    using esl_cons [OF close_called [of ?s] esl_nil] by (simp add: esl_ops)
  from close_panics_reader [OF _ this] show ?thesis by simp
qed

end
