(* ===== verification/Paths.thy ===== *)
theory Paths
  imports GoStrings
begin

text \<open>
  What the source uses of Go's \<open>path/filepath\<close> on Unix and of \<open>strings.Join\<close>: lexical cleaning
  of slash-separated paths, joining and the directory of a path.  The lemmas say what cleaning does
  to the paths the program builds: a cleaned rooted path has no empty, \<open>.\<close> or \<open>..\<close> element.
\<close>

section \<open>Cleaning\<close>

fun join_with :: "gostring \<Rightarrow> gostring list \<Rightarrow> gostring" where
  "join_with sep [] = []"
| "join_with sep [x] = x"
| "join_with sep (x # y # xs) = x @ sep @ join_with sep (y # xs)"

text \<open>The elements kept so far come last first.\<close>

fun clean_elems :: "bool \<Rightarrow> gostring list \<Rightarrow> gostring list \<Rightarrow> gostring list" where
  "clean_elems rooted acc [] = rev acc"
| "clean_elems rooted acc (e # es) =
     (if e = [] \<or> e = ''.'' then clean_elems rooted acc es
      else if e = ''..'' then
        (case acc of
           [] \<Rightarrow> clean_elems rooted (if rooted then [] else [e]) es
         | a # as \<Rightarrow> if a = ''..'' then clean_elems rooted (e # acc) es else clean_elems rooted as es)
      else clean_elems rooted (e # acc) es)"

definition is_rooted :: "gostring \<Rightarrow> bool" where
  "is_rooted p \<longleftrightarrow> has_prefix p ''/''"

definition clean_path :: "gostring \<Rightarrow> gostring" where
  "clean_path p =
     (let q = (if is_rooted p then ''/'' else []) @
              join_with ''/'' (clean_elems (is_rooted p) [] (split_byte CHR ''/'' p)) in
      if q = [] then ''.'' else q)"

definition join_path :: "gostring list \<Rightarrow> gostring" where
  "join_path es =
     (case dropWhile (\<lambda>e. e = []) es of [] \<Rightarrow> [] | fs \<Rightarrow> clean_path (join_with ''/'' fs))"

definition dir_path :: "gostring \<Rightarrow> gostring" where
  "dir_path p =
     clean_path (case last_index CHR ''/'' p of None \<Rightarrow> [] | Some i \<Rightarrow> take (i + 1) p)"

section \<open>Lemmas\<close>

text \<open>An element cleaning keeps.\<close>

definition plain_elem :: "gostring \<Rightarrow> bool" where
  "plain_elem e \<longleftrightarrow> e \<noteq> [] \<and> e \<noteq> ''.'' \<and> e \<noteq> ''..'' \<and> CHR ''/'' \<notin> set e"

lemma split_byte_plain: "c \<notin> set e \<Longrightarrow> split_byte c e = [e]"
  by (induction e) auto

lemma split_byte_append: "c \<notin> set e \<Longrightarrow> split_byte c (e @ c # s) = e # split_byte c s"
  by (induction e) auto

lemma split_byte_join:
  "es \<noteq> [] \<Longrightarrow> \<forall>e\<in>set es. c \<notin> set e \<Longrightarrow> split_byte c (join_with [c] es) = es"
  by (induction "[c]" es rule: join_with.induct) (simp_all add: split_byte_plain split_byte_append)

lemma split_byte_no_sep: "\<forall>e\<in>set (split_byte c s). c \<notin> set e"
  by (induction s) (auto split: list.splits)

lemma clean_elems_plain:
  "\<forall>e\<in>set es. plain_elem e \<Longrightarrow> clean_elems rooted acc es = rev acc @ es"
  by (induction es arbitrary: acc) (auto simp: plain_elem_def)

lemma clean_elems_rooted:
  "\<lbrakk>\<forall>e\<in>set acc. plain_elem e; \<forall>e\<in>set es. CHR ''/'' \<notin> set e\<rbrakk> \<Longrightarrow>
   \<forall>e\<in>set (clean_elems True acc es). plain_elem e"
proof (induction es arbitrary: acc)
  case (Cons e es)
  note ih = Cons.IH [rotated]
  have es: "\<forall>e\<in>set es. CHR ''/'' \<notin> set e" and sep: "CHR ''/'' \<notin> set e" using Cons.prems(2) by simp_all
  show ?case
  proof (cases "e = [] \<or> e = ''.'' \<or> e = ''..''")
    case True
    show ?thesis
    proof (cases acc)
      case Nil
      then show ?thesis using True ih [OF es, of "[]"] by auto
    next
      case 2: (Cons a as)
      have as: "\<forall>x\<in>set as. plain_elem x" and a: "a \<noteq> ''..''"
        using Cons.prems(1) 2 by (simp_all add: plain_elem_def)
      have "clean_elems True acc (e # es) = clean_elems True (if e = ''..'' then as else acc) es"
        using True 2 a by (elim disjE) simp_all
      then show ?thesis using ih [OF es as] ih [OF es Cons.prems(1)] by simp
    qed
  next
    case False
    then have "\<forall>x\<in>set (e # acc). plain_elem x" using Cons.prems(1) sep by (simp add: plain_elem_def)
    then have "\<forall>x\<in>set (clean_elems True (e # acc) es). plain_elem x" by (rule ih [OF es])
    moreover have "clean_elems True acc (e # es) = clean_elems True (e # acc) es" using False by simp
    ultimately show ?thesis by (simp only:)
  qed
qed simp

text \<open>A directory of the configuration: rooted and clean.\<close>

definition dir_of :: "gostring list \<Rightarrow> gostring" where
  "dir_of es = ''/'' @ join_with ''/'' es"

lemma split_dir_of: "\<forall>e\<in>set es. plain_elem e \<Longrightarrow> es \<noteq> [] \<Longrightarrow> split_byte CHR ''/'' (dir_of es) = [] # es"
  by (simp add: dir_of_def split_byte_join plain_elem_def)

lemma clean_dir_of: "\<forall>e\<in>set es. plain_elem e \<Longrightarrow> es \<noteq> [] \<Longrightarrow> clean_path (dir_of es) = dir_of es"
  by (simp add: clean_path_def is_rooted_def has_prefix_def split_dir_of clean_elems_plain)
     (simp add: dir_of_def has_prefix_def)

lemma join_with_append:
  "xs \<noteq> [] \<Longrightarrow> ys \<noteq> [] \<Longrightarrow> join_with s (xs @ ys) = join_with s xs @ s @ join_with s ys"
  by (induction s xs rule: join_with.induct) (auto simp: neq_Nil_conv)

lemma join_path_dir:
  assumes "\<forall>e\<in>set es. plain_elem e" "\<forall>f\<in>set fs. plain_elem f" "es \<noteq> []" "fs \<noteq> []"
  shows "join_path (dir_of es # fs) = dir_of (es @ fs)"
proof -
  have "join_with ''/'' (dir_of es # fs) = dir_of (es @ fs)"
    using assms by (cases fs) (simp_all add: dir_of_def join_with_append)
  then show ?thesis
    using assms clean_dir_of [of "es @ fs"] by (auto simp: join_path_def dir_of_def)
qed

text \<open>Cleaning a rooted path leaves a rooted path of plain elements.\<close>

lemma clean_rooted:
  assumes "is_rooted p"
  shows "\<exists>cs. (\<forall>c\<in>set cs. plain_elem c) \<and> clean_path p = dir_of cs"
proof (intro exI conjI)
  show "\<forall>c\<in>set (clean_elems True [] (split_byte CHR ''/'' p)). plain_elem c"
    by (rule clean_elems_rooted) (simp_all add: split_byte_no_sep)
  show "clean_path p = dir_of (clean_elems True [] (split_byte CHR ''/'' p))"
    using assms by (simp add: clean_path_def dir_of_def)
qed

lemma join_with_ne: "\<forall>e\<in>set es. plain_elem e \<Longrightarrow> es \<noteq> [] \<Longrightarrow> join_with ''/'' es \<noteq> []"
  by (cases "(''/'', es)" rule: join_with.cases) (auto simp: plain_elem_def)

lemma clean_slash_dir_of: "\<forall>e\<in>set es. plain_elem e \<Longrightarrow> clean_path (''/'' @ dir_of es) = dir_of es"
proof (cases "es = []")
  case True
  then show ?thesis by (simp add: clean_path_def dir_of_def is_rooted_def has_prefix_def)
next
  case False
  assume es: "\<forall>e\<in>set es. plain_elem e"
  have "split_byte CHR ''/'' (''/'' @ dir_of es) = [] # [] # es" using split_dir_of [OF es False] by simp
  then show ?thesis
    by (simp add: clean_path_def is_rooted_def has_prefix_def clean_elems_plain [OF es]) (simp add: dir_of_def)
qed

lemma join_path_single: "\<forall>e\<in>set es. plain_elem e \<Longrightarrow> es \<noteq> [] \<Longrightarrow> join_path [dir_of es, ''.''] = dir_of es"
proof -
  assume es: "\<forall>e\<in>set es. plain_elem e" "es \<noteq> []"
  have j: "join_with ''/'' (es @ [''.'']) = join_with ''/'' es @ ''/.''" using es by (simp add: join_with_append)
  have "split_byte CHR ''/'' (join_with ''/'' (es @ [''.''])) = es @ [''.'']"
    by (rule split_byte_join) (use es in \<open>auto simp: plain_elem_def\<close>)
  then have "split_byte CHR ''/'' (dir_of es @ ''/.'') = [] # es @ [''.'']" by (simp add: j dir_of_def)
  moreover have "clean_elems True [] (es @ [''.'']) = es" if "\<forall>e\<in>set es. plain_elem e" for es
  proof -
    have "clean_elems True acc (es @ [''.'']) = rev acc @ es" if "\<forall>e\<in>set es. plain_elem e" for acc es
      using that by (induction es arbitrary: acc) (auto simp: plain_elem_def)
    then show ?thesis using that by simp
  qed
  ultimately show ?thesis
    using es by (simp add: join_path_def clean_path_def is_rooted_def has_prefix_def dir_of_def)
qed

lemma join_with_head: "\<forall>e\<in>set es. plain_elem e \<Longrightarrow> es \<noteq> [] \<Longrightarrow> \<not> has_prefix (join_with ''/'' es) ''/''"
proof -
  assume es: "\<forall>e\<in>set es. plain_elem e" "es \<noteq> []"
  then obtain e r where e: "join_with ''/'' es = e @ r" "plain_elem e"
    by (cases "(''/'', es)" rule: join_with.cases) auto
  then obtain c cs where "e = c # cs" "c \<noteq> CHR ''/''" by (cases e) (auto simp: plain_elem_def)
  then show ?thesis using e(1) by (simp add: has_prefix_def)
qed

lemma join_with_last: "es \<noteq> [] \<Longrightarrow> \<exists>p. join_with s es = p @ last es"
proof (induction s es rule: join_with.induct)
  case (3 sep x y xs)
  then obtain p where "join_with sep (y # xs) = p @ last (y # xs)" by auto
  then have "join_with sep (x # y # xs) = (x @ sep @ p) @ last (x # y # xs)" by simp
  then show ?case by blast
qed simp_all

lemma plain_elem_last: "plain_elem e \<Longrightarrow> \<exists>q c. e = q @ [c] \<and> c \<noteq> CHR ''/''"
  by (cases e rule: rev_cases) (auto simp: plain_elem_def)

lemma join_path_rel: "\<forall>f\<in>set fs. plain_elem f \<Longrightarrow> fs \<noteq> [] \<Longrightarrow> join_path fs = join_with ''/'' fs"
proof -
  assume fs: "\<forall>f\<in>set fs. plain_elem f" "fs \<noteq> []"
  have "\<not> is_rooted (join_with ''/'' fs)" using join_with_head [OF fs] by (simp add: is_rooted_def)
  moreover have "split_byte CHR ''/'' (join_with ''/'' fs) = fs"
    by (rule split_byte_join) (use fs in \<open>auto simp: plain_elem_def\<close>)
  ultimately have "clean_path (join_with ''/'' fs) = join_with ''/'' fs"
    using clean_elems_plain [OF fs(1)] join_with_ne [OF fs] unfolding clean_path_def Let_def by simp
  moreover have "dropWhile (\<lambda>e. e = []) fs = fs" using fs by (cases fs) (auto simp: plain_elem_def)
  ultimately show ?thesis using fs(2) by (cases fs) (simp_all add: join_path_def)
qed

lemma join_path_nested:
  assumes "\<forall>e\<in>set es. plain_elem e" "es \<noteq> []" "\<forall>f\<in>set fs. plain_elem f" "fs \<noteq> []"
  shows "join_path [dir_of es, join_with ''/'' fs] = dir_of (es @ fs)"
proof -
  have "join_with ''/'' [dir_of es, join_with ''/'' fs] = dir_of (es @ fs)"
    using assms by (simp add: dir_of_def join_with_append)
  moreover have "clean_path (dir_of (es @ fs)) = dir_of (es @ fs)"
    by (rule clean_dir_of) (use assms in auto)
  ultimately show ?thesis by (simp add: join_path_def dir_of_def)
qed

end
