(* ===== verification/Config.thy ===== *)
theory Config
  imports Paths Complex_Main
begin

text \<open>
  \<open>config/config.go\<close>: the configuration record with its defaults, the file that is decoded over
  them and the environment variables that override both.  \<open>env\<close> is \<open>os.Getenv\<close> (the empty string
  for an unset variable); the YAML decoder is not part of the repository and is a parameter.  The
  standard library's \<open>ParseDuration\<close> and \<open>ParseBool\<close> are written out; the fraction of a duration,
  a float computation of the library, is exact here.
\<close>

section \<open>Parsing of values\<close>

definition parse_bool :: "gostring \<Rightarrow> bool option" where
  "parse_bool s =
     (if s \<in> {''1'', ''t'', ''T'', ''TRUE'', ''true'', ''True''} then Some True
      else if s \<in> {''0'', ''f'', ''F'', ''FALSE'', ''false'', ''False''} then Some False
      else None)"

definition is_digit :: "char \<Rightarrow> bool" where
  "is_digit c \<longleftrightarrow> 48 \<le> (of_char c :: nat) \<and> (of_char c :: nat) \<le> 57"

definition digit_val :: "char \<Rightarrow> nat" where
  "digit_val c = of_char c - 48"

text \<open>\<open>leadingInt\<close>: \<open>None\<close> when the number passes \<open>2 ^ 63\<close>.\<close>

fun leading_int :: "nat \<Rightarrow> gostring \<Rightarrow> (nat \<times> gostring) option" where
  "leading_int x [] = Some (x, [])"
| "leading_int x (c # s) =
     (if \<not> is_digit c then Some (x, c # s)
      else if 2 ^ 63 div 10 < x then None
      else let y = x * 10 + digit_val c in if 2 ^ 63 < y then None else leading_int y s)"

text \<open>\<open>leadingFraction\<close>: the digits, ten to their number, and the rest; digits past the range are skipped.\<close>

fun leading_fraction :: "bool \<Rightarrow> nat \<Rightarrow> nat \<Rightarrow> gostring \<Rightarrow> nat \<times> nat \<times> gostring" where
  "leading_fraction over x scale [] = (x, scale, [])"
| "leading_fraction over x scale (c # s) =
     (if \<not> is_digit c then (x, scale, c # s)
      else if over \<or> (2 ^ 63 - 1) div 10 < x then leading_fraction True x scale s
      else let y = x * 10 + digit_val c in
           if 2 ^ 63 < y then leading_fraction True x scale s
           else leading_fraction False y (scale * 10) s)"

definition unit_ns :: "gostring \<Rightarrow> nat option" where
  "unit_ns u = map_of
     [(''ns'', 1), (''us'', 1000),
      ([CHR 0xC2, CHR 0xB5, CHR ''s''], 1000), ([CHR 0xCE, CHR 0xBC, CHR ''s''], 1000),
      (''ms'', 1000000), (''s'', 1000000000), (''m'', 60000000000), (''h'', 3600000000000)] u"

text \<open>One term of a duration, a number and its unit: its nanoseconds and the rest.\<close>

definition duration_term :: "gostring \<Rightarrow> (nat \<times> gostring) option" where
  "duration_term s =
     Option.bind (leading_int 0 s) (\<lambda>(v, s1).
       let pre = (length s1 \<noteq> length s);
           point = (case s1 of c # _ \<Rightarrow> c = CHR ''.'' | [] \<Rightarrow> False);
           (f, scale, s2) = (if point then leading_fraction False 0 1 (tl s1) else (0, 1, s1));
           post = (point \<and> length s2 \<noteq> length (tl s1));
           u = takeWhile (\<lambda>c. c \<noteq> CHR ''.'' \<and> \<not> is_digit c) s2 in
       if \<not> pre \<and> \<not> post then None
       else Option.bind (unit_ns u) (\<lambda>k.
         if 2 ^ 63 div k < v then None
         else let w = v * k + f * k div scale in
              if 2 ^ 63 < w then None else Some (w, drop (length u) s2)))"

lemma leading_int_le: "leading_int x s = Some (v, r) \<Longrightarrow> length r \<le> length s"
  by (induction x s rule: leading_int.induct) (auto simp: Let_def split: if_splits)

lemma leading_fraction_le: "leading_fraction b x k s = (f, sc, r) \<Longrightarrow> length r \<le> length s"
  by (induction b x k s rule: leading_fraction.induct) (fastforce simp: Let_def split: if_splits)+

lemma unit_ns_pos: "unit_ns u = Some k \<Longrightarrow> 0 < k \<and> u \<noteq> []"
  by (auto simp: unit_ns_def split: if_splits)

lemma duration_term_shorter: "duration_term s = Some (w, r) \<Longrightarrow> length r < length s"
proof -
  assume a: "duration_term s = Some (w, r)"
  obtain v s1 where i: "leading_int 0 s = Some (v, s1)"
    using a by (cases "leading_int 0 s") (auto simp: duration_term_def)
  have le1: "length s1 \<le> length s" using leading_int_le [OF i] .
  define point where "point = (case s1 of c # _ \<Rightarrow> c = CHR ''.'' | [] \<Rightarrow> False)"
  obtain f sc s2 where fr: "(if point then leading_fraction False 0 1 (tl s1) else (0, 1, s1)) = (f, sc, s2)"
    by (metis prod_cases3)
  have le2: "length s2 \<le> length s1"
    using fr leading_fraction_le [of False 0 1 "tl s1" f sc s2] by (cases point) auto
  define u where "u = takeWhile (\<lambda>c. c \<noteq> CHR ''.'' \<and> \<not> is_digit c) s2"
  obtain k where k: "unit_ns u = Some k" and r: "r = drop (length u) s2"
    using a by (auto simp: duration_term_def i fr Let_def simp flip: point_def u_def split: bind_splits if_splits)
  have "u \<noteq> []" using unit_ns_pos [OF k] by simp
  moreover have "length u \<le> length s2" by (simp add: u_def length_takeWhile_le)
  ultimately show ?thesis using le1 le2 r by (cases u) auto
qed

function duration_terms :: "nat \<Rightarrow> gostring \<Rightarrow> nat option" where
  "duration_terms d s =
     (if s = [] then Some d
      else case duration_term s of
        None \<Rightarrow> None
      | Some (w, r) \<Rightarrow> if 2 ^ 63 < d + w then None else duration_terms (d + w) r)"
  by pat_completeness auto
termination by (relation "measure (\<lambda>(d, s). length s)") (auto dest: duration_term_shorter)

declare duration_terms.simps [simp del]

text \<open>\<open>time.ParseDuration\<close>.\<close>

definition parse_duration :: "gostring \<Rightarrow> duration option" where
  "parse_duration s =
     (let (neg, r) = (case s of c # cs \<Rightarrow> if c = CHR ''-'' \<or> c = CHR ''+'' then (c = CHR ''-'', cs) else (False, s)
                      | [] \<Rightarrow> (False, s)) in
      if r = ''0'' then Some 0
      else if r = [] then None
      else case duration_terms 0 r of
        None \<Rightarrow> None
      | Some d \<Rightarrow> if neg then Some (- int d) else if 2 ^ 63 - 1 < d then None else Some (int d))"

section \<open>The record\<close>

record server_config =
  http_addr :: gostring
  cors_allow_origin :: gostring

record fs_config =
  fs_host :: gostring
  fs_password :: gostring
  fs_domain :: gostring

record asr_section =
  ac_endpoint :: gostring
  ac_token :: gostring
  ac_silence :: duration
  ac_speech :: duration
  ac_speech_max :: duration
  ac_single :: bool

record tts_section =
  tc_endpoint :: gostring
  tc_token :: gostring
  tc_voice :: gostring
  tc_resample :: int
  tc_tempo :: real

record bot_section =
  bc_url :: gostring
  bc_first_byte :: duration
  bc_total :: duration

record vad_section =
  vs_energy :: real
  vs_min_speech :: duration
  vs_min_silence :: duration

record audio_config =
  au_rate :: int
  au_frame_samples :: int
  au_recordings :: gostring
  au_tts :: gostring

record inbound_config =
  ic_did :: gostring
  ic_pickup :: duration
  ic_scenario :: gostring

record barge_config =
  bg_enabled :: bool
  bg_min_words :: int

record filler_config =
  fc_enabled :: bool
  fc_dir :: gostring

record recording_config =
  rc_source :: gostring
  rc_sources :: "gostring list"
  rc_archive :: gostring
  rc_url_prefix :: gostring
  rc_ext :: gostring

record telemetry_config =
  te_endpoint :: gostring
  te_service :: gostring
  te_insecure :: bool

record log_config =
  lc_level :: gostring
  lc_format :: gostring

record auth_config =
  au_secret :: gostring
  au_ttl :: duration
  au_admin :: gostring
  au_admin_pw :: gostring
  au_cookie_secure :: bool

record web_config =
  wc_asr_endpoint :: gostring
  wc_asr_rate :: int
  wc_tts_rate :: int
  wc_recordings :: gostring
  wc_fillers :: gostring
  wc_share_ttl :: duration

text \<open>\<open>PostgresConfig\<close> has the DSN only.\<close>

record config =
  cf_server :: server_config
  cf_fs :: fs_config
  cf_asr :: asr_section
  cf_tts :: tts_section
  cf_bot :: bot_section
  cf_vad :: vad_section
  cf_audio :: audio_config
  cf_inbound :: inbound_config
  cf_barge :: barge_config
  cf_filler :: filler_config
  cf_dsn :: gostring
  cf_recording :: recording_config
  cf_telemetry :: telemetry_config
  cf_log :: log_config
  cf_auth :: auth_config
  cf_web :: web_config

text \<open>The configured source directories, then the legacy one; \<open>seen\<close> and the result grow together.\<close>

fun add_dirs :: "gostring list \<Rightarrow> gostring list \<Rightarrow> gostring list" where
  "add_dirs out [] = out"
| "add_dirs out (d # ds) = add_dirs (if d = [] \<or> d \<in> set out then out else out @ [d]) ds"

definition all_source_dirs :: "recording_config \<Rightarrow> gostring list" where
  "all_source_dirs r =
     (let out = add_dirs [] (rc_sources r) in
      if rc_source r \<noteq> [] \<and> rc_source r \<notin> set out then out @ [rc_source r] else out)"

section \<open>Defaults\<close>

definition seconds :: "int \<Rightarrow> duration" where "seconds n = n * 1000000000"
definition millis :: "int \<Rightarrow> duration" where "millis n = n * 1000000"

definition defaults :: config where
  "defaults =
     \<lparr>cf_server = \<lparr>http_addr = '':8083'', cors_allow_origin = []\<rparr>,
      cf_fs = \<lparr>fs_host = ''127.0.0.1:8021'', fs_password = ''ClueCon'', fs_domain = ''voiceai.autotele.vn''\<rparr>,
      cf_asr = \<lparr>ac_endpoint = ''103.253.20.28:9000'', ac_token = [], ac_silence = seconds 5, ac_speech = seconds 1,
                ac_speech_max = seconds 30, ac_single = True\<rparr>,
      cf_tts = \<lparr>tc_endpoint = ''ws://103.253.20.27:8767'', tc_token = [], tc_voice = [], tc_resample = 8000, tc_tempo = 1\<rparr>,
      cf_bot = \<lparr>bc_url = ''http://localhost:11006/api/v1/call/'', bc_first_byte = seconds 5, bc_total = seconds 25\<rparr>,
      cf_vad = \<lparr>vs_energy = 500, vs_min_speech = millis 200, vs_min_silence = millis 600\<rparr>,
      cf_audio = \<lparr>au_rate = 8000, au_frame_samples = 320, au_recordings = ''/dev/shm/bridge/recordings'',
                  au_tts = ''/dev/shm/bridge/tts''\<rparr>,
      cf_inbound = \<lparr>ic_did = ''5000000024'', ic_pickup = seconds 30, ic_scenario = ''hcc-inbound''\<rparr>,
      cf_barge = \<lparr>bg_enabled = False, bg_min_words = 3\<rparr>,
      cf_filler = \<lparr>fc_enabled = False, fc_dir = ''/var/lib/callbot/fillers''\<rparr>,
      cf_dsn = [],
      cf_recording = \<lparr>rc_source = ''/var/lib/freeswitch/recordings/voiceai-hotline'', rc_sources = [],
                      rc_archive = ''/var/lib/callbot/recordings'', rc_url_prefix = ''/recordings'', rc_ext = ''.mp3''\<rparr>,
      cf_telemetry = \<lparr>te_endpoint = [], te_service = ''callbot-master'', te_insecure = True\<rparr>,
      cf_log = \<lparr>lc_level = ''info'', lc_format = ''json''\<rparr>,
      cf_auth = \<lparr>au_secret = [], au_ttl = 12 * seconds 3600, au_admin = ''admin'', au_admin_pw = [], au_cookie_secure = False\<rparr>,
      cf_web = \<lparr>wc_asr_endpoint = ''103.253.20.28:9112'', wc_asr_rate = 16000, wc_tts_rate = 16000,
                wc_recordings = ''/var/lib/callbot/web-recordings'', wc_fillers = ''/var/lib/callbot/web-fillers'',
                wc_share_ttl = 7 * 24 * seconds 3600\<rparr>\<rparr>"

section \<open>Overrides\<close>

type_synonym env = "gostring \<Rightarrow> gostring"

definition env_str :: "env \<Rightarrow> gostring \<Rightarrow> gostring \<Rightarrow> gostring" where
  "env_str env key v = (if env key \<noteq> [] then env key else v)"

definition env_dur :: "env \<Rightarrow> gostring \<Rightarrow> duration \<Rightarrow> duration" where
  "env_dur env key v = (if env key = [] then v else case parse_duration (env key) of Some d \<Rightarrow> d | None \<Rightarrow> v)"

definition env_int :: "env \<Rightarrow> gostring \<Rightarrow> int \<Rightarrow> int" where
  "env_int env key v = (if env key = [] then v else case atoi (env key) of Some n \<Rightarrow> n | None \<Rightarrow> v)"

definition env_bool :: "env \<Rightarrow> gostring \<Rightarrow> bool \<Rightarrow> bool" where
  "env_bool env key v = (if env key = [] then v else case parse_bool (env key) of Some b \<Rightarrow> b | None \<Rightarrow> v)"

definition env_csv :: "env \<Rightarrow> gostring \<Rightarrow> gostring list \<Rightarrow> gostring list" where
  "env_csv env key v =
     (if env key = [] then v else filter (\<lambda>p. p \<noteq> []) (map trim_space (split_byte CHR '','' (env key))))"

definition override_server :: "env \<Rightarrow> server_config \<Rightarrow> server_config" where
  "override_server env s =
     s\<lparr>http_addr := env_str env ''MASTER_HTTP_ADDR'' (http_addr s),
       cors_allow_origin := env_str env ''MASTER_CORS_ALLOW_ORIGIN'' (cors_allow_origin s)\<rparr>"

definition override_fs :: "env \<Rightarrow> fs_config \<Rightarrow> fs_config" where
  "override_fs env s =
     s\<lparr>fs_host := env_str env ''MASTER_FS_HOST'' (fs_host s),
       fs_password := env_str env ''MASTER_FS_PASSWORD'' (fs_password s),
       fs_domain := env_str env ''MASTER_FS_DOMAIN'' (fs_domain s)\<rparr>"

definition override_asr :: "env \<Rightarrow> asr_section \<Rightarrow> asr_section" where
  "override_asr env s =
     s\<lparr>ac_endpoint := env_str env ''MASTER_ASR_ENDPOINT'' (ac_endpoint s),
       ac_token := env_str env ''MASTER_ASR_TOKEN'' (ac_token s),
       ac_silence := env_dur env ''MASTER_ASR_SILENCE_TIMEOUT'' (ac_silence s),
       ac_speech := env_dur env ''MASTER_ASR_SPEECH_TIMEOUT'' (ac_speech s),
       ac_speech_max := env_dur env ''MASTER_ASR_SPEECH_MAX'' (ac_speech_max s)\<rparr>"

definition override_tts :: "env \<Rightarrow> tts_section \<Rightarrow> tts_section" where
  "override_tts env s =
     s\<lparr>tc_endpoint := env_str env ''MASTER_TTS_ENDPOINT'' (tc_endpoint s),
       tc_token := env_str env ''MASTER_TTS_TOKEN'' (tc_token s),
       tc_voice := env_str env ''MASTER_TTS_VOICE_ID'' (tc_voice s)\<rparr>"

definition override_bot :: "env \<Rightarrow> bot_section \<Rightarrow> bot_section" where
  "override_bot env s =
     s\<lparr>bc_url := env_str env ''MASTER_BOT_URL'' (bc_url s),
       bc_first_byte := env_dur env ''MASTER_BOT_FIRST_BYTE_TIMEOUT'' (bc_first_byte s),
       bc_total := env_dur env ''MASTER_BOT_TOTAL_TIMEOUT'' (bc_total s)\<rparr>"

definition override_log :: "env \<Rightarrow> log_config \<Rightarrow> log_config" where
  "override_log env s =
     s\<lparr>lc_level := env_str env ''MASTER_LOG_LEVEL'' (lc_level s),
       lc_format := env_str env ''MASTER_LOG_FORMAT'' (lc_format s)\<rparr>"

definition override_inbound :: "env \<Rightarrow> inbound_config \<Rightarrow> inbound_config" where
  "override_inbound env s =
     s\<lparr>ic_did := env_str env ''MASTER_INBOUND_DID'' (ic_did s),
       ic_scenario := env_str env ''MASTER_INBOUND_SCENARIO'' (ic_scenario s)\<rparr>"

definition override_barge :: "env \<Rightarrow> barge_config \<Rightarrow> barge_config" where
  "override_barge env s =
     s\<lparr>bg_enabled := env_bool env ''MASTER_BARGE_IN'' (bg_enabled s),
       bg_min_words := env_int env ''MASTER_BARGE_MIN_WORDS'' (bg_min_words s)\<rparr>"

definition override_filler :: "env \<Rightarrow> filler_config \<Rightarrow> filler_config" where
  "override_filler env s =
     s\<lparr>fc_enabled := env_bool env ''MASTER_FILLER'' (fc_enabled s),
       fc_dir := env_str env ''MASTER_FILLER_DIR'' (fc_dir s)\<rparr>"

text \<open>The standard OTEL variables come before the program's own.\<close>

definition override_telemetry :: "env \<Rightarrow> telemetry_config \<Rightarrow> telemetry_config" where
  "override_telemetry env s =
     s\<lparr>te_endpoint := (if env ''OTEL_EXPORTER_OTLP_ENDPOINT'' \<noteq> [] then env ''OTEL_EXPORTER_OTLP_ENDPOINT''
                       else env_str env ''MASTER_OTEL_ENDPOINT'' (te_endpoint s)),
       te_service := (if env ''OTEL_SERVICE_NAME'' \<noteq> [] then env ''OTEL_SERVICE_NAME''
                      else env_str env ''MASTER_OTEL_SERVICE_NAME'' (te_service s)),
       te_insecure := env_bool env ''MASTER_OTEL_INSECURE'' (te_insecure s)\<rparr>"

definition override_recording :: "env \<Rightarrow> recording_config \<Rightarrow> recording_config" where
  "override_recording env s =
     s\<lparr>rc_source := env_str env ''MASTER_RECORDING_SOURCE_DIR'' (rc_source s),
       rc_sources := env_csv env ''MASTER_RECORDING_SOURCE_DIRS'' (rc_sources s),
       rc_archive := env_str env ''MASTER_RECORDING_ARCHIVE_DIR'' (rc_archive s),
       rc_url_prefix := env_str env ''MASTER_RECORDING_URL_PREFIX'' (rc_url_prefix s),
       rc_ext := env_str env ''MASTER_RECORDING_FILE_EXT'' (rc_ext s)\<rparr>"

definition override_web :: "env \<Rightarrow> web_config \<Rightarrow> web_config" where
  "override_web env s =
     s\<lparr>wc_asr_endpoint := env_str env ''MASTER_WEB_ASR_ENDPOINT'' (wc_asr_endpoint s),
       wc_asr_rate := env_int env ''MASTER_WEB_ASR_RATE'' (wc_asr_rate s),
       wc_tts_rate := env_int env ''MASTER_WEB_TTS_RESAMPLE_RATE'' (wc_tts_rate s),
       wc_recordings := env_str env ''MASTER_WEB_RECORDING_DIR'' (wc_recordings s),
       wc_fillers := env_str env ''MASTER_WEB_FILLER_DIR'' (wc_fillers s),
       wc_share_ttl := env_dur env ''MASTER_WEB_SHARE_TTL'' (wc_share_ttl s)\<rparr>"

definition override_auth :: "env \<Rightarrow> auth_config \<Rightarrow> auth_config" where
  "override_auth env s =
     s\<lparr>au_secret := env_str env ''MASTER_JWT_SECRET'' (au_secret s),
       au_ttl := env_dur env ''MASTER_JWT_TTL'' (au_ttl s),
       au_admin := env_str env ''MASTER_PLATFORM_ADMIN_USER'' (au_admin s),
       au_admin_pw := env_str env ''MASTER_PLATFORM_ADMIN_PASSWORD'' (au_admin_pw s),
       au_cookie_secure := env_bool env ''MASTER_COOKIE_SECURE'' (au_cookie_secure s)\<rparr>"

definition apply_env_overrides :: "env \<Rightarrow> config \<Rightarrow> config" where
  "apply_env_overrides env c =
     c\<lparr>cf_server := override_server env (cf_server c), cf_fs := override_fs env (cf_fs c),
       cf_asr := override_asr env (cf_asr c), cf_tts := override_tts env (cf_tts c),
       cf_bot := override_bot env (cf_bot c), cf_inbound := override_inbound env (cf_inbound c),
       cf_barge := override_barge env (cf_barge c), cf_filler := override_filler env (cf_filler c),
       cf_dsn := env_str env ''MASTER_PG_DSN'' (cf_dsn c),
       cf_recording := override_recording env (cf_recording c),
       cf_telemetry := override_telemetry env (cf_telemetry c), cf_log := override_log env (cf_log c),
       cf_auth := override_auth env (cf_auth c), cf_web := override_web env (cf_web c)\<rparr>"

section \<open>Loading\<close>

text \<open>
  \<open>os.Open\<close> of a path, and \<open>os.Stat\<close>; \<open>caller\<close> is the source path \<open>runtime.Caller\<close> reports; \<open>decode\<close>
  is the YAML decoder, applied to what it finds in the file and the record it fills.
\<close>

datatype opened = Opened bytes | Missing | OpenFailed gostring

definition resolve_path :: "env \<Rightarrow> (gostring \<Rightarrow> bool) \<Rightarrow> gostring option \<Rightarrow> gostring" where
  "resolve_path env stat caller =
     (if env ''MASTER_CONFIG'' \<noteq> [] then env ''MASTER_CONFIG''
      else if stat ''/app/config/config.yaml'' then ''/app/config/config.yaml''
      else case caller of None \<Rightarrow> [] | Some f \<Rightarrow> join_path [dir_path f, ''config.yaml''])"

definition load_config ::
  "(bytes \<Rightarrow> config \<Rightarrow> config result) \<Rightarrow> env \<Rightarrow> (gostring \<Rightarrow> bool) \<Rightarrow> gostring option \<Rightarrow> (gostring \<Rightarrow> opened)
   \<Rightarrow> config result"
where
  "load_config decode env stat caller openf =
     (let path = resolve_path env stat caller;
          from_file = (if path = [] then Inr defaults
            else case openf path of
              Missing \<Rightarrow> Inr defaults
            | OpenFailed e \<Rightarrow> Inl (''open '' @ path @ '': '' @ e)
            | Opened b \<Rightarrow> (case decode b defaults of
                Inl e \<Rightarrow> Inl (''decode '' @ path @ '': '' @ e)
              | Inr c \<Rightarrow> Inr c)) in
      case from_file of Inl e \<Rightarrow> Inl e | Inr c \<Rightarrow> Inr (apply_env_overrides env c))"

section \<open>Lemmas\<close>

text \<open>The source directories in order of first mention.\<close>

lemma add_dirs_eq: "distinct out \<Longrightarrow> [] \<notin> set out \<Longrightarrow>
  add_dirs out ds = rev (remdups (rev (out @ filter (\<lambda>d. d \<noteq> []) ds)))"
proof (induction ds arbitrary: out)
  case Nil
  then show ?case by (simp add: distinct_remdups_id)
next
  case (Cons d ds)
  show ?case
  proof (cases "d = [] \<or> d \<in> set out")
    case True
    have "rev (remdups (rev (out @ d # xs))) = rev (remdups (rev (out @ xs)))" if "d \<in> set out" for xs
      using that by (induction xs rule: rev_induct) auto
    then show ?thesis using True Cons by auto
  next
    case False
    then show ?thesis using Cons.IH [of "out @ [d]"] Cons.prems by auto
  qed
qed

lemma all_source_dirs_eq:
  "all_source_dirs r = rev (remdups (rev (filter (\<lambda>d. d \<noteq> []) (rc_sources r @ [rc_source r]))))"
  by (auto simp: all_source_dirs_def add_dirs_eq Let_def)

text \<open>Decimal numbers are read back.\<close>

lemma digit_facts: "d < 10 \<Longrightarrow> is_digit (digit d) \<and> digit_val (digit d) = d"
  by (simp add: is_digit_def digit_val_def digit_def)

lemma leading_int_shown:
  "n \<le> 2 ^ 63 \<Longrightarrow> leading_int 0 (show_nat n @ r) = leading_int n r"
proof (induction n arbitrary: r rule: show_nat.induct)
  case (1 n)
  show ?case
  proof (cases "n < 10")
    case True
    then show ?thesis using digit_facts [of n] by (simp add: show_nat.simps [of n])
  next
    case False
    have "leading_int 0 (show_nat n @ r) = leading_int 0 (show_nat (n div 10) @ digit (n mod 10) # r)"
      using False by (simp add: show_nat.simps [of n])
    also have "\<dots> = leading_int (n div 10) (digit (n mod 10) # r)" using 1 False by simp
    also have "\<dots> = leading_int n r"
      using digit_facts [of "n mod 10"] 1(2) by (auto simp: Let_def)
    finally show ?thesis .
  qed
qed

lemma leading_int_stop: "r = [] \<or> \<not> is_digit (hd r) \<Longrightarrow> leading_int n r = Some (n, r)"
  by (cases r) auto

lemma show_nat_head: "\<exists>d ds. show_nat n = digit d # ds \<and> d < 10"
proof (induction n rule: show_nat.induct)
  case (1 n)
  then show ?case by (cases "n < 10") (auto simp: show_nat.simps [of n])
qed

text \<open>A shown number, with a fraction or without, and its unit.\<close>

lemma unit_chars: "unit_ns u = Some k \<Longrightarrow> \<forall>c\<in>set u. c \<noteq> CHR ''.'' \<and> \<not> is_digit c"
  by (auto simp: unit_ns_def is_digit_def split: if_splits)

lemma term_shown:
  assumes "unit_ns u = Some k" "n \<le> 2 ^ 63"
    and "fr = [] \<and> f = 0 \<and> sc = 1 \<or> (\<exists>ds. fr = CHR ''.'' # ds \<and> leading_fraction False 0 1 (ds @ u) = (f, sc, u))"
    and "n \<le> 2 ^ 63 div k" "n * k + f * k div sc \<le> 2 ^ 63"
  shows "duration_term (show_nat n @ fr @ u) = Some (n * k + f * k div sc, [])"
proof -
  have u: "u \<noteq> []" "\<forall>c\<in>set u. c \<noteq> CHR ''.'' \<and> \<not> is_digit c"
    using unit_ns_pos [OF assms(1)] unit_chars [OF assms(1)] by auto
  have stop: "fr @ u = [] \<or> \<not> is_digit (hd (fr @ u))"
  proof (cases "fr = []")
    case True
    then show ?thesis using u by (cases u) auto
  next
    case False
    then obtain ds where "fr = CHR ''.'' # ds" using assms(3) by blast
    then show ?thesis by (simp add: is_digit_def)
  qed
  have int: "leading_int 0 (show_nat n @ fr @ u) = Some (n, fr @ u)"
    using leading_int_shown [OF assms(2)] leading_int_stop [OF stop] by simp
  have pre: "length (fr @ u) \<noteq> length (show_nat n @ fr @ u)" using show_nat_head [of n] by auto
  have unit: "takeWhile (\<lambda>c. c \<noteq> CHR ''.'' \<and> \<not> is_digit c) u = u" using u(2) by simp
  have frac: "(if case fr @ u of [] \<Rightarrow> False | c # _ \<Rightarrow> c = CHR ''.'' then leading_fraction False 0 1 (tl (fr @ u))
       else (0, 1, fr @ u)) = (f, sc, u)"
  proof (cases "fr = []")
    case True
    obtain c cs where "u = c # cs" "c \<noteq> CHR ''.''" using u by (cases u) auto
    then show ?thesis using True assms(3) by simp
  next
    case False
    then show ?thesis using assms(3) by auto
  qed
  show ?thesis
    unfolding duration_term_def int
    using pre assms(1,4,5) by (simp add: frac Let_def unit)
qed

lemma parse_shown:
  assumes "unit_ns u = Some k" "n \<le> 2 ^ 63"
    and "fr = [] \<and> f = 0 \<and> sc = 1 \<or> (\<exists>ds. fr = CHR ''.'' # ds \<and> leading_fraction False 0 1 (ds @ u) = (f, sc, u))"
    and "n \<le> 2 ^ 63 div k" "n * k + f * k div sc \<le> 2 ^ 63 - 1"
  shows "parse_duration (show_nat n @ fr @ u) = Some (int (n * k + f * k div sc))"
proof -
  let ?s = "show_nat n @ fr @ u"
  obtain d ds where h: "show_nat n = digit d # ds" "d < 10" using show_nat_head by blast
  have sign: "digit d \<noteq> CHR ''-'' \<and> digit d \<noteq> CHR ''+''"
    using digit_facts [OF h(2)] by (auto simp: is_digit_def)
  have ne: "?s \<noteq> []" "?s \<noteq> ''0''" using h(1) unit_ns_pos [OF assms(1)] by auto
  have tm: "duration_term ?s = Some (n * k + f * k div sc, [])"
    by (rule term_shown [OF assms(1-4)]) (use assms(5) in simp)
  have "duration_terms 0 ?s = Some (n * k + f * k div sc)"
    unfolding duration_terms.simps [of 0 ?s] if_not_P [OF ne(1)] tm
    using assms(5) by (simp add: duration_terms.simps [of _ "[]"])
  then show ?thesis
    using sign unit_ns_pos [OF assms(1)] assms(5) unfolding parse_duration_def h(1) by (simp add: h(1))
qed

lemma parse_whole:
  assumes "unit_ns u = Some k" "n * k \<le> 2 ^ 63 - 1"
  shows "parse_duration (show_nat n @ u) = Some (int (n * k))"
proof -
  have k: "0 < k" using unit_ns_pos [OF assms(1)] by simp
  have "n * k \<le> 2 ^ 63" using assms(2) by simp
  then have "n \<le> 2 ^ 63 div k" using k by (simp add: less_eq_div_iff_mult_less_eq)
  moreover have "n \<le> n * k" using k by simp
  then have "n \<le> 2 ^ 63" using \<open>n * k \<le> 2 ^ 63\<close> by (rule le_trans)
  ultimately show ?thesis using parse_shown [OF assms(1), of n "[]" 0 1] assms(2) by simp
qed

end
