(* ===== verification/Speech.thy ===== *)
theory Speech
  imports Config Turn Transition
begin

text \<open>
  The speech services: \<open>internal/asr/viettel_grpc.go\<close>, the recogniser's stream over gRPC, and
  \<open>internal/tts/viettel_ws.go\<close>, the synthesiser's over a WebSocket.  The transports and the generated
  protocol are not part of the model: a stream is what was sent on it and the messages that arrive.
\<close>

section \<open>Opening a recogniser stream\<close>

definition bool_str :: "bool \<Rightarrow> gostring" where
  "bool_str b = (if b then ''true'' else ''false'')"

definition itoa :: "int \<Rightarrow> gostring" where
  "itoa n = (if n < 0 then CHR ''-'' # show_nat (nat (- n)) else show_nat (nat n))"

text \<open>
  \<open>FormatFloat(ms / 1000, 'f', -1)\<close>: the shortest decimal that reads back as the same float is the
  exact quotient, as long as it has at most 15 digits.
\<close>

definition thousandths :: "nat \<Rightarrow> gostring" where
  "thousandths k =
     (if k = 0 then []
      else CHR ''.'' # digit (k div 100) #
        (if k mod 100 = 0 then []
         else digit (k div 10 mod 10) # (if k mod 10 = 0 then [] else [digit (k mod 10)])))"

definition to_sec_str :: "int \<Rightarrow> gostring" where
  "to_sec_str ms = (if ms \<le> 0 then ''0'' else show_nat (nat ms div 1000) @ thousandths (nat ms mod 1000))"

definition stream_metadata :: "gostring \<Rightarrow> asr_opts \<Rightarrow> (gostring \<times> gostring) list" where
  "stream_metadata token opts =
     (let rate = (if asr_sample_rate opts = 0 then 8000 else asr_sample_rate opts);
          chans = (if channels opts = 0 then 1 else channels opts) in
      [(''channels'', itoa chans), (''rate'', itoa rate), (''format'', ''S16LE''), (''token'', token),
       (''id'', conversation_id opts), (''single-sentence'', bool_str (single_sentence opts)),
       (''silence_timeout'', to_sec_str (silence_timeout_ms opts)),
       (''speech_timeout'', to_sec_str (speech_timeout_ms opts)),
       (''speech_max'', to_sec_str (speech_max_ms opts))])"

text \<open>\<open>StartStream\<close>: the metadata it opens the call with, and its result; a failed call is cancelled.\<close>

datatype asr_fx = AsrCall "(gostring \<times> gostring) list" | AsrCancel | AsrRecvLoop

definition start_asr :: "gostring \<Rightarrow> gostring option \<Rightarrow> asr_opts \<Rightarrow> asr_fx list \<times> unit result" where
  "start_asr token call_err opts =
     (case call_err of
        Some e \<Rightarrow> ([AsrCall (stream_metadata token opts), AsrCancel], Inl (''asr open stream: '' @ e))
      | None \<Rightarrow> ([AsrCall (stream_metadata token opts), AsrRecvLoop], Inr ()))"

section \<open>The sending side\<close>

text \<open>
  \<open>sendClosed\<close>, \<open>closed\<close>, whether the context was cancelled, what went out on the gRPC stream, and the
  goroutines inside a method: a \<open>SendAudio\<close> that has passed its check and waits for the mutex, a
  \<open>Close\<close> that has set its flag, or one that is about to cancel.  The two flag reads of the check are
  one step: the flags only ever become true.
\<close>

datatype upload = UpAudio bytes | UpHalfClose

datatype asr_pc = Passed bytes | Closing | Cancelling

record asr_stream =
  az_send_closed :: bool
  az_closed :: bool
  az_cancelled :: bool
  az_wire :: "upload list"
  az_busy :: "asr_pc list"

definition new_asr_stream :: asr_stream where
  "new_asr_stream = \<lparr>az_send_closed = False, az_closed = False, az_cancelled = False, az_wire = [], az_busy = []\<rparr>"

definition half_close :: "asr_stream \<Rightarrow> asr_stream" where
  "half_close s = (if az_send_closed s then s else s\<lparr>az_send_closed := True, az_wire := az_wire s @ [UpHalfClose]\<rparr>)"

definition audio_refused :: "asr_stream \<Rightarrow> bool" where
  "audio_refused s \<longleftrightarrow> az_send_closed s \<or> az_closed s"

inductive asr_step :: "asr_stream \<Rightarrow> asr_stream \<Rightarrow> bool" where
  send_check: "\<not> audio_refused s \<Longrightarrow> asr_step s (s\<lparr>az_busy := az_busy s @ [Passed f]\<rparr>)"
| send_locked: "az_busy s = xs @ Passed f # ys \<Longrightarrow>
    asr_step s (s\<lparr>az_busy := xs @ ys, az_wire := az_wire s @ [UpAudio f]\<rparr>)"
| close_mark: "\<not> az_closed s \<Longrightarrow> asr_step s (s\<lparr>az_closed := True, az_busy := az_busy s @ [Closing]\<rparr>)"
| close_locked: "az_busy s = xs @ Closing # ys \<Longrightarrow>
    asr_step s ((half_close s)\<lparr>az_busy := xs @ Cancelling # ys\<rparr>)"
| close_cancel: "az_busy s = xs @ Cancelling # ys \<Longrightarrow>
    asr_step s (s\<lparr>az_busy := xs @ ys, az_cancelled := True\<rparr>)"
| close_send: "asr_step s (half_close s)"

section \<open>The receiving side\<close>

record asr_reply =
  ry_status :: int
  ry_final :: bool
  ry_hyps :: "(gostring \<times> gostring) list option"

text \<open>The transcript of a reply: the raw text of the first hypothesis, or else its normed one.\<close>

definition usable_reply :: "asr_reply \<Rightarrow> bool" where
  "usable_reply r \<longleftrightarrow> ry_status r = 0 \<and> (case ry_hyps r of None \<Rightarrow> False | Some hs \<Rightarrow> hs \<noteq> [])"

definition reply_result :: "asr_reply \<Rightarrow> asr_result" where
  "reply_result r =
     (case ry_hyps r of Some ((raw, normed) # _) \<Rightarrow> \<lparr>res_text = (if raw = [] then normed else raw), is_final = ry_final r\<rparr>
      | _ \<Rightarrow> \<lparr>res_text = [], is_final = ry_final r\<rparr>)"

text \<open>
  \<open>recvLoop\<close> over the replies before the receive error: the results it hands over and whether it
  stopped because the context was cancelled, which happens at the first hand-over \<open>accept\<close> refuses.
\<close>

fun recv_loop :: "bool list \<Rightarrow> asr_reply list \<Rightarrow> asr_result list \<times> bool" where
  "recv_loop accept [] = ([], False)"
| "recv_loop accept (r # rs) =
     (if \<not> usable_reply r then recv_loop accept rs
      else case accept of
        False # _ \<Rightarrow> ([], True)
      | _ \<Rightarrow> (let (out, c) = recv_loop (tl accept) rs in (reply_result r # out, c)))"

section \<open>Opening a synthesiser stream\<close>

record tts_client =
  tl_voice :: gostring
  tl_resample :: int
  tl_tempo :: real
  tl_key :: gostring

definition new_tts_client :: "gostring \<Rightarrow> gostring \<Rightarrow> int \<Rightarrow> real \<Rightarrow> tts_client" where
  "new_tts_client key voice resample tmp =
     \<lparr>tl_voice = voice, tl_resample = (if resample = 0 then 8000 else resample),
      tl_tempo = (if tmp = 0 then 1 else tmp), tl_key = key\<rparr>"

record tts_auth =
  ta_voice :: gostring
  ta_resample :: int
  ta_tempo :: real
  ta_key :: gostring

definition auth_frame :: "tts_client \<Rightarrow> gostring \<Rightarrow> int \<Rightarrow> real \<Rightarrow> tts_auth" where
  "auth_frame c voice resample tmp =
     \<lparr>ta_voice = (if voice = [] then tl_voice c else voice),
      ta_resample = (if resample = 0 then tl_resample c else resample),
      ta_tempo = (if tmp = 0 then tl_tempo c else tmp), ta_key = tl_key c\<rparr>"

text \<open>
  A JSON message from the server: the string and boolean values at the keys the code reads, absent
  when the key is or when its value has another type; \<open>sm_status_text\<close> prints any value of \<open>status\<close>.
\<close>

record server_msg =
  sm_error :: "gostring option"
  sm_status :: "gostring option"
  sm_status_text :: gostring
  sm_audio :: "gostring option"
  sm_final :: "bool option"

definition str_at :: "gostring option \<Rightarrow> gostring" where
  "str_at v = (case v of None \<Rightarrow> [] | Some s \<Rightarrow> s)"

datatype tts_fx = TtsDial | TtsAuth tts_auth | TtsReadAuth | TtsConnClose | TtsGoroutines

definition start_tts ::
  "tts_client \<Rightarrow> gostring option \<Rightarrow> gostring option \<Rightarrow> server_msg result \<Rightarrow> gostring \<Rightarrow> int \<Rightarrow> real
   \<Rightarrow> tts_fx list \<times> unit result"
where
  "start_tts c dial_err write_err answer voice resample tmp =
     (let auth = auth_frame c voice resample tmp in
      case dial_err of Some e \<Rightarrow> ([TtsDial], Inl (''tts dial: '' @ e)) | None \<Rightarrow>
      case write_err of Some e \<Rightarrow> ([TtsDial, TtsAuth auth, TtsConnClose], Inl (''tts auth send: '' @ e)) | None \<Rightarrow>
      case answer of Inl e \<Rightarrow> ([TtsDial, TtsAuth auth, TtsReadAuth, TtsConnClose], Inl (''tts auth recv: '' @ e)) | Inr m \<Rightarrow>
      if str_at (sm_status m) \<noteq> ''authenticated'' then
        ([TtsDial, TtsAuth auth, TtsReadAuth, TtsConnClose],
         Inl (''tts auth rejected: '' @
              (if str_at (sm_error m) = [] then ''status='' @ sm_status_text m else str_at (sm_error m))))
      else ([TtsDial, TtsAuth auth, TtsReadAuth, TtsGoroutines], Inr ()))"

section \<open>Sending text\<close>

record tts_stream =
  tz_closed :: bool
  tz_cancelled :: bool
  tz_conn_open :: bool
  tz_sent :: "(gostring \<times> bool) list"

definition new_tts_stream :: tts_stream where
  "new_tts_stream = \<lparr>tz_closed = False, tz_cancelled = False, tz_conn_open = True, tz_sent = []\<rparr>"

text \<open>\<open>werr\<close> is a failure of the write; a write on a closed connection fails.\<close>

definition tts_send_text :: "gostring option \<Rightarrow> gostring \<Rightarrow> bool \<Rightarrow> tts_stream \<Rightarrow> tts_stream \<times> unit result" where
  "tts_send_text werr tx eos s =
     (if tz_closed s then (s, Inl ''tts stream closed'')
      else case werr of
        Some e \<Rightarrow> (s, Inl (''tts send text: '' @ e))
      | None \<Rightarrow> if tz_conn_open s then (s\<lparr>tz_sent := tz_sent s @ [(tx, eos)]\<rparr>, Inr ())
                else (s, Inl ''tts send text: use of closed network connection''))"

definition tts_close :: "tts_stream \<Rightarrow> tts_stream" where
  "tts_close s = (if tz_closed s then s else s\<lparr>tz_closed := True, tz_cancelled := True, tz_conn_open := False\<rparr>)"

text \<open>The parent context is cancelled; the watcher tears the connection down unless \<open>Close\<close> has.\<close>

definition tts_watch_ctx :: "tts_stream \<Rightarrow> tts_stream" where
  "tts_watch_ctx s = (let s = s\<lparr>tz_cancelled := True\<rparr> in if tz_closed s then s else s\<lparr>tz_conn_open := False\<rparr>)"

section \<open>Receiving audio\<close>

definition error_msg :: "server_msg \<Rightarrow> bool" where
  "error_msg m \<longleftrightarrow> str_at (sm_error m) \<noteq> []"

definition reset_msg :: "server_msg \<Rightarrow> bool" where
  "reset_msg m \<longleftrightarrow> str_at (sm_status m) = ''reset''"

definition msg_audio :: "(gostring \<Rightarrow> bytes option) \<Rightarrow> server_msg \<Rightarrow> bytes option" where
  "msg_audio b64 m =
     (case sm_audio m of None \<Rightarrow> None | Some a \<Rightarrow>
      if a = [] then None
      else case b64 a of None \<Rightarrow> None | Some pcm \<Rightarrow> if pcm = [] then None else Some pcm)"

text \<open>How the reader ended: by the final frame, by the context, or with the connection.\<close>

datatype read_end = ByFinal | ByContext | ByConnection

fun tts_read :: "(gostring \<Rightarrow> bytes option) \<Rightarrow> bool list \<Rightarrow> server_msg list \<Rightarrow> bytes list \<times> read_end" where
  "tts_read b64 accept [] = ([], ByConnection)"
| "tts_read b64 accept (m # ms) =
     (if error_msg m \<or> reset_msg m then tts_read b64 accept ms
      else case msg_audio b64 m of
        None \<Rightarrow> if sm_final m = Some True then ([], ByFinal) else tts_read b64 accept ms
      | Some pcm \<Rightarrow>
         (case accept of
            False # _ \<Rightarrow> ([], ByContext)
          | _ \<Rightarrow> if sm_final m = Some True then ([pcm], ByFinal)
                 else (let (out, e) = tts_read b64 (tl accept) ms in (pcm # out, e))))"

section \<open>Lemmas\<close>

text \<open>The recogniser's stream: at most one half-close, always before the cancellation.\<close>

definition asr_ok :: "asr_stream \<Rightarrow> bool" where
  "asr_ok s \<longleftrightarrow> count_list (az_wire s) UpHalfClose = (if az_send_closed s then 1 else 0) \<and>
     (Cancelling \<in> set (az_busy s) \<longrightarrow> az_send_closed s) \<and> (az_cancelled s \<longrightarrow> az_send_closed s) \<and>
     count_list (az_busy s) Closing + count_list (az_busy s) Cancelling + (if az_cancelled s then 1 else 0) =
       (if az_closed s then 1 else 0)"

lemma asr_ok_new: "asr_ok new_asr_stream"
  by (simp add: asr_ok_def new_asr_stream_def)

lemma half_close_fields [simp]: "az_send_closed (half_close s)" "az_closed (half_close s) = az_closed s"
  "az_cancelled (half_close s) = az_cancelled s" "az_busy (half_close s) = az_busy s"
  by (simp_all add: half_close_def)

lemma half_close_wire: "asr_ok s \<Longrightarrow> count_list (az_wire (half_close s)) UpHalfClose = 1"
  by (auto simp: asr_ok_def half_close_def)

lemma asr_ok_step: "asr_step s t \<Longrightarrow> asr_ok s \<Longrightarrow> asr_ok t"
proof (induction rule: asr_step.induct)
  case (close_locked s xs ys)
  then show ?case using half_close_wire [OF close_locked.prems] by (auto simp: asr_ok_def)
next
  case (close_send s)
  then show ?case using half_close_wire [OF close_send.prems] by (auto simp: asr_ok_def)
qed (auto simp: asr_ok_def split: if_splits)

interpretation asr: transition_system "\<lambda>s. s = new_asr_stream" asr_step asr_ok
  by unfold_locales (auto intro: asr_ok_new asr_ok_step)

text \<open>The hand-over of results.\<close>

lemma recv_loop_all: "recv_loop [] rs = (map reply_result (filter usable_reply rs), False)"
  by (induction rs) auto

lemma recv_loop_prefix: "\<exists>n. fst (recv_loop accept rs) = take n (map reply_result (filter usable_reply rs))"
proof (induction accept rs rule: recv_loop.induct)
  case (2 accept r rs)
  show ?case
  proof (cases "usable_reply r")
    case True
    consider bs where "accept = False # bs" | "\<nexists>bs. accept = False # bs" by blast
    then show ?thesis
    proof cases
      case 1
      then show ?thesis using True by (intro exI [of _ 0]) simp
    next
      case no: 2
      obtain n where "fst (recv_loop (tl accept) rs) = take n (map reply_result (filter usable_reply rs))"
        using 2(2,3) True no by (cases accept) (auto split: bool.splits)
      then show ?thesis using True no
        by (intro exI [of _ "Suc n"]) (cases accept; auto split: bool.splits prod.splits)
    qed
  qed (use 2 in auto)
qed simp

text \<open>The synthesiser's reader.\<close>

definition content_msg :: "server_msg \<Rightarrow> bool" where
  "content_msg m \<longleftrightarrow> \<not> error_msg m \<and> \<not> reset_msg m"

definition final_msg :: "server_msg \<Rightarrow> bool" where
  "final_msg m \<longleftrightarrow> content_msg m \<and> sm_final m = Some True"

definition audio_of :: "(gostring \<Rightarrow> bytes option) \<Rightarrow> server_msg list \<Rightarrow> bytes list" where
  "audio_of b64 ms = List.map_filter (msg_audio b64) (filter content_msg ms)"

lemma audio_of_simps [simp]:
  "audio_of b64 [] = []"
  "audio_of b64 (m # ms) = (if content_msg m then (case msg_audio b64 m of None \<Rightarrow> [] | Some a \<Rightarrow> [a]) else []) @ audio_of b64 ms"
  by (auto simp: audio_of_def List.map_filter_def split: option.split)

lemma tts_read_final:
  "\<forall>m\<in>set pre. \<not> final_msg m \<Longrightarrow> final_msg m \<Longrightarrow>
   tts_read b64 [] (pre @ m # rest) = (audio_of b64 (pre @ [m]), ByFinal)"
  by (induction pre) (auto simp: final_msg_def content_msg_def Let_def split: option.splits)

lemma tts_read_open:
  "\<forall>m\<in>set ms. \<not> final_msg m \<Longrightarrow> tts_read b64 [] ms = (audio_of b64 ms, ByConnection)"
  by (induction ms) (auto simp: final_msg_def content_msg_def Let_def split: option.splits)

lemma tts_read_prefix: "\<exists>n. fst (tts_read b64 accept ms) = take n (fst (tts_read b64 [] ms))"
proof (induction b64 accept ms rule: tts_read.induct)
  case (2 b64 accept m ms)
  show ?case
  proof (cases "error_msg m \<or> reset_msg m")
    case False
    show ?thesis
    proof (cases "msg_audio b64 m")
      case None
      show ?thesis
      proof (cases "sm_final m = Some True")
        case True
        then show ?thesis using False None by simp
      next
        case fin: False
        then show ?thesis using 2(2) [OF False None] False None by simp
      qed
    next
      case (Some pcm)
      consider bs where "accept = False # bs" | "\<nexists>bs. accept = False # bs" by blast
      then show ?thesis
      proof cases
        case 1
        then show ?thesis using False Some by (intro exI [of _ 0]) simp
      next
        case no: 2
        then have split: "(case accept of False # _ \<Rightarrow> x | _ \<Rightarrow> y) = y" for x y :: "bytes list \<times> read_end"
          by (cases accept) (auto split: bool.splits)
        show ?thesis
        proof (cases "sm_final m = Some True")
          case True
          then show ?thesis using False Some by (intro exI [of _ 1]) (simp add: split)
        next
          case fin: False
          have "\<exists>n. fst (tts_read b64 (tl accept) ms) = take n (fst (tts_read b64 [] ms))"
            using 2(3,4) [OF False Some] fin no by (cases accept) (auto split: bool.splits)
          then obtain n where "fst (tts_read b64 (tl accept) ms) = take n (fst (tts_read b64 [] ms))" ..
          then show ?thesis using False Some fin
            by (intro exI [of _ "Suc n"]) (simp add: split case_prod_beta)
        qed
      qed
    qed
  qed (use 2 in auto)
qed simp

section \<open>Milliseconds on the wire\<close>

lemma fraction_shown:
  assumes "unit_ns u = Some k" "0 < m" "m < 1000"
  shows "\<exists>ds f sc. thousandths m = CHR ''.'' # ds \<and> leading_fraction False 0 1 (ds @ u) = (f, sc, u) \<and>
           f * 1000000000 div sc = m * 1000000"
proof -
  have u: "u \<noteq> []" "\<not> is_digit (hd u)" using unit_ns_pos [OF assms(1)] unit_chars [OF assms(1)] by auto
  then obtain c cs where c: "u = c # cs" "\<not> is_digit c" by (cases u) auto
  have d1: "is_digit (digit (m div 100)) \<and> digit_val (digit (m div 100)) = m div 100"
    by (rule digit_facts) (use assms in simp)
  have d2: "is_digit (digit (m div 10 mod 10)) \<and> digit_val (digit (m div 10 mod 10)) = m div 10 mod 10"
    by (rule digit_facts) simp
  have d3: "is_digit (digit (m mod 10)) \<and> digit_val (digit (m mod 10)) = m mod 10"
    by (rule digit_facts) simp
  have hund: "m div 100 = m div 10 div 10" by (simp add: div_mult2_eq [symmetric])
  have bnd: "m div 100 < 10" using assms by simp
  have "m mod 10 = m mod 100 mod 10" by (simp add: mod_mod_cancel)
  then consider "m mod 100 = 0" | "m mod 100 \<noteq> 0" "m mod 10 = 0" | "m mod 10 \<noteq> 0" "m mod 100 \<noteq> 0" by fastforce
  then show ?thesis
  proof cases
    case 1
    then have "m div 100 * 100 = m" by (metis add.right_neutral div_mult_mod_eq)
    then show ?thesis using 1 assms(2) d1 bnd c
      by (intro exI [of _ "[digit (m div 100)]"] exI [of _ "m div 100"] exI [of _ 10]) (simp add: thousandths_def)
  next
    case 2
    have e: "m div 100 * 10 + m div 10 mod 10 = m div 10" by (simp add: hund)
    have t: "m div 10 * 10 = m" using 2 by (metis add.right_neutral div_mult_mod_eq)
    have "m div 10 * 1000000000 div 100 = m div 10 * 10 * 1000000" by simp
    then have w: "m div 10 * 1000000000 div 100 = m * 1000000" by (simp only: t)
    then show ?thesis using 2 assms(2,3) d1 d2 bnd c e w
      by (intro exI [of _ "[digit (m div 100), digit (m div 10 mod 10)]"] exI [of _ "m div 10"] exI [of _ 100])
         (auto simp: thousandths_def Let_def)
  next
    case 3
    have "m div 100 * 10 + m div 10 mod 10 = m div 10" by (simp add: hund)
    then have e: "(m div 100 * 10 + m div 10 mod 10) * 10 + m mod 10 = m" by simp
    then show ?thesis using 3 assms(2,3) d1 d2 d3 bnd c
      by (intro exI [of _ "[digit (m div 100), digit (m div 10 mod 10), digit (m mod 10)]"] exI [of _ m] exI [of _ 1000])
         (auto simp: thousandths_def Let_def)
  qed
qed

lemma sec_str_denotes:
  assumes "0 \<le> ms" "ms < 9223372036854"
  shows "parse_duration (to_sec_str ms @ ''s'') = Some (ms * 1000000)"
proof (cases "ms = 0")
  case True
  have "parse_duration (show_nat 0 @ ''s'') = Some (int (0 * 1000000000))"
    by (rule parse_whole) (simp_all add: unit_ns_def)
  moreover have "show_nat 0 = ''0''" by (simp add: show_nat.simps [of 0] digit_def char_of_eq_iff)
  ultimately show ?thesis using True by (simp add: to_sec_str_def)
next
  case False
  define n where "n = nat ms"
  have n: "0 < n" "n < 9223372036854" "ms = int n" using False assms by (simp_all add: n_def)
  have u: "unit_ns ''s'' = Some 1000000000" by (simp add: unit_ns_def)
  have s: "to_sec_str ms @ ''s'' = show_nat (n div 1000) @ thousandths (n mod 1000) @ ''s''"
    using n by (simp add: to_sec_str_def)
  have q: "n = n div 1000 * 1000 + n mod 1000" by simp
  obtain f sc where f: "thousandths (n mod 1000) = [] \<and> f = 0 \<and> sc = 1 \<or>
      (\<exists>ds. thousandths (n mod 1000) = CHR ''.'' # ds \<and> leading_fraction False 0 1 (ds @ ''s'') = (f, sc, ''s''))"
      "f * 1000000000 div sc = n mod 1000 * 1000000"
  proof (cases "n mod 1000 = 0")
    case True
    then show ?thesis using that [of 0 1] by (simp add: thousandths_def)
  next
    case False
    then show ?thesis using fraction_shown [OF u, of "n mod 1000"] that by auto
  qed
  have tot: "n div 1000 * 1000000000 + f * 1000000000 div sc = n * 1000000"
  proof -
    have "n div 1000 * 1000000000 + n mod 1000 * 1000000 = (n div 1000 * 1000 + n mod 1000) * 1000000"
      by (simp only: add_mult_distrib mult.assoc)
    then show ?thesis unfolding f(2) by simp
  qed
  have "n * 1000000 \<le> 2 ^ 63 - 1" using n(2) by simp
  moreover have "n div 1000 \<le> 2 ^ 63 div 1000000000" using n(2) by simp
  moreover have "n div 1000 \<le> 2 ^ 63" using n(2) by simp
  ultimately have "parse_duration (show_nat (n div 1000) @ thousandths (n mod 1000) @ ''s'') = Some (int (n * 1000000))"
    using parse_shown [OF u _ f(1)] tot by simp
  then show ?thesis using s n(3) by simp
qed

section \<open>Properties\<close>


text \<open>
  The reply's audio: the synthesiser's reader passes on the decoded audio of the messages in order,
  up to and including the final one, error and reset frames apart; a cancelled reader has passed on
  a prefix of that; and without a final message the stream ends only with the connection.
\<close>

theorem reply_audio_in_order:
  assumes "\<forall>m\<in>set pre. \<not> final_msg m" "final_msg m"
  shows "tts_read b64 [] (pre @ m # rest) = (audio_of b64 (pre @ [m]), ByFinal) \<and>
     (\<exists>n. fst (tts_read b64 accept (pre @ m # rest)) = take n (audio_of b64 (pre @ [m]))) \<and>
     tts_read b64 [] pre = (audio_of b64 pre, ByConnection)"
  using tts_read_final [OF assms] tts_read_prefix [of b64 accept "pre @ m # rest"] tts_read_open [OF assms(1)]
  by simp

text \<open>C32: 
  The sending side of a recogniser stream, under any interleaving of \<open>SendAudio\<close>, \<open>CloseSend\<close> and
  \<open>Close\<close>: it is closed at most once, and whenever the context has been cancelled it was closed
  before, so the service could still flush a final transcript.
\<close>

theorem upload_closed_once:
  assumes "steps_from asr_step new_asr_stream s"
  shows "count_list (az_wire s) UpHalfClose \<le> 1 \<and> (az_cancelled s \<longrightarrow> UpHalfClose \<in> set (az_wire s))"
proof -
  have "asr_ok s" using asr.reach_inv [OF _ assms] by simp
  then have "count_list (az_wire s) UpHalfClose = (if az_send_closed s then 1 else 0)"
    "az_cancelled s \<longrightarrow> az_send_closed s" by (simp_all add: asr_ok_def)
  then show ?thesis by (metis count_notin le_refl zero_le_one zero_neq_one)
qed

text \<open>
  The recogniser is told the configured time-outs exactly: the seconds in the stream's metadata
  denote the whole number of milliseconds of the configuration, fractions of a second included.
\<close>

theorem timeouts_reach_recogniser:
  assumes "opts = listen_opts uuid cfg" "0 \<le> n" "n < 9223372036854"
    and "cfg_silence_timeout cfg = millis n"
  shows "\<exists>v. (''silence_timeout'', v) \<in> set (stream_metadata token opts) \<and>
           parse_duration (v @ ''s'') = Some (cfg_silence_timeout cfg)"
proof -
  have "silence_timeout_ms opts = n" using assms
    by (cases "n = 0") (simp_all add: listen_opts_def to_ms_def millis_def)
  then show ?thesis
    using sec_str_denotes [OF assms(2,3)] assms(4) by (auto simp: stream_metadata_def Let_def millis_def)
qed

text \<open>A connection that was opened is closed again exactly when \<open>StartStream\<close> fails.\<close>

lemma opened_connection_released:
  "dial_err = None \<Longrightarrow> start_tts c dial_err w a voice rs tmp = (acts, res) \<Longrightarrow>
   count_list acts TtsConnClose = (if \<exists>e. res = Inl e then 1 else 0) \<and> (TtsGoroutines \<in> set acts \<longleftrightarrow> res = Inr ())"
  by (auto simp: start_tts_def Let_def split: option.splits sum.splits if_splits)

section \<open>Concrete streams\<close>

definition heard :: "gostring \<Rightarrow> bool \<Rightarrow> asr_reply" where
  "heard w fin = \<lparr>ry_status = 0, ry_final = fin, ry_hyps = Some [([], w)]\<rparr>"

definition busy_reply :: asr_reply where
  "busy_reply = \<lparr>ry_status = 3, ry_final = True, ry_hyps = None\<rparr>"


definition frame_msg :: "gostring \<Rightarrow> bool \<Rightarrow> server_msg" where
  "frame_msg a fin = \<lparr>sm_error = None, sm_status = None, sm_status_text = [], sm_audio = Some a, sm_final = Some fin\<rparr>"

theorem reply_audio_in_order_witness:
  "tts_read Some [] [frame_msg ''one'' False, (frame_msg ''x'' True)\<lparr>sm_error := Some ''busy''\<rparr>, frame_msg ''two'' True, frame_msg ''late'' True] =
     ([''one'', ''two''], ByFinal)"
  using reply_audio_in_order [of "[frame_msg ''one'' False, (frame_msg ''x'' True)\<lparr>sm_error := Some ''busy''\<rparr>]"
      "frame_msg ''two'' True" Some "[frame_msg ''late'' True]" "[]"]
  by (simp add: frame_msg_def final_msg_def content_msg_def error_msg_def reset_msg_def str_at_def msg_audio_def)

theorem upload_closed_once_witness:
  "\<exists>s. steps_from asr_step new_asr_stream s \<and> az_wire s = [UpHalfClose, UpAudio ''f''] \<and> az_cancelled s \<and>
       count_list (az_wire s) UpHalfClose \<le> 1"
proof -
  let ?s1 = "new_asr_stream\<lparr>az_busy := [Passed ''f'']\<rparr>"
  let ?s2 = "?s1\<lparr>az_closed := True, az_busy := [Passed ''f'', Closing]\<rparr>"
  let ?s3 = "?s2\<lparr>az_send_closed := True, az_wire := [UpHalfClose], az_busy := [Passed ''f'', Cancelling]\<rparr>"
  let ?s4 = "?s3\<lparr>az_busy := [Passed ''f''], az_cancelled := True\<rparr>"
  let ?s5 = "?s4\<lparr>az_busy := [], az_wire := [UpHalfClose, UpAudio ''f'']\<rparr>"
  have r1: "steps_from asr_step new_asr_stream ?s1"
    by (rule steps_from_one) (use send_check [of new_asr_stream "''f''"] in \<open>simp add: new_asr_stream_def audio_refused_def\<close>)
  have r2: "steps_from asr_step new_asr_stream ?s2"
    by (rule steps_from.more [OF r1]) (use close_mark [of ?s1] in \<open>simp add: new_asr_stream_def\<close>)
  have r3: "steps_from asr_step new_asr_stream ?s3"
    by (rule steps_from.more [OF r2])
       (use close_locked [of ?s2 "[Passed ''f'']" "[]"] in \<open>simp add: new_asr_stream_def half_close_def\<close>)
  have r4: "steps_from asr_step new_asr_stream ?s4"
    by (rule steps_from.more [OF r3]) (use close_cancel [of ?s3 "[Passed ''f'']" "[]"] in \<open>simp add: new_asr_stream_def\<close>)
  have run: "steps_from asr_step new_asr_stream ?s5"
    by (rule steps_from.more [OF r4]) (use send_locked [of ?s4 "[]" "''f''" "[]"] in \<open>simp add: new_asr_stream_def\<close>)
  show ?thesis using run upload_closed_once [OF run] by (intro exI [of _ ?s5]) simp
qed

definition demo_asr :: "duration \<Rightarrow> asr_config" where
  "demo_asr w = \<lparr>cfg_sample_rate = 8000, cfg_silence_timeout = w, cfg_speech_timeout = 0, cfg_speech_max = 0,
     cfg_single_sentence = True\<rparr>"

theorem timeouts_reach_recogniser_witness:
  "(''silence_timeout'', ''1.5'') \<in> set (stream_metadata [] (listen_opts [] (demo_asr (millis 1500))))
   \<and> parse_duration ''1.5s'' = Some (millis 1500)"
proof -
  let ?cfg = "demo_asr (millis 1500)"
  have val: "to_sec_str 1500 = ''1.5''"
    by (simp add: to_sec_str_def thousandths_def show_nat.simps [of 1] show_nat.simps [of "Suc 0"] digit_def char_of_eq_iff)
  have opts: "silence_timeout_ms (listen_opts [] ?cfg) = 1500" by (simp add: listen_opts_def to_ms_def millis_def demo_asr_def)
  obtain v where v: "(''silence_timeout'', v) \<in> set (stream_metadata [] (listen_opts [] ?cfg))"
      "parse_duration (v @ ''s'') = Some (cfg_silence_timeout ?cfg)"
    using timeouts_reach_recogniser [OF refl, of 1500 ?cfg "[]" "[]"] by (auto simp: demo_asr_def)
  moreover have "v = ''1.5''" using v(1) by (simp add: stream_metadata_def Let_def opts val)
  ultimately show ?thesis by (simp add: demo_asr_def)
qed

end
