(* ===== verification/Recording.thy ===== *)
theory Recording
  imports Paths CallsProps Complex_Main
begin

text \<open>
  \<open>internal/recording/archiver.go\<close>: the recording that FreeSWITCH leaves in one of the source
  directories is copied into the dated archive once it has appeared, and the call row gets its URL;
  and \<open>MountStaticDir\<close> of \<open>internal/api/router.go\<close>, which serves the archive, with the path
  handling of \<open>net/http\<close>'s file server.  The files an attempt finds, what the copy reads and the
  failures of the file system come from \<open>archive_env\<close>.
\<close>

section \<open>The archiver\<close>

record archiver =
  ar_sources :: "gostring list"
  ar_dir :: gostring
  ar_url :: gostring
  ar_ext :: gostring
  ar_attempts :: nat
  ar_wait :: duration
  ar_persister :: bool

definition new_multi :: "gostring list \<Rightarrow> gostring \<Rightarrow> gostring \<Rightarrow> gostring \<Rightarrow> bool \<Rightarrow> archiver" where
  "new_multi srcs dir url ext pers =
     (let ext = (if ext = [] then ''.mp3'' else ext);
          ext = (if has_prefix ext ''.'' then ext else ''.'' @ ext) in
      \<lparr>ar_sources = filter (\<lambda>d. d \<noteq> []) srcs, ar_dir = dir, ar_url = trim_set_right {CHR ''/''} url, ar_ext = ext,
       ar_attempts = 12, ar_wait = 2000000000, ar_persister = pers\<rparr>)"

definition new_archiver :: "gostring \<Rightarrow> gostring \<Rightarrow> gostring \<Rightarrow> gostring \<Rightarrow> bool \<Rightarrow> archiver" where
  "new_archiver src = new_multi [src]"

fun archiver_enabled :: "archiver option \<Rightarrow> bool" where
  "archiver_enabled None = False"
| "archiver_enabled (Some a) = (ar_sources a \<noteq> [] \<and> ar_dir a \<noteq> [])"

text \<open>What opening a source file finds: nothing, a failure, or a file with what \<open>Stat\<close> says of its size.\<close>

datatype src_file = NoFile | OpenErr gostring | SrcFile "nat option"

record archive_env =
  ve_open :: "nat \<Rightarrow> gostring \<Rightarrow> src_file"
  ve_ctx :: "nat \<Rightarrow> gostring option"
  ve_date :: "gostring \<times> gostring \<times> gostring"
  ve_mkdir :: "gostring option"
  ve_create :: "gostring option"
  ve_copy :: "gostring \<Rightarrow> bytes \<times> gostring option"
  ve_sync :: "gostring option"

text \<open>One scan of the source directories: the path that won, no file yet, or an error.\<close>

fun scan_dirs :: "(gostring \<Rightarrow> src_file) \<Rightarrow> gostring \<Rightarrow> gostring list \<Rightarrow> gostring option result" where
  "scan_dirs look name [] = Inr None"
| "scan_dirs look name (dir # dirs) =
     (let path = join_path [dir, name] in
      case look path of
        NoFile \<Rightarrow> scan_dirs look name dirs
      | OpenErr e \<Rightarrow> Inl (''open source '' @ path @ '': '' @ e)
      | SrcFile (Some n) \<Rightarrow> if 0 < n then Inr (Some path) else scan_dirs look name dirs
      | SrcFile None \<Rightarrow> scan_dirs look name dirs)"

text \<open>The attempts from \<open>attempt\<close> on, \<open>n\<close> of them left; \<open>ve_ctx\<close> is an expiry during the wait before one.\<close>

fun attempts_from :: "archive_env \<Rightarrow> archiver \<Rightarrow> gostring \<Rightarrow> nat \<Rightarrow> nat \<Rightarrow> gostring result" where
  "attempts_from env a name attempt 0 = Inl ''source file did not appear in any source dir within retry window''"
| "attempts_from env a name attempt (Suc n) =
     (case (if 0 < attempt then ve_ctx env attempt else None) of
        Some e \<Rightarrow> Inl e
      | None \<Rightarrow>
         (case scan_dirs (ve_open env attempt) name (ar_sources a) of
            Inl e \<Rightarrow> Inl e
          | Inr (Some path) \<Rightarrow> Inr path
          | Inr None \<Rightarrow> attempts_from env a name (Suc attempt) n))"

definition wait_for_file :: "archive_env \<Rightarrow> archiver \<Rightarrow> gostring \<Rightarrow> gostring result" where
  "wait_for_file env a k = attempts_from env a (k @ ar_ext a) 0 (ar_attempts a)"

definition archive_path :: "archive_env \<Rightarrow> archiver \<Rightarrow> gostring \<Rightarrow> gostring" where
  "archive_path env a k =
     (case ve_date env of (y, m, dd) \<Rightarrow> join_path [join_path [ar_dir a, join_path [y, m, dd]], k @ ar_ext a])"

definition archive_url :: "archive_env \<Rightarrow> archiver \<Rightarrow> gostring \<Rightarrow> gostring" where
  "archive_url env a k = (case ve_date env of (y, m, dd) \<Rightarrow> join_with ''/'' [ar_url a, y, m, dd, k @ ar_ext a])"

type_synonym files = "gostring \<Rightarrow> bytes option"

text \<open>
  \<open>Archive\<close>: its result, the archive's files and the database.  The file is created or emptied
  first, so a failed copy leaves what it had written.
\<close>

definition archive :: "archiver option \<Rightarrow> archive_env \<Rightarrow> gostring \<Rightarrow> files \<Rightarrow> db \<Rightarrow> gostring result \<times> files \<times> db" where
  "archive ao env k fs d =
     (case ao of None \<Rightarrow> (Inr [], fs, d) | Some a \<Rightarrow>
      if \<not> archiver_enabled ao then (Inr [], fs, d)
      else case wait_for_file env a k of Inl e \<Rightarrow> (Inl e, fs, d) | Inr src \<Rightarrow>
      case ve_mkdir env of Some e \<Rightarrow> (Inl (''mkdir archive: '' @ e), fs, d) | None \<Rightarrow>
      case ve_create env of Some e \<Rightarrow> (Inl (''open archive dst: '' @ e), fs, d) | None \<Rightarrow>
      (let (content, cerr) = ve_copy env src;
           fs' = fs(archive_path env a k \<mapsto> content) in
       case cerr of Some e \<Rightarrow> (Inl (''copy: '' @ e), fs', d) | None \<Rightarrow>
       case ve_sync env of Some e \<Rightarrow> (Inl (''fsync: '' @ e), fs', d) | None \<Rightarrow>
       (let url = archive_url env a k;
            d' = (if ar_persister a then snd (set_recording_url k url d) else d) in
        (Inr url, fs', d'))))"

section \<open>Serving a directory\<close>

definition mount_prefix :: "gostring \<Rightarrow> gostring" where
  "mount_prefix pfx = (if has_suffix pfx ''/'' then pfx else pfx @ ''/'')"

text \<open>The file below \<open>dir\<close> the file server opens for the rest of a path.\<close>

definition served_file :: "gostring \<Rightarrow> gostring \<Rightarrow> gostring" where
  "served_file dir p =
     (let upath = (if has_prefix p ''/'' then p else ''/'' @ p);
          name = clean_path upath;
          rel = drop 1 (clean_path (''/'' @ name)) in
      join_path [dir, if rel = [] then ''.'' else rel])"

text \<open>\<open>MountStaticDir\<close>: the file a request path opens under the mount, if the mount takes it.\<close>

definition serve_static :: "gostring \<Rightarrow> gostring \<Rightarrow> gostring \<Rightarrow> gostring option" where
  "serve_static pfx dir path =
     (if pfx = [] \<or> dir = [] then None
      else if has_prefix path (mount_prefix pfx) then Some (served_file dir (trim_prefix path (mount_prefix pfx)))
      else None)"

section \<open>Lemmas\<close>

lemma served_plain:
  assumes "\<forall>e\<in>set es. plain_elem e" "es \<noteq> []" "\<forall>f\<in>set fs. plain_elem f" "fs \<noteq> []"
  shows "served_file (dir_of es) (join_with ''/'' fs) = dir_of (es @ fs)"
proof -
  have head: "\<not> has_prefix (join_with ''/'' fs) ''/''"
    by (rule join_with_head [OF assms(3,4)])
  have ne: "join_with ''/'' fs \<noteq> []" using assms(3,4) by (rule join_with_ne)
  have up: "''/'' @ join_with ''/'' fs = dir_of fs" by (simp add: dir_of_def)
  have join: "join_path [dir_of es, join_with ''/'' fs] = dir_of (es @ fs)" by (rule join_path_nested [OF assms])
  have "served_file (dir_of es) (join_with ''/'' fs) =
      join_path [dir_of es, if drop 1 (dir_of fs) = [] then ''.'' else drop 1 (dir_of fs)]"
    unfolding served_file_def Let_def if_not_P [OF head] up clean_dir_of [OF assms(3,4)] clean_slash_dir_of [OF assms(3)] ..
  then show ?thesis using ne join by (simp add: dir_of_def)
qed

text \<open>Whatever the path holds, \<open>..\<close> included, the file stays below the directory.\<close>

lemma served_below:
  assumes "\<forall>e\<in>set es. plain_elem e" "es \<noteq> []"
  shows "\<exists>fs. (\<forall>f\<in>set fs. plain_elem f) \<and> served_file (dir_of es) p = dir_of (es @ fs)"
proof -
  define upath where "upath = (if has_prefix p ''/'' then p else ''/'' @ p)"
  have "is_rooted upath" by (simp add: upath_def is_rooted_def has_prefix_def)
  then obtain cs where cs: "\<forall>c\<in>set cs. plain_elem c" "clean_path upath = dir_of cs" using clean_rooted by blast
  have "served_file (dir_of es) p =
      join_path [dir_of es, if drop 1 (dir_of cs) = [] then ''.'' else drop 1 (dir_of cs)]"
    unfolding served_file_def Let_def upath_def [symmetric] cs(2) clean_slash_dir_of [OF cs(1)] ..
  moreover have "\<dots> = dir_of (es @ cs)"
  proof (cases "cs = []")
    case True
    then show ?thesis using join_path_single [OF assms] by (simp add: dir_of_def)
  next
    case False
    then show ?thesis using join_path_nested [OF assms cs(1)] join_with_ne [OF cs(1)] by (simp add: dir_of_def)
  qed
  ultimately show ?thesis using cs(1) by auto
qed


text \<open>The search ends at the first attempt whose scan decides.\<close>

lemma attempts_from_iff:
  "attempts_from env a name i n = Inr path \<longleftrightarrow>
     (\<exists>j. i \<le> j \<and> j < i + n \<and> scan_dirs (ve_open env j) name (ar_sources a) = Inr (Some path) \<and>
          (\<forall>m. i \<le> m \<and> m < j \<longrightarrow> scan_dirs (ve_open env m) name (ar_sources a) = Inr None) \<and>
          (\<forall>m. i \<le> m \<and> m \<le> j \<and> 0 < m \<longrightarrow> ve_ctx env m = None))" (is "_ \<longleftrightarrow> (\<exists>j. ?P i n j)")
proof (induction n arbitrary: i)
  case (Suc n)
  have split: "(\<exists>j. ?P i (Suc n) j) \<longleftrightarrow> ?P i (Suc n) i \<or>
      scan_dirs (ve_open env i) name (ar_sources a) = Inr None \<and> (0 < i \<longrightarrow> ve_ctx env i = None) \<and> (\<exists>j. ?P (Suc i) n j)"
  proof
    assume "\<exists>j. ?P i (Suc n) j"
    then obtain j where j: "?P i (Suc n) j" by blast
    show "?P i (Suc n) i \<or> scan_dirs (ve_open env i) name (ar_sources a) = Inr None \<and>
        (0 < i \<longrightarrow> ve_ctx env i = None) \<and> (\<exists>j. ?P (Suc i) n j)"
    proof (cases "j = i")
      case True
      then show ?thesis using j by simp
    next
      case False
      then have "?P (Suc i) n j" using j by (metis Suc_leI Suc_leD add_Suc_shift le_neq_implies_less)
      moreover have "scan_dirs (ve_open env i) name (ar_sources a) = Inr None" "0 < i \<longrightarrow> ve_ctx env i = None"
        using j False by auto
      ultimately show ?thesis by blast
    qed
  next
    assume "?P i (Suc n) i \<or> scan_dirs (ve_open env i) name (ar_sources a) = Inr None \<and>
        (0 < i \<longrightarrow> ve_ctx env i = None) \<and> (\<exists>j. ?P (Suc i) n j)"
    then show "\<exists>j. ?P i (Suc n) j"
    proof
      assume r: "scan_dirs (ve_open env i) name (ar_sources a) = Inr None \<and> (0 < i \<longrightarrow> ve_ctx env i = None) \<and>
          (\<exists>j. ?P (Suc i) n j)"
      then obtain j where "?P (Suc i) n j" by blast
      then have "?P i (Suc n) j" using r by (metis Suc_leD Suc_leI add_Suc_shift antisym_conv2)
      then show ?thesis by blast
    qed blast
  qed
  show ?case
    by (subst split) (auto simp: Suc.IH split: option.split sum.split)
qed simp

lemma archive_cases:
  assumes "archive ao env k fs d = (Inr url, fs', d')" "archiver_enabled ao"
  obtains a src content where "ao = Some a" "wait_for_file env a k = Inr src" "ve_copy env src = (content, None)"
    "url = archive_url env a k" "fs' = fs(archive_path env a k \<mapsto> content)"
    "d' = (if ar_persister a then snd (set_recording_url k url d) else d)"
  using assms by (auto simp: archive_def Let_def split: option.splits if_splits sum.splits prod.splits)

lemma set_recording_url_ok: "faults d = [] \<Longrightarrow> snd (set_recording_url k url d) =
    d\<lparr>calls := map (\<lambda>c. if cr_call_id (c_rec c) = k then c\<lparr>c_recording := url\<rparr> else c) (calls d)\<rparr>"
  by (simp add: set_recording_url_def run_query_def)

lemma first_row_map:
  "(\<And>x. P (f x) = P x) \<Longrightarrow> first_row P (map f xs) = map_option f (first_row P xs)"
  by (induction xs) (auto simp: first_row_def)

lemma recorded_call:
  assumes "faults d = []" "first_row (\<lambda>c. cr_call_id (c_rec c) = k) (calls d) = Some c"
  shows "\<exists>v. fst (get_call k (snd (set_recording_url k url d))) = Inr (Some (c\<lparr>c_recording := url\<rparr>, v))"
proof -
  let ?d = "snd (set_recording_url k url d)"
  have ok: "faults ?d = []" using assms(1) by (simp add: set_recording_url_ok)
  have id: "cr_call_id (c_rec c) = k" using first_row_SomeD [OF assms(2)] by simp
  have "first_row (\<lambda>c. cr_call_id (c_rec c) = k) (calls ?d) = Some (c\<lparr>c_recording := url\<rparr>)"
    unfolding set_recording_url_ok [OF assms(1)] by (simp add: first_row_map assms(2) id)
  then show ?thesis by (simp add: get_call_ok [OF ok] view_call_def)
qed

lemma trim_dir_of:
  assumes "\<forall>e\<in>set es. plain_elem e" "es \<noteq> []" "u = dir_of es \<or> u = dir_of es @ ''/''"
  shows "trim_set_right {CHR ''/''} u = dir_of es" "mount_prefix u = dir_of es @ ''/''"
proof -
  obtain r c where "dir_of es = r @ [c]" "c \<noteq> CHR ''/''"
  proof -
    have e: "last es \<in> set es" using assms(2) by simp
    have "\<exists>p. join_with ''/'' es = p @ last es" by (rule join_with_last) (rule assms(2))
    then obtain p where "join_with ''/'' es = p @ last es" ..
    moreover obtain q c where "last es = q @ [c]" "c \<noteq> CHR ''/''"
      using plain_elem_last e assms(1) by blast
    ultimately have "dir_of es = (''/'' @ p @ q) @ [c]" by (simp add: dir_of_def)
    then show ?thesis using that \<open>c \<noteq> CHR ''/''\<close> by blast
  qed
  then have u: "u = r @ [c] \<or> u = r @ [c, CHR ''/'']" and d: "dir_of es = r @ [c]" and c: "c \<noteq> CHR ''/''"
    using assms(3) by simp_all
  show "trim_set_right {CHR ''/''} u = dir_of es" using u c by (auto simp: trim_set_right_def d)
  show "mount_prefix u = dir_of es @ ''/''" using u c by (auto simp: mount_prefix_def has_suffix_def d)
qed


lemma archive_path_dir:
  assumes "ar_dir a = dir_of es" "\<forall>e\<in>set es. plain_elem e" "es \<noteq> []" "ve_date env = (y, m, dd)"
    and "plain_elem y" "plain_elem m" "plain_elem dd" "plain_elem (k @ ar_ext a)"
  shows "archive_path env a k = dir_of (es @ [y, m, dd, k @ ar_ext a])"
proof -
  let ?tl = "[y, m, dd]"
  have tl: "\<forall>f\<in>set ?tl. plain_elem f" using assms by simp
  have "join_path [dir_of es, join_path ?tl] = dir_of (es @ ?tl)"
    unfolding join_path_rel [OF tl list.simps(3)] by (rule join_path_nested) (use assms tl in auto)
  moreover have "join_path [dir_of (es @ ?tl), k @ ar_ext a] = dir_of ((es @ ?tl) @ [k @ ar_ext a])"
    by (rule join_path_dir) (use assms in auto)
  ultimately show ?thesis by (simp add: archive_path_def assms(1,4))
qed

section \<open>A concrete archiver\<close>

definition demo_archiver :: archiver where
  "demo_archiver = new_multi [''/in'', ''/out''] ''/rec'' ''/recordings/'' [] True"

text \<open>The file appears in the second directory, empty at the first attempt.\<close>

definition demo_archive_env :: archive_env where
  "demo_archive_env = \<lparr>ve_open = (\<lambda>i p. if p = ''/out/c1.mp3'' then SrcFile (Some (3 * i)) else NoFile), ve_ctx = (\<lambda>_. None),
      ve_date = (''2025'', ''01'', ''31''), ve_mkdir = None, ve_create = None,
      ve_copy = (\<lambda>p. if p = ''/out/c1.mp3'' then (''ID3'', None) else ([], Some ''gone'')), ve_sync = None\<rparr>"

lemma demo_join: "join_path [''/in'', ''c1.mp3''] = ''/in/c1.mp3''" "join_path [''/out'', ''c1.mp3''] = ''/out/c1.mp3''"
  by (simp_all add: join_path_def clean_path_def is_rooted_def has_prefix_def)

lemma demo_archiver_fields: "ar_sources demo_archiver = [''/in'', ''/out'']" "ar_dir demo_archiver = ''/rec''"
  "ar_url demo_archiver = ''/recordings''" "ar_ext demo_archiver = ''.mp3''" "ar_attempts demo_archiver = 12"
  "ar_persister demo_archiver" "archiver_enabled (Some demo_archiver)"
  by (simp_all add: demo_archiver_def new_multi_def trim_set_right_def has_prefix_def Let_def)

lemma demo_wait: "wait_for_file demo_archive_env demo_archiver ''c1'' = Inr ''/out/c1.mp3''"
proof -
  have s0: "scan_dirs (ve_open demo_archive_env 0) ''c1.mp3'' [''/in'', ''/out''] = Inr None"
    and s1: "scan_dirs (ve_open demo_archive_env 1) ''c1.mp3'' [''/in'', ''/out''] = Inr (Some ''/out/c1.mp3'')"
    by (simp_all add: demo_join demo_archive_env_def)
  have "\<exists>j. 0 \<le> j \<and> j < 0 + 12 \<and>
      scan_dirs (ve_open demo_archive_env j) ''c1.mp3'' [''/in'', ''/out''] = Inr (Some ''/out/c1.mp3'') \<and>
      (\<forall>m. 0 \<le> m \<and> m < j \<longrightarrow> scan_dirs (ve_open demo_archive_env m) ''c1.mp3'' [''/in'', ''/out''] = Inr None) \<and>
      (\<forall>m. 0 \<le> m \<and> m \<le> j \<and> 0 < m \<longrightarrow> ve_ctx demo_archive_env m = None)"
    using s0 s1 by (intro exI [of _ "1::nat"]) (simp add: demo_archive_env_def)
  then show ?thesis by (simp add: wait_for_file_def demo_archiver_fields attempts_from_iff)
qed

lemma demo_archived: "faults d = [] \<Longrightarrow> archive (Some demo_archiver) demo_archive_env ''c1'' fs d =
    (Inr ''/recordings/2025/01/31/c1.mp3'', fs(archive_path demo_archive_env demo_archiver ''c1'' \<mapsto> ''ID3''),
     snd (set_recording_url ''c1'' ''/recordings/2025/01/31/c1.mp3'' d))"
  using demo_wait demo_archiver_fields
  by (simp add: archive_def archive_url_def demo_archive_env_def Let_def)

section \<open>Properties\<close>



text \<open>
  The archiver runs in a goroutine that the call starts just before it inserts its row.  When the
  copy is finished first, the URL goes to a row that does not exist yet and is lost without an
  error, whereas after the insert the same archiving is recorded.
\<close>

theorem early_archive_loses_url:
  assumes "archiver_enabled (Some a)" "ar_persister a" "faults d = []" "call_refs_ok r d" "\<not> has_call (cr_call_id r) d"
    and "archive (Some a) env (cr_call_id r) fs d = (Inr url, fs', d1)"
    and "re_archiver renv" "re_has_store renv" "r = build_call_record opts p err (re_now renv)"
  shows "(\<exists>pre. run_deferred renv opts p err = pre @ [FxArchive, FxInsert r]) \<and>
     fst (insert_call r d1) = Inr () \<and>
     (\<exists>v. fst (get_call (cr_call_id r) (snd (insert_call r d1))) = Inr (Some (\<lparr>c_rec = r, c_recording = []\<rparr>, v))) \<and>
     (\<exists>fs2 d2 v. archive (Some a) env (cr_call_id r) fs (snd (insert_call r d)) = (Inr url, fs2, d2) \<and>
        fst (get_call (cr_call_id r) d2) = Inr (Some (\<lparr>c_rec = r, c_recording = url\<rparr>, v)))"
proof -
  let ?k = "cr_call_id r"
  obtain src content where got: "wait_for_file env a ?k = Inr src" "ve_copy env src = (content, None)"
      "url = archive_url env a ?k" "fs' = fs(archive_path env a ?k \<mapsto> content)" "d1 = snd (set_recording_url ?k url d)"
    using archive_cases [OF assms(6,1)] assms(2) by (metis option.inject)
  have none: "\<forall>c\<in>set (calls d). cr_call_id (c_rec c) \<noteq> ?k" using assms(5) by (force simp: has_call_def)
  then have "map (\<lambda>c. if cr_call_id (c_rec c) = ?k then c\<lparr>c_recording := url\<rparr> else c) (calls d) = calls d"
    by (intro map_idI) auto
  then have d1: "d1 = d" by (simp add: got(5) set_recording_url_ok [OF assms(3)])
  define d2 where "d2 = d\<lparr>calls := calls d @ [\<lparr>c_rec = r, c_recording = []\<rparr>]\<rparr>"
  have ins: "insert_call r d = (Inr (), d2)" using assms(3,4,5) by (simp add: insert_call_def run_query_def d2_def)
  have row: "first_row (\<lambda>c. cr_call_id (c_rec c) = ?k) (calls d2) = Some \<lparr>c_rec = r, c_recording = []\<rparr>"
    using none by (auto simp: d2_def first_row_def filter_empty_conv)
  have ok: "faults d2 = []" using assms(3) by (simp add: d2_def)
  have "\<exists>v. fst (get_call ?k d2) = Inr (Some (\<lparr>c_rec = r, c_recording = []\<rparr>, v))"
    using row by (simp add: get_call_ok [OF ok] view_call_def)
  moreover have "archive (Some a) env ?k fs d2 = (Inr url, fs', snd (set_recording_url ?k url d2))"
    using assms(1,2,6) got by (auto simp: archive_def Let_def split: option.splits)
  moreover have "\<exists>v. fst (get_call ?k (snd (set_recording_url ?k url d2))) = Inr (Some (\<lparr>c_rec = r, c_recording = url\<rparr>, v))"
    using recorded_call [OF ok row] by simp
  moreover have "\<exists>pre. run_deferred renv opts p err = pre @ [FxArchive, FxInsert r]"
    using assms(7-9) by (simp add: run_deferred_def)
  ultimately show ?thesis using ins d1 by fastforce
qed


definition demo_record :: call_record where
  "demo_record = build_call_record (demo_opts\<lparr>ro_uuid := ''c1'', ro_bot := None\<rparr>) None None 9"

theorem early_archive_loses_url_witness:
  "\<exists>v. fst (get_call ''c1'' (snd (insert_call demo_record
         (snd (set_recording_url ''c1'' ''/recordings/2025/01/31/c1.mp3'' (demo_calls\<lparr>calls := []\<rparr>)))))) =
       Inr (Some (\<lparr>c_rec = demo_record, c_recording = []\<rparr>, v))"
proof -
  have "re_now (demo_run\<lparr>re_archiver := True\<rparr>) = 9" and has: "re_archiver (demo_run\<lparr>re_archiver := True\<rparr>)"
    "re_has_store (demo_run\<lparr>re_archiver := True\<rparr>)" by (simp_all add: demo_run_def)
  then have r: "demo_record = build_call_record (demo_opts\<lparr>ro_uuid := ''c1'', ro_bot := None\<rparr>) None None
      (re_now (demo_run\<lparr>re_archiver := True\<rparr>))" by (simp add: demo_record_def)
  have k: "cr_call_id demo_record = ''c1''" and refs: "call_refs_ok demo_record (demo_calls\<lparr>calls := []\<rparr>)"
    by (simp_all add: demo_record_def build_call_record_def Let_def call_refs_ok_def)
  have new: "\<not> has_call (cr_call_id demo_record) (demo_calls\<lparr>calls := []\<rparr>)" by (simp add: has_call_def)
  have ok: "faults (demo_calls\<lparr>calls := []\<rparr>) = []" by (simp add: demo_calls_def)
  show ?thesis
    using early_archive_loses_url [OF demo_archiver_fields(7,6) ok refs new
        demo_archived [OF ok, of "\<lambda>_. None", folded k] has r] by (simp add: k)
qed

end
