(* ===== verification/Boot.thy ===== *)
theory Boot
  imports Recording Config UsersProps BotsProps Vad
begin

text \<open>
  \<open>cmd/server/main.go\<close> and the bootstrap queries of \<open>internal/store\<close>: from the configuration to
  the running server.  The platform administrator is put in place, an empty installation gets its
  default bot, and the router is assembled; any failure on the way ends the process.  The connections
  themselves (tracing, Postgres, FreeSWITCH) are outcomes given by \<open>boot_env\<close>.
\<close>

section \<open>Bootstrap queries\<close>

definition put_tenant :: "uuid \<Rightarrow> gostring \<Rightarrow> gostring \<Rightarrow> uuid query" where
  "put_tenant fresh s n d =
     (if \<not> slug_ok 30 s then (Inl CheckViolation, d)
      else case first_row (\<lambda>t. t_slug t = s) (tenants d) of
        Some t \<Rightarrow> (Inr (t_id t), d\<lparr>tenants := map (\<lambda>t. if t_slug t = s then t\<lparr>t_name := n\<rparr> else t) (tenants d)\<rparr>)
      | None \<Rightarrow> (Inr fresh, d\<lparr>tenants := tenants d @ [\<lparr>t_id = fresh, t_slug = s, t_name = n, t_enabled = True\<rparr>]\<rparr>))"

definition upsert_tenant :: "uuid \<Rightarrow> gostring \<Rightarrow> gostring \<Rightarrow> uuid query" where
  "upsert_tenant fresh s n = run_query (put_tenant fresh s n)"

record seed_input =
  si_tenant_slug :: gostring
  si_tenant_name :: gostring
  si_slug :: gostring
  si_name :: gostring
  si_did :: gostring
  si_url :: gostring
  si_first_byte_ms :: int
  si_total_ms :: int
  si_asr_endpoint :: gostring
  si_asr_token :: gostring
  si_tts_endpoint :: gostring
  si_tts_token :: gostring
  si_voice :: gostring
  si_tempo :: real
  si_silence_sec :: real
  si_speech_sec :: real
  si_max_sec :: real
  si_bargein :: bool
  si_min_words :: int
  si_filler :: bool
  si_prefix :: gostring

text \<open>The row of the INSERT; the columns it does not name have their defaults.\<close>

definition seed_bot :: "uuid \<Rightarrow> time \<Rightarrow> uuid \<Rightarrow> seed_input \<Rightarrow> bot_config" where
  "seed_bot fresh now tid i =
     \<lparr>b_id = fresh, b_tenant = tid, b_tenant_slug = [], b_slug = si_slug i, b_name = si_name i, b_enabled = True,
      bot_url = si_url i, bot_first_byte_ms = si_first_byte_ms i, bot_total_ms = si_total_ms i,
      asr_provider = ''viettel'', asr_endpoint = si_asr_endpoint i, asr_token = si_asr_token i,
      tts_provider = ''viettel'', tts_endpoint = si_tts_endpoint i, tts_token = si_tts_token i,
      tts_voice_id = si_voice i, tts_tempo = si_tempo i, asr_silence_sec = si_silence_sec i,
      asr_speech_sec = si_speech_sec i, asr_max_sec = si_max_sec i, asr_single = True,
      bargein_enabled = si_bargein i, bargein_min_words = si_min_words i, filler_enabled_b = si_filler i,
      filler_mode = ''short'', filler_intent_url = [], filler_intent_ms = 1500, outbound_prefix = si_prefix i,
      b_version = 1, b_created = now, b_updated = now\<rparr>"

text \<open>\<open>ON CONFLICT (tenant_id, slug)\<close> takes any row with that slug, a deleted one too; only its name changes.\<close>

definition put_bot :: "uuid \<Rightarrow> time \<Rightarrow> uuid \<Rightarrow> seed_input \<Rightarrow> uuid query" where
  "put_bot fresh now tid i d =
     (if \<not> bot_check (seed_bot fresh now tid i) then (Inl CheckViolation, d)
      else case first_row (\<lambda>r. b_tenant (r_bot r) = tid \<and> b_slug (r_bot r) = si_slug i) (bots d) of
        Some r \<Rightarrow> (Inr (b_id (r_bot r)),
          d\<lparr>bots := map (\<lambda>r. if b_tenant (r_bot r) = tid \<and> b_slug (r_bot r) = si_slug i
                               then r\<lparr>r_bot := (r_bot r)\<lparr>b_name := si_name i, b_updated := now\<rparr>\<rparr> else r) (bots d)\<rparr>)
      | None \<Rightarrow> (Inr fresh, d\<lparr>bots := bots d @ [\<lparr>r_bot = seed_bot fresh now tid i, r_deleted = False\<rparr>]\<rparr>))"

definition put_did :: "time \<Rightarrow> gostring \<Rightarrow> uuid \<Rightarrow> unit query" where
  "put_did now did i d =
     (if did = [] then (Inr (), d)
      else if \<not> did_ok did then (Inl CheckViolation, d)
      else if did \<in> d_did ` set (dids d) then (Inr (), d)
      else (Inr (), d\<lparr>dids := dids d @ [\<lparr>d_did = did, d_bot = i, d_note = [], d_created = now\<rparr>]\<rparr>))"

text \<open>\<open>SeedDefaultBot\<close>, one transaction: an error undoes all of it.\<close>

definition seed_default_bot :: "uuid \<Rightarrow> uuid \<Rightarrow> time \<Rightarrow> seed_input \<Rightarrow> uuid query" where
  "seed_default_bot fresh_t fresh_b now i = run_query (\<lambda>d.
     case put_tenant fresh_t (si_tenant_slug i) (si_tenant_name i) d of
       (Inl e, _) \<Rightarrow> (Inl e, d)
     | (Inr tid, d1) \<Rightarrow>
        (case put_bot fresh_b now tid i d1 of
           (Inl e, _) \<Rightarrow> (Inl e, d)
         | (Inr bid, d2) \<Rightarrow>
            (case put_did now (si_did i) bid d2 of
               (Inl e, _) \<Rightarrow> (Inl e, d)
             | (Inr _, d3) \<Rightarrow> (Inr bid, d3))))"

section \<open>Phases of the start\<close>

text \<open>A failed phase names what it was doing when the process exits.\<close>

definition boot_admin :: "(gostring \<Rightarrow> gostring result) \<Rightarrow> uuid \<Rightarrow> auth_config \<Rightarrow> db \<Rightarrow> unit result \<times> db" where
  "boot_admin hash fresh a d =
     (if au_admin_pw a = [] then (Inr (), d)
      else case hash (au_admin_pw a) of
        Inl e \<Rightarrow> (Inl ''hash admin password'', d)
      | Inr h \<Rightarrow> (case upsert_platform_admin fresh (au_admin a) h d of
          (Inl e, d) \<Rightarrow> (Inl ''upsert platform_admin'', d)
        | (Inr _, d) \<Rightarrow> (Inr (), d)))"

definition boot_issuer :: "auth_config \<Rightarrow> issuer option result" where
  "boot_issuer a =
     (if au_secret a = [] then Inr None
      else case new_issuer (au_secret a) (au_ttl a) of Inl e \<Rightarrow> Inl ''jwt issuer init'' | Inr i \<Rightarrow> Inr (Some i))"

definition hcc_name :: gostring where
  "hcc_name = ''H'' @ [CHR 0xC3, CHR 0xA0] @ ''nh ch'' @ [CHR 0xC3, CHR 0xAD] @ ''nh c'' @ [CHR 0xC3, CHR 0xB4] @ ''ng''"

definition seed_of :: "config \<Rightarrow> seed_input" where
  "seed_of c =
     \<lparr>si_tenant_slug = ''hcc'', si_tenant_name = hcc_name, si_slug = ''hcc-default'', si_name = ''HCC default bot'',
      si_did = ic_did (cf_inbound c), si_url = bc_url (cf_bot c),
      si_first_byte_ms = to_ms (bc_first_byte (cf_bot c)), si_total_ms = to_ms (bc_total (cf_bot c)),
      si_asr_endpoint = ac_endpoint (cf_asr c), si_asr_token = ac_token (cf_asr c),
      si_tts_endpoint = tc_endpoint (cf_tts c), si_tts_token = tc_token (cf_tts c), si_voice = tc_voice (cf_tts c),
      si_tempo = tc_tempo (cf_tts c),
      si_silence_sec = real_of_int (ac_silence (cf_asr c)) / 1000000000,
      si_speech_sec = real_of_int (ac_speech (cf_asr c)) / 1000000000,
      si_max_sec = real_of_int (ac_speech_max (cf_asr c)) / 1000000000,
      si_bargein = bg_enabled (cf_barge c), si_min_words = bg_min_words (cf_barge c),
      si_filler = fc_enabled (cf_filler c), si_prefix = []\<rparr>"

definition boot_seed :: "uuid \<Rightarrow> uuid \<Rightarrow> time \<Rightarrow> config \<Rightarrow> db \<Rightarrow> unit result \<times> db" where
  "boot_seed fresh_t fresh_b now c d =
     (case count_bots d of
        (Inl e, d) \<Rightarrow> (Inl ''count bots'', d)
      | (Inr n, d) \<Rightarrow>
         if n \<noteq> 0 then (Inr (), d)
         else (case seed_default_bot fresh_t fresh_b now (seed_of c) d of
           (Inl e, d) \<Rightarrow> (Inl ''seed default bot'', d)
         | (Inr _, d) \<Rightarrow> (Inr (), d)))"

definition runner_cfg :: "config \<Rightarrow> turn_cfg" where
  "runner_cfg c =
     default_cfg\<lparr>cfg_sample_rate := au_rate (cf_audio c), voice_id := tc_voice (cf_tts c), tempo := tc_tempo (cf_tts c),
       resample_rate := tc_resample (cf_tts c), cfg_silence_timeout := ac_silence (cf_asr c),
       cfg_speech_timeout := ac_speech (cf_asr c), cfg_speech_max := ac_speech_max (cf_asr c)\<rparr>"

definition vad_config_from_cfg :: "vad_section \<Rightarrow> vad_config" where
  "vad_config_from_cfg v =
     (let d = vad_default;
          d = (if 0 < vs_energy v then d\<lparr>vc_threshold := vs_energy v\<rparr> else d);
          d = (if 0 < vs_min_speech v then d\<lparr>vc_min_speech := vs_min_speech v\<rparr> else d) in
      if 0 < vs_min_silence v then d\<lparr>vc_min_silence := vs_min_silence v\<rparr> else d)"

definition boot_archiver :: "recording_config \<Rightarrow> archiver option" where
  "boot_archiver r =
     (let srcs = all_source_dirs r in
      if srcs \<noteq> [] \<and> rc_archive r \<noteq> [] then Some (new_multi srcs (rc_archive r) (rc_url_prefix r) (rc_ext r) True)
      else None)"

definition boot_mounts :: "config \<Rightarrow> archiver option \<Rightarrow> (gostring \<times> gostring) list" where
  "boot_mounts c ar =
     (if ar \<noteq> None \<and> rc_url_prefix (cf_recording c) \<noteq> []
      then [(rc_url_prefix (cf_recording c), rc_archive (cf_recording c))] else []) @
     (if wc_recordings (cf_web c) \<noteq> [] then [(''/web-recordings'', wc_recordings (cf_web c))] else [])"

section \<open>The server\<close>

text \<open>\<open>sv_tokens\<close>: the login, share and playground routes, which need an issuer, are mounted.\<close>

record server =
  sv_issuer :: "issuer option"
  sv_cors :: gostring
  sv_tokens :: bool
  sv_archiver :: "archiver option"
  sv_mounts :: "(gostring \<times> gostring) list"
  sv_runner :: turn_cfg
  sv_vad :: vad_config
  sv_frame_bytes :: int
  sv_fillers :: "gostring option"
  sv_pickup :: duration

record boot_env =
  be_telemetry :: "gostring option"
  be_postgres :: "gostring option"
  be_esl :: "gostring option"
  be_hash :: "gostring \<Rightarrow> gostring result"
  be_fresh :: "uuid \<times> uuid \<times> uuid"
  be_now :: time

definition assemble :: "config \<Rightarrow> issuer option \<Rightarrow> server" where
  "assemble c iss =
     (let ar = boot_archiver (cf_recording c) in
      \<lparr>sv_issuer = iss, sv_cors = cors_allow_origin (cf_server c), sv_tokens = (iss \<noteq> None), sv_archiver = ar,
       sv_mounts = boot_mounts c ar, sv_runner = runner_cfg c, sv_vad = vad_config_from_cfg (cf_vad c),
       sv_frame_bytes = au_frame_samples (cf_audio c) * 2,
       sv_fillers = (if fc_dir (cf_filler c) \<noteq> [] then Some (fc_dir (cf_filler c)) else None),
       sv_pickup = ic_pickup (cf_inbound c)\<rparr>)"

text \<open>
  \<open>main\<close> up to the listening server: the server, or what the process was doing when it exited, and
  the database.  Without a DSN the store phases are skipped and the start fails after FreeSWITCH.
\<close>

definition boot :: "boot_env \<Rightarrow> config \<Rightarrow> db \<Rightarrow> server result \<times> db" where
  "boot env c d =
     (let (fu, ft, fb) = be_fresh env; stored = (cf_dsn c \<noteq> []) in
      case be_telemetry env of Some e \<Rightarrow> (Inl ''telemetry init failed'', d) | None \<Rightarrow>
      case (if stored then be_postgres env else None) of Some e \<Rightarrow> (Inl ''postgres init failed'', d) | None \<Rightarrow>
      case (if stored then boot_admin (be_hash env) fu (cf_auth c) d else (Inr (), d)) of
        (Inl e, d) \<Rightarrow> (Inl e, d)
      | (Inr _, d) \<Rightarrow>
         (case boot_issuer (cf_auth c) of
            Inl e \<Rightarrow> (Inl e, d)
          | Inr iss \<Rightarrow>
             (case (if stored then boot_seed ft fb (be_now env) c d else (Inr (), d)) of
                (Inl e, d) \<Rightarrow> (Inl e, d)
              | (Inr _, d) \<Rightarrow>
                 (case be_esl env of
                    Some e \<Rightarrow> (Inl ''esl init failed'', d)
                  | None \<Rightarrow>
                     if \<not> stored then (Inl ''pgStore is required for multi-tenant routing'', d)
                     else (Inr (assemble c iss), d)))))"

text \<open>The gate in front of the routes, and the file a request opens: the mux takes the longest matching mount.\<close>

definition server_gate :: "verifier \<Rightarrow> uuid_parser \<Rightarrow> time \<Rightarrow> server \<Rightarrow> request \<Rightarrow> gate" where
  "server_gate verify up now sv rq = snd (router_handler verify up (sv_issuer sv) (sv_cors sv) now rq)"

definition mounted_file :: "server \<Rightarrow> gostring \<Rightarrow> gostring option" where
  "mounted_file sv path =
     (case rev (sort_key (\<lambda>(p, d). length (mount_prefix p))
              (filter (\<lambda>(p, d). serve_static p d path \<noteq> None) (sv_mounts sv))) of
        [] \<Rightarrow> None
      | (p, d) # _ \<Rightarrow> serve_static p d path)"

section \<open>Logging the DSN\<close>

text \<open>\<open>strings.Index(s, "://")\<close>.\<close>

fun index_scheme :: "gostring \<Rightarrow> nat option" where
  "index_scheme [] = None"
| "index_scheme (c # s) = (if has_prefix (c # s) ''://'' then Some 0 else map_option Suc (index_scheme s))"

definition mask_dsn :: "gostring \<Rightarrow> gostring" where
  "mask_dsn dsn =
     (case index_scheme dsn of None \<Rightarrow> dsn | Some i \<Rightarrow>
      (let rest = drop (i + 3) dsn in
       case last_index CHR ''@'' rest of None \<Rightarrow> dsn | Some k \<Rightarrow>
       (let creds = take k rest in
        case index_byte CHR '':'' creds of None \<Rightarrow> dsn | Some colon \<Rightarrow>
          take (i + 3) dsn @ take (colon + 1) creds @ ''***'' @ drop k rest)))"

datatype log_level = Debug | Info | Warn | Error

definition log_level_of :: "gostring \<Rightarrow> log_level" where
  "log_level_of s = (if s = ''debug'' then Debug else if s = ''warn'' then Warn else if s = ''error'' then Error else Info)"

section \<open>Shutting down\<close>

text \<open>
  After the signal: the root context is cancelled, the sessions are drained (\<open>polls\<close> is what each
  poll before the deadline sees), and the handlers, the HTTP server and the tracer are waited for.
\<close>

datatype stop_fx =
  StopRoot | DrainSessions bool | WaitInbound | WaitOutbound | HttpShutdown | TracerShutdown

definition shutdown :: "nat list \<Rightarrow> sess_mgr \<Rightarrow> stop_fx list \<times> sess_mgr" where
  "shutdown polls m =
     ([StopRoot, DrainSessions (drain_wait polls), WaitInbound, WaitOutbound, HttpShutdown, TracerShutdown],
      drain_cancel m)"

end
