(* ===== verification/BootProps.thy ===== *)
theory BootProps
  imports Boot ApiCalls
begin

text \<open>
  What a started server guarantees and what it does not: the configured administrator, the seeded
  bot, the session lifetime, the mounted directories, the gate without a secret, and the DSN that is
  written to the log.
\<close>

section \<open>Lemmas\<close>

lemma boot_ok:
  assumes "boot env c d = (Inr sv, d')"
  obtains fu ft fb d1 iss where "be_fresh env = (fu, ft, fb)" "cf_dsn c \<noteq> []"
    "boot_admin (be_hash env) fu (cf_auth c) d = (Inr (), d1)" "boot_issuer (cf_auth c) = Inr iss"
    "boot_seed ft fb (be_now env) c d1 = (Inr (), d')" "sv = assemble c iss"
  using assms by (auto simp: boot_def Let_def split: prod.splits option.splits sum.splits if_splits)

lemma put_tenant_frame: "put_tenant fr s n d = (r, d') \<Longrightarrow> users d' = users d \<and> faults d' = faults d \<and>
    bots d' = bots d \<and> dids d' = dids d \<and> calls d' = calls d \<and> qcs d' = qcs d"
  by (auto simp: put_tenant_def split: if_splits option.splits)

lemma put_bot_frame: "put_bot fr now tid i d = (r, d') \<Longrightarrow> users d' = users d \<and> faults d' = faults d \<and>
    tenants d' = tenants d \<and> dids d' = dids d \<and> calls d' = calls d \<and> qcs d' = qcs d"
  by (auto simp: put_bot_def split: if_splits option.splits)

lemma put_did_frame: "put_did now did i d = (r, d') \<Longrightarrow> users d' = users d \<and> faults d' = faults d \<and>
    tenants d' = tenants d \<and> bots d' = bots d \<and> calls d' = calls d \<and> qcs d' = qcs d"
  by (auto simp: put_did_def split: if_splits)

lemmas put_frames = put_tenant_frame put_bot_frame put_did_frame

lemma seed_cases:
  assumes "seed_default_bot ft fb now i d = (Inr bid, d')" "faults d = []"
  obtains tid d1 d2 where "put_tenant ft (si_tenant_slug i) (si_tenant_name i) d = (Inr tid, d1)"
    "put_bot fb now tid i d1 = (Inr bid, d2)" "put_did now (si_did i) bid d2 = (Inr (), d')"
  using assms by (auto simp: seed_default_bot_def run_query_def split: sum.splits prod.splits)

lemma boot_seed_cases:
  assumes "boot_seed ft fb now c d = (Inr (), d')" "faults d = []"
  obtains (kept) "\<exists>r\<in>set (bots d). \<not> r_deleted r" "d' = d"
  | (seeded) bid where "\<forall>r\<in>set (bots d). r_deleted r" "seed_default_bot ft fb now (seed_of c) d = (Inr bid, d')"
  using assms
  by (auto simp: boot_seed_def count_bots_def fetch_no_fault filter_empty_conv split: sum.splits prod.splits if_splits)

lemma boot_seed_frame:
  assumes "boot_seed ft fb now c d = (Inr (), d')" "faults d = []"
  shows "users d' = users d \<and> faults d' = [] \<and> calls d' = calls d \<and> qcs d' = qcs d"
  using assms
proof (cases rule: boot_seed_cases)
  case (seeded bid)
  from seed_cases [OF seeded(2) assms(2)] obtain tid d1 d2
    where "put_tenant ft (si_tenant_slug (seed_of c)) (si_tenant_name (seed_of c)) d = (Inr tid, d1)"
      "put_bot fb now tid (seed_of c) d1 = (Inr bid, d2)" "put_did now (si_did (seed_of c)) bid d2 = (Inr (), d')"
    by blast
  then show ?thesis using assms(2) by (auto dest!: put_frames)
qed (use assms(2) in simp)

lemma first_row_map_other:
  "(\<And>x. P (f x) = P x) \<Longrightarrow> first_row P xs = Some x \<Longrightarrow> first_row P (map f xs) = Some (f x)"
  by (simp add: first_row_map)

lemma boot_admin_frame:
  assumes "boot_admin hash fu a d = (Inr (), d')" "faults d = []"
  shows "faults d' = [] \<and> tenants d' = tenants d \<and> bots d' = bots d \<and> dids d' = dids d \<and> calls d' = calls d \<and> qcs d' = qcs d"
  using assms
  by (auto simp: boot_admin_def upsert_platform_admin_def run_query_def split: if_splits sum.splits prod.splits)

lemma boot_admin_row:
  assumes "boot_admin hash fu a d = (Inr (), d')" "faults d = []" "au_admin_pw a \<noteq> []"
  shows "\<exists>u h. hash (au_admin_pw a) = Inr h \<and> first_row (\<lambda>u. u_name u = au_admin a) (users d') = Some u \<and>
           u_hash u = h \<and> u_role u = ''platform_admin'' \<and> u_tenant u = None \<and> u_enabled u \<and> au_admin a \<noteq> []"
proof -
  obtain h where h: "hash (au_admin_pw a) = Inr h" and up: "upsert_platform_admin fu (au_admin a) h d = (Inr (), d')"
    using assms by (auto simp: boot_admin_def split: sum.splits prod.splits)
  have n: "au_admin a \<noteq> []" using up assms(2) by (auto simp: upsert_platform_admin_def run_query_def char_count_def)
  show ?thesis
  proof (cases "au_admin a \<in> u_name ` set (users d)")
    case True
    then obtain u where u: "first_row (\<lambda>u. u_name u = au_admin a) (users d) = Some u"
      by (cases "first_row (\<lambda>u. u_name u = au_admin a) (users d)") (auto simp: first_row_None)
    then show ?thesis using up True assms(2) h n first_row_SomeD [OF u]
      by (auto simp: upsert_platform_admin_def run_query_def first_row_map split: if_splits)
  next
    case False
    then have none: "filter (\<lambda>u. u_name u = au_admin a) (users d) = []" by (force simp: filter_empty_conv)
    then show ?thesis using up False assms(2) h n
      by (auto simp: upsert_platform_admin_def run_query_def first_row_def split: if_splits)
  qed
qed

text \<open>What a seeded installation holds.\<close>

lemma put_tenant_row:
  assumes "put_tenant fr s n d = (Inr tid, d')"
  shows "\<exists>t\<in>set (tenants d'). t_id t = tid \<and> t_slug t = s \<and>
           (t_enabled t \<or> (\<exists>t0\<in>set (tenants d). t_slug t0 = s \<and> \<not> t_enabled t0))"
proof (cases "first_row (\<lambda>t. t_slug t = s) (tenants d)")
  case None
  then show ?thesis using assms by (auto simp: put_tenant_def split: if_splits)
next
  case (Some t)
  have t: "t \<in> set (tenants d)" "t_slug t = s" using first_row_SomeD [OF Some] by auto
  have "tid = t_id t" "tenants d' = map (\<lambda>t. if t_slug t = s then t\<lparr>t_name := n\<rparr> else t) (tenants d)"
    using assms Some by (auto simp: put_tenant_def split: if_splits)
  then show ?thesis using t by (intro bexI [of _ "t\<lparr>t_name := n\<rparr>"]) auto
qed

lemma scan_bot_tenant: "t \<in> set (tenants d) \<Longrightarrow> t_id t = b_tenant (r_bot r) \<Longrightarrow>
    \<exists>s. scan_bot d r = Some ((r_bot r)\<lparr>b_tenant_slug := s\<rparr>)"
  by (cases "first_row (\<lambda>t. t_id t = b_tenant (r_bot r)) (tenants d)") (auto simp: scan_bot_def first_row_None)

lemma seed_of_keys [simp]: "si_tenant_slug (seed_of c) = ''hcc''" "si_slug (seed_of c) = ''hcc-default''"
  "si_did (seed_of c) = ic_did (cf_inbound c)"
  by (simp_all add: seed_of_def)

lemma seeded_empty:
  assumes "seed_default_bot ft fb now (seed_of c) d = (Inr bid, d')" "faults d = []" "bots d = []" "dids d = []"
    and "ic_did (cf_inbound c) \<noteq> []" "\<forall>t\<in>set (tenants d). t_slug t = ''hcc'' \<longrightarrow> t_enabled t"
  shows "\<exists>tid s. bots d' = [\<lparr>r_bot = seed_bot fb now tid (seed_of c), r_deleted = False\<rparr>] \<and>
     get_bot_by_did (ic_did (cf_inbound c)) d' = (Inr (Some ((seed_bot fb now tid (seed_of c))\<lparr>b_tenant_slug := s\<rparr>)), d')"
proof -
  obtain tid d1 d2 where p: "put_tenant ft ''hcc'' (si_tenant_name (seed_of c)) d = (Inr tid, d1)"
      "put_bot fb now tid (seed_of c) d1 = (Inr bid, d2)" "put_did now (ic_did (cf_inbound c)) bid d2 = (Inr (), d')"
    using seed_cases [OF assms(1,2)] by auto
  let ?r = "\<lparr>r_bot = seed_bot fb now tid (seed_of c), r_deleted = False\<rparr>"
  have bots: "bots d' = [?r]" and bid: "bid = fb"
    using p(2) put_tenant_frame [OF p(1)] put_did_frame [OF p(3)] assms(3)
    by (auto simp: put_bot_def first_row_def split: if_splits)
  have dids: "dids d' = [\<lparr>d_did = ic_did (cf_inbound c), d_bot = fb, d_note = [], d_created = now\<rparr>]"
    using p(3) put_tenant_frame [OF p(1)] put_bot_frame [OF p(2)] assms(4,5) bid
    by (auto simp: put_did_def split: if_splits)
  have ok: "faults d' = []" and ten: "tenants d' = tenants d1"
    using p assms(2) by (auto dest!: put_frames)
  obtain t where t: "t \<in> set (tenants d')" "t_id t = tid" "t_enabled t"
    using put_tenant_row [OF p(1)] assms(6) by (auto simp: ten)
  have fields: "b_id (r_bot ?r) = fb" "b_tenant (r_bot ?r) = tid" "b_enabled (r_bot ?r)" by (simp_all add: seed_bot_def)
  obtain s where s: "scan_bot d' ?r = Some ((seed_bot fb now tid (seed_of c))\<lparr>b_tenant_slug := s\<rparr>)"
    using scan_bot_tenant [OF t(1), of ?r] t(2) fields by auto
  have "tenant_on d' tid" using t by (auto simp: tenant_on_def)
  then have "get_bot_by_did (ic_did (cf_inbound c)) d' =
      (Inr (Some ((seed_bot fb now tid (seed_of c))\<lparr>b_tenant_slug := s\<rparr>)), d')"
    using s fields by (simp add: get_bot_by_did_def fetch_no_fault [OF ok] dids live_bot_def bots first_row_def)
  then show ?thesis using bots by blast
qed

lemma seeded_over_deleted:
  assumes "seed_default_bot ft fb now (seed_of c) d = (Inr bid, d')" "faults d = []"
    and "\<forall>r\<in>set (bots d). r_deleted r" "t \<in> set (tenants d)" "t_slug t = ''hcc''"
    and "\<forall>u\<in>set (tenants d). t_slug u = ''hcc'' \<longrightarrow> t_id u = t_id t"
    and "r \<in> set (bots d)" "b_tenant (r_bot r) = t_id t" "b_slug (r_bot r) = ''hcc-default''"
  shows "\<forall>r\<in>set (bots d'). r_deleted r" "faults d' = []"
proof -
  obtain tid d1 d2 where p: "put_tenant ft ''hcc'' (si_tenant_name (seed_of c)) d = (Inr tid, d1)"
      "put_bot fb now tid (seed_of c) d1 = (Inr bid, d2)" "put_did now (ic_did (cf_inbound c)) bid d2 = (Inr (), d')"
    using seed_cases [OF assms(1,2)] by auto
  have tid: "tid = t_id t"
  proof (cases "first_row (\<lambda>t. t_slug t = ''hcc'') (tenants d)")
    case None
    then show ?thesis using assms(4,5) by (auto simp: first_row_None)
  next
    case (Some u)
    then show ?thesis using p(1) assms(6) first_row_SomeD [OF Some] by (auto simp: put_tenant_def split: if_splits)
  qed
  have same: "bots d1 = bots d" using put_tenant_frame [OF p(1)] by simp
  obtain r0 where "first_row (\<lambda>r. b_tenant (r_bot r) = tid \<and> b_slug (r_bot r) = ''hcc-default'') (bots d) = Some r0"
    using assms(7-9) tid
    by (cases "first_row (\<lambda>r. b_tenant (r_bot r) = tid \<and> b_slug (r_bot r) = ''hcc-default'') (bots d)")
       (auto simp: first_row_None)
  then have "\<forall>r\<in>set (bots d2). r_deleted r"
    using p(2) assms(3) by (auto simp: put_bot_def same split: if_splits)
  then show "\<forall>r\<in>set (bots d'). r_deleted r" using put_did_frame [OF p(3)] by simp
  show "faults d' = []" using p assms(2) by (auto dest!: put_frames)
qed

lemma no_live_bot: "faults d = [] \<Longrightarrow> \<forall>r\<in>set (bots d). r_deleted r \<Longrightarrow> get_bot_by_did did d = (Inr None, d)"
proof -
  assume a: "faults d = []" "\<forall>r\<in>set (bots d). r_deleted r"
  have "live_bot d i = None" for i using a(2) by (auto simp: live_bot_def first_row_None)
  then show ?thesis
    by (cases "first_row (\<lambda>x. d_did x = did) (dids d)") (simp_all add: get_bot_by_did_def fetch_no_fault [OF a(1)])
qed

section \<open>Properties\<close>

text \<open>C13: 
  After a start with a password configured, whatever the users table held before (the account
  missing, disabled, of a tenant or with another password), the configured name and password log in
  as a platform administrator.
\<close>

theorem configured_admin_logs_in:
  assumes "boot env c d = (Inr sv, d')" "faults d = []" "sv_issuer sv = Some iss"
    and "au_admin_pw (cf_auth c) \<noteq> []"
    and "\<And>h. be_hash env (au_admin_pw (cf_auth c)) = Inr h \<Longrightarrow> pw h (au_admin_pw (cf_auth c))"
    and "\<And>p. \<exists>tok. sign (iss_secret iss) p = Inr tok"
  shows "\<exists>cookie v d2. h_login sign pw iss now (Inr (au_admin (cf_auth c), au_admin_pw (cf_auth c))) d' =
           (Body 200 (cookie, v), d2) \<and> uv_role v = ''platform_admin'' \<and> uv_tenant v = None"
proof -
  let ?a = "cf_auth c"
  obtain fu ft fb d1 where b: "boot_admin (be_hash env) fu ?a d = (Inr (), d1)"
      "boot_seed ft fb (be_now env) c d1 = (Inr (), d')"
    using assms(1) by (rule boot_ok)
  have ok: "faults d1 = []" using boot_admin_frame [OF b(1) assms(2)] by simp
  have fr: "users d' = users d1" "faults d' = []" using boot_seed_frame [OF b(2) ok] by simp_all
  obtain u h where u: "be_hash env (au_admin_pw ?a) = Inr h" "first_row (\<lambda>u. u_name u = au_admin ?a) (users d1) = Some u"
      "u_hash u = h" "u_role u = ''platform_admin''" "u_tenant u = None" "u_enabled u" "au_admin ?a \<noteq> []"
    using boot_admin_row [OF b(1) assms(2,4)] by blast
  obtain tok where "sign (iss_secret iss) (session_payload iss now (identity_of u)) = Inr tok" using assms(6) by blast
  then have "\<exists>cookie. issue sign iss now (identity_of u) = Inr cookie" by (auto simp: issue_def)
  then show ?thesis
    using u assms(4) assms(5) [OF u(1)] fr
    by (auto simp: h_login_def get_user_by_name_def fetch_no_fault user_json_def)
qed


text \<open>
  Once the default bot has been deleted and no other is left, a start reports success after it has
  "seeded" the default bot, but the insert only renames the deleted row: no number reaches a bot.
\<close>

theorem deleted_seed_not_revived:
  assumes "boot env c d = (Inr sv, d')" "faults d = []" "\<forall>r\<in>set (bots d). r_deleted r"
    and "t \<in> set (tenants d)" "t_slug t = ''hcc''" "\<forall>u\<in>set (tenants d). t_slug u = ''hcc'' \<longrightarrow> t_id u = t_id t"
    and "r \<in> set (bots d)" "b_tenant (r_bot r) = t_id t" "b_slug (r_bot r) = ''hcc-default''"
  shows "get_bot_by_did did d' = (Inr None, d') \<and> (\<exists>d1 ft fb bid. bots d1 = bots d \<and>
           seed_default_bot ft fb (be_now env) (seed_of c) d1 = (Inr bid, d'))"
proof -
  obtain fu ft fb d1 where b: "boot_admin (be_hash env) fu (cf_auth c) d = (Inr (), d1)"
      "boot_seed ft fb (be_now env) c d1 = (Inr (), d')"
    using assms(1) by (rule boot_ok)
  have fr: "faults d1 = []" "bots d1 = bots d" "tenants d1 = tenants d"
    using boot_admin_frame [OF b(1) assms(2)] by simp_all
  obtain bid where seed: "seed_default_bot ft fb (be_now env) (seed_of c) d1 = (Inr bid, d')"
    using boot_seed_cases [OF b(2) fr(1)] fr(2) assms(3) by auto
  have "get_bot_by_did did d' = (Inr None, d')"
    by (intro no_live_bot seeded_over_deleted [OF seed fr(1) _ _ assms(5) _ _ assms(8,9)])
      (use assms(3,4,6,7) fr(2,3) in simp_all)
  then show ?thesis using seed fr(2) by blast
qed



text \<open>
  The recordings of the web playground are documented as needing a session, but their path is not
  under \<open>/api/\<close>: a request without any token opens them.
\<close>

theorem web_recordings_public:
  assumes "boot env c d = (Inr sv, d')" "sv_issuer sv = Some iss" "rc_url_prefix (cf_recording c) = ''/recordings''"
    and "wc_recordings (cf_web c) = dir_of es" "\<forall>e\<in>set es. plain_elem e" "es \<noteq> []" "\<forall>e\<in>set fs. plain_elem e" "fs \<noteq> []"
    and "rq_method rq = ''GET''" "rq_path rq = ''/web-recordings/'' @ join_with ''/'' fs" "rq_cookie rq = None" "rq_auth rq = []"
  shows "server_gate verify up now sv rq = ToMux None \<and> mounted_file sv (rq_path rq) = Some (dir_of (es @ fs))"
proof -
  have sv: "sv = assemble c (Some iss)"
    using assms(1,2) by (elim boot_ok) (simp add: assemble_def Let_def)
  have "server_gate verify up now sv rq = auth_chain verify up iss now rq"
    using assms(9) by (simp add: server_gate_def router_handler_def sv assemble_def Let_def)
  then have gate: "server_gate verify up now sv rq = ToMux None"
    using assms(9,10) by (simp add: auth_chain_def has_prefix_def)
  have mount: "mount_prefix ''/web-recordings'' = ''/web-recordings/''" "mount_prefix ''/recordings'' = ''/recordings/''"
    by (simp_all add: mount_prefix_def has_suffix_def)
  have hit: "serve_static ''/web-recordings'' (dir_of es) (rq_path rq) = Some (dir_of (es @ fs))"
    using served_plain [OF assms(5-8)]
    by (simp add: serve_static_def mount assms(10) trim_prefix_def has_prefix_def) (simp add: dir_of_def)
  have miss: "serve_static ''/recordings'' x (rq_path rq) = None" for x
    by (simp add: serve_static_def mount assms(10) has_prefix_def)
  have ne: "dir_of es \<noteq> []" by (simp add: dir_of_def)
  show ?thesis
    using gate hit miss ne
    by (simp add: mounted_file_def sv assemble_def boot_mounts_def assms(3,4) Let_def)
qed

text \<open>
  The DSN in the log does not depend on the password, whatever characters that has; the other form
  of a DSN, \<open>key=value\<close>, is logged as it is.
\<close>

lemma index_scheme_first: "CHR '':'' \<notin> set sch \<Longrightarrow> index_scheme (sch @ ''://'' @ s) = Some (length sch)"
  by (induction sch) (auto simp: has_prefix_def)

lemma index_byte_first: "c \<notin> set u \<Longrightarrow> index_byte c (u @ c # s) = Some (length u)"
  by (induction u) auto

theorem masked_dsn_hides_password:
  assumes "CHR '':'' \<notin> set sch" "CHR '':'' \<notin> set u" "CHR ''@'' \<notin> set host"
  shows "mask_dsn (sch @ ''://'' @ u @ '':'' @ p @ ''@'' @ host) = sch @ ''://'' @ u @ '':***@'' @ host"
proof -
  let ?rest = "u @ '':'' @ p @ ''@'' @ host"
  have at: "last_index CHR ''@'' ?rest = Some (length (u @ '':'' @ p))"
    using last_index_append [OF assms(3), of "u @ '':'' @ p"] by simp
  have colon: "index_byte CHR '':'' (u @ '':'' @ p) = Some (length u)" using index_byte_first [OF assms(2), of p] by simp
  have sch: "index_scheme (sch @ ''://'' @ ?rest) = Some (length sch)" by (rule index_scheme_first [OF assms(1)])
  have drop: "drop (length sch + 3) (sch @ ''://'' @ ?rest) = ?rest" by simp
  have take: "take (length (u @ '':'' @ p)) ?rest = u @ '':'' @ p" "drop (length (u @ '':'' @ p)) ?rest = ''@'' @ host"
    "take (length sch + 3) (sch @ ''://'' @ ?rest) = sch @ ''://''" "take (length u + 1) (u @ '':'' @ p) = u @ '':''"
    by simp_all
  have "mask_dsn (sch @ ''://'' @ ?rest) = (sch @ ''://'') @ (u @ '':'') @ ''***'' @ ''@'' @ host"
    unfolding mask_dsn_def sch option.case Let_def drop at take colon ..
  then show ?thesis by simp
qed

lemma key_value_dsn_logged: "index_scheme dsn = None \<Longrightarrow> mask_dsn dsn = dsn"
  by (simp add: mask_dsn_def)

text \<open>
  The session lifetime is the configured one: with \<open>MASTER_JWT_TTL\<close> a whole number of hours, within
  the range of durations, every session the started server issues expires that long after its login,
  whatever the configuration file says.
\<close>

theorem session_lifetime_configured:
  assumes "load_config decode env stat caller openf = Inr c" "env ''MASTER_JWT_TTL'' = show_nat n @ ''h''"
    and "0 < n" "n * 3600000000000 \<le> 2 ^ 63 - 1"
    and "boot benv c d = (Inr sv, d')" "sv_issuer sv = Some iss" "issue sign iss now i = Inr (tok, e)"
  shows "e = now + int n * 3600000000000"
proof -
  have "parse_duration (env ''MASTER_JWT_TTL'') = Some (int (n * 3600000000000))"
    unfolding assms(2) by (rule parse_whole) (use assms(4) in \<open>simp_all add: unit_ns_def\<close>)
  moreover have "env ''MASTER_JWT_TTL'' \<noteq> []" by (simp add: assms(2))
  ultimately have ttl: "env_dur env ''MASTER_JWT_TTL'' v = int n * 3600000000000" for v by (simp add: env_dur_def)
  obtain c0 where "c = apply_env_overrides env c0"
    using assms(1) by (auto simp: load_config_def Let_def split: sum.splits if_splits opened.splits)
  then have "au_ttl (cf_auth c) = int n * 3600000000000"
    by (simp add: apply_env_overrides_def override_auth_def ttl)
  moreover have "boot_issuer (cf_auth c) = Inr (Some iss)"
    using assms(5,6) by (elim boot_ok) (simp add: assemble_def Let_def)
  ultimately have "iss_ttl iss = int n * 3600000000000"
    using assms(3) by (auto simp: boot_issuer_def new_issuer_def split: if_splits sum.splits)
  then show ?thesis using assms(7) by (simp add: issue_signed)
qed

text \<open>A variable that is not set, or does not parse, leaves the file's value.\<close>

lemma idle_overrides:
  assumes "\<And>k. env k = []" shows "apply_env_overrides env c = c"
  by (simp add: apply_env_overrides_def override_server_def override_fs_def override_asr_def override_tts_def
      override_bot_def override_inbound_def override_barge_def override_filler_def override_recording_def
      override_telemetry_def override_log_def override_web_def override_auth_def
      env_str_def env_dur_def env_int_def env_bool_def env_csv_def assms)

section \<open>A concrete start\<close>

definition demo_secret :: gostring where "demo_secret = replicate 32 CHR ''s''"

definition demo_conf :: "gostring \<Rightarrow> config" where
  "demo_conf sec = defaults\<lparr>cf_dsn := ''pg'', cf_auth := \<lparr>au_secret = sec, au_ttl = seconds 3600, au_admin = ''root'',
      au_admin_pw = ''pw'', au_cookie_secure = False\<rparr>\<rparr>"

definition demo_boot :: boot_env where
  "demo_boot = \<lparr>be_telemetry = None, be_postgres = None, be_esl = None, be_hash = (\<lambda>p. Inr (CHR ''h'' # p)),
      be_fresh = (''u9'', ''t9'', ''b9''), be_now = 7\<rparr>"

definition demo_empty :: db where
  "demo_empty = demo_users\<lparr>tenants := [], users := []\<rparr>"

lemma demo_seed_ok: "bot_check (seed_bot fb now tid (seed_of (demo_conf sec)))" "slug_ok 30 ''hcc''"
  "did_ok (ic_did (cf_inbound (demo_conf sec)))"
  by (simp_all add: bot_check_def seed_bot_def seed_of_def demo_conf_def defaults_def slug_ok_def slug_char_def
      seconds_def to_ms_def providers_def did_ok_def)

lemma demo_conf_fields: "cf_dsn (demo_conf sec) = ''pg''" "au_secret (cf_auth (demo_conf sec)) = sec"
  "au_admin (cf_auth (demo_conf sec)) = ''root''" "au_admin_pw (cf_auth (demo_conf sec)) = ''pw''"
  "ic_did (cf_inbound (demo_conf sec)) = ''5000000024''" "au_ttl (cf_auth (demo_conf sec)) = 3600000000000"
  by (simp_all add: demo_conf_def defaults_def seconds_def)

lemma put_did_ok: "did_ok did \<Longrightarrow> \<exists>e. put_did now did i d = (Inr (), e)"
  by (cases "did \<in> d_did ` set (dids d)") (simp_all add: put_did_def)

lemma demo_boots:
  assumes "faults d = []" "users d = []" "sec = [] \<or> sec = demo_secret"
  shows "\<exists>d'. boot demo_boot (demo_conf sec) d = (Inr (assemble (demo_conf sec)
     (if sec = [] then None else Some \<lparr>iss_secret = sec, iss_ttl = 3600000000000\<rparr>)), d') \<and>
     users d' = [demo_root\<lparr>u_id := ''u9'', u_hash := ''hpw''\<rparr>]"
proof -
  let ?c = "demo_conf sec"
  let ?d1 = "d\<lparr>users := [demo_root\<lparr>u_id := ''u9'', u_hash := ''hpw''\<rparr>]\<rparr>"
  have adm: "boot_admin (be_hash demo_boot) ''u9'' (cf_auth ?c) d = (Inr (), ?d1)"
    using assms(1,2) by (simp add: boot_admin_def demo_conf_fields demo_boot_def upsert_platform_admin_def run_query_def
        char_count_def demo_root_def)
  have iss: "boot_issuer (cf_auth ?c) = Inr (if sec = [] then None else Some \<lparr>iss_secret = sec, iss_ttl = 3600000000000\<rparr>)"
    using assms(3) by (auto simp: boot_issuer_def demo_conf_fields new_issuer_def demo_secret_def)
  obtain n d2 where seed: "boot_seed ''t9'' ''b9'' 7 ?c ?d1 = (Inr n, d2)" and ok: "faults ?d1 = []"
  proof -
    have ok: "faults ?d1 = []" using assms(1) by simp
    obtain tid e1 where t: "put_tenant ''t9'' ''hcc'' (si_tenant_name (seed_of ?c)) ?d1 = (Inr tid, e1)"
      by (cases "first_row (\<lambda>t. t_slug t = ''hcc'') (tenants ?d1)")
         (auto simp: put_tenant_def demo_seed_ok(2) Let_def split: option.splits)
    obtain bid e2 where b: "put_bot ''b9'' 7 tid (seed_of ?c) e1 = (Inr bid, e2)"
      by (cases "first_row (\<lambda>r. b_tenant (r_bot r) = tid \<and> b_slug (r_bot r) = ''hcc-default'') (bots e1)")
         (auto simp: put_bot_def demo_seed_ok(1))
    obtain e3 where "put_did 7 (ic_did (cf_inbound ?c)) bid e2 = (Inr (), e3)"
      using put_did_ok [OF demo_seed_ok(3)] by blast
    then have "seed_default_bot ''t9'' ''b9'' 7 (seed_of ?c) ?d1 = (Inr bid, e3)"
      using t b ok by (simp add: seed_default_bot_def run_query_def)
    then show ?thesis
      using that ok by (cases "\<exists>r\<in>set (bots d). \<not> r_deleted r")
        (auto simp: boot_seed_def count_bots_def fetch_no_fault filter_empty_conv)
  qed
  have users: "users d2 = users ?d1" using boot_seed_frame [of "''t9''" "''b9''" 7 ?c ?d1 d2] seed ok by simp
  have "boot demo_boot ?c d = (Inr (assemble ?c (if sec = [] then None else Some \<lparr>iss_secret = sec, iss_ttl = 3600000000000\<rparr>)), d2)"
    using adm iss seed by (simp add: boot_def demo_boot_def demo_conf_fields)
  then show ?thesis using users by simp
qed


theorem configured_admin_logs_in_witness:
  "\<exists>sv d' cookie v d2. boot demo_boot (demo_conf demo_secret) demo_empty = (Inr sv, d') \<and>
     h_login (\<lambda>s p. Inr ''tok'') (\<lambda>h p. h = CHR ''h'' # p) \<lparr>iss_secret = demo_secret, iss_ttl = 3600000000000\<rparr> 9
       (Inr (''root'', ''pw'')) d' = (Body 200 (cookie, v), d2) \<and> uv_role v = ''platform_admin''"
proof -
  have start: "faults demo_empty = []" "users demo_empty = []" by (simp_all add: demo_empty_def demo_users_def)
  obtain d' where b: "boot demo_boot (demo_conf demo_secret) demo_empty =
      (Inr (assemble (demo_conf demo_secret) (Some \<lparr>iss_secret = demo_secret, iss_ttl = 3600000000000\<rparr>)), d')"
    using demo_boots [OF start, of demo_secret] by (auto simp: demo_secret_def)
  show ?thesis
    using configured_admin_logs_in [OF b start(1), of _ "\<lambda>h p. h = CHR ''h'' # p" "\<lambda>s p. Inr ''tok''" 9] b
    by (auto simp: assemble_def Let_def demo_conf_fields demo_boot_def)
qed


definition demo_gone :: db where
  "demo_gone = demo_empty\<lparr>tenants := [\<lparr>t_id = ''t1'', t_slug = ''hcc'', t_name = ''H'', t_enabled = True\<rparr>],
      bots := [\<lparr>r_bot = seed_bot ''b1'' 1 ''t1'' (seed_of (demo_conf [])), r_deleted = True\<rparr>],
      dids := [\<lparr>d_did = ''5000000024'', d_bot = ''b1'', d_note = [], d_created = 1\<rparr>]\<rparr>"

theorem deleted_seed_not_revived_witness:
  "\<exists>sv d'. boot demo_boot (demo_conf []) demo_gone = (Inr sv, d') \<and> get_bot_by_did ''5000000024'' d' = (Inr None, d')"
proof -
  have start: "faults demo_gone = []" "users demo_gone = []" by (simp_all add: demo_gone_def demo_empty_def demo_users_def)
  obtain sv d' where b: "boot demo_boot (demo_conf []) demo_gone = (Inr sv, d')" using demo_boots [OF start, of "[]"] by auto
  have "\<forall>r\<in>set (bots demo_gone). r_deleted r"
    "\<lparr>t_id = ''t1'', t_slug = ''hcc'', t_name = ''H'', t_enabled = True\<rparr> \<in> set (tenants demo_gone)"
    "\<forall>u\<in>set (tenants demo_gone). t_slug u = ''hcc'' \<longrightarrow>
       t_id u = t_id \<lparr>t_id = ''t1'', t_slug = ''hcc'', t_name = ''H'', t_enabled = True\<rparr>"
    "\<lparr>r_bot = seed_bot ''b1'' 1 ''t1'' (seed_of (demo_conf [])), r_deleted = True\<rparr> \<in> set (bots demo_gone)"
    by (simp_all add: demo_gone_def)
  from deleted_seed_not_revived [OF b start(1) this(1,2) _ this(3,4)] b show ?thesis by (auto simp: seed_bot_def)
qed

definition demo_read :: request where
  "demo_read = \<lparr>rq_method = ''GET'', rq_path = ''/api/v1/calls/c1'', rq_cookie = None, rq_auth = []\<rparr>"



theorem masked_dsn_hides_password_witness:
  "mask_dsn ''postgres://bot:p@ss:w0rd@db/calls'' = ''postgres://bot:***@db/calls''"
  using masked_dsn_hides_password [of "''postgres''" "''bot''" "''db/calls''" "''p@ss:w0rd''"] by simp

definition demo_listen_back :: request where
  "demo_listen_back = \<lparr>rq_method = ''GET'', rq_path = ''/web-recordings/b1/s1/1.wav'', rq_cookie = None, rq_auth = []\<rparr>"

theorem web_recordings_public_witness:
  "\<exists>sv d'. boot demo_boot (demo_conf demo_secret) demo_empty = (Inr sv, d') \<and> sv_issuer sv \<noteq> None \<and>
     server_gate (\<lambda>now s t. Inl ''no'') Some 9 sv demo_listen_back = ToMux None \<and>
     mounted_file sv (rq_path demo_listen_back) = Some ''/var/lib/callbot/web-recordings/b1/s1/1.wav''"
proof -
  have start: "faults demo_empty = []" "users demo_empty = []" by (simp_all add: demo_empty_def demo_users_def)
  let ?iss = "\<lparr>iss_secret = demo_secret, iss_ttl = 3600000000000\<rparr>"
  let ?es = "[''var'', ''lib'', ''callbot'', ''web-recordings'']" and ?fs = "[''b1'', ''s1'', ''1.wav'']"
  obtain d' where b: "boot demo_boot (demo_conf demo_secret) demo_empty = (Inr (assemble (demo_conf demo_secret) (Some ?iss)), d')"
    using demo_boots [OF start, of demo_secret] by (auto simp: demo_secret_def)
  have iss: "sv_issuer (assemble (demo_conf demo_secret) (Some ?iss)) = Some ?iss" by (simp add: assemble_def Let_def)
  have cfg: "rc_url_prefix (cf_recording (demo_conf demo_secret)) = ''/recordings''"
    "wc_recordings (cf_web (demo_conf demo_secret)) = dir_of ?es" by (simp_all add: demo_conf_def defaults_def dir_of_def)
  have plain: "\<forall>e\<in>set ?es. plain_elem e" "?es \<noteq> []" "\<forall>e\<in>set ?fs. plain_elem e" "?fs \<noteq> []" by (simp_all add: plain_elem_def)
  have rq: "rq_method demo_listen_back = ''GET''" "rq_path demo_listen_back = ''/web-recordings/'' @ join_with ''/'' ?fs"
    "rq_cookie demo_listen_back = None" "rq_auth demo_listen_back = []" by (simp_all add: demo_listen_back_def)
  have "dir_of (?es @ ?fs) = ''/var/lib/callbot/web-recordings/b1/s1/1.wav''" by (simp add: dir_of_def)
  then show ?thesis using web_recordings_public [OF b iss cfg plain rq] b iss by (metis option.distinct(1))
qed

end
