(* ===== verification/Pipes.thy ===== *)
theory Pipes
  imports Paths
begin

text \<open>
  \<open>internal/audio\<close>: the named pipes between FreeSWITCH and a call (\<open>fifo.go\<close>), the reader that cuts
  the caller's audio into frames (\<open>fifo_source.go\<close>) and the writer of the bot's audio
  (\<open>fifo_sink.go\<close>).  The outcomes of the system calls are arguments; a pipe is the bytes its other
  end wrote and how reading it ends.
\<close>

section \<open>Files\<close>

datatype remove_res = Removed | NotThere | RemoveErr gostring

datatype fifo_fx = FxRemove | FxMakePipe | FxChmod

text \<open>What was done to the path, and the error.\<close>

definition make_fifo ::
  "remove_res \<Rightarrow> gostring option \<Rightarrow> gostring option \<Rightarrow> gostring \<Rightarrow> fifo_fx list \<times> gostring option"
where
  "make_fifo rm mk ch path =
     (case rm of
        RemoveErr e \<Rightarrow> ([FxRemove], Some (''remove '' @ path @ '': '' @ e))
      | _ \<Rightarrow>
         (case mk of
            Some e \<Rightarrow> ([FxRemove, FxMakePipe], Some (''mkfifo '' @ path @ '': '' @ e))
          | None \<Rightarrow>
             (case ch of
                Some e \<Rightarrow> ([FxRemove, FxMakePipe, FxChmod], Some (''chmod '' @ path @ '': '' @ e))
              | None \<Rightarrow> ([FxRemove, FxMakePipe, FxChmod], None))))"

text \<open>The directory \<open>EnsureDir\<close> creates, if any.\<close>

definition ensure_dir :: "gostring \<Rightarrow> gostring option" where
  "ensure_dir path = (let dir = dir_path path in if dir = [] \<or> dir = ''.'' then None else Some dir)"

datatype open_mode = ReadWrite | WriteOnly

definition open_fifo_for_read :: "gostring option \<Rightarrow> gostring \<Rightarrow> gostring + open_mode" where
  "open_fifo_for_read err path =
     (case err of Some e \<Rightarrow> Inl (''open fifo rdwr '' @ path @ '': '' @ e) | None \<Rightarrow> Inr ReadWrite)"

definition open_fifo_for_write :: "gostring option \<Rightarrow> gostring \<Rightarrow> gostring + open_mode" where
  "open_fifo_for_write err path =
     (case err of Some e \<Rightarrow> Inl (''open fifo wronly '' @ path @ '': '' @ e) | None \<Rightarrow> Inr WriteOnly)"

section \<open>The source\<close>

text \<open>How the pipe's bytes end: its writers are gone, the descriptor was closed, or an error.\<close>

datatype pipe_end = PipeEof | FdClosed | PipeErr gostring

text \<open>\<open>io.ReadFull\<close>: the bytes it returns, and its error unless the buffer was filled.\<close>

datatype full_err = EOF | UnexpectedEOF | ErrClosed | OtherErr gostring

definition read_full :: "nat \<Rightarrow> bytes \<Rightarrow> pipe_end \<Rightarrow> bytes \<times> full_err option" where
  "read_full n bs e =
     (take n bs,
      if n \<le> length bs then None
      else Some (case e of PipeEof \<Rightarrow> if bs = [] then EOF else UnexpectedEOF
                 | FdClosed \<Rightarrow> ErrClosed | PipeErr m \<Rightarrow> OtherErr m))"

definition frame_size :: "int \<Rightarrow> nat" where
  "frame_size n = (if n \<le> 0 then 320 else nat n)"

text \<open>What the reader logs as it leaves.\<close>

datatype reader_log = LogEof nat | LogReadError gostring | LogNothing

text \<open>
  The read loop: for each round, whether the context is cancelled at its top and while it hands the
  frame over (no entry: it is not).  It returns the frames handed over and what it logged; \<open>tot\<close>
  counts the bytes.
\<close>

function source_loop ::
  "nat \<Rightarrow> (bool \<times> bool) list \<Rightarrow> nat \<Rightarrow> bytes \<Rightarrow> pipe_end \<Rightarrow> bytes list \<times> reader_log"
where
  "source_loop sz ctx tot bs e =
     (let (top, hand) = (case ctx of [] \<Rightarrow> (False, False) | c # _ \<Rightarrow> c) in
      if top \<or> sz = 0 then ([], LogNothing)
      else case read_full sz bs e of (fr, err) \<Rightarrow>
        if fr \<noteq> [] \<and> hand then ([], LogNothing)
        else
          let out = (if fr \<noteq> [] then [fr] else []); tot = tot + length fr in
          (case err of
             None \<Rightarrow> (let (rest, l) = source_loop sz (tl ctx) tot (drop sz bs) e in (out @ rest, l))
           | Some EOF \<Rightarrow> (out, LogEof tot)
           | Some UnexpectedEOF \<Rightarrow> (out, LogEof tot)
           | Some ErrClosed \<Rightarrow> (out, LogNothing)
           | Some (OtherErr m) \<Rightarrow> (out, LogReadError m)))"
  by pat_completeness auto
termination
  by (relation "measure (\<lambda>(sz, ctx, tot, bs, e). length bs)") (auto simp: read_full_def split: if_splits)

declare source_loop.simps [simp del]

text \<open>
  \<open>NewFIFOSource\<close> and its reader: the frame size was made positive; \<open>Close\<close> cancels and closes the
  descriptor once and then waits for the reader.
\<close>

definition fifo_source :: "gostring option \<Rightarrow> gostring \<Rightarrow> int \<Rightarrow> (bool \<times> bool) list \<Rightarrow> bytes \<Rightarrow> pipe_end \<Rightarrow>
    (bytes list \<times> reader_log) result"
where
  "fifo_source err path n ctx bs e =
     (case open_fifo_for_read err path of Inl m \<Rightarrow> Inl m | Inr _ \<Rightarrow> Inr (source_loop (frame_size n) ctx 0 bs e))"

datatype close_fx = CancelReader | CloseFd | AwaitReader

definition source_close :: "bool \<Rightarrow> close_fx list \<times> bool" where
  "source_close closed = ((if closed then [] else [CancelReader, CloseFd]) @ [AwaitReader], True)"

section \<open>The sink\<close>

record fifo_sink =
  fk_closed :: bool
  fk_written :: bytes
  fk_fd_closes :: nat

definition new_sink :: fifo_sink where
  "new_sink = \<lparr>fk_closed = False, fk_written = [], fk_fd_closes = 0\<rparr>"

text \<open>A write error: whether \<open>errors.Is\<close> finds \<open>EPIPE\<close> in it, and its text.\<close>

record write_fault =
  wf_epipe :: bool
  wf_text :: gostring

fun contains :: "gostring \<Rightarrow> gostring \<Rightarrow> bool" where
  "contains [] p = (p = [])"
| "contains (c # s) p = (has_prefix (c # s) p \<or> contains s p)"

definition is_broken_pipe :: "write_fault option \<Rightarrow> bool" where
  "is_broken_pipe w = (case w of None \<Rightarrow> False | Some f \<Rightarrow> wf_epipe f \<or> contains (wf_text f) ''broken pipe'')"

datatype sink_err = SinkClosed | SinkEof | SinkErr gostring

text \<open>\<open>n\<close> is how many bytes the pipe took; an error comes with fewer than all of them.\<close>

definition sink_write :: "nat \<Rightarrow> write_fault option \<Rightarrow> bytes \<Rightarrow> fifo_sink \<Rightarrow> (nat \<times> sink_err option) \<times> fifo_sink" where
  "sink_write n w p s =
     (if fk_closed s then ((0, Some SinkClosed), s)
      else
        let took = (if w = None then length p else n); s = s\<lparr>fk_written := fk_written s @ take took p\<rparr> in
        if is_broken_pipe w then ((took, Some SinkEof), s)
        else ((took, map_option (\<lambda>f. SinkErr (wf_text f)) w), s))"

definition sink_close :: "fifo_sink \<Rightarrow> fifo_sink" where
  "sink_close s = (if fk_closed s then s else s\<lparr>fk_closed := True, fk_fd_closes := fk_fd_closes s + 1\<rparr>)"

section \<open>Lemmas\<close>

text \<open>The reference: the bytes cut into pieces of \<open>n\<close>.\<close>

function pieces :: "nat \<Rightarrow> bytes \<Rightarrow> bytes list" where
  "pieces n bs = (if n = 0 \<or> bs = [] then [] else take n bs # pieces n (drop n bs))"
  by pat_completeness auto
termination by (relation "measure (\<lambda>(n, bs). length bs)") auto

declare pieces.simps [simp del]

lemma pieces_concat: "0 < n \<Longrightarrow> concat (pieces n bs) = bs"
proof (induction n bs rule: pieces.induct)
  case (1 n bs)
  then show ?case by (cases "bs = []") (simp_all add: pieces.simps [of n bs] pieces.simps [of n "[]"])
qed

lemma pieces_lengths: "f \<in> set (pieces n bs) \<Longrightarrow> f \<noteq> [] \<and> length f \<le> n"
proof (induction n bs rule: pieces.induct)
  case (1 n bs)
  then show ?case by (cases "n = 0 \<or> bs = []") (auto simp: pieces.simps [of n bs])
qed

lemma pieces_full: "f \<in> set (butlast (pieces n bs)) \<Longrightarrow> length f = n"
proof (induction n bs rule: pieces.induct)
  case (1 n bs)
  show ?case
  proof (cases "n = 0 \<or> bs = []")
    case True
    then show ?thesis using 1(2) by (auto simp: pieces.simps [of n bs])
  next
    case False
    then have p: "pieces n bs = take n bs # pieces n (drop n bs)" by (simp add: pieces.simps [of n bs])
    show ?thesis
    proof (cases "pieces n (drop n bs) = []")
      case True
      then show ?thesis using 1(2) p by simp
    next
      case ne: False
      then have "drop n bs \<noteq> []" by (auto simp: pieces.simps [of n "[]"])
      then show ?thesis using 1 False p ne by (auto split: if_splits)
    qed
  qed
qed

definition end_log :: "nat \<Rightarrow> pipe_end \<Rightarrow> reader_log" where
  "end_log tot e = (case e of PipeEof \<Rightarrow> LogEof tot | FdClosed \<Rightarrow> LogNothing | PipeErr m \<Rightarrow> LogReadError m)"

lemma source_loop_pieces:
  "0 < sz \<Longrightarrow> source_loop sz [] tot bs e = (pieces sz bs, end_log (tot + length bs) e)"
proof (induction sz bs arbitrary: tot rule: pieces.induct)
  case (1 sz bs)
  consider "bs = []" | "bs \<noteq> []" "length bs < sz" | "bs \<noteq> []" "sz \<le> length bs" by fastforce
  then show ?case
  proof cases
    case 1
    then show ?thesis using \<open>0 < sz\<close>
      by (simp add: source_loop.simps [of sz] read_full_def pieces.simps [of sz] end_log_def split: pipe_end.split)
  next
    case 2
    then have "pieces sz bs = [bs]" using \<open>0 < sz\<close> by (simp add: pieces.simps [of sz])
    then show ?thesis using \<open>0 < sz\<close> 2
      by (simp add: source_loop.simps [of sz] read_full_def end_log_def split: pipe_end.split)
  next
    case 3
    have "source_loop sz [] (tot + sz) (drop sz bs) e = (pieces sz (drop sz bs), end_log (tot + length bs) e)"
      using 1 3 by simp
    then show ?thesis using \<open>0 < sz\<close> 3
      by (simp add: source_loop.simps [of sz "[]" tot bs] read_full_def pieces.simps [of sz bs] min_absorb2)
  qed
qed

lemma source_loop_prefix:
  "0 < sz \<Longrightarrow> \<exists>n. fst (source_loop sz ctx tot bs e) = take n (pieces sz bs)"
proof (induction sz bs arbitrary: tot ctx rule: pieces.induct)
  case (1 sz bs)
  obtain top hand where c: "(case ctx of [] \<Rightarrow> (False, False) | c # _ \<Rightarrow> c) = (top, hand)" by (metis surj_pair)
  show ?case
  proof (cases "top \<or> bs \<noteq> [] \<and> hand")
    case True
    then have "fst (source_loop sz ctx tot bs e) = []"
      using c \<open>0 < sz\<close> by (auto simp: source_loop.simps [of sz ctx] read_full_def)
    then show ?thesis by (intro exI [of _ 0]) simp
  next
    case go: False
    consider "bs = []" | "bs \<noteq> []" "length bs < sz" | "bs \<noteq> []" "sz \<le> length bs" by fastforce
    then show ?thesis
    proof cases
      case 1
      then have "fst (source_loop sz ctx tot bs e) = []"
        using c go \<open>0 < sz\<close> by (auto simp: source_loop.simps [of sz ctx] read_full_def split: pipe_end.split)
      then show ?thesis by (intro exI [of _ 0]) simp
    next
      case 2
      then have "fst (source_loop sz ctx tot bs e) = [bs]"
        using c go \<open>0 < sz\<close> by (auto simp: source_loop.simps [of sz ctx] read_full_def split: pipe_end.split)
      moreover have "pieces sz bs = [bs]" using \<open>0 < sz\<close> 2 by (simp add: pieces.simps [of sz])
      ultimately show ?thesis by (intro exI [of _ 1]) simp
    next
      case 3
      obtain n where "fst (source_loop sz (tl ctx) (tot + sz) (drop sz bs) e) = take n (pieces sz (drop sz bs))"
        using 1 3 by blast
      moreover have "fst (source_loop sz ctx tot bs e) =
          take sz bs # fst (source_loop sz (tl ctx) (tot + sz) (drop sz bs) e)"
        using c go \<open>0 < sz\<close> 3
        by (auto simp: source_loop.simps [of sz ctx tot bs] read_full_def min_absorb2 case_prod_beta Let_def)
      moreover have "pieces sz bs = take sz bs # pieces sz (drop sz bs)"
        using \<open>0 < sz\<close> 3 by (simp add: pieces.simps [of sz bs])
      ultimately show ?thesis by (intro exI [of _ "Suc n"]) simp
    qed
  qed
qed

lemma frame_size_pos: "0 < frame_size n"
  by (simp add: frame_size_def)

section \<open>Properties\<close>

text \<open>
  The caller's audio is neither lost nor padded: whatever the pipe carried, the reader ends, its frames
  put together are those bytes, all of them full but the last, and a cancelled reader has handed over
  a prefix of those frames.
\<close>

theorem frames_are_the_audio:
  "\<exists>frames l. fifo_source None path n [] bs e = Inr (frames, l) \<and> concat frames = bs \<and>
     (\<forall>f \<in> set (butlast frames). length f = frame_size n) \<and> (\<forall>f \<in> set frames. f \<noteq> [] \<and> length f \<le> frame_size n) \<and>
     l = end_log (length bs) e \<and>
     (\<exists>k l'. fifo_source None path n ctx bs e = Inr (take k frames, l'))"
proof -
  obtain k where "fst (source_loop (frame_size n) ctx 0 bs e) = take k (pieces (frame_size n) bs)"
    using source_loop_prefix [OF frame_size_pos] by blast
  then have "\<exists>k l'. source_loop (frame_size n) ctx 0 bs e = (take k (pieces (frame_size n) bs), l')" by (metis prod.collapse)
  then show ?thesis
    using source_loop_pieces [OF frame_size_pos, of n 0 bs e] pieces_concat [OF frame_size_pos, of n bs]
      pieces_full [of _ "frame_size n" bs] pieces_lengths [of _ "frame_size n" bs]
    by (simp add: fifo_source_def open_fifo_for_read_def)
qed

text \<open>A sink writes in order, reports a stopped playback as the end, and after \<open>Close\<close> writes nothing.\<close>

lemma sink_writes_in_order:
  "fk_closed s \<Longrightarrow> sink_write n w p s = ((0, Some SinkClosed), s)"
  "\<not> fk_closed s \<Longrightarrow> fk_written (snd (sink_write n None p s)) = fk_written s @ p"
  "\<not> fk_closed s \<Longrightarrow> wf_epipe f \<Longrightarrow> snd (fst (sink_write n (Some f) p s)) = Some SinkEof"
  "sink_close (sink_close s) = sink_close s"
  by (simp_all add: sink_write_def is_broken_pipe_def sink_close_def)

theorem frames_are_the_audio_witness:
  "\<exists>l. fifo_source None ''/dev/shm/c1'' 2 [] ''abcde'' PipeEof = Inr ([''ab'', ''cd'', ''e''], l) \<and> l = LogEof 5"
proof -
  obtain frames where f: "fifo_source None ''/dev/shm/c1'' 2 [] ''abcde'' PipeEof = Inr (frames, end_log 5 PipeEof)"
      "concat frames = ''abcde''"
    using frames_are_the_audio [of "''/dev/shm/c1''" 2 "''abcde''" PipeEof "[]"] by (auto simp: eval_nat_numeral)
  have "pieces 2 ''abcde'' = [''ab'', ''cd'', ''e'']" by (simp add: pieces.simps)
  then have "frames = [''ab'', ''cd'', ''e'']"
    using f(1) source_loop_pieces [of 2 0 "''abcde''" PipeEof] by (simp add: fifo_source_def open_fifo_for_read_def frame_size_def)
  then show ?thesis using f(1) by (simp add: end_log_def)
qed

end
