(* ===== verification/BotProbe.thy ===== *)
theory BotProbe
  imports ApiBots Pipes
begin

text \<open>
  The dry-run test of a bot (\<open>internal/api/bots.go\<close>, the handler \<open>test\<close>): one reachability probe for
  each configured endpoint.  What the network answers and how long it takes come from \<open>probe_env\<close>,
  and so does what \<open>url.Parse\<close> makes of an endpoint: its scheme and host.
\<close>

section \<open>Probes\<close>

record probe =
  pr_component :: gostring
  pr_endpoint :: gostring
  pr_ok :: bool
  pr_latency :: int
  pr_err :: gostring

text \<open>A HEAD request: it cannot be built, fails, or is answered with a status.\<close>

datatype head_res = BadUrl gostring | HeadErr gostring | HeadStatus nat

record probe_env =
  pe_head :: "gostring \<Rightarrow> head_res"
  pe_dial :: "gostring \<Rightarrow> gostring option"
  pe_url :: "gostring \<Rightarrow> gostring + (gostring \<times> gostring)"
  pe_elapsed :: "gostring \<Rightarrow> duration"

definition run_http_probe :: "probe_env \<Rightarrow> gostring \<Rightarrow> gostring \<Rightarrow> probe" where
  "run_http_probe env name raw =
     (let out = \<lparr>pr_component = name, pr_endpoint = raw, pr_ok = False, pr_latency = 0, pr_err = []\<rparr> in
      if raw = [] then out\<lparr>pr_err := ''endpoint not set''\<rparr>
      else
        let out = out\<lparr>pr_latency := to_ms (pe_elapsed env raw)\<rparr> in
        (case pe_head env raw of
           BadUrl e \<Rightarrow> out\<lparr>pr_err := e\<rparr>
         | HeadErr e \<Rightarrow> out\<lparr>pr_err := e\<rparr>
         | HeadStatus s \<Rightarrow> if 500 \<le> s then out\<lparr>pr_err := ''http '' @ show_nat s\<rparr> else out\<lparr>pr_ok := True\<rparr>))"

definition run_tcp_probe :: "probe_env \<Rightarrow> gostring \<Rightarrow> gostring \<Rightarrow> probe" where
  "run_tcp_probe env name hostport =
     (let out = \<lparr>pr_component = name, pr_endpoint = hostport, pr_ok = False, pr_latency = 0, pr_err = []\<rparr> in
      if hostport = [] then out\<lparr>pr_err := ''endpoint not set''\<rparr>
      else
        let out = out\<lparr>pr_latency := to_ms (pe_elapsed env hostport)\<rparr> in
        (case pe_dial env hostport of
           Some e \<Rightarrow> out\<lparr>pr_err := e\<rparr>
         | None \<Rightarrow> out\<lparr>pr_ok := True\<rparr>))"

definition host_port :: "gostring \<Rightarrow> gostring \<Rightarrow> gostring" where
  "host_port scheme host =
     (if contains host '':'' then host
      else if scheme = ''wss'' \<or> scheme = ''https'' then host @ '':443'' else host @ '':80'')"

definition run_ws_probe :: "probe_env \<Rightarrow> gostring \<Rightarrow> gostring \<Rightarrow> probe" where
  "run_ws_probe env name raw =
     (let out = \<lparr>pr_component = name, pr_endpoint = raw, pr_ok = False, pr_latency = 0, pr_err = []\<rparr> in
      if raw = [] then out\<lparr>pr_err := ''endpoint not set''\<rparr>
      else case pe_url env raw of
        Inl e \<Rightarrow> out\<lparr>pr_err := e\<rparr>
      | Inr (scheme, host) \<Rightarrow>
         (let tcp = run_tcp_probe env name (host_port scheme host) in
          out\<lparr>pr_latency := pr_latency tcp, pr_ok := pr_ok tcp, pr_err := pr_err tcp\<rparr>))"

section \<open>The handler\<close>

text \<open>The reply: the overall verdict and the probes.\<close>

definition h_test_bot :: "probe_env \<Rightarrow> ctx \<Rightarrow> uuid \<Rightarrow> db \<Rightarrow> (bool \<times> probe list) reply \<times> db" where
  "h_test_bot env x i d =
     (case get_bot_by_id i d of
        (Inr (Some b), d) \<Rightarrow>
          if \<not> can_access_bot x b then (Status 403, d)
          else
            let results = [run_http_probe env ''bot'' (bot_url b), run_tcp_probe env ''asr'' (asr_endpoint b),
                           run_ws_probe env ''tts'' (tts_endpoint b)] in
            (Body 200 (list_all pr_ok results, results), d)
      | (_, d) \<Rightarrow> (Status 404, d))"

section \<open>Lemmas\<close>

lemma probe_says_why:
  assumes "\<And>h. pe_dial env h \<noteq> Some []" "\<And>u. pe_head env u \<noteq> BadUrl []" "\<And>u. pe_head env u \<noteq> HeadErr []"
    and "\<And>u. pe_url env u \<noteq> Inl []"
  shows "pr_ok (run_http_probe env n u) \<longleftrightarrow> pr_err (run_http_probe env n u) = []"
    and "pr_ok (run_tcp_probe env n u) \<longleftrightarrow> pr_err (run_tcp_probe env n u) = []"
    and "pr_ok (run_ws_probe env n u) \<longleftrightarrow> pr_err (run_ws_probe env n u) = []"
proof -
  show "pr_ok (run_http_probe env n u) \<longleftrightarrow> pr_err (run_http_probe env n u) = []" for u
    using assms(2,3) by (auto simp: run_http_probe_def Let_def split: head_res.split)
  show tcp: "pr_ok (run_tcp_probe env n u) \<longleftrightarrow> pr_err (run_tcp_probe env n u) = []" for u
    using assms(1) by (auto simp: run_tcp_probe_def Let_def split: option.split)
  show "pr_ok (run_ws_probe env n u) \<longleftrightarrow> pr_err (run_ws_probe env n u) = []"
    using assms(4) tcp by (auto simp: run_ws_probe_def Let_def split: sum.split)
qed

text \<open>
  A test passes exactly when the three endpoints of the bot are set and answer, and it is refused to
  callers who may not access the bot.
\<close>

lemma bot_test_passes_iff:
  assumes "get_bot_by_id i d = (Inr (Some b), d')" "can_access_bot x b"
  shows "(\<exists>rs. h_test_bot env x i d = (Body 200 (True, rs), d')) \<longleftrightarrow>
     bot_url b \<noteq> [] \<and> (\<exists>s<500. pe_head env (bot_url b) = HeadStatus s) \<and>
     asr_endpoint b \<noteq> [] \<and> pe_dial env (asr_endpoint b) = None \<and>
     tts_endpoint b \<noteq> [] \<and> (\<exists>sch host. pe_url env (tts_endpoint b) = Inr (sch, host) \<and> pe_dial env (host_port sch host) = None)"
proof -
  have hp: "host_port sch host \<noteq> []" for sch host
    by (cases host) (auto simp: host_port_def)
  have http: "pr_ok (run_http_probe env n u) \<longleftrightarrow> u \<noteq> [] \<and> (\<exists>s<500. pe_head env u = HeadStatus s)" for n u
    by (auto simp: run_http_probe_def Let_def not_le split: head_res.split)
  have tcp: "pr_ok (run_tcp_probe env n u) \<longleftrightarrow> u \<noteq> [] \<and> pe_dial env u = None" for n u
    by (auto simp: run_tcp_probe_def Let_def split: option.split)
  have ws: "pr_ok (run_ws_probe env n u) \<longleftrightarrow>
      u \<noteq> [] \<and> (\<exists>sch host. pe_url env u = Inr (sch, host) \<and> pe_dial env (host_port sch host) = None)" for n u
    using hp by (auto simp: run_ws_probe_def Let_def tcp split: sum.split)
  show ?thesis using assms by (auto simp: h_test_bot_def Let_def http tcp ws)
qed

end
