(* ===== verification/Offline.thy ===== *)
theory Offline
  imports Wav Pipes GoStrings Complex_Main
begin

text \<open>
  The tools that drive the pipeline without FreeSWITCH: \<open>cmd/offline-cli\<close> and \<open>cmd/loadtest\<close>.  Their WAV
  readers, the source that replays a file as frames, the life of a virtual call, and the collector
  with its latency report.  Command-line flags and the printing are left out; floating-point
  percentiles are computed on real numbers.
\<close>

section \<open>Reading WAV files\<close>

text \<open>\<open>io.ReadFull\<close> on a reader over the bytes: what was read and what is left.\<close>

definition full_read :: "nat \<Rightarrow> bytes \<Rightarrow> (bytes \<times> bytes) result" where
  "full_read n r =
     (if n \<le> length r then Inr (take n r, drop n r)
      else Inl (if r = [] then ''EOF'' else ''unexpected EOF''))"

record wav_fmt =
  wf_channels :: nat
  wf_rate :: nat
  wf_bits :: nat

definition fmt_of :: "bytes \<Rightarrow> wav_fmt" where
  "fmt_of body = \<lparr>wf_channels = get_le (gslice body 2 4), wf_rate = get_le (gslice body 4 8), wf_bits = get_le (gslice body 14 16)\<rparr>"

lemma full_read_le: "full_read n r = Inr (b, r') \<Longrightarrow> length r' = length r - n \<and> n \<le> length r"
  by (auto simp: full_read_def split: if_splits)

text \<open>The chunk loop of \<open>offline-cli\<close>.\<close>

function wav_chunks :: "wav_fmt option \<Rightarrow> bytes \<Rightarrow> bytes result" where
  "wav_chunks seen r =
     (case full_read 8 r of
        Inl e \<Rightarrow> Inl (''read chunk header: '' @ e)
      | Inr (hdr, r1) \<Rightarrow>
         let sz = get_le (drop 4 hdr) in
         if take 4 hdr = ''fmt '' then
           (case full_read sz r1 of
              Inl e \<Rightarrow> Inl (''read fmt: '' @ e)
            | Inr (body, r2) \<Rightarrow>
                if sz < 16 then Inl (''fmt chunk too small ('' @ show_nat sz @ '')'')
                else if get_le (gslice body 0 2) \<noteq> 1 then
                  Inl (''only PCM (format=1) supported, got '' @ show_nat (get_le (gslice body 0 2)))
                else wav_chunks (Some (fmt_of body)) r2)
         else if take 4 hdr = ''data'' then
           (case seen of
              None \<Rightarrow> Inl ''data chunk before fmt''
            | Some f \<Rightarrow>
               (case full_read sz r1 of
                  Inl e \<Rightarrow> Inl (''read data: '' @ e)
                | Inr (body, r2) \<Rightarrow>
                    if wf_channels f \<noteq> 1 then Inl (''expected mono, got '' @ show_nat (wf_channels f) @ '' channels'')
                    else if wf_rate f \<noteq> 8000 then Inl (''expected 8000 Hz, got '' @ show_nat (wf_rate f) @ '' Hz'')
                    else if wf_bits f \<noteq> 16 then Inl (''expected 16-bit, got '' @ show_nat (wf_bits f))
                    else Inr body))
         else wav_chunks seen (drop sz r1))"
  by pat_completeness auto
termination by (relation "measure (\<lambda>(seen, r). length r)") (auto dest!: full_read_le)

declare wav_chunks.simps [simp del]

definition parse_wav :: "bytes \<Rightarrow> bytes result" where
  "parse_wav f =
     (if length f < 12 then Inl ''file too short to be WAV''
      else if take 4 f \<noteq> ''RIFF'' \<or> gslice f 8 12 \<noteq> ''WAVE'' then Inl ''not a RIFF/WAVE file''
      else wav_chunks None (drop 12 f))"

text \<open>The reader of \<open>loadtest\<close>, written separately.\<close>

function wav_chunks_lt :: "wav_fmt option \<Rightarrow> bytes \<Rightarrow> bytes result" where
  "wav_chunks_lt seen r =
     (case full_read 8 r of
        Inl e \<Rightarrow> Inl (''chunk header: '' @ e)
      | Inr (hdr, r1) \<Rightarrow>
         let sz = get_le (drop 4 hdr) in
         if take 4 hdr = ''fmt '' then
           (case full_read sz r1 of
              Inl e \<Rightarrow> Inl e
            | Inr (body, r2) \<Rightarrow>
                if sz < 16 \<or> get_le (gslice body 0 2) \<noteq> 1 then Inl ''only PCM supported''
                else wav_chunks_lt (Some (fmt_of body)) r2)
         else if take 4 hdr = ''data'' then
           (case seen of
              None \<Rightarrow> Inl ''data before fmt''
            | Some f \<Rightarrow>
               (case full_read sz r1 of
                  Inl e \<Rightarrow> Inl e
                | Inr (body, r2) \<Rightarrow>
                    if wf_channels f \<noteq> 1 \<or> wf_rate f \<noteq> 8000 \<or> wf_bits f \<noteq> 16 then
                      Inl (''expected 8kHz mono S16LE, got '' @ show_nat (wf_rate f) @ '' Hz / '' @
                           show_nat (wf_channels f) @ '' ch / '' @ show_nat (wf_bits f) @ '' bit'')
                    else Inr body))
         else wav_chunks_lt seen (drop sz r1))"
  by pat_completeness auto
termination by (relation "measure (\<lambda>(seen, r). length r)") (auto dest!: full_read_le)

declare wav_chunks_lt.simps [simp del]

definition parse_wav_lt :: "bytes \<Rightarrow> bytes result" where
  "parse_wav_lt f =
     (if length f < 12 \<or> take 4 f \<noteq> ''RIFF'' \<or> gslice f 8 12 \<noteq> ''WAVE'' then Inl ''not a RIFF/WAVE file''
      else wav_chunks_lt None (drop 12 f))"

text \<open>\<open>filepath.Ext\<close>; \<open>lo\<close> is the lower case of the runes outside ASCII.\<close>

fun ext_rev :: "gostring \<Rightarrow> gostring \<Rightarrow> gostring" where
  "ext_rev acc [] = []"
| "ext_rev acc (c # cs) =
     (if c = CHR ''/'' then [] else if c = CHR ''.'' then c # acc else ext_rev (c # acc) cs)"

definition path_ext :: "gostring \<Rightarrow> gostring" where
  "path_ext p = ext_rev [] (rev p)"

definition read_audio :: "(nat \<Rightarrow> nat) \<Rightarrow> gostring \<Rightarrow> bytes result \<Rightarrow> bytes result" where
  "read_audio lo path file =
     (case file of Inl e \<Rightarrow> Inl e | Inr f \<Rightarrow>
      let ext = to_lower lo (path_ext path) in
      if ext = ''.pcm'' \<or> ext = ''.raw'' then Inr f
      else if ext = ''.wav'' then parse_wav f
      else Inl (''unsupported extension '' @ ext))"

definition read_audio_lt :: "(nat \<Rightarrow> nat) \<Rightarrow> gostring \<Rightarrow> bytes result \<Rightarrow> bytes result" where
  "read_audio_lt lo path file =
     (case file of Inl e \<Rightarrow> Inl e | Inr f \<Rightarrow>
      let ext = to_lower lo (path_ext path) in
      if ext = ''.pcm'' \<or> ext = ''.raw'' then Inr f
      else if ext = ''.wav'' then parse_wav_lt f
      else Inl (''unsupported '' @ ext))"

section \<open>Replaying a file\<close>

function replay_from :: "bytes \<Rightarrow> nat \<Rightarrow> nat \<Rightarrow> bytes list" where
  "replay_from pcm n i =
     (if n = 0 \<or> length pcm \<le> i then []
      else gslice pcm i (if length pcm < i + n then length pcm else i + n) # replay_from pcm n (i + n))"
  by pat_completeness auto
termination by (relation "measure (\<lambda>(pcm, n, i). length pcm - i)") auto

declare replay_from.simps [simp del]

definition replay_frames :: "bytes \<Rightarrow> int \<Rightarrow> bytes list" where
  "replay_frames pcm n = replay_from pcm (if n \<le> 0 then 320 else nat n) 0"

text \<open>\<open>newPacedSource\<close> takes the rate and the length of a frame in milliseconds; division truncates.\<close>

definition paced_frames :: "bytes \<Rightarrow> int \<Rightarrow> int \<Rightarrow> bytes list" where
  "paced_frames pcm rate ms = replay_frames pcm (sgn (rate * ms) * (abs (rate * ms) div 1000) * 2)"

section \<open>The offline run\<close>

text \<open>The outcomes of the services, and the exit code with the transcript that was spoken to.\<close>

datatype exit_code = ExitUsage | ExitFail | ExitOk

definition offline_main ::
  "(nat \<Rightarrow> nat) \<Rightarrow> gostring \<Rightarrow> bytes result \<Rightarrow> gostring option \<Rightarrow> (bytes list \<Rightarrow> gostring result) \<Rightarrow> gostring option
   \<Rightarrow> (gostring \<Rightarrow> 'a result) \<Rightarrow> int \<Rightarrow> exit_code \<times> gostring option"
where
  "offline_main lo path file asr_err listen_to create_err speak_to frame_ms =
     (if path = [] then (ExitUsage, None)
      else case read_audio lo path file of Inl e \<Rightarrow> (ExitFail, None) | Inr pcm \<Rightarrow>
      case asr_err of Some e \<Rightarrow> (ExitFail, None) | None \<Rightarrow>
      case listen_to (paced_frames pcm 8000 frame_ms) of Inl e \<Rightarrow> (ExitFail, None) | Inr heard \<Rightarrow>
      if heard = [] then (ExitFail, None)
      else case create_err of Some e \<Rightarrow> (ExitFail, None) | None \<Rightarrow>
      case speak_to heard of Inl e \<Rightarrow> (ExitFail, Some heard) | Inr act \<Rightarrow> (ExitOk, Some heard))"

section \<open>Virtual calls and their latencies\<close>

record collector =
  lt_turns :: "nat \<Rightarrow> duration list"
  lt_errs :: nat
  lt_seen :: "gostring set"

definition new_collector :: collector where
  "new_collector = \<lparr>lt_turns = (\<lambda>_. []), lt_errs = 0, lt_seen = {}\<rparr>"

definition record_turn :: "nat \<Rightarrow> duration \<Rightarrow> collector \<Rightarrow> collector" where
  "record_turn i dur c = c\<lparr>lt_turns := (lt_turns c)(i := lt_turns c i @ [dur])\<rparr>"

definition record_error :: "gostring \<Rightarrow> collector \<Rightarrow> collector" where
  "record_error e c = c\<lparr>lt_errs := lt_errs c + 1, lt_seen := insert e (lt_seen c)\<rparr>"

datatype turn_res = TurnOk | TurnCanceled | TurnFailed gostring

text \<open>The turns of one call from number \<open>i\<close> on, each with its duration and outcome.\<close>

fun virtual_call :: "nat \<Rightarrow> nat \<Rightarrow> (duration \<times> turn_res) list \<Rightarrow> collector \<Rightarrow> collector" where
  "virtual_call turns i [] c = c"
| "virtual_call turns i ((dur, res) # rs) c =
     (if turns \<le> i then c
      else case res of
        TurnOk \<Rightarrow> virtual_call turns (Suc i) rs (record_turn i dur c)
      | TurnCanceled \<Rightarrow> c
      | TurnFailed e \<Rightarrow> record_error e c)"

text \<open>
  \<open>main\<close> of the load test: the checks before the calls, when each call is started, and the audio of a turn.  A start
  is followed by a wait that the interrupt at \<open>stop\<close> cuts short; the \<open>break\<close> there only leaves the \<open>select\<close>.
\<close>

definition loadtest_main :: "int \<Rightarrow> int \<Rightarrow> bytes result option \<Rightarrow> gostring option \<Rightarrow> exit_code" where
  "loadtest_main ccu turns input dial_err =
     (if ccu < 1 \<or> turns < 1 then ExitUsage
      else case input of Some (Inl _) \<Rightarrow> ExitFail | _ \<Rightarrow>
      if dial_err \<noteq> None then ExitFail else ExitOk)"

fun ramp_starts :: "nat \<Rightarrow> duration \<Rightarrow> time option \<Rightarrow> time \<Rightarrow> time list" where
  "ramp_starts 0 ramp stop now = []"
| "ramp_starts (Suc n) ramp stop now =
     now # ramp_starts n ramp stop
       (case stop of
          None \<Rightarrow> now + max 0 ramp
        | Some t \<Rightarrow> if t \<le> now then now else min (now + max 0 ramp) t)"

definition turn_audio :: "int \<Rightarrow> bytes \<Rightarrow> nat \<Rightarrow> bytes list option" where
  "turn_audio rate input i =
     (if 0 < i \<and> input \<noteq> [] then Some (replay_frames input (sgn (rate * 20) * (abs (rate * 20) div 1000) * 2)) else None)"

text \<open>The value at a percentile of sorted durations.\<close>

definition pct :: "duration list \<Rightarrow> real \<Rightarrow> duration" where
  "pct ds p = (if ds = [] then 0 else ds ! nat \<lfloor>real (length ds - 1) * p\<rfloor>)"

record report_row =
  rr_n :: nat
  rr_pcts :: "duration list"
  rr_max :: duration

definition row_of :: "duration list \<Rightarrow> report_row option" where
  "row_of samples =
     (if samples = [] then None
      else let ds = sort samples in
        Some \<lparr>rr_n = length ds, rr_pcts = map (pct ds) [50 / 100, 75 / 100, 90 / 100, 95 / 100, 99 / 100],
              rr_max = ds ! (length ds - 1)\<rparr>)"

text \<open>The rows of the turns, the row over all of them, and whether the goal of 2 s is met.\<close>

definition report :: "nat \<Rightarrow> collector \<Rightarrow> report_row option list \<times> report_row option \<times> bool option" where
  "report turns c =
     (let everything = concat (map (lt_turns c) [0..<turns]) in
      (map (\<lambda>i. row_of (lt_turns c i)) [0..<turns], row_of everything,
       if everything = [] then None else Some (pct (sort everything) (99 / 100) < 2000000000)))"

section \<open>Lemmas\<close>

text \<open>An interrupt ends no start: every call is launched, those after it at once.\<close>

lemma ramp_length: "length (ramp_starts n ramp stop now) = n"
  by (induction n ramp stop now rule: ramp_starts.induct) simp_all

lemma interrupted_ramp:
  "now \<le> t \<Longrightarrow> i < n \<Longrightarrow> 0 \<le> ramp \<Longrightarrow> ramp_starts n ramp (Some t) now ! i = min (now + int i * ramp) t"
proof (induction n arbitrary: now i)
  case (Suc n)
  show ?case
  proof (cases i)
    case (Suc j)
    let ?next = "if t \<le> now then now else min (now + ramp) t"
    have "ramp_starts n ramp (Some t) ?next ! j = min (?next + int j * ramp) t"
      using Suc Suc.prems by (intro Suc.IH) auto
    moreover have "min (?next + k) t = min (now + (ramp + k)) t" if "0 \<le> k" for k
      using that Suc.prems(1,3) by (auto simp: min_def)
    moreover have "0 \<le> int j * ramp" "int i * ramp = ramp + int j * ramp"
      using Suc.prems(3) by (simp_all add: Suc algebra_simps)
    ultimately show ?thesis using Suc Suc.prems(3) by simp
  qed (use Suc.prems in simp)
qed simp

text \<open>The two readers accept the same files and find the same audio in them.\<close>

definition accepted :: "'a result \<Rightarrow> 'a option" where
  "accepted r = (case r of Inl _ \<Rightarrow> None | Inr v \<Rightarrow> Some v)"

lemma wav_chunks_agree: "accepted (wav_chunks seen r) = accepted (wav_chunks_lt seen r)"
proof (induction seen r rule: wav_chunks.induct)
  case (1 seen r)
  show ?case
  proof (cases "full_read 8 r")
    case (Inl e)
    then show ?thesis by (simp add: wav_chunks.simps [of seen r] wav_chunks_lt.simps [of seen r] accepted_def)
  next
    case (Inr p)
    obtain hdr r1 where p: "p = (hdr, r1)" by (cases p)
    note read = Inr [unfolded p]
    define sz where "sz = get_le (drop 4 hdr)"
    consider "take 4 hdr = ''fmt ''" | "take 4 hdr = ''data''" | "take 4 hdr \<noteq> ''fmt ''" "take 4 hdr \<noteq> ''data''" by blast
    then show ?thesis
    proof cases
      case fmt: 1
      show ?thesis
      proof (cases "full_read sz r1")
        case (Inl e)
        then show ?thesis using read fmt
          by (simp add: wav_chunks.simps [of seen r] wav_chunks_lt.simps [of seen r] accepted_def Let_def flip: sz_def)
      next
        case (Inr q)
        obtain body r2 where q: "q = (body, r2)" by (cases q)
        show ?thesis
        proof (cases "sz < 16 \<or> get_le (gslice body 0 2) \<noteq> 1")
          case True
          then show ?thesis using read fmt Inr q
            by (auto simp: wav_chunks.simps [of seen r] wav_chunks_lt.simps [of seen r] accepted_def Let_def simp flip: sz_def)
        next
          case False
          then have "accepted (wav_chunks (Some (fmt_of body)) r2) = accepted (wav_chunks_lt (Some (fmt_of body)) r2)"
            using 1(1) [OF read refl sz_def fmt Inr [unfolded q] refl] by simp
          then show ?thesis using False read fmt Inr q
            by (simp add: wav_chunks.simps [of seen r] wav_chunks_lt.simps [of seen r] Let_def flip: sz_def)
        qed
      qed
    next
      case data: 2
      then show ?thesis using read
        by (auto simp: wav_chunks.simps [of seen r] wav_chunks_lt.simps [of seen r] accepted_def Let_def
            split: option.split sum.split simp flip: sz_def)
    next
      case other: 3
      then have "accepted (wav_chunks seen (drop sz r1)) = accepted (wav_chunks_lt seen (drop sz r1))"
        using 1(2) [OF read refl sz_def] by simp
      then show ?thesis using other read
        by (simp add: wav_chunks.simps [of seen r] wav_chunks_lt.simps [of seen r] Let_def flip: sz_def)
    qed
  qed
qed

lemma replay_from_pieces: "0 < n \<Longrightarrow> replay_from pcm n i = pieces n (drop i pcm)"
proof (induction pcm n i rule: replay_from.induct)
  case (1 pcm n i)
  show ?case
  proof (cases "length pcm \<le> i")
    case True
    then show ?thesis by (simp add: replay_from.simps [of pcm n i] pieces.simps [of n "[]"])
  next
    case False
    have "gslice pcm i (if length pcm < i + n then length pcm else i + n) = take n (drop i pcm)"
      by (auto simp: gslice_def)
    then show ?thesis using 1 False
      by (simp add: replay_from.simps [of pcm n i] pieces.simps [of n "drop i pcm"] add.commute)
  qed
qed

text \<open>A whole header, read by the chunk loop.\<close>

lemma full_read_append: "length a = n \<Longrightarrow> full_read n (a @ b) = Inr (a, b)"
  by (simp add: full_read_def)

lemma fmt_chunk:
  assumes "length body = 16" "get_le (gslice body 0 2) = 1"
  shows "wav_chunks None (''fmt '' @ put_u32 16 @ body @ ''data'' @ put_u32 n @ pcm) =
    (case full_read (unat n) pcm of
       Inl e \<Rightarrow> Inl (''read data: '' @ e)
     | Inr (audio, r) \<Rightarrow>
         if wf_channels (fmt_of body) \<noteq> 1 then Inl (''expected mono, got '' @ show_nat (wf_channels (fmt_of body)) @ '' channels'')
         else if wf_rate (fmt_of body) \<noteq> 8000 then Inl (''expected 8000 Hz, got '' @ show_nat (wf_rate (fmt_of body)) @ '' Hz'')
         else if wf_bits (fmt_of body) \<noteq> 16 then Inl (''expected 16-bit, got '' @ show_nat (wf_bits (fmt_of body)))
         else Inr audio)"
proof -
  let ?tail = "''data'' @ put_u32 n @ pcm"
  have h1: "full_read 8 (''fmt '' @ put_u32 16 @ body @ ?tail) = Inr (''fmt '' @ put_u32 16, body @ ?tail)"
    using full_read_append [of "''fmt '' @ put_u32 16" 8 "body @ ?tail"] by simp
  have h2: "full_read 16 (body @ ?tail) = Inr (body, ?tail)" using assms(1) by (rule full_read_append)
  have h3: "full_read 8 ?tail = Inr (''data'' @ put_u32 n, pcm)"
    using full_read_append [of "''data'' @ put_u32 n" 8 pcm] by simp
  have data: "wav_chunks (Some f) ?tail = (case full_read (unat n) pcm of
       Inl e \<Rightarrow> Inl (''read data: '' @ e)
     | Inr (audio, r) \<Rightarrow>
         if wf_channels f \<noteq> 1 then Inl (''expected mono, got '' @ show_nat (wf_channels f) @ '' channels'')
         else if wf_rate f \<noteq> 8000 then Inl (''expected 8000 Hz, got '' @ show_nat (wf_rate f) @ '' Hz'')
         else if wf_bits f \<noteq> 16 then Inl (''expected 16-bit, got '' @ show_nat (wf_bits f))
         else Inr audio)" for f
    unfolding wav_chunks.simps [of "Some f" ?tail] h3 by simp
  have "wav_chunks None (''fmt '' @ put_u32 16 @ body @ ?tail) = wav_chunks (Some (fmt_of body)) ?tail"
    unfolding wav_chunks.simps [of None "''fmt '' @ put_u32 16 @ body @ ?tail"] h1
    using assms(2) by (simp add: h2 [simplified])
  then show ?thesis unfolding data .
qed

section \<open>Properties\<close>

text \<open>The two tools read exactly the same WAV files, and the same audio from each.\<close>

theorem wav_readers_agree: "accepted (parse_wav f) = accepted (parse_wav_lt f)"
  by (simp add: parse_wav_def parse_wav_lt_def wav_chunks_agree) (simp add: accepted_def)

text \<open>
  A recording of the web playground can be replayed by the tools exactly when it was made at 8 kHz:
  then the reader returns the recorded audio, and otherwise it names the rate.
\<close>

theorem recording_read_by_tools:
  assumes "0 \<le> rate" "rate < 2 ^ 31" "length (concat frames) < 2 ^ 32"
  shows "parse_wav (wr_file (wav_close (Patched 44) (record_all rate frames))) =
    (if rate = 8000 then Inr (concat frames) else Inl (''expected 8000 Hz, got '' @ show_nat (nat rate) @ '' Hz''))"
proof -
  let ?pcm = "concat frames" and ?n = "of_nat (length (concat frames)) :: 32 word"
  define body where "body = put_u16 1 @ put_u16 1 @ put_u32 (of_int rate) @ put_u32 (2 * of_int rate) @ put_u16 2 @ put_u16 16"
  have rate: "unat (of_int rate :: 32 word) = nat rate"
    using assms(1,2) by (simp add: unsigned_of_int take_bit_int_eq_self)
  have n: "unat ?n = length ?pcm" using assms(3) by (simp add: unsigned_of_nat take_bit_nat_eq_self)
  have f: "wr_file (wav_close (Patched 44) (record_all rate frames)) =
      (''RIFF'' @ put_u32 (36 + ?n) @ ''WAVE'') @ ''fmt '' @ put_u32 16 @ body @ ''data'' @ put_u32 ?n @ ?pcm"
    unfolding recorded_file wav_header_def Let_def body_def by simp
  have fields: "length body = 16" "get_le (gslice body 0 2) = 1" "fmt_of body = \<lparr>wf_channels = 1, wf_rate = nat rate, wf_bits = 16\<rparr>"
    by (simp_all add: gslice_def fmt_of_def rate body_def)
  have "parse_wav (wr_file (wav_close (Patched 44) (record_all rate frames))) =
      wav_chunks None (''fmt '' @ put_u32 16 @ body @ ''data'' @ put_u32 ?n @ ?pcm)"
    unfolding f by (simp add: parse_wav_def gslice_def)
  moreover have "full_read (unat ?n) ?pcm = Inr (?pcm, [])" by (simp add: full_read_def n)
  moreover have "nat rate = 8000 \<longleftrightarrow> rate = 8000" using assms(1) by auto
  ultimately show ?thesis unfolding fmt_chunk [OF fields(1,2)] by (simp add: fields(3))
qed

text \<open>
  The latency verdict of a load test overlooks its slowest call: with at least two and at most a hundred
  samples, the reported 99th percentile is the second largest, so the goal counts as met however long
  the slowest turn took.
\<close>

lemma p99_index: "2 \<le> n \<Longrightarrow> n \<le> 100 \<Longrightarrow> nat \<lfloor>real (n - 1) * (99 / 100)\<rfloor> = n - 2"
proof -
  assume n: "2 \<le> n" "n \<le> 100"
  then have "\<lfloor>real (n - 1) * (99 / 100)\<rfloor> = int (n - 2)" by (intro floor_eq4 floor_unique) (simp_all add: of_nat_diff field_simps)
  then show ?thesis by simp
qed

theorem p99_overlooks_slowest:
  assumes "everything = concat (map (lt_turns c) [0..<turns])" "2 \<le> length everything" "length everything \<le> 100"
  shows "snd (snd (report turns c)) = Some (sort everything ! (length everything - 2) < 2000000000) \<and>
     (\<forall>ds slow. sort everything = ds @ [slow] \<longrightarrow> snd (snd (report turns c)) = Some (last ds < 2000000000))"
proof -
  have ne: "everything \<noteq> []" "sort everything \<noteq> []" using assms(2) by (auto simp: sort_key_simps dest: arg_cong [where f = length])
  have r: "snd (snd (report turns c)) = Some (sort everything ! (length everything - 2) < 2000000000)"
    using p99_index [OF assms(2,3)] ne by (simp add: report_def Let_def pct_def flip: assms(1))
  have "sort everything ! (length everything - 2) = last ds" if "sort everything = ds @ [slow]" for ds slow
  proof -
    have "length everything = Suc (length ds)" using that by (metis length_append_singleton length_sort)
    moreover have "ds \<noteq> []" using calculation assms(2) by auto
    ultimately show ?thesis using that by (simp add: nth_append last_conv_nth)
  qed
  then show ?thesis using r by auto
qed

theorem recording_read_by_tools_witness:
  "parse_wav (wr_file (wav_close (Patched 44) (record_all 16000 [''ab'', ''cd'']))) = Inl ''expected 8000 Hz, got 16000 Hz'' \<and>
   parse_wav (wr_file (wav_close (Patched 44) (record_all 8000 [''ab'', ''cd'']))) = Inr ''abcd''"
proof -
  have "show_nat 16000 = ''16000''" by (simp add: show_nat.simps digit_def char_of_eq_iff)
  then show ?thesis
    using recording_read_by_tools [of 16000 "[''ab'', ''cd'']"] recording_read_by_tools [of 8000 "[''ab'', ''cd'']"] by simp
qed

text \<open>Four calls of one second and one of a minute meet the goal.\<close>

theorem p99_overlooks_slowest_witness:
  "snd (snd (report 1 (virtual_call 1 0 [(60000000000, TurnOk)] (fold (record_turn 0) [1000000000, 1000000000, 1000000000, 1000000000] new_collector))))
     = Some True"
proof -
  let ?c = "virtual_call 1 0 [(60000000000, TurnOk)] (fold (record_turn 0) [1000000000, 1000000000, 1000000000, 1000000000] new_collector)"
  have samples: "[1000000000, 1000000000, 1000000000, 1000000000, 60000000000] = concat (map (lt_turns ?c) [0..<1])"
    by (simp add: record_turn_def new_collector_def)
  show ?thesis using p99_overlooks_slowest [OF samples] by simp
qed

text \<open>
  RIFF pads a chunk of odd size to an even one.  The readers skip the size only, so behind such a chunk
  they look for the next header one byte early: a proper file with an odd \<open>LIST\<close> chunk is refused.
\<close>

lemma odd_chunk_refused:
  "wav_chunks (Some fm) (''LIST'' @ put_u32 3 @ ''abc'' @ [char_of (0::nat)] @ ''data'' @ put_u32 2 @ ''xy'') =
     Inl ''read chunk header: EOF''"
proof -
  let ?tail = "[char_of (0::nat)] @ ''data'' @ put_u32 2 @ ''xy''"
  have sz: "put_u32 2 = [CHR 0x02, CHR 0x00, CHR 0x00, CHR 0x00]"
  proof -
    have "[0..<4] = [0, 1, 2, 3::nat]" by (simp add: upt_rec)
    then show ?thesis by (simp add: put_u32_def put_le_def char_of_eq_iff)
  qed
  have h1: "full_read 8 (''LIST'' @ put_u32 3 @ ''abc'' @ ?tail) = Inr (''LIST'' @ put_u32 3, ''abc'' @ ?tail)"
    using full_read_append [of "''LIST'' @ put_u32 3" 8 "''abc'' @ ?tail"] by simp
  have step1: "wav_chunks (Some fm) (''LIST'' @ put_u32 3 @ ''abc'' @ ?tail) = wav_chunks (Some fm) ?tail"
    unfolding wav_chunks.simps [of "Some fm" "''LIST'' @ put_u32 3 @ ''abc'' @ ?tail"] h1 by simp
  have h2: "full_read 8 ?tail = Inr ([char_of (0::nat)] @ ''dat'' @ [CHR ''a'', CHR 0x02, CHR 0x00, CHR 0x00], [CHR 0x00, CHR ''x'', CHR ''y''])"
    by (simp add: full_read_def sz)
  have "wav_chunks (Some fm) ?tail = wav_chunks (Some fm) []"
    unfolding wav_chunks.simps [of "Some fm" ?tail] h2 by (simp add: get_le_def)
  also have "\<dots> = Inl ''read chunk header: EOF''" by (simp add: wav_chunks.simps [of "Some fm" "[]"] full_read_def)
  finally show ?thesis using step1 by simp
qed

end
