(* ===== verification/Routes.thy ===== *)
theory Routes
  imports BootProps ApiDial ApiWeb ApiUsers ApiBots
begin

text \<open>
  From a request to the handler that serves it: the patterns that the \<open>Register\<close> functions of
  \<open>internal/api\<close> mount, the choice of a pattern by Go's \<open>ServeMux\<close>, and what each handler makes of the
  method and the rest of the path.  Behind the token gate of \<open>Auth\<close> this is the HTTP surface of the
  server of \<open>Boot\<close>; what a handler then does with its request is in the \<open>Api\<close> theories.  Paths are
  taken without percent escapes.
\<close>

section \<open>Endpoints\<close>

datatype endpoint =
    Health | Metrics | Answer nat | StaticFile gostring
  | Login | Logout | Me
  | ListCampaigns | CreateCampaign | OnCampaign campaign_route
  | ListCalls | GetCall gostring | ExportCalls | OriginateCall
  | Evaluate | GetEvaluation gostring
  | ListBots | CreateBot | OnBot bot_route
  | ListTenants | CreateTenant | GetTenant uuid | UpdateTenant uuid | DeleteTenant uuid
  | ListUsers | CreateUser | OnUser user_route
  | ListAudit
  | MintCallShare gostring | FetchSharedCall gostring
  | MintBotShare gostring | Bootstrap gostring | Chat gostring | Voice gostring
  | ListWebSessions | ExportWebSessions | GetWebSession gostring

type_synonym route = "request \<Rightarrow> endpoint"

text \<open>The status a handler answers itself, or the operation it goes on to.\<close>

definition routed :: "('a \<Rightarrow> endpoint) \<Rightarrow> nat + 'a \<Rightarrow> endpoint" where
  "routed f r = (case r of Inl s \<Rightarrow> Answer s | Inr x \<Rightarrow> f x)"

definition only :: "gostring \<Rightarrow> endpoint \<Rightarrow> route" where
  "only meth e rq = (if rq_method rq = meth then e else Answer 405)"

definition collection :: "endpoint \<Rightarrow> endpoint \<Rightarrow> route" where
  "collection get post rq =
     (if rq_method rq = ''GET'' then get else if rq_method rq = ''POST'' then post else Answer 405)"

definition rest_after :: "gostring \<Rightarrow> request \<Rightarrow> gostring" where
  "rest_after pfx rq = trim_prefix (rq_path rq) pfx"

section \<open>Handlers that look at the path\<close>

definition bots_item :: "uuid_parser \<Rightarrow> route" where
  "bots_item up rq = routed OnBot (bot_route_of up (rq_method rq) (rest_after ''/api/v1/bots/'' rq))"

definition users_item :: "uuid_parser \<Rightarrow> route" where
  "users_item up rq = routed OnUser (user_route_of up (rq_method rq) (rest_after ''/api/v1/users/'' rq))"

definition campaigns_item :: route where
  "campaigns_item rq = routed OnCampaign (campaign_route_of (rq_method rq) (rest_after ''/api/v1/campaigns/'' rq))"

definition tenants_item :: "uuid_parser \<Rightarrow> route" where
  "tenants_item up rq =
     (let rest = rest_after ''/api/v1/tenants/'' rq; meth = rq_method rq in
      if rest = [] then Answer 404
      else case up rest of
        None \<Rightarrow> Answer 400
      | Some i \<Rightarrow>
          if meth = ''GET'' then GetTenant i else if meth = ''PATCH'' then UpdateTenant i
          else if meth = ''DELETE'' then DeleteTenant i else Answer 405)"

definition calls_item :: route where
  "calls_item rq =
     (if rq_method rq \<noteq> ''GET'' then Answer 405
      else let k = rest_after ''/api/v1/calls/'' rq in
        if k = [] then Answer 404 else if k = ''export'' then ExportCalls else GetCall k)"

definition share_dispatch :: route where
  "share_dispatch rq =
     (let rest = rest_after ''/api/v1/share/calls/'' rq in
      if rest = [] then Answer 404 else collection (FetchSharedCall rest) (MintCallShare rest) rq)"

definition web_sessions_item :: route where
  "web_sessions_item rq =
     (let rest = rest_after ''/api/v1/web/sessions/'' rq in
      if rest = ''export'' then only ''GET'' ExportWebSessions rq else only ''GET'' (GetWebSession rest) rq)"

definition web_token :: "gostring \<Rightarrow> gostring \<Rightarrow> (gostring \<Rightarrow> endpoint) \<Rightarrow> route" where
  "web_token meth pfx f rq = only meth (f (rest_after pfx rq)) rq"

section \<open>Registration\<close>

text \<open>The patterns each \<open>Register\<close> function mounts; \<open>ok\<close>: what it depends on is there.\<close>

type_synonym pattern = "gostring \<times> route"

definition register_auth :: "bool \<Rightarrow> pattern list" where
  "register_auth ok =
     [(''/api/v1/auth/login'', if ok then only ''POST'' Login else (\<lambda>_. Answer 503)),
      (''/api/v1/auth/logout'', if ok then only ''POST'' Logout else (\<lambda>_. Answer 503)),
      (''/api/v1/auth/me'', if ok then only ''GET'' Me else (\<lambda>_. Answer 503))]"

definition register_campaigns :: "pattern list" where
  "register_campaigns =
     [(''/api/v1/campaigns'', collection ListCampaigns CreateCampaign), (''/api/v1/campaigns/'', campaigns_item)]"

definition register_calls :: "bool \<Rightarrow> pattern list" where
  "register_calls ok =
     [(''/api/v1/calls'', if ok then only ''GET'' ListCalls else (\<lambda>_. Answer 503)),
      (''/api/v1/calls/'', if ok then calls_item else (\<lambda>_. Answer 503))]"

definition register_qc :: "bool \<Rightarrow> pattern list" where
  "register_qc ok =
     (if \<not> ok then [(''/api/v1/qc/'', \<lambda>_. Answer 503)]
      else [(''/api/v1/qc/evaluate'', only ''POST'' Evaluate),
            (''/api/v1/qc/evaluations/'', web_token ''GET'' ''/api/v1/qc/evaluations/'' GetEvaluation)])"

definition register_bots :: "uuid_parser \<Rightarrow> bool \<Rightarrow> pattern list" where
  "register_bots up ok =
     [(''/api/v1/bots'', if ok then collection ListBots CreateBot else (\<lambda>_. Answer 503)),
      (''/api/v1/bots/'', if ok then bots_item up else (\<lambda>_. Answer 503))]"

definition register_tenants :: "uuid_parser \<Rightarrow> bool \<Rightarrow> pattern list" where
  "register_tenants up ok =
     (if ok then [(''/api/v1/tenants'', collection ListTenants CreateTenant), (''/api/v1/tenants/'', tenants_item up)]
      else [])"

definition register_users :: "uuid_parser \<Rightarrow> bool \<Rightarrow> pattern list" where
  "register_users up ok =
     (if ok then [(''/api/v1/users'', collection ListUsers CreateUser), (''/api/v1/users/'', users_item up)] else [])"

definition register_audit :: "bool \<Rightarrow> pattern list" where
  "register_audit ok = (if ok then [(''/api/v1/audit'', only ''GET'' ListAudit)] else [])"

definition register_originate :: "bool \<Rightarrow> pattern list" where
  "register_originate ok =
     [(''/api/v1/calls/originate'', if ok then only ''POST'' OriginateCall else (\<lambda>_. Answer 503))]"

definition register_share :: "bool \<Rightarrow> pattern list" where
  "register_share ok = (if ok then [(''/api/v1/share/calls/'', share_dispatch)] else [])"

definition register_web :: "bool \<Rightarrow> pattern list" where
  "register_web ok =
     (if \<not> ok then [(''/api/v1/share/bots/'', \<lambda>_. Answer 503), (''/api/v1/web/'', \<lambda>_. Answer 503),
                    (''/api/v1/web/sessions'', \<lambda>_. Answer 503)]
      else [(''/api/v1/share/bots/'', web_token ''POST'' ''/api/v1/share/bots/'' MintBotShare),
            (''/api/v1/web/bot/'', web_token ''GET'' ''/api/v1/web/bot/'' Bootstrap),
            (''/api/v1/web/chat/'', web_token ''POST'' ''/api/v1/web/chat/'' Chat),
            (''/api/v1/web/voice/'', web_token ''GET'' ''/api/v1/web/voice/'' Voice),
            (''/api/v1/web/sessions'', only ''GET'' ListWebSessions),
            (''/api/v1/web/sessions/'', web_sessions_item)])"

definition mount_pattern :: "gostring \<times> gostring \<Rightarrow> pattern" where
  "mount_pattern m =
     (case m of (pfx, dir) \<Rightarrow>
        (mount_prefix pfx, \<lambda>rq. StaticFile (served_file dir (rest_after (mount_prefix pfx) rq))))"

text \<open>
  The patterns of a running server, in the order of \<open>main\<close>: the store is always there, the issuer
  only with a secret; without it the share and playground routes are not registered at all.
\<close>

definition api_routes :: "uuid_parser \<Rightarrow> bool \<Rightarrow> pattern list" where
  "api_routes up issuer =
     [(''/health'', \<lambda>_. Health), (''/metrics'', \<lambda>_. Metrics)] @
     register_auth issuer @ register_campaigns @ register_calls True @ register_qc True @
     register_bots up True @ register_tenants up True @ register_users up True @ register_audit True @
     register_originate True @ (if issuer then register_share True @ register_web True else [])"

definition routes :: "uuid_parser \<Rightarrow> server \<Rightarrow> pattern list" where
  "routes up sv = api_routes up (sv_issuer sv \<noteq> None) @ map mount_pattern (sv_mounts sv)"

section \<open>The multiplexer\<close>

text \<open>
  Go's \<open>ServeMux\<close> for patterns without methods and wildcards: a pattern that ends in a slash matches
  every path below it, any other one only itself, and the longest match wins.  A path that is not
  clean, or that only lacks the final slash of a pattern, is redirected.  Registering a pattern
  twice panics.
\<close>

definition pat_matches :: "gostring \<Rightarrow> gostring \<Rightarrow> bool" where
  "pat_matches pat path = (if has_suffix pat ''/'' then has_prefix path pat else path = pat)"

fun mux_find :: "(gostring \<times> 'h) list \<Rightarrow> gostring \<Rightarrow> (gostring \<times> 'h) option" where
  "mux_find [] path = None"
| "mux_find ((pat, h) # ps) path =
     (if \<not> pat_matches pat path then mux_find ps path
      else case mux_find ps path of
        None \<Rightarrow> Some (pat, h)
      | Some (q, g) \<Rightarrow> if length pat < length q then Some (q, g) else Some (pat, h))"

definition clean_url :: "gostring \<Rightarrow> gostring" where
  "clean_url p =
     (let q = (if has_prefix p ''/'' then p else ''/'' @ p); np = clean_path q in
      if has_suffix q ''/'' \<and> np \<noteq> ''/'' then np @ ''/'' else np)"

datatype 'h dispatch = Matched 'h | Redirected gostring | NoMatch

definition mux_serve :: "(gostring \<times> 'h) list \<Rightarrow> request \<Rightarrow> 'h dispatch" where
  "mux_serve ps rq =
     (let path = (if rq_method rq = ''CONNECT'' then rq_path rq else clean_url (rq_path rq)) in
      if path \<notin> fst ` set ps \<and> \<not> has_suffix path ''/'' \<and> path @ ''/'' \<in> fst ` set ps then
        Redirected (path @ ''/'')
      else if path \<noteq> rq_path rq then Redirected path
      else case mux_find ps path of None \<Rightarrow> NoMatch | Some (pat, h) \<Rightarrow> Matched h)"

section \<open>Serving a request\<close>

datatype served = Refused nat | Moved gostring | Run "identity option" endpoint

definition serve :: "verifier \<Rightarrow> uuid_parser \<Rightarrow> time \<Rightarrow> server \<Rightarrow> request \<Rightarrow> served" where
  "serve verify up now sv rq =
     (case server_gate verify up now sv rq of
        Refuse s \<Rightarrow> Refused s
      | ToMux i \<Rightarrow>
         (case mux_serve (routes up sv) rq of
            Matched h \<Rightarrow> Run i (h rq)
          | Redirected p \<Rightarrow> Moved p
          | NoMatch \<Rightarrow> Run i (Answer 404)))"

section \<open>Lemmas\<close>

lemma mux_find_mem: "mux_find ps path = Some (pat, h) \<Longrightarrow> (pat, h) \<in> set ps \<and> pat_matches pat path"
  by (induction ps arbitrary: pat h) (auto split: if_splits option.splits)

lemma mux_matched:
  "mux_serve ps rq = Matched h \<Longrightarrow> \<exists>pat. (pat, h) \<in> set ps \<and> pat_matches pat (rq_path rq)"
  by (auto simp: mux_serve_def Let_def dest!: mux_find_mem split: if_splits option.splits)

text \<open>Endpoints that need no session.\<close>

fun public_endpoint :: "endpoint \<Rightarrow> bool" where
  "public_endpoint Health = True"
| "public_endpoint Metrics = True"
| "public_endpoint (Answer s) = True"
| "public_endpoint (StaticFile f) = True"
| "public_endpoint Login = True"
| "public_endpoint (FetchSharedCall t) = True"
| "public_endpoint (Bootstrap t) = True"
| "public_endpoint (Chat t) = True"
| "public_endpoint (Voice t) = True"
| "public_endpoint e = False"

text \<open>An \<open>OPTIONS\<close> request passes the gate, but no handler does anything for it.\<close>

lemma options_items:
  "rq_method rq = ''OPTIONS'' \<Longrightarrow> public_endpoint (bots_item up rq)"
  "rq_method rq = ''OPTIONS'' \<Longrightarrow> public_endpoint (users_item up rq)"
  "rq_method rq = ''OPTIONS'' \<Longrightarrow> public_endpoint (campaigns_item rq)"
  "rq_method rq = ''OPTIONS'' \<Longrightarrow> public_endpoint (tenants_item up rq)"
  "rq_method rq = ''OPTIONS'' \<Longrightarrow> public_endpoint (calls_item rq)"
  "rq_method rq = ''OPTIONS'' \<Longrightarrow> public_endpoint (share_dispatch rq)"
  "rq_method rq = ''OPTIONS'' \<Longrightarrow> public_endpoint (web_sessions_item rq)"
  "rq_method rq = ''OPTIONS'' \<Longrightarrow> public_endpoint (web_token ''POST'' p f rq)"
  "rq_method rq = ''OPTIONS'' \<Longrightarrow> public_endpoint (web_token ''GET'' p f rq)"
  by (auto simp: bots_item_def users_item_def campaigns_item_def tenants_item_def calls_item_def share_dispatch_def
      web_sessions_item_def web_token_def only_def collection_def routed_def bot_route_of_def user_route_of_def
      campaign_route_of_def Let_def split: option.split sum.split list.split)

lemmas registered =
  register_auth_def register_campaigns_def register_calls_def register_qc_def register_bots_def register_tenants_def
  register_users_def register_audit_def register_originate_def register_share_def register_web_def

lemma options_do_nothing:
  assumes "(pat, h) \<in> set (routes up sv)" "rq_method rq = ''OPTIONS''"
  shows "public_endpoint (h rq)"
  using assms
  by (auto simp: routes_def api_routes_def registered mount_pattern_def only_def collection_def options_items split: if_splits)

lemma prefix_clash: "has_prefix s p \<Longrightarrow> has_prefix s q \<Longrightarrow> has_prefix p q \<or> has_prefix q p"
  by (auto simp: has_prefix_iff append_eq_append_conv2)

text \<open>The paths that pass the gate without a session, whatever the method.\<close>

definition open_path :: "gostring \<Rightarrow> gostring \<Rightarrow> bool" where
  "open_path meth s \<longleftrightarrow> \<not> has_prefix s ''/api/'' \<or> s = ''/api/v1/auth/login'' \<or>
     (meth = ''GET'' \<and> has_prefix s ''/api/v1/share/calls/'') \<or> has_prefix s ''/api/v1/web/bot/'' \<or>
     has_prefix s ''/api/v1/web/chat/'' \<or> has_prefix s ''/api/v1/web/voice/''"

lemma public_open: "public_request rq \<Longrightarrow> rq_method rq = ''OPTIONS'' \<or> open_path (rq_method rq) (rq_path rq)"
  using prefix_clash [of "rq_path rq" "''/recordings/''" "''/api/''"]
  by (auto simp: public_request_def open_path_def) (simp_all add: has_prefix_def)

lemma gate_without_session:
  assumes "sv_issuer sv = Some iss" "server_gate verify up now sv rq = ToMux None"
  shows "rq_method rq = ''OPTIONS'' \<or> open_path (rq_method rq) (rq_path rq)"
proof -
  have "public_request rq \<or> \<not> has_prefix (rq_path rq) ''/api/''"
    using assms by (auto simp: server_gate_def router_handler_def auth_chain_def middleware_def Let_def split: if_splits sum.splits)
  then show ?thesis using public_open by (auto simp: open_path_def)
qed

text \<open>A pattern below \<open>/api/\<close> matches an open path only if it is one of the open ones itself.\<close>

lemma open_pattern:
  assumes "pat_matches pat s" "open_path meth s" "has_prefix pat ''/api/''"
  shows "has_prefix ''/api/v1/auth/login'' pat \<or>
    (meth = ''GET'' \<and> (has_prefix ''/api/v1/share/calls/'' pat \<or> has_prefix pat ''/api/v1/share/calls/'')) \<or>
    (\<exists>q\<in>{''/api/v1/web/bot/'', ''/api/v1/web/chat/'', ''/api/v1/web/voice/''}. has_prefix q pat \<or> has_prefix pat q)"
proof -
  have pre: "has_prefix s pat" using assms(1) by (auto simp: pat_matches_def has_prefix_def split: if_splits)
  then have "has_prefix s ''/api/''" using assms(3) by (auto simp: has_prefix_iff)
  then consider "s = ''/api/v1/auth/login''" | "meth = ''GET''" "has_prefix s ''/api/v1/share/calls/''"
    | q where "q \<in> {''/api/v1/web/bot/'', ''/api/v1/web/chat/'', ''/api/v1/web/voice/''}" "has_prefix s q"
    using assms(2) by (auto simp: open_path_def)
  then show ?thesis
  proof cases
    case 1
    then show ?thesis using pre by simp
  next
    case 2
    then show ?thesis using prefix_clash [OF pre 2(2)] by blast
  next
    case (3 q)
    then show ?thesis using prefix_clash [OF pre 3(2)] by blast
  qed
qed

lemma open_route:
  assumes "(pat, h) \<in> set (routes up sv)" "pat_matches pat (rq_path rq)" "open_path (rq_method rq) (rq_path rq)"
  shows "public_endpoint (h rq)"
proof (cases "has_prefix pat ''/api/''")
  case False
  then show ?thesis using assms(1)
    by (auto simp: routes_def api_routes_def registered mount_pattern_def has_prefix_def split: if_splits)
next
  case True
  show ?thesis
    using open_pattern [OF assms(2,3) True] assms(1)
    by (auto simp: routes_def api_routes_def registered mount_pattern_def has_prefix_def only_def collection_def web_token_def share_dispatch_def
        Let_def split: if_splits)
qed


section \<open>Addresses\<close>

text \<open>The method and the path elements under which an endpoint is documented.\<close>

fun address :: "endpoint \<Rightarrow> (gostring \<times> gostring list) option" where
  "address Health = Some (''GET'', [''health''])"
| "address Metrics = Some (''GET'', [''metrics''])"
| "address (Answer s) = None"
| "address (StaticFile f) = None"
| "address Login = Some (''POST'', [''api'', ''v1'', ''auth'', ''login''])"
| "address Logout = Some (''POST'', [''api'', ''v1'', ''auth'', ''logout''])"
| "address Me = Some (''GET'', [''api'', ''v1'', ''auth'', ''me''])"
| "address ListCampaigns = Some (''GET'', [''api'', ''v1'', ''campaigns''])"
| "address CreateCampaign = Some (''POST'', [''api'', ''v1'', ''campaigns''])"
| "address (OnCampaign (RCGet c)) = Some (''GET'', [''api'', ''v1'', ''campaigns'', c])"
| "address (OnCampaign (RCCancel c)) = Some (''POST'', [''api'', ''v1'', ''campaigns'', c, ''cancel''])"
| "address ListCalls = Some (''GET'', [''api'', ''v1'', ''calls''])"
| "address (GetCall k) = (if k \<in> {''export'', ''originate''} then None else Some (''GET'', [''api'', ''v1'', ''calls'', k]))"
| "address ExportCalls = Some (''GET'', [''api'', ''v1'', ''calls'', ''export''])"
| "address OriginateCall = Some (''POST'', [''api'', ''v1'', ''calls'', ''originate''])"
| "address Evaluate = Some (''POST'', [''api'', ''v1'', ''qc'', ''evaluate''])"
| "address (GetEvaluation k) = Some (''GET'', [''api'', ''v1'', ''qc'', ''evaluations'', k])"
| "address ListBots = Some (''GET'', [''api'', ''v1'', ''bots''])"
| "address CreateBot = Some (''POST'', [''api'', ''v1'', ''bots''])"
| "address (OnBot (RGet i)) = Some (''GET'', [''api'', ''v1'', ''bots'', i])"
| "address (OnBot (RUpdate i)) = Some (''PATCH'', [''api'', ''v1'', ''bots'', i])"
| "address (OnBot (RDelete i)) = Some (''DELETE'', [''api'', ''v1'', ''bots'', i])"
| "address (OnBot (RDids i)) = Some (''GET'', [''api'', ''v1'', ''bots'', i, ''dids''])"
| "address (OnBot (RAddDid i)) = Some (''POST'', [''api'', ''v1'', ''bots'', i, ''dids''])"
| "address (OnBot (RDelDid i did)) = Some (''DELETE'', [''api'', ''v1'', ''bots'', i, ''dids'', did])"
| "address (OnBot (RTest i)) = Some (''POST'', [''api'', ''v1'', ''bots'', i, ''test''])"
| "address ListTenants = Some (''GET'', [''api'', ''v1'', ''tenants''])"
| "address CreateTenant = Some (''POST'', [''api'', ''v1'', ''tenants''])"
| "address (GetTenant i) = Some (''GET'', [''api'', ''v1'', ''tenants'', i])"
| "address (UpdateTenant i) = Some (''PATCH'', [''api'', ''v1'', ''tenants'', i])"
| "address (DeleteTenant i) = Some (''DELETE'', [''api'', ''v1'', ''tenants'', i])"
| "address ListUsers = Some (''GET'', [''api'', ''v1'', ''users''])"
| "address CreateUser = Some (''POST'', [''api'', ''v1'', ''users''])"
| "address (OnUser RUOwnPassword) = Some (''PATCH'', [''api'', ''v1'', ''users'', ''me'', ''password''])"
| "address (OnUser (RUResetPassword i)) =
     (if i = ''me'' then None else Some (''PATCH'', [''api'', ''v1'', ''users'', i, ''password'']))"
| "address (OnUser (RUUpdate i)) = Some (''PATCH'', [''api'', ''v1'', ''users'', i])"
| "address (OnUser (RUDelete i)) = Some (''DELETE'', [''api'', ''v1'', ''users'', i])"
| "address ListAudit = Some (''GET'', [''api'', ''v1'', ''audit''])"
| "address (MintCallShare k) = Some (''POST'', [''api'', ''v1'', ''share'', ''calls'', k])"
| "address (FetchSharedCall tok) = Some (''GET'', [''api'', ''v1'', ''share'', ''calls'', tok])"
| "address (MintBotShare i) = Some (''POST'', [''api'', ''v1'', ''share'', ''bots'', i])"
| "address (Bootstrap tok) = Some (''GET'', [''api'', ''v1'', ''web'', ''bot'', tok])"
| "address (Chat tok) = Some (''POST'', [''api'', ''v1'', ''web'', ''chat'', tok])"
| "address (Voice tok) = Some (''GET'', [''api'', ''v1'', ''web'', ''voice'', tok])"
| "address ListWebSessions = Some (''GET'', [''api'', ''v1'', ''web'', ''sessions''])"
| "address ExportWebSessions = Some (''GET'', [''api'', ''v1'', ''web'', ''sessions'', ''export''])"
| "address (GetWebSession i) =
     (if i = ''export'' then None else Some (''GET'', [''api'', ''v1'', ''web'', ''sessions'', i]))"

text \<open>The identifiers of an endpoint that its handler parses.\<close>

fun ids_of :: "endpoint \<Rightarrow> uuid list" where
  "ids_of (OnBot r) = (case r of RGet i \<Rightarrow> [i] | RUpdate i \<Rightarrow> [i] | RDelete i \<Rightarrow> [i] | RDids i \<Rightarrow> [i] | RAddDid i \<Rightarrow> [i]
     | RDelDid i _ \<Rightarrow> [i] | RTest i \<Rightarrow> [i])"
| "ids_of (OnUser r) = (case r of RUOwnPassword \<Rightarrow> [] | RUResetPassword i \<Rightarrow> [i] | RUUpdate i \<Rightarrow> [i] | RUDelete i \<Rightarrow> [i])"
| "ids_of (GetTenant i) = [i]"
| "ids_of (UpdateTenant i) = [i]"
| "ids_of (DeleteTenant i) = [i]"
| "ids_of e = []"

lemma pat_matches_Cons:
  "pat_matches (c # p) (d # s) \<longleftrightarrow> c = d \<and> (if p = [] then c = CHR ''/'' \<or> s = [] else pat_matches p s)"
  by (cases p rule: rev_cases) (auto simp: pat_matches_def has_prefix_def has_suffix_def)

lemma pat_matches_Nil: "pat_matches (c # p) [] = False"
  by (auto simp: pat_matches_def has_prefix_def)

lemma clean_url_dir_of:
  assumes "\<forall>e\<in>set es. plain_elem e" "es \<noteq> []"
  shows "clean_url (dir_of es) = dir_of es" "\<not> has_suffix (dir_of es) ''/''"
proof -
  obtain p where "join_with ''/'' es = p @ last es" using join_with_last [OF assms(2)] by blast
  moreover obtain q c where "last es = q @ [c]" "c \<noteq> CHR ''/''" using plain_elem_last assms by (metis last_in_set)
  ultimately show ns: "\<not> has_suffix (dir_of es) ''/''" by (simp add: dir_of_def has_suffix_def)
  show "clean_url (dir_of es) = dir_of es"
    using ns clean_dir_of [OF assms] by (simp add: clean_url_def Let_def) (simp add: dir_of_def has_prefix_def)
qed

lemma mux_find_append:
  "mux_find (ps @ qs) path =
     (case mux_find ps path of
        None \<Rightarrow> mux_find qs path
      | Some (p, h) \<Rightarrow> (case mux_find qs path of None \<Rightarrow> Some (p, h)
                       | Some (q, g) \<Rightarrow> if length p < length q then Some (q, g) else Some (p, h)))"
  by (induction ps) (auto split: option.splits if_splits)

lemma mux_find_short:
  "mux_find ps path = Some (pat, h) \<Longrightarrow> \<forall>(q, g)\<in>set qs. pat_matches q path \<longrightarrow> length q \<le> length pat \<Longrightarrow>
   mux_find (ps @ qs) path = Some (pat, h)"
  using mux_find_mem [of qs path] by (fastforce simp: mux_find_append split: option.split)

text \<open>A mounted directory outside \<open>/api/\<close> does not shadow a pattern of the API.\<close>

lemma served_at:
  assumes "\<forall>e\<in>set es. plain_elem e" "es \<noteq> []" "rq_path rq = dir_of es"
    and "mux_find ps (dir_of es) = Some (pat, h)" "pat = dir_of es \<or> dir_of es @ ''/'' \<notin> fst ` set ps"
    and "\<forall>(p, d)\<in>set ms. \<not> has_prefix (mount_prefix p) ''/api/''"
    and "pat = dir_of es \<or> (has_prefix (dir_of es) ''/api/'' \<and> 5 \<le> length pat)"
  shows "mux_serve (ps @ map mount_pattern ms) rq = Matched h"
proof -
  let ?path = "dir_of es"
  have short: "length q \<le> length pat" if "(q, g) \<in> set (map mount_pattern ms)" "pat_matches q ?path" for q g
  proof -
    have pre: "has_prefix ?path q" using that(2) by (auto simp: pat_matches_def has_prefix_def split: if_splits)
    have api: "\<not> has_prefix q ''/api/''" using that(1) assms(6) by (auto simp: mount_pattern_def)
    from assms(7) show ?thesis
    proof
      assume "pat = ?path"
      then show ?thesis using pre by (auto simp: has_prefix_iff)
    next
      assume "has_prefix ?path ''/api/'' \<and> 5 \<le> length pat"
      then have "has_prefix ''/api/'' q" using prefix_clash [OF pre] api by blast
      then have "length q \<le> 5" by (auto simp: has_prefix_iff dest: arg_cong [where f = length])
      then show ?thesis using \<open>has_prefix ?path ''/api/'' \<and> 5 \<le> length pat\<close> by simp
    qed
  qed
  have "mux_find (ps @ map mount_pattern ms) ?path = Some (pat, h)"
    by (rule mux_find_short [OF assms(4)]) (use short in fast)
  moreover have "?path \<in> fst ` set (ps @ map mount_pattern ms) \<or> ?path @ ''/'' \<notin> fst ` set (ps @ map mount_pattern ms)"
  proof (cases "pat = ?path")
    case True
    then have "?path \<in> fst ` set ps" using mux_find_mem [OF assms(4)] by force
    then show ?thesis by auto
  next
    case False
    then have "has_prefix ?path ''/api/''" "?path @ ''/'' \<notin> fst ` set ps" using assms(5,7) by auto
    moreover from this(1) have "has_prefix (?path @ ''/'') ''/api/''" by (auto simp: has_prefix_iff)
    ultimately show ?thesis using assms(6) by (fastforce simp: mount_pattern_def)
  qed
  ultimately show ?thesis
    using clean_url_dir_of [OF assms(1,2)] assms(3) by (auto simp: mux_serve_def Let_def)
qed

definition found :: "pattern list \<Rightarrow> gostring \<Rightarrow> request \<Rightarrow> endpoint \<Rightarrow> bool" where
  "found ps path rq e \<longleftrightarrow> (\<exists>pat h. mux_find ps path = Some (pat, h) \<and> h rq = e \<and>
     (pat = path \<or> (path @ ''/'' \<notin> fst ` set ps \<and> has_prefix path ''/api/'' \<and> 5 \<le> length pat)))"

lemmas pattern_eval = found_def api_routes_def registered pat_matches_Cons pat_matches_Nil has_prefix_def

lemma found_below:
  "s \<noteq> [] \<Longrightarrow> bots_item up rq = e \<Longrightarrow> found (api_routes up True) (''/api/v1/bots/'' @ s) rq e"
  "s \<noteq> [] \<Longrightarrow> users_item up rq = e \<Longrightarrow> found (api_routes up True) (''/api/v1/users/'' @ s) rq e"
  "s \<noteq> [] \<Longrightarrow> tenants_item up rq = e \<Longrightarrow> found (api_routes up True) (''/api/v1/tenants/'' @ s) rq e"
  "s \<noteq> [] \<Longrightarrow> campaigns_item rq = e \<Longrightarrow> found (api_routes up True) (''/api/v1/campaigns/'' @ s) rq e"
  "s \<noteq> [] \<Longrightarrow> share_dispatch rq = e \<Longrightarrow> found (api_routes up True) (''/api/v1/share/calls/'' @ s) rq e"
  "s \<noteq> [] \<Longrightarrow> web_sessions_item rq = e \<Longrightarrow> found (api_routes up True) (''/api/v1/web/sessions/'' @ s) rq e"
  "s \<noteq> [] \<Longrightarrow> web_token ''GET'' ''/api/v1/qc/evaluations/'' GetEvaluation rq = e \<Longrightarrow>
    found (api_routes up True) (''/api/v1/qc/evaluations/'' @ s) rq e"
  "s \<noteq> [] \<Longrightarrow> web_token ''POST'' ''/api/v1/share/bots/'' MintBotShare rq = e \<Longrightarrow>
    found (api_routes up True) (''/api/v1/share/bots/'' @ s) rq e"
  "s \<noteq> [] \<Longrightarrow> web_token ''GET'' ''/api/v1/web/bot/'' Bootstrap rq = e \<Longrightarrow>
    found (api_routes up True) (''/api/v1/web/bot/'' @ s) rq e"
  "s \<noteq> [] \<Longrightarrow> web_token ''POST'' ''/api/v1/web/chat/'' Chat rq = e \<Longrightarrow>
    found (api_routes up True) (''/api/v1/web/chat/'' @ s) rq e"
  "s \<noteq> [] \<Longrightarrow> web_token ''GET'' ''/api/v1/web/voice/'' Voice rq = e \<Longrightarrow>
    found (api_routes up True) (''/api/v1/web/voice/'' @ s) rq e"
  by (simp_all add: pattern_eval)

lemma pat_matches_exact: "pat_matches ''originate'' s \<longleftrightarrow> s = ''originate''"
  by (simp add: pat_matches_def has_suffix_def)

lemma found_call:
  "s \<noteq> [] \<Longrightarrow> s \<noteq> ''originate'' \<Longrightarrow> calls_item rq = e \<Longrightarrow> found (api_routes up True) (''/api/v1/calls/'' @ s) rq e"
  by (simp add: pattern_eval snoc_eq_iff_butlast pat_matches_exact)

lemma index_byte_plain: "c \<notin> set e \<Longrightarrow> index_byte c (e @ c # s) = Some (length e)" "c \<notin> set e \<Longrightarrow> index_byte c e = None"
  by (induction e) auto

lemma plain_elemD: "plain_elem e \<Longrightarrow> e \<noteq> []" "plain_elem e \<Longrightarrow> CHR ''/'' \<notin> set e"
  by (simp_all add: plain_elem_def)

lemma join_split_byte: "join_with [c] (split_byte c s) = s"
proof (induction s)
  case (Cons x xs)
  then show ?case by (cases "([c], split_byte c xs)" rule: join_with.cases) auto
qed simp

lemma rest_after_eq: "rq_path rq = p @ s \<Longrightarrow> rest_after p rq = s"
  by (simp add: rest_after_def trim_prefix_def)

text \<open>The method and path elements of an endpoint that has an address.\<close>

abbreviation "addr_method e \<equiv> fst (the (address e))"
abbreviation "addr_elems e \<equiv> snd (the (address e))"

lemma bot_address:
  "\<forall>x\<in>set (addr_elems (OnBot r)). plain_elem x \<Longrightarrow> \<forall>i\<in>set (ids_of (OnBot r)). up i = Some i \<Longrightarrow>
   \<exists>s. dir_of (addr_elems (OnBot r)) = ''/api/v1/bots/'' @ s \<and> s \<noteq> [] \<and>
       bot_route_of up (addr_method (OnBot r)) s = Inr r"
  by (cases r) (simp_all add: dir_of_def bot_route_of_def split_byte_plain split_byte_append plain_elemD Let_def)

lemma user_address:
  "\<forall>x\<in>set (addr_elems (OnUser r)). plain_elem x \<Longrightarrow> \<forall>i\<in>set (ids_of (OnUser r)). up i = Some i \<Longrightarrow>
   address (OnUser r) \<noteq> None \<Longrightarrow>
   \<exists>s. dir_of (addr_elems (OnUser r)) = ''/api/v1/users/'' @ s \<and> s \<noteq> [] \<and>
       user_route_of up (addr_method (OnUser r)) s = Inr r"
  by (cases r)
     (simp_all add: dir_of_def user_route_of_def split_byte_plain split_byte_append plain_elemD Let_def split: if_splits)

lemma campaign_address:
  "\<forall>x\<in>set (addr_elems (OnCampaign r)). plain_elem x \<Longrightarrow>
   \<exists>s. dir_of (addr_elems (OnCampaign r)) = ''/api/v1/campaigns/'' @ s \<and> s \<noteq> [] \<and>
       campaign_route_of (addr_method (OnCampaign r)) s = Inr r"
  by (cases r) (simp_all add: dir_of_def campaign_route_of_def split2_def index_byte_plain plain_elemD)

lemma found_static:
  "rq_method rq = ''GET'' \<Longrightarrow> found (api_routes up True) ''/health'' rq Health"
  "rq_method rq = ''GET'' \<Longrightarrow> found (api_routes up True) ''/metrics'' rq Metrics"
  "rq_method rq = ''POST'' \<Longrightarrow> found (api_routes up True) ''/api/v1/auth/login'' rq Login"
  "rq_method rq = ''POST'' \<Longrightarrow> found (api_routes up True) ''/api/v1/auth/logout'' rq Logout"
  "rq_method rq = ''GET'' \<Longrightarrow> found (api_routes up True) ''/api/v1/auth/me'' rq Me"
  "rq_method rq = ''GET'' \<Longrightarrow> found (api_routes up True) ''/api/v1/campaigns'' rq ListCampaigns"
  "rq_method rq = ''POST'' \<Longrightarrow> found (api_routes up True) ''/api/v1/campaigns'' rq CreateCampaign"
  "rq_method rq = ''GET'' \<Longrightarrow> found (api_routes up True) ''/api/v1/calls'' rq ListCalls"
  "rq_method rq = ''POST'' \<Longrightarrow> found (api_routes up True) ''/api/v1/calls/originate'' rq OriginateCall"
  "rq_method rq = ''POST'' \<Longrightarrow> found (api_routes up True) ''/api/v1/qc/evaluate'' rq Evaluate"
  "rq_method rq = ''GET'' \<Longrightarrow> found (api_routes up True) ''/api/v1/bots'' rq ListBots"
  "rq_method rq = ''POST'' \<Longrightarrow> found (api_routes up True) ''/api/v1/bots'' rq CreateBot"
  "rq_method rq = ''GET'' \<Longrightarrow> found (api_routes up True) ''/api/v1/tenants'' rq ListTenants"
  "rq_method rq = ''POST'' \<Longrightarrow> found (api_routes up True) ''/api/v1/tenants'' rq CreateTenant"
  "rq_method rq = ''GET'' \<Longrightarrow> found (api_routes up True) ''/api/v1/users'' rq ListUsers"
  "rq_method rq = ''POST'' \<Longrightarrow> found (api_routes up True) ''/api/v1/users'' rq CreateUser"
  "rq_method rq = ''GET'' \<Longrightarrow> found (api_routes up True) ''/api/v1/audit'' rq ListAudit"
  "rq_method rq = ''GET'' \<Longrightarrow> found (api_routes up True) ''/api/v1/web/sessions'' rq ListWebSessions"
  by (simp_all add: pattern_eval only_def collection_def pat_matches_Nil)

lemma web_token_eq: "rq_method rq = meth \<Longrightarrow> rq_path rq = p @ k \<Longrightarrow> web_token meth p f rq = f k"
  by (simp add: web_token_def only_def rest_after_eq)

lemma found_tenant:
  "k \<noteq> [] \<Longrightarrow> up k = Some k \<Longrightarrow> rq_path rq = ''/api/v1/tenants/'' @ k \<Longrightarrow> rq_method rq = ''GET'' \<Longrightarrow>
    found (api_routes up True) (''/api/v1/tenants/'' @ k) rq (GetTenant k)"
  "k \<noteq> [] \<Longrightarrow> up k = Some k \<Longrightarrow> rq_path rq = ''/api/v1/tenants/'' @ k \<Longrightarrow> rq_method rq = ''PATCH'' \<Longrightarrow>
    found (api_routes up True) (''/api/v1/tenants/'' @ k) rq (UpdateTenant k)"
  "k \<noteq> [] \<Longrightarrow> up k = Some k \<Longrightarrow> rq_path rq = ''/api/v1/tenants/'' @ k \<Longrightarrow> rq_method rq = ''DELETE'' \<Longrightarrow>
    found (api_routes up True) (''/api/v1/tenants/'' @ k) rq (DeleteTenant k)"
  by (rule found_below(3); simp add: tenants_item_def rest_after_eq web_token_eq collection_def only_def Let_def del: append_Cons append_Nil)+

lemma found_share:
  "k \<noteq> [] \<Longrightarrow> rq_path rq = ''/api/v1/share/calls/'' @ k \<Longrightarrow> rq_method rq = ''POST'' \<Longrightarrow>
    found (api_routes up True) (''/api/v1/share/calls/'' @ k) rq (MintCallShare k)"
  "k \<noteq> [] \<Longrightarrow> rq_path rq = ''/api/v1/share/calls/'' @ k \<Longrightarrow> rq_method rq = ''GET'' \<Longrightarrow>
    found (api_routes up True) (''/api/v1/share/calls/'' @ k) rq (FetchSharedCall k)"
  by (rule found_below(5); simp add: share_dispatch_def rest_after_eq web_token_eq collection_def only_def Let_def del: append_Cons append_Nil)+

lemma found_web_session:
  "k \<noteq> [] \<Longrightarrow> k \<noteq> ''export'' \<Longrightarrow> rq_path rq = ''/api/v1/web/sessions/'' @ k \<Longrightarrow> rq_method rq = ''GET'' \<Longrightarrow>
    found (api_routes up True) (''/api/v1/web/sessions/'' @ k) rq (GetWebSession k)"
  "rq_path rq = ''/api/v1/web/sessions/'' @ ''export'' \<Longrightarrow> rq_method rq = ''GET'' \<Longrightarrow>
    found (api_routes up True) (''/api/v1/web/sessions/'' @ ''export'') rq ExportWebSessions"
  by (rule found_below(6); simp add: web_sessions_item_def rest_after_eq web_token_eq collection_def only_def Let_def del: append_Cons append_Nil)+

lemma found_evaluation:
  "k \<noteq> [] \<Longrightarrow> rq_path rq = ''/api/v1/qc/evaluations/'' @ k \<Longrightarrow> rq_method rq = ''GET'' \<Longrightarrow>
    found (api_routes up True) (''/api/v1/qc/evaluations/'' @ k) rq (GetEvaluation k)"
  by (rule found_below(7); simp add: rest_after_eq web_token_eq collection_def only_def Let_def del: append_Cons append_Nil)+

lemma found_bot_share:
  "k \<noteq> [] \<Longrightarrow> rq_path rq = ''/api/v1/share/bots/'' @ k \<Longrightarrow> rq_method rq = ''POST'' \<Longrightarrow>
    found (api_routes up True) (''/api/v1/share/bots/'' @ k) rq (MintBotShare k)"
  by (rule found_below(8); simp add: rest_after_eq web_token_eq collection_def only_def Let_def del: append_Cons append_Nil)+

lemma found_bootstrap:
  "k \<noteq> [] \<Longrightarrow> rq_path rq = ''/api/v1/web/bot/'' @ k \<Longrightarrow> rq_method rq = ''GET'' \<Longrightarrow>
    found (api_routes up True) (''/api/v1/web/bot/'' @ k) rq (Bootstrap k)"
  by (rule found_below(9); simp add: rest_after_eq web_token_eq collection_def only_def Let_def del: append_Cons append_Nil)+

lemma found_chat:
  "k \<noteq> [] \<Longrightarrow> rq_path rq = ''/api/v1/web/chat/'' @ k \<Longrightarrow> rq_method rq = ''POST'' \<Longrightarrow>
    found (api_routes up True) (''/api/v1/web/chat/'' @ k) rq (Chat k)"
  by (rule found_below(10); simp add: rest_after_eq web_token_eq collection_def only_def Let_def del: append_Cons append_Nil)+

lemma found_voice:
  "k \<noteq> [] \<Longrightarrow> rq_path rq = ''/api/v1/web/voice/'' @ k \<Longrightarrow> rq_method rq = ''GET'' \<Longrightarrow>
    found (api_routes up True) (''/api/v1/web/voice/'' @ k) rq (Voice k)"
  by (rule found_below(11); simp add: rest_after_eq web_token_eq collection_def only_def Let_def del: append_Cons append_Nil)+

lemma found_export:
  "rq_path rq = ''/api/v1/calls/'' @ ''export'' \<Longrightarrow> rq_method rq = ''GET'' \<Longrightarrow>
    found (api_routes up True) (''/api/v1/calls/'' @ ''export'') rq ExportCalls"
  by (rule found_call; simp add: calls_item_def rest_after_eq web_token_eq collection_def only_def Let_def del: append_Cons append_Nil)+

lemmas found_item =
  found_tenant found_share found_web_session found_evaluation found_bot_share found_bootstrap found_chat found_voice
  found_export

lemma address_found:
  assumes "address e \<noteq> None" "\<forall>x\<in>set (addr_elems e). plain_elem x" "\<forall>i\<in>set (ids_of e). up i = Some i"
    and "rq_method rq = addr_method e" "rq_path rq = dir_of (addr_elems e)"
  shows "found (api_routes up True) (dir_of (addr_elems e)) rq e"
proof (cases e)
  case (OnBot r)
  then obtain s where s: "dir_of (addr_elems e) = ''/api/v1/bots/'' @ s" "s \<noteq> []" "bot_route_of up (addr_method e) s = Inr r"
    using bot_address [of r up] assms(2,3) by metis
  have "bots_item up rq = e" using s(3) assms(4) assms(5) [unfolded s(1)] OnBot
    by (simp add: bots_item_def rest_after_eq routed_def del: append_Cons append_Nil)
  then show ?thesis using found_below(1) [OF s(2)] s(1) by metis
next
  case (OnUser r)
  then obtain s where s: "dir_of (addr_elems e) = ''/api/v1/users/'' @ s" "s \<noteq> []" "user_route_of up (addr_method e) s = Inr r"
    using user_address [of r up] assms(1-3) by metis
  have "users_item up rq = e" using s(3) assms(4) assms(5) [unfolded s(1)] OnUser
    by (simp add: users_item_def rest_after_eq routed_def del: append_Cons append_Nil)
  then show ?thesis using found_below(2) [OF s(2)] s(1) by metis
next
  case (OnCampaign r)
  then obtain s where s: "dir_of (addr_elems e) = ''/api/v1/campaigns/'' @ s" "s \<noteq> []" "campaign_route_of (addr_method e) s = Inr r"
    using campaign_address [of r] assms(2) by metis
  have "campaigns_item rq = e" using s(3) assms(4) assms(5) [unfolded s(1)] OnCampaign
    by (simp add: campaigns_item_def rest_after_eq routed_def del: append_Cons append_Nil)
  then show ?thesis using found_below(4) [OF s(2)] s(1) by metis
next
  case (GetCall k)
  then have k: "k \<noteq> []" "k \<noteq> ''originate''" "k \<noteq> ''export''" "dir_of (addr_elems e) = ''/api/v1/calls/'' @ k"
    using assms(1,2) by (auto simp: dir_of_def plain_elemD split: if_splits)
  have "calls_item rq = e" using k(1,3) assms(1,4) assms(5) [unfolded k(4)] GetCall
    by (simp add: calls_item_def rest_after_eq Let_def del: append_Cons append_Nil split: if_splits)
  then show ?thesis using found_call [OF k(1,2)] k(4) by metis
qed (use assms in \<open>simp_all add: dir_of_def found_static found_item [simplified] plain_elemD split: if_splits\<close>)

text \<open>C16: 
  Every documented address reaches its endpoint: a request with the method and path of an endpoint,
  its identifiers well formed, that passes the gate runs the handler of that endpoint with these
  identifiers, whatever directories are mounted outside \<open>/api/\<close>.
\<close>

theorem address_reaches_endpoint:
  assumes "sv_issuer sv = Some iss" "\<forall>(p, d)\<in>set (sv_mounts sv). \<not> has_prefix (mount_prefix p) ''/api/''"
    and "address e = Some (m, es)" "\<forall>x\<in>set es. plain_elem x" "\<forall>i\<in>set (ids_of e). up i = Some i"
    and "rq_method rq = m" "rq_path rq = dir_of es" "server_gate verify up now sv rq = ToMux who"
  shows "serve verify up now sv rq = Run who e"
proof -
  have ne: "es \<noteq> []" using assms(3) by (auto elim!: address.elims split: if_splits)
  have "found (api_routes up True) (dir_of es) rq e"
    using address_found [of e up rq] assms(4-7) by (simp add: assms(3))
  then obtain pat h where f: "mux_find (api_routes up True) (dir_of es) = Some (pat, h)" "h rq = e"
      "pat = dir_of es \<or> (dir_of es @ ''/'' \<notin> fst ` set (api_routes up True) \<and> has_prefix (dir_of es) ''/api/'' \<and> 5 \<le> length pat)"
    by (auto simp: found_def)
  have "mux_serve (api_routes up True @ map mount_pattern (sv_mounts sv)) rq = Matched h"
    by (rule served_at [OF assms(4) ne assms(7) f(1) _ assms(2)]) (use f(3) in blast)+
  then show ?thesis using assms(1,8) f(2) by (simp add: serve_def routes_def)
qed

text \<open>A user is addressed by any longer path too, unless it is exactly the one of its password.\<close>

lemma user_below_own_path:
  assumes "up i = Some i" "plain_elem i" "x \<noteq> ''password''"
  shows "user_route_of up ''DELETE'' (i @ ''/'' @ x) = Inr (RUDelete i)"
proof -
  have "split_byte CHR ''/'' (i @ ''/'' @ x) = i # split_byte CHR ''/'' x"
    using split_byte_append [OF plain_elemD(2) [OF assms(2)]] by simp
  moreover have "split_byte CHR ''/'' x \<noteq> [''password'']"
  proof
    assume "split_byte CHR ''/'' x = [''password'']"
    then have "x = ''password''" using join_split_byte [of "CHR ''/''" x] by simp
    then show False using assms(3) by simp
  qed
  ultimately show ?thesis using assms(1) plain_elemD(1) [OF assms(2)] by (simp add: user_route_of_def)
qed

text \<open>With the recordings under the address of the playground recordings a pattern is registered twice.\<close>

lemma mounts_collide:
  assumes "rc_url_prefix (cf_recording c) = ''/web-recordings''" "wc_recordings (cf_web c) \<noteq> []"
    and "boot_archiver (cf_recording c) \<noteq> None"
  shows "\<not> distinct (map fst (routes up (assemble c iss)))"
proof -
  obtain x y where "sv_mounts (assemble c iss) = [(''/web-recordings'', x), (''/web-recordings'', y)]"
    using assms by (simp add: assemble_def boot_mounts_def Let_def)
  then have "map fst (routes up (assemble c iss)) =
      map fst (api_routes up (sv_issuer (assemble c iss) \<noteq> None)) @ [mount_prefix ''/web-recordings'', mount_prefix ''/web-recordings'']"
    unfolding routes_def mount_pattern_def by simp
  then show ?thesis by (simp del: map_append)
qed

section \<open>Witnesses\<close>

definition demo_server :: server where
  "demo_server = assemble (demo_conf demo_secret) (Some \<lparr>iss_secret = demo_secret, iss_ttl = 1\<rparr>)"

lemma demo_server_parts:
  "sv_issuer demo_server = Some \<lparr>iss_secret = demo_secret, iss_ttl = 1\<rparr>" "sv_cors demo_server = []"
  "sv_mounts demo_server = [(''/recordings'', ''/var/lib/callbot/recordings''), (''/web-recordings'', ''/var/lib/callbot/web-recordings'')]"
  by (simp_all add: demo_server_def assemble_def demo_conf_def defaults_def boot_mounts_def boot_archiver_def all_source_dirs_def
      Let_def)

definition demo_preflight :: request where
  "demo_preflight = \<lparr>rq_method = ''OPTIONS'', rq_path = ''/api/v1/bots'', rq_cookie = None, rq_auth = []\<rparr>"


definition demo_message :: request where
  "demo_message = \<lparr>rq_method = ''POST'', rq_path = ''/api/v1/web/chat/tok'', rq_cookie = None, rq_auth = []\<rparr>"

theorem address_reaches_endpoint_witness:
  "serve (\<lambda>now s t. Inl ''no'') Some 9 demo_server demo_message = Run None (Chat ''tok'')"
proof (rule address_reaches_endpoint [OF demo_server_parts(1)])
  show "\<forall>(p, d)\<in>set (sv_mounts demo_server). \<not> has_prefix (mount_prefix p) ''/api/''"
    by (simp add: demo_server_parts mount_prefix_def has_prefix_def has_suffix_def)
  show "address (Chat ''tok'') = Some (''POST'', [''api'', ''v1'', ''web'', ''chat'', ''tok''])" by simp
  show "\<forall>x\<in>set [''api'', ''v1'', ''web'', ''chat'', ''tok'']. plain_elem x" by (simp add: plain_elem_def)
  show "server_gate (\<lambda>now s t. Inl ''no'') Some 9 demo_server demo_message = ToMux None"
    by (simp add: server_gate_def router_handler_def auth_chain_def public_request_def demo_server_parts demo_message_def
        has_prefix_def Let_def)
qed (simp_all add: demo_message_def dir_of_def)

end
