(* ===== verification/Migrate.thy ===== *)
theory Migrate
  imports GoStrings "HOL-Library.List_Lexorder" "HOL-Library.Char_ord"
begin

text \<open>
  \<open>internal/store/migrate.go\<close> and \<open>New\<close> of \<open>internal/store/postgres.go\<close>: bringing the schema up to date
  when the store is opened.  What a migration's SQL does to the schema is the parameter \<open>me_run\<close>;
  each statement may fail for reasons of its own, and a commit that reports an error may still have
  taken effect.
\<close>

section \<open>Applying migrations\<close>

record 's schema_db =
  sd_schema :: 's
  sd_versions :: "gostring list"

record 's migrate_env =
  me_create :: "gostring option"
  me_check :: "gostring \<Rightarrow> gostring option"
  me_begin :: "gostring \<Rightarrow> gostring option"
  me_run :: "gostring \<Rightarrow> 's \<Rightarrow> 's result"
  me_broken :: "gostring \<Rightarrow> gostring option"
  me_record :: "gostring \<Rightarrow> gostring option"
  me_commit :: "gostring \<Rightarrow> bool \<times> gostring option"

text \<open>The embedded files: name, contents, and whether the entry is a directory.\<close>

type_synonym migration_file = "gostring \<times> gostring \<times> bool"

definition sql_files :: "migration_file list \<Rightarrow> (gostring \<times> gostring) list" where
  "sql_files entries =
     sort_key fst (map (\<lambda>(n, body, _). (n, body)) (filter (\<lambda>(n, _, dir). \<not> dir \<and> has_suffix n ''.sql'') entries))"

definition version_of :: "gostring \<Rightarrow> gostring" where
  "version_of n = (if has_suffix n ''.sql'' then take (length n - 4) n else n)"

text \<open>One migration in its transaction: \<open>me_broken\<close> is a failure of its statement that is not its fault.\<close>

definition run_migration :: "'s migrate_env \<Rightarrow> gostring \<Rightarrow> gostring \<Rightarrow> 's schema_db \<Rightarrow> unit result \<times> 's schema_db" where
  "run_migration env v body d =
     (case me_begin env v of Some e \<Rightarrow> (Inl (''begin '' @ v @ '': '' @ e), d) | None \<Rightarrow>
      case (case me_broken env v of Some e \<Rightarrow> Inl e | None \<Rightarrow> me_run env body (sd_schema d)) of
        Inl e \<Rightarrow> (Inl (''apply '' @ v @ '': '' @ e), d)
      | Inr s \<Rightarrow>
         (case me_record env v of Some e \<Rightarrow> (Inl (''record '' @ v @ '': '' @ e), d) | None \<Rightarrow>
          (let (took_effect, cerr) = me_commit env v;
               d' = d\<lparr>sd_schema := s, sd_versions := sd_versions d @ [v]\<rparr> in
           case cerr of Some e \<Rightarrow> (Inl (''commit '' @ v @ '': '' @ e), if took_effect then d' else d)
           | None \<Rightarrow> (Inr (), d'))))"

fun apply_files :: "'s migrate_env \<Rightarrow> (gostring \<times> gostring) list \<Rightarrow> 's schema_db \<Rightarrow> unit result \<times> 's schema_db" where
  "apply_files env [] d = (Inr (), d)"
| "apply_files env ((n, body) # fs) d =
     (let v = version_of n in
      case me_check env v of Some e \<Rightarrow> (Inl (''check '' @ v @ '': '' @ e), d) | None \<Rightarrow>
      if v \<in> set (sd_versions d) then apply_files env fs d
      else case run_migration env v body d of
        (Inl e, d) \<Rightarrow> (Inl e, d)
      | (Inr _, d) \<Rightarrow> apply_files env fs d)"

definition apply_migrations :: "'s migrate_env \<Rightarrow> migration_file list \<Rightarrow> 's schema_db \<Rightarrow> unit result \<times> 's schema_db" where
  "apply_migrations env entries d =
     (case me_create env of Some e \<Rightarrow> (Inl (''create schema_migrations: '' @ e), d)
      | None \<Rightarrow> apply_files env (sql_files entries) d)"

section \<open>Opening the store\<close>

text \<open>Whether the pool is left open, and the result.\<close>

definition open_store ::
  "gostring \<Rightarrow> gostring option \<Rightarrow> gostring option \<Rightarrow> gostring option \<Rightarrow> 's migrate_env \<Rightarrow> migration_file list \<Rightarrow>
   's schema_db \<Rightarrow> bool \<times> unit result \<times> 's schema_db"
where
  "open_store dsn parse_err pool_err ping_err env entries d =
     (if dsn = [] then (False, Inl ''dsn is empty'', d)
      else case parse_err of Some e \<Rightarrow> (False, Inl (''parse dsn: '' @ e), d) | None \<Rightarrow>
      case pool_err of Some e \<Rightarrow> (False, Inl (''pool: '' @ e), d) | None \<Rightarrow>
      case ping_err of Some e \<Rightarrow> (False, Inl (''ping: '' @ e), d) | None \<Rightarrow>
      case apply_migrations env entries d of
        (Inl e, d) \<Rightarrow> (False, Inl (''apply migrations: '' @ e), d)
      | (Inr _, d) \<Rightarrow> (True, Inr (), d))"

section \<open>Lemmas\<close>

text \<open>The specification: the pending files in order, each run on the schema the previous one left.\<close>

fun migrated :: "(gostring \<Rightarrow> 's \<Rightarrow> 's result) \<Rightarrow> (gostring \<times> gostring) list \<Rightarrow> 's schema_db \<Rightarrow> 's schema_db option" where
  "migrated run [] d = Some d"
| "migrated run ((n, body) # fs) d =
     (if version_of n \<in> set (sd_versions d) then migrated run fs d
      else case run body (sd_schema d) of
        Inl _ \<Rightarrow> None
      | Inr s \<Rightarrow> migrated run fs (d\<lparr>sd_schema := s, sd_versions := sd_versions d @ [version_of n]\<rparr>))"

lemma apply_files_ok: "apply_files env fs d = (Inr u, d') \<Longrightarrow> migrated (me_run env) fs d = Some d'"
  by (induction env fs d rule: apply_files.induct)
     (auto simp: run_migration_def Let_def case_prod_beta split: option.splits if_splits sum.splits)

text \<open>Migrating first a part of the way does not change where a migration ends.\<close>

lemma versions_grow: "migrated run fs d = Some d' \<Longrightarrow> set (sd_versions d') = set (sd_versions d) \<union> version_of ` fst ` set fs"
  by (induction run fs d rule: migrated.induct) (auto split: if_splits sum.splits)

lemma migrated_done:
  "version_of ` fst ` set fs \<subseteq> set (sd_versions d) \<Longrightarrow> migrated run fs d = Some d"
  by (induction run fs d rule: migrated.induct) auto

lemma run_migration_cases:
  assumes "run_migration env v body d = (r, d1)"
  shows "(\<exists>e. r = Inl e \<and> d1 = d) \<or>
    (\<exists>s. me_run env body (sd_schema d) = Inr s \<and> d1 = d\<lparr>sd_schema := s, sd_versions := sd_versions d @ [v]\<rparr>)"
  using assms by (auto simp: run_migration_def Let_def case_prod_beta split: option.splits sum.splits if_splits)

lemma versions_kept: "apply_files env fs d = (r, d1) \<Longrightarrow> set (sd_versions d) \<subseteq> set (sd_versions d1)"
proof (induction env fs d rule: apply_files.induct)
  case (2 env n body fs d)
  show ?case
  proof (cases "me_check env (version_of n) = None \<and> version_of n \<notin> set (sd_versions d)")
    case False
    then show ?thesis using 2(1) 2(3) by (auto simp: Let_def split: option.splits)
  next
    case True
    obtain q d' where m: "run_migration env (version_of n) body d = (q, d')" by fastforce
    have "set (sd_versions d) \<subseteq> set (sd_versions d')" using run_migration_cases [OF m] by auto
    moreover have "set (sd_versions d') \<subseteq> set (sd_versions d1)"
      using 2(2) [OF refl _ _ m [symmetric]] 2(3) True m by (auto split: sum.splits)
    ultimately show ?thesis by blast
  qed
qed simp

lemma partly_migrated:
  assumes "apply_files env fs d = (r, d1)"
  shows "migrated (me_run env) fs d1 = migrated (me_run env) fs d"
  using assms
proof (induction env fs d rule: apply_files.induct)
  case (2 env n body fs d)
  let ?v = "version_of n"
  show ?case
  proof (cases "me_check env ?v")
    case (Some e)
    then show ?thesis using 2(3) by simp
  next
    case None
    show ?thesis
    proof (cases "?v \<in> set (sd_versions d)")
      case True
      then have "apply_files env fs d = (r, d1)" using 2(3) None by simp
      moreover from versions_kept [OF this] True have "?v \<in> set (sd_versions d1)" by blast
      ultimately show ?thesis using 2(1) [OF refl None True] True by simp
    next
      case new: False
      obtain q d' where m: "run_migration env ?v body d = (q, d')" by fastforce
      from run_migration_cases [OF m] show ?thesis
      proof (elim disjE exE conjE)
        fix e assume "q = Inl e" "d' = d"
        then show ?thesis using 2(3) None new m by simp
      next
        fix s assume s: "me_run env body (sd_schema d) = Inr s"
          and d': "d' = d\<lparr>sd_schema := s, sd_versions := sd_versions d @ [?v]\<rparr>"
        have rest: "migrated (me_run env) fs d1 = migrated (me_run env) fs d' \<and> ?v \<in> set (sd_versions d1)"
        proof (cases q)
          case (Inl e)
          then show ?thesis using 2(3) None new m d' by auto
        next
          case (Inr u)
          then have "apply_files env fs d' = (r, d1)" using 2(3) None new m by simp
          then show ?thesis using 2(2) [OF refl None new m [symmetric] Inr] versions_kept d' by fastforce
        qed
        then show ?thesis using new s d' by simp
      qed
    qed
  qed
qed simp

text \<open>
  Opening the store migrates it: when it succeeds, the schema is the one that the pending files, in the
  order of their names, make of the old one, every file is recorded, and opening the store again, whatever
  else the second start does, changes nothing and can only fail on its own statements.
\<close>

theorem store_is_migrated:
  assumes "open_store dsn p q g env entries d = (up, Inr u, d')"
  shows "up \<and> migrated (me_run env) (sql_files entries) d = Some d' \<and>
     version_of ` fst ` set (sql_files entries) \<subseteq> set (sd_versions d') \<and>
     (\<forall>env2 r d2 up2. open_store dsn p q g env2 entries d' = (up2, r, d2) \<longrightarrow> d2 = d')"
proof -
  have a: "up" "apply_files env (sql_files entries) d = (Inr u, d')"
    using assms by (auto simp: open_store_def apply_migrations_def split: option.splits sum.splits prod.splits if_splits)
  note m = apply_files_ok [OF a(2)]
  have done_: "version_of ` fst ` set (sql_files entries) \<subseteq> set (sd_versions d')" using versions_grow [OF m] by blast
  have "snd (apply_files env2 fs d') = d'" if "version_of ` fst ` set fs \<subseteq> set (sd_versions d')" for env2 fs
    using that by (induction fs) (auto simp: Let_def split: option.splits)
  then have "d2 = d'" if "open_store dsn p q g env2 entries d' = (up2, r, d2)" for env2 r d2 up2
    using that done_
    by (auto simp: open_store_def apply_migrations_def split: option.splits sum.splits prod.splits if_splits)
      (metis snd_conv)+
  then show ?thesis using a(1) m done_ by blast
qed

text \<open>C26: 
  An interrupted start does no harm: however often starts fail on the way, at any statement and even at
  a commit that took effect, the first start that succeeds leaves the database a single undisturbed
  start would have left.
\<close>

theorem failed_starts_harmless:
  assumes "\<forall>env1\<in>set envs. me_run env1 = me_run env"
    and "apply_migrations env entries (foldl (\<lambda>d env1. snd (apply_migrations env1 entries d)) d envs) = (Inr u, d2)"
  shows "migrated (me_run env) (sql_files entries) d = Some d2"
  using assms
proof (induction envs arbitrary: d)
  case Nil
  then show ?case using apply_files_ok by (fastforce simp: apply_migrations_def split: option.splits)
next
  case (Cons env1 envs)
  let ?d1 = "snd (apply_migrations env1 entries d)"
  have run: "me_run env1 = me_run env" using Cons.prems(1) by simp
  have "migrated (me_run env) (sql_files entries) ?d1 = migrated (me_run env) (sql_files entries) d"
  proof (cases "me_create env1")
    case None
    obtain r d1 where a: "apply_files env1 (sql_files entries) d = (r, d1)" by fastforce
    then show ?thesis using partly_migrated [OF a] None run by (simp add: apply_migrations_def)
  qed (simp add: apply_migrations_def)
  then show ?case using Cons.IH [of ?d1] Cons.prems by simp
qed

section \<open>Witnesses\<close>

definition demo_files :: "migration_file list" where
  "demo_files = [(''0002_tenancy.sql'', ''b'', False), (''README'', ''x'', False), (''0001_call_history.sql'', ''a'', False)]"

definition demo_env :: "gostring migrate_env" where
  "demo_env = \<lparr>me_create = None, me_check = (\<lambda>_. None), me_begin = (\<lambda>_. None), me_run = (\<lambda>body s. Inr (s @ body)),
     me_broken = (\<lambda>_. None), me_record = (\<lambda>_. None), me_commit = (\<lambda>_. (True, None))\<rparr>"

definition demo_cut :: "gostring migrate_env" where
  "demo_cut = demo_env\<lparr>me_commit := (\<lambda>v. (True, if v = ''0001_call_history'' then Some ''connection reset'' else None))\<rparr>"

lemma demo_sql_files: "sql_files demo_files = [(''0001_call_history.sql'', ''a''), (''0002_tenancy.sql'', ''b'')]"
  by (simp add: sql_files_def demo_files_def has_suffix_def sort_key_def less_char_def less_eq_char_def)

lemma demo_versions: "version_of ''0001_call_history.sql'' = ''0001_call_history''" "version_of ''0002_tenancy.sql'' = ''0002_tenancy''"
  by (simp_all add: version_of_def has_suffix_def)

lemma demo_cut_run:
  "apply_migrations demo_cut demo_files \<lparr>sd_schema = [], sd_versions = []\<rparr> =
     (Inl ''commit 0001_call_history: connection reset'', \<lparr>sd_schema = ''a'', sd_versions = [''0001_call_history'']\<rparr>)"
  by (simp add: apply_migrations_def demo_sql_files demo_versions run_migration_def demo_cut_def demo_env_def Let_def)

lemma demo_second_run:
  "apply_migrations demo_env demo_files \<lparr>sd_schema = ''a'', sd_versions = [''0001_call_history'']\<rparr> =
     (Inr (), \<lparr>sd_schema = ''ab'', sd_versions = [''0001_call_history'', ''0002_tenancy'']\<rparr>)"
  by (simp add: apply_migrations_def demo_sql_files demo_versions run_migration_def demo_env_def Let_def)

theorem failed_starts_harmless_witness:
  "migrated (\<lambda>body s. Inr (s @ body)) (sql_files demo_files) \<lparr>sd_schema = [], sd_versions = []\<rparr> =
     Some \<lparr>sd_schema = ''ab'', sd_versions = [''0001_call_history'', ''0002_tenancy'']\<rparr>"
  using failed_starts_harmless [of "[demo_cut]" demo_env demo_files "\<lparr>sd_schema = [], sd_versions = []\<rparr>"]
  by (simp add: demo_cut_run demo_second_run) (simp add: demo_cut_def demo_env_def)

theorem store_is_migrated_witness:
  "\<exists>d'. open_store ''pg'' None None None demo_env demo_files \<lparr>sd_schema = [], sd_versions = []\<rparr> = (True, Inr (), d') \<and>
     sd_schema d' = ''ab'' \<and> open_store ''pg'' None None None demo_cut demo_files d' = (True, Inr (), d')"
proof -
  let ?d' = "\<lparr>sd_schema = ''ab'', sd_versions = [''0001_call_history'', ''0002_tenancy'']\<rparr>"
  have o: "open_store ''pg'' None None None demo_env demo_files \<lparr>sd_schema = [], sd_versions = []\<rparr> = (True, Inr (), ?d')"
    by (simp add: open_store_def apply_migrations_def demo_sql_files demo_versions run_migration_def demo_env_def Let_def)
  obtain up r d2 where p: "open_store ''pg'' None None None demo_cut demo_files ?d' = (up, r, d2)"
    by (metis prod.exhaust)
  then have "d2 = ?d'" using store_is_migrated [OF o] by blast
  moreover have "up" "r = Inr ()"
    using p by (auto simp: open_store_def apply_migrations_def demo_sql_files demo_versions demo_cut_def demo_env_def Let_def)
  ultimately show ?thesis using o p by auto
qed

end
