(* ===== verification/Monitor.thy ===== *)
theory Monitor
  imports BargeIn Transition
begin

text \<open>
  The life of a barge-in monitor (\<open>internal/pipeline/bargein.go\<close>): the pump that feeds the caller's frames
  to its recogniser stream, the watcher of \<open>BargeIn\<close> on the results, and \<open>stop\<close>, which ends both and
  waits for them.  While the monitor runs it takes the frames that nobody else will see.
\<close>

section \<open>State and steps\<close>

text \<open>
  The frames the source still delivers and whether it has closed; the frames the pump took and those
  it sent; the results the stream still delivers and whether it has ended by itself; the watcher;
  whether \<open>stop\<close> was called (it closes the stream) and the context is done; and which of the two
  goroutines still run.
\<close>

record monitor =
  mo_pending :: "bytes list"
  mo_src_closed :: bool
  mo_taken :: "bytes list"
  mo_sent :: "bytes list"
  mo_results :: "asr_result list"
  mo_ended :: bool
  mo_watch :: watcher
  mo_stopped :: bool
  mo_ctx_done :: bool
  mo_pump_runs :: bool
  mo_watch_runs :: bool

definition start_monitor :: "bytes list \<Rightarrow> asr_result list \<Rightarrow> monitor" where
  "start_monitor frames results =
     \<lparr>mo_pending = frames, mo_src_closed = False, mo_taken = [], mo_sent = [], mo_results = results, mo_ended = False,
      mo_watch = new_watcher, mo_stopped = False, mo_ctx_done = False, mo_pump_runs = True, mo_watch_runs = True\<rparr>"

text \<open>A frame was received and \<open>SendAudio\<close> returned; an error ends the pump.\<close>

definition pump_frame :: "bool \<Rightarrow> bytes \<Rightarrow> bytes list \<Rightarrow> monitor \<Rightarrow> monitor" where
  "pump_frame ok f fs m =
     (let m = m\<lparr>mo_pending := fs, mo_taken := mo_taken m @ [f]\<rparr> in
      if ok then m\<lparr>mo_sent := mo_sent m @ [f]\<rparr> else m\<lparr>mo_pump_runs := False\<rparr>)"

definition pump_may_end :: "monitor \<Rightarrow> bool" where
  "pump_may_end m \<longleftrightarrow> mo_stopped m \<or> mo_ctx_done m \<or> (mo_pending m = [] \<and> mo_src_closed m)"

text \<open>One result from \<open>Recv()\<close>, or its closing: closed by \<open>stop\<close>, by the context, or when the stream ended.\<close>

definition watch_next :: "int \<Rightarrow> asr_result \<Rightarrow> asr_result list \<Rightarrow> monitor \<Rightarrow> monitor" where
  "watch_next mw r rs m =
     (let w = watch_result mw r (mo_watch m) in m\<lparr>mo_results := rs, mo_watch := w, mo_watch_runs := \<not> returned w\<rparr>)"

definition watch_may_end :: "monitor \<Rightarrow> bool" where
  "watch_may_end m \<longleftrightarrow> mo_stopped m \<or> mo_ctx_done m \<or> (mo_results m = [] \<and> mo_ended m)"

definition watch_ends :: "monitor \<Rightarrow> monitor" where
  "watch_ends m = m\<lparr>mo_watch := watch_closed (mo_watch m), mo_watch_runs := False\<rparr>"

definition stop_monitor :: "monitor \<Rightarrow> monitor" where
  "stop_monitor m = m\<lparr>mo_stopped := True\<rparr>"

inductive monitor_step :: "int \<Rightarrow> monitor \<Rightarrow> monitor \<Rightarrow> bool" for mw where
  pump: "mo_pump_runs m \<Longrightarrow> mo_pending m = f # fs \<Longrightarrow> monitor_step mw m (pump_frame ok f fs m)"
| pump_end: "mo_pump_runs m \<Longrightarrow> pump_may_end m \<Longrightarrow> monitor_step mw m (m\<lparr>mo_pump_runs := False\<rparr>)"
| watch: "mo_watch_runs m \<Longrightarrow> mo_results m = r # rs \<Longrightarrow> monitor_step mw m (watch_next mw r rs m)"
| watch_end: "mo_watch_runs m \<Longrightarrow> watch_may_end m \<Longrightarrow> monitor_step mw m (watch_ends m)"
| stop: "\<not> mo_stopped m \<Longrightarrow> monitor_step mw m (stop_monitor m)"
| context_done: "\<not> mo_ctx_done m \<Longrightarrow> monitor_step mw m (m\<lparr>mo_ctx_done := True\<rparr>)"
| source_closed: "\<not> mo_src_closed m \<Longrightarrow> monitor_step mw m (m\<lparr>mo_src_closed := True\<rparr>)"
| stream_ended: "\<not> mo_ended m \<Longrightarrow> monitor_step mw m (m\<lparr>mo_ended := True\<rparr>)"

inductive_cases monitor_stepE: "monitor_step mw m n"

text \<open>\<open>done\<close> is closed once both goroutines have returned; \<open>stop\<close> waits for it.\<close>

definition monitor_done :: "monitor \<Rightarrow> bool" where
  "monitor_done m \<longleftrightarrow> \<not> mo_pump_runs m \<and> \<not> mo_watch_runs m"

section \<open>Invariant and bound\<close>

definition monitor_ok :: "int \<Rightarrow> bytes list \<Rightarrow> asr_result list \<Rightarrow> monitor \<Rightarrow> bool" where
  "monitor_ok mw frames results m \<longleftrightarrow>
     mo_taken m @ mo_pending m = frames \<and>
     (mo_sent m = mo_taken m \<or> (\<not> mo_pump_runs m \<and> (\<exists>f. mo_taken m = mo_sent m @ [f]))) \<and>
     (\<exists>seen. seen @ mo_results m = results \<and>
        (let w = watch_loop mw seen new_watcher in mo_watch m = w \<or> (\<not> mo_watch_runs m \<and> mo_watch m = watch_closed w))) \<and>
     (mo_watch_runs m \<longrightarrow> \<not> returned (mo_watch m))"

definition monitor_work :: "monitor \<Rightarrow> nat" where
  "monitor_work m = length (mo_pending m) + length (mo_results m) + of_bool (mo_pump_runs m) + of_bool (mo_watch_runs m) +
     of_bool (\<not> mo_stopped m) + of_bool (\<not> mo_ctx_done m) + of_bool (\<not> mo_src_closed m) + of_bool (\<not> mo_ended m)"

lemma watch_loop_snoc:
  "\<not> returned (watch_loop mw rs w) \<Longrightarrow> watch_loop mw (rs @ [r]) w = watch_result mw r (watch_loop mw rs w)"
  by (induction mw rs w rule: watch_loop.induct) (auto simp: Let_def split: if_splits)

lemma monitor_start_ok: "monitor_ok mw frames results (start_monitor frames results)"
  by (auto simp: monitor_ok_def start_monitor_def new_watcher_def Let_def intro!: exI [of _ "[]"])

lemma monitor_step_ok: "monitor_step mw m n \<Longrightarrow> monitor_ok mw frames results m \<Longrightarrow> monitor_ok mw frames results n"
proof (induction rule: monitor_step.cases)
  case (watch m r rs)
  then obtain seen where seen: "seen @ r # rs = results" "mo_watch m = watch_loop mw seen new_watcher"
    by (auto simp: monitor_ok_def Let_def)
  have "watch_result mw r (mo_watch m) = watch_loop mw (seen @ [r]) new_watcher"
    using watch seen(2) watch_loop_snoc by (auto simp: monitor_ok_def)
  then show ?case using watch seen(1)
    by (auto simp: monitor_ok_def watch_next_def Let_def intro!: exI [of _ "seen @ [r]"])
qed (auto simp: monitor_ok_def pump_frame_def watch_ends_def stop_monitor_def Let_def)

lemma monitor_step_work: "monitor_step mw m n \<Longrightarrow> monitor_work n < monitor_work m"
  by (erule monitor_stepE) (auto simp: monitor_work_def pump_frame_def watch_next_def watch_ends_def stop_monitor_def Let_def)

interpretation monitor_runs: bounded_system "\<lambda>m. m = start_monitor frames results" "monitor_step mw" "monitor_ok mw frames results" monitor_work
  by unfold_locales (auto simp: monitor_start_ok monitor_step_ok monitor_step_work)

section \<open>Properties\<close>


text \<open>
  What a monitor took of the caller's audio: a prefix of the frames, all of them sent to its recogniser but
  possibly the last; what it heard is the watcher's verdict on a prefix of the results.  The frames after
  the prefix are left for the turn that follows.
\<close>

theorem monitor_audio:
  assumes "steps_from (monitor_step mw) (start_monitor frames results) m"
  shows "mo_taken m @ mo_pending m = frames \<and> (\<exists>lost. mo_taken m = mo_sent m @ lost \<and> length lost \<le> 1) \<and>
    (\<exists>seen left. seen @ left = results \<and>
       captured_transcript (mo_watch m) = captured_transcript (watch_loop mw seen new_watcher) \<and>
       triggered (mo_watch m) = triggered (watch_loop mw seen new_watcher))"
proof -
  have ok: "monitor_ok mw frames results m" using monitor_runs.reach_inv [OF refl assms] .
  have closed: "captured_transcript (watch_closed w) = captured_transcript w \<and> triggered (watch_closed w) = triggered w" for w
    by (simp add: captured_transcript_def watch_closed_def offer_def split: option.split)
  have "\<exists>lost. mo_taken m = mo_sent m @ lost \<and> length lost \<le> 1"
  proof (cases "mo_sent m = mo_taken m")
    case True
    then show ?thesis by (intro exI [of _ "[]"]) simp
  next
    case False
    then obtain f where "mo_taken m = mo_sent m @ [f]" using ok by (auto simp: monitor_ok_def)
    then show ?thesis by simp
  qed
  moreover have "\<exists>seen. seen @ mo_results m = results \<and>
     captured_transcript (mo_watch m) = captured_transcript (watch_loop mw seen new_watcher) \<and>
     triggered (mo_watch m) = triggered (watch_loop mw seen new_watcher)"
    using ok closed by (auto simp: monitor_ok_def Let_def)
  ultimately show ?thesis using ok by (auto simp: monitor_ok_def)
qed

section \<open>Witnesses\<close>

definition demo_monitor :: monitor where
  "demo_monitor = stop_monitor (pump_frame True ''a'' [''b''] (start_monitor [''a'', ''b''] []))"

lemma demo_monitor_reached: "steps_from (monitor_step 3) (start_monitor [''a'', ''b''] []) demo_monitor"
proof -
  let ?s = "start_monitor [''a'', ''b''] []"
  have "monitor_step 3 ?s (pump_frame True ''a'' [''b''] ?s)" by (rule pump) (simp_all add: start_monitor_def)
  moreover have "monitor_step 3 (pump_frame True ''a'' [''b''] ?s) demo_monitor"
    unfolding demo_monitor_def by (rule stop) (simp add: pump_frame_def start_monitor_def)
  ultimately show ?thesis by (meson steps_from_one steps_from_head)
qed


theorem monitor_audio_witness:
  "mo_taken demo_monitor = [''a''] \<and> mo_sent demo_monitor = [''a''] \<and> mo_taken demo_monitor @ mo_pending demo_monitor = [''a'', ''b'']"
  using monitor_audio [OF demo_monitor_reached]
  by (simp add: demo_monitor_def stop_monitor_def pump_frame_def start_monitor_def)

end
