(* ===== verification/Utf8.thy ===== *)
theory Utf8
  imports GoStrings
begin

text \<open>
  Well-formed UTF-8 (\<open>utf8.ValidString\<close>): what the metrics library demands of a label value, and what the
  functions of \<open>strings\<close> that map runes always return, whatever bytes they are given.
\<close>

section \<open>Well-formed text\<close>

text \<open>Every rune reads back as the bytes it was decoded from.\<close>

function valid_text :: "gostring \<Rightarrow> bool" where
  "valid_text s =
     (if s = [] then True
      else encode_rune (fst (decode_rune s)) = take (snd (decode_rune s)) s \<and> valid_text (drop_rune s))"
  by pat_completeness auto
termination by (relation "measure length") (auto simp: drop_rune_shorter)

declare valid_text.simps [simp del]

lemma valid_text_Nil [simp]: "valid_text []"
  by (simp add: valid_text.simps)

lemma valid_ascii: "\<forall>c\<in>set s. (of_char c :: nat) < 128 \<Longrightarrow> valid_text s"
  by (induction s) (subst valid_text.simps, simp add: drop_rune_def encode_rune_def)+

section \<open>Encoding is decoded\<close>

text \<open>The runes that have an encoding of their own.\<close>

definition scalar :: "nat \<Rightarrow> nat" where
  "scalar r = (if r > 1114111 \<or> (55296 \<le> r \<and> r \<le> 57343) then rune_error else r)"

lemma encode_scalar: "encode_rune (scalar r) = encode_rune r"
  by (simp add: encode_rune_def scalar_def rune_error_def)

text \<open>The three widths beyond ASCII, from the bytes.\<close>

lemma decode_two:
  assumes "128 \<le> r" "r < 2048"
  shows "decode_rune (char_of (192 + r div 64) # char_of (128 + r mod 64) # s) = (r, 2)"
proof -
  have "2 \<le> r div 64" "r div 64 < 32" "r mod 64 < 64" "r div 64 * 64 + r mod 64 = r" using assms by simp_all
  then show ?thesis by (simp add: decode_rune.simps(2) Let_def lead_info_def is_cont_def)
qed

lemma digits_of:
  fixes r :: nat
  shows "r div 4096 * 4096 + r div 64 mod 64 * 64 + r mod 64 = r"
    "r div 262144 * 262144 + r div 4096 mod 64 * 4096 + r div 64 mod 64 * 64 + r mod 64 = r"
proof -
  have d: "r div 64 * 64 + r mod 64 = r" "r div 4096 * 64 + r div 64 mod 64 = r div 64"
      "r div 262144 * 64 + r div 4096 mod 64 = r div 4096"
    using div_mult_mod_eq [of "r div 4096" 64] div_mult_mod_eq [of "r div 64" 64]
    by (simp_all add: div_mult2_eq [symmetric])
  show three: "r div 4096 * 4096 + r div 64 mod 64 * 64 + r mod 64 = r" using d(1,2) by linarith
  show "r div 262144 * 262144 + r div 4096 mod 64 * 4096 + r div 64 mod 64 * 64 + r mod 64 = r"
    using d(3) three by linarith
qed

lemma decode_three_digits:
  assumes "a < 16" "b < 64" "c < 64" "a * 4096 + b * 64 + c = r" "2048 \<le> r" "\<not> (55296 \<le> r \<and> r \<le> 57343)"
  shows "decode_rune (char_of (224 + a) # char_of (128 + b) # char_of (128 + c) # s) = (r, 3)"
proof -
  have d: "32 \<le> b" if "a = 0" using that assms(3-5) by linarith
  have d': "b < 32" if "a = 13" using that assms(2-4,6) by linarith
  have "lead_info (224 + a) = (3, if a = 0 then 160 else 128, if a = 13 then 159 else 191)"
    using assms(1) by (simp add: lead_info_def)
  then show ?thesis using d d' assms(1-3) unfolding assms(4) [symmetric]
    by (simp add: decode_rune.simps(2) is_cont_def) (use d' in fastforce)
qed

lemma decode_three:
  assumes "2048 \<le> r" "r < 65536" "\<not> (55296 \<le> r \<and> r \<le> 57343)"
  shows "decode_rune (char_of (224 + r div 4096) # char_of (128 + r div 64 mod 64) # char_of (128 + r mod 64) # s) = (r, 3)"
  by (rule decode_three_digits) (use assms digits_of(1) [of r] in auto)

lemma decode_four_digits:
  assumes "a \<le> 4" "b < 64" "c < 64" "d < 64" "a * 262144 + b * 4096 + c * 64 + d = r" "65536 \<le> r" "r \<le> 1114111"
  shows "decode_rune (char_of (240 + a) # char_of (128 + b) # char_of (128 + c) # char_of (128 + d) # s) = (r, 4)"
proof -
  have d: "16 \<le> b" if "a = 0" using that assms(3-6) by linarith
  have d': "b < 16" if "a = 4" using that assms(3-5,7) by linarith
  have "lead_info (240 + a) = (4, if a = 0 then 144 else 128, if a = 4 then 143 else 191)"
    using assms(1) by (simp add: lead_info_def)
  then show ?thesis using d d' assms(1-4) unfolding assms(5) [symmetric]
    by (simp add: decode_rune.simps(2) is_cont_def) (use d' in fastforce)
qed

lemma decode_four:
  assumes "65536 \<le> r" "r \<le> 1114111"
  shows "decode_rune (char_of (240 + r div 262144) # char_of (128 + r div 4096 mod 64) # char_of (128 + r div 64 mod 64) #
    char_of (128 + r mod 64) # s) = (r, 4)"
  by (rule decode_four_digits) (use assms digits_of(2) [of r] in auto)

lemma decode_encode: "decode_rune (encode_rune r @ s) = (scalar r, length (encode_rune r))"
proof -
  consider "r < 128" | "128 \<le> r" "r < 2048" | "2048 \<le> r" "scalar r \<noteq> r"
    | "2048 \<le> r" "r < 65536" "\<not> (55296 \<le> r \<and> r \<le> 57343)" | "65536 \<le> r" "r \<le> 1114111"
    by (cases "scalar r = r") (auto simp: scalar_def rune_error_def split: if_splits, linarith+)
  then show ?thesis
  proof cases
    case 3
    then have "encode_rune r = encode_rune 65533" "scalar r = 65533"
      by (auto simp: scalar_def encode_rune_def rune_error_def split: if_splits)
    then show ?thesis using decode_three [of 65533 s] by (simp add: encode_rune_def)
  next
    case 4
    then show ?thesis using decode_three [of r s] by (auto simp add: encode_rune_def scalar_def)
  next
    case 5
    then show ?thesis using decode_four [of r s] by (simp add: encode_rune_def scalar_def)
  qed (simp_all add: encode_rune_def scalar_def decode_two)
qed

lemma valid_encode: "valid_text (encode_rune r @ s) \<longleftrightarrow> valid_text s"
proof -
  have "encode_rune r \<noteq> []" by (simp add: encode_rune_def)
  then show ?thesis
    by (subst valid_text.simps) (simp add: decode_encode drop_rune_def encode_scalar)
qed

text \<open>What maps runes returns well-formed text, also from bytes that are not.\<close>

lemma valid_map_runes: "valid_text (map_runes f s)"
  by (induction f s rule: map_runes.induct) (subst map_runes.simps, simp add: valid_encode)

lemma valid_to_upper: "valid_text (to_upper up s)" and valid_to_lower: "valid_text (to_lower low s)"
  by (simp_all add: to_upper_def to_lower_def valid_map_runes)

end
