(* ===== verification/Cli.thy ===== *)
theory Cli
  imports Offline SentenceParser Paths Utf8
begin

text \<open>
  The two command-line clients: \<open>cmd/tts-cli\<close>, which cuts a text into sentences of its own accord, has them
  synthesised and writes the audio to a file, and \<open>cmd/bot-cli\<close>, which prints the sentences of a reply.
\<close>

section \<open>Cutting a text\<close>

definition is_delim :: "nat \<Rightarrow> bool" where
  "is_delim r \<longleftrightarrow> r \<in> {46, 63, 33, 8230, 10}"

text \<open>\<open>flush\<close>: the text of the current sentence, trimmed, unless it is blank.\<close>

definition flush :: "gostring \<Rightarrow> gostring list" where
  "flush cur = (let seg = trim_space cur in if seg = [] then [] else [seg])"

function split_from :: "gostring \<Rightarrow> gostring \<Rightarrow> gostring list" where
  "split_from cur s =
     (if s = [] then flush cur
      else let r = fst (decode_rune s); cur' = cur @ encode_rune r in
        if is_delim r then flush cur' @ split_from [] (drop_rune s) else split_from cur' (drop_rune s))"
  by pat_completeness auto
termination by (relation "measure (\<lambda>(cur, s). length s)") (auto simp: drop_rune_shorter)

declare split_from.simps [simp del]

definition split_sentences :: "gostring \<Rightarrow> gostring list" where
  "split_sentences s = split_from [] s"

section \<open>The clients\<close>

text \<open>What is sent to the synthesiser: the sentences, or the whole text when all are blank, the last one marked.\<close>

definition cli_messages :: "gostring \<Rightarrow> (gostring \<times> bool) list" where
  "cli_messages tx =
     (let ss = split_sentences tx; ss = (if ss = [] then [tx] else ss) in
      map (\<lambda>i. (ss ! i, i = length ss - 1)) [0..<length ss])"

text \<open>Each frame with the error of its write.\<close>

fun write_frames :: "(bytes \<times> gostring option) list \<Rightarrow> bytes \<Rightarrow> gostring option \<times> bytes" where
  "write_frames [] f = (None, f)"
| "write_frames ((b, None) # fs) f = write_frames fs (f @ b)"
| "write_frames ((b, Some e) # fs) f = (Some e, f)"

text \<open>The exit code and what is in the file; the messages are pushed while the audio is drained.\<close>

definition tts_cli ::
  "gostring list \<Rightarrow> gostring option \<Rightarrow> gostring option \<Rightarrow> (bytes \<times> gostring option) list \<Rightarrow> gostring option
   \<Rightarrow> exit_code \<times> bytes"
where
  "tts_cli args start_err create_err frames push_err =
     (if args = [] then (ExitUsage, [])
      else case start_err of Some e \<Rightarrow> (ExitFail, []) | None \<Rightarrow>
      case create_err of Some e \<Rightarrow> (ExitFail, []) | None \<Rightarrow>
      case write_frames frames [] of
        (Some e, f) \<Rightarrow> (ExitFail, f)
      | (None, f) \<Rightarrow> (case push_err of Some e \<Rightarrow> (ExitFail, f) | None \<Rightarrow> (ExitOk, f)))"

text \<open>The exit code and the printed sentences; \<open>reply\<close>: the sentences of the stream and its action.\<close>

definition bot_cli :: "gostring list \<Rightarrow> (gostring list \<times> action result) result \<Rightarrow> exit_code \<times> gostring list" where
  "bot_cli args reply =
     (if args = [] then (ExitUsage, [])
      else case reply of
        Inl e \<Rightarrow> (ExitFail, [])
      | Inr (ss, Inl e) \<Rightarrow> (ExitFail, ss)
      | Inr (ss, Inr act) \<Rightarrow> (ExitOk, ss))"

section \<open>Lemmas\<close>

lemma is_delim_eq: "is_delim r \<longleftrightarrow> is_sentence_delim r"
  by (auto simp: is_delim_def is_sentence_delim_def)

lemma flush_spoken: "flush s = spoken [s]"
  by (simp add: flush_def Let_def)

lemma split_from_segs:
  "valid_text s \<Longrightarrow> split_from cur s = spoken (fst (segs_from cur s) @ [snd (segs_from cur s)])"
proof (induction cur s rule: split_from.induct)
  case (1 cur s)
  show ?case
  proof (cases "s = []")
    case True
    then show ?thesis by (simp add: split_from.simps [of cur "[]"] flush_spoken)
  next
    case ne: False
    then have enc: "encode_rune (fst (decode_rune s)) = take (snd (decode_rune s)) s" and rest: "valid_text (drop_rune s)"
      using "1.prems" valid_text.simps [of s] by auto
    let ?cur' = "cur @ take (snd (decode_rune s)) s"
    show ?thesis
    proof (cases "is_delim (fst (decode_rune s))")
      case True
      then have "split_from [] (drop_rune s) = spoken (fst (segs_from [] (drop_rune s)) @ [snd (segs_from [] (drop_rune s))])"
        using "1.IH"(1) [OF ne refl refl _ rest] enc by simp
      then show ?thesis using True enc ne
        by (simp add: split_from.simps [of cur s] segs_from_Cons_step Let_def is_delim_eq flush_spoken)
    next
      case False
      then have "split_from ?cur' (drop_rune s) = spoken (fst (segs_from ?cur' (drop_rune s)) @ [snd (segs_from ?cur' (drop_rune s))])"
        using "1.IH"(2) [OF ne refl refl _ rest] enc by simp
      then show ?thesis using False enc ne
        by (simp add: split_from.simps [of cur s] segs_from_Cons_step Let_def is_delim_eq)
    qed
  qed
qed

section \<open>Properties\<close>

text \<open>
  The cutter of the client agrees with the streaming parser of the bot: on well-formed UTF-8 without a
  \<open>|\<close> it yields the sentences the parser emits for the text in any chunks, followed by the unfinished
  one that \<open>Finalize\<close> returns.
\<close>

theorem client_cuts_like_parser:
  assumes "valid_text (concat cs)" "CHR ''|'' \<notin> set (concat cs)"
  shows "split_sentences (concat cs) =
    fst (feed_all new_parser cs) @ filter (\<lambda>s. s \<noteq> []) [fst (finalize up (snd (feed_all new_parser cs)))]"
proof -
  let ?s = "concat cs" and ?p = "snd (feed_all new_parser cs)"
  have emitted: "fst (feed_all new_parser cs) = spoken (fst (segs ?s))" and p: "parser_after ?p ?s"
    using feed_all_segs [OF parser_after_new, of cs] by simp_all
  have full: "full ?p = ?s" "flushed_to ?p = length (concat (fst (segs ?s)))"
    using p by (simp_all add: parser_after_def)
  have tail: "drop (flushed_to ?p) ?s = snd (segs ?s)"
    using segs_concat [of ?s] full(2) by (metis append_eq_conv_conj)
  have "last_index CHR ''|'' ?s = None" using assms(2) by (simp add: last_index_None)
  then have "fst (finalize up ?p) = trim_space (snd (segs ?s))"
    using full tail segs_concat [of ?s]
    by (auto simp: finalize_def Let_def gslice_to_end not_less)
  then show ?thesis
    using split_from_segs [OF assms(1), of "[]"] emitted by (simp add: split_sentences_def segs_def)
qed

text \<open>The synthesiser is told the end of the input with the last message and only there, and no message is empty unless the text is.\<close>

theorem end_marked_once:
  "\<exists>ms. cli_messages tx = map (\<lambda>m. (m, False)) (butlast ms) @ [(last ms, True)] \<and> ms \<noteq> [] \<and> (tx = [] \<or> [] \<notin> set ms)"
proof -
  let ?ms = "if split_sentences tx = [] then [tx] else split_sentences tx"
  have ne: "?ms \<noteq> []" by simp
  have marked: "map (\<lambda>i. (ss ! i, i = length ss - 1)) [0..<length ss] = map (\<lambda>m. (m, False)) (butlast ss) @ [(last ss, True)]"
    if "ss \<noteq> []" for ss :: "gostring list"
    using that by (induction ss rule: rev_induct) (auto simp: nth_append intro!: nth_equalityI)
  have "[] \<notin> set (split_from cur s)" for cur s
    by (induction cur s rule: split_from.induct) (subst split_from.simps, auto simp: flush_def Let_def)
  then have "tx = [] \<or> [] \<notin> set ?ms" by (auto simp: split_sentences_def)
  then show ?thesis
    using marked [OF ne] ne by (intro exI [of _ ?ms]) (simp add: cli_messages_def Let_def)
qed

section \<open>Witnesses\<close>

theorem client_cuts_like_parser_witness:
  "split_sentences ''Hi. Yes'' = fst (feed_all new_parser [''Hi. '', ''Yes'']) @
     filter (\<lambda>s. s \<noteq> []) [fst (finalize id (snd (feed_all new_parser [''Hi. '', ''Yes''])))]"
  using client_cuts_like_parser [of "[''Hi. '', ''Yes'']" id] valid_ascii [of "''Hi. Yes''"] by simp

end
