(* ===== verification/Telemetry.thy ===== *)
theory Telemetry
  imports Outbound Providers SessionMgr Utf8 Complex_Main
begin

text \<open>
  The metrics: the collectors of \<open>internal/metrics/metrics.go\<close>, the recording functions of
  \<open>internal/pipeline/tracing.go\<close> and of the packages that measure, and the campaign gauge of
  \<open>internal/campaign/manager.go\<close> with the goroutines that refresh it.  The metrics library keeps the values;
  what the program gives it is a list of samples.  The tracing exporter (\<open>internal/telemetry/tracer.go\<close>) is its set-up.
\<close>

section \<open>Collectors\<close>

datatype vec =
  ActiveCalls | TurnDuration | StageLatency | BargeInTotal | BotErrorTotal | ASRErrorTotal | TTSErrorTotal
| CampaignProgress | OriginateTotal | IntentClassifyDuration | IntentClassifyTotal

datatype vec_kind = GaugeVec | CounterVec | HistogramVec

record vec_opts =
  vo_kind :: vec_kind
  vo_name :: gostring
  vo_labels :: "gostring list"
  vo_buckets :: "rat list"

definition gauge_vec :: "gostring \<Rightarrow> gostring list \<Rightarrow> vec_opts" where
  "gauge_vec n ls = \<lparr>vo_kind = GaugeVec, vo_name = ''master_'' @ n, vo_labels = ls, vo_buckets = []\<rparr>"

definition counter_vec :: "gostring \<Rightarrow> gostring list \<Rightarrow> vec_opts" where
  "counter_vec n ls = \<lparr>vo_kind = CounterVec, vo_name = ''master_'' @ n, vo_labels = ls, vo_buckets = []\<rparr>"

definition histogram_vec :: "gostring \<Rightarrow> rat list \<Rightarrow> gostring list \<Rightarrow> vec_opts" where
  "histogram_vec n bs ls = \<lparr>vo_kind = HistogramVec, vo_name = ''master_'' @ n, vo_labels = ls, vo_buckets = bs\<rparr>"

fun collector_of :: "vec \<Rightarrow> vec_opts" where
  "collector_of ActiveCalls = gauge_vec ''active_calls'' [''direction'']"
| "collector_of TurnDuration = histogram_vec ''turn_duration_seconds''
     [1/10, 1/4, 1/2, 3/4, 1, 3/2, 2, 3, 5, 8, 13, 21] [''kind'', ''scenario'']"
| "collector_of StageLatency = histogram_vec ''stage_latency_seconds''
     [1/20, 1/10, 1/5, 2/5, 7/10, 1, 3/2, 5/2, 4, 7, 12] [''stage'', ''scenario'']"
| "collector_of BargeInTotal = counter_vec ''barge_in_total'' [''scenario'']"
| "collector_of BotErrorTotal = counter_vec ''bot_error_total'' [''kind'']"
| "collector_of ASRErrorTotal = counter_vec ''asr_error_total'' [''kind'']"
| "collector_of TTSErrorTotal = counter_vec ''tts_error_total'' [''kind'']"
| "collector_of CampaignProgress = gauge_vec ''campaign_progress'' [''campaign_id'', ''status'']"
| "collector_of OriginateTotal = counter_vec ''originate_total'' [''result'']"
| "collector_of IntentClassifyDuration = histogram_vec ''intent_classify_duration_seconds''
     [1/20, 1/10, 1/5, 2/5, 7/10, 1, 3/2, 5/2, 4] [''channel'']"
| "collector_of IntentClassifyTotal = counter_vec ''intent_classify_total'' [''channel'', ''outcome'']"

text \<open>The arguments of \<open>MustRegister\<close>, without the collectors of the Go runtime.\<close>

definition registered_vecs :: "vec list" where
  "registered_vecs = [ActiveCalls, TurnDuration, StageLatency, BargeInTotal, BotErrorTotal, ASRErrorTotal, TTSErrorTotal,
     CampaignProgress, OriginateTotal, IntentClassifyDuration, IntentClassifyTotal]"

section \<open>Tracing\<close>

record trace_conf =
  tc_endpoint :: gostring
  tc_service :: gostring
  tc_insecure :: bool

text \<open>What \<open>Init\<close> installs: nothing without an endpoint, or an exporter of all spans in the name of a service.\<close>

datatype tracing = NoTracing | Tracing (tr_endpoint: gostring) (tr_service: gostring) (tr_insecure: bool)

definition init_tracing :: "trace_conf \<Rightarrow> gostring option \<Rightarrow> gostring option \<Rightarrow> tracing result" where
  "init_tracing cfg exporter_err resource_err =
     (if tc_endpoint cfg = [] then Inr NoTracing
      else
        let cfg = (if tc_service cfg = [] then cfg\<lparr>tc_service := ''callbot-master''\<rparr> else cfg) in
        (case exporter_err of
           Some e \<Rightarrow> Inl (''otlp exporter: '' @ e)
         | None \<Rightarrow>
            (case resource_err of
               Some e \<Rightarrow> Inl (''resource: '' @ e)
             | None \<Rightarrow> Inr (Tracing (tc_endpoint cfg) (tc_service cfg) (tc_insecure cfg)))))"

section \<open>Samples\<close>

datatype vec_op = IncOp | DecOp | SetOp rat | ObserveOp rat

record sample =
  sa_vec :: vec
  sa_values :: "gostring list"
  sa_op :: vec_op

text \<open>\<open>on\<close>: the collectors are wired; every recording function is silent without them.\<close>

definition emit :: "bool \<Rightarrow> vec \<Rightarrow> gostring list \<Rightarrow> vec_op \<Rightarrow> sample list" where
  "emit on v vs x = (if on then [\<lparr>sa_vec = v, sa_values = vs, sa_op = x\<rparr>] else [])"

definition record_stage :: "bool \<Rightarrow> gostring \<Rightarrow> gostring \<Rightarrow> rat \<Rightarrow> sample list" where
  "record_stage on stage scen sec = emit on StageLatency [stage, scen] (ObserveOp sec)"

definition inc_bot_err :: "bool \<Rightarrow> gostring \<Rightarrow> sample list" where
  "inc_bot_err on kind = emit on BotErrorTotal [kind] IncOp"

definition inc_asr_err :: "bool \<Rightarrow> gostring \<Rightarrow> sample list" where
  "inc_asr_err on kind = emit on ASRErrorTotal [kind] IncOp"

definition inc_tts_err :: "bool \<Rightarrow> gostring \<Rightarrow> sample list" where
  "inc_tts_err on kind = emit on TTSErrorTotal [kind] IncOp"

definition barged_in_metric :: "bool \<Rightarrow> gostring \<Rightarrow> sample list" where
  "barged_in_metric on scen = emit on BargeInTotal [scen] IncOp"

definition originate_metric :: "bool \<Rightarrow> bool \<Rightarrow> sample list" where
  "originate_metric on ok = emit on OriginateTotal [if ok then ''ok'' else ''error''] IncOp"

text \<open>A call counts as active from after its registration to its deferred end.\<close>

definition call_begins :: "bool \<Rightarrow> direction \<Rightarrow> sample list" where
  "call_begins on dir = emit on ActiveCalls [direction_string dir] IncOp"

definition call_ends :: "bool \<Rightarrow> direction \<Rightarrow> sample list" where
  "call_ends on dir = emit on ActiveCalls [direction_string dir] DecOp"

definition greeting_metric :: "bool \<Rightarrow> gostring \<Rightarrow> rat \<Rightarrow> sample list" where
  "greeting_metric on scen sec = emit on TurnDuration [''greeting'', scen] (ObserveOp sec)"

definition turn_metric :: "bool \<Rightarrow> gostring \<Rightarrow> rat \<Rightarrow> sample list" where
  "turn_metric on scen sec = emit on TurnDuration [''turn'', scen] (ObserveOp sec)"

text \<open>After a classification on the channel \<open>phone\<close> or \<open>web\<close>.\<close>

definition intent_outcome :: "gostring result \<Rightarrow> gostring" where
  "intent_outcome res = (case res of Inl _ \<Rightarrow> ''fallback'' | Inr l \<Rightarrow> if l = [] then ''fallback'' else l)"

definition intent_metrics :: "bool \<Rightarrow> gostring \<Rightarrow> int \<Rightarrow> gostring result \<Rightarrow> sample list" where
  "intent_metrics on channel ms res =
     emit on IntentClassifyDuration [channel] (ObserveOp (of_int ms / 1000)) @
     emit on IntentClassifyTotal [channel, intent_outcome res] IncOp"

text \<open>\<open>recordCampaign\<close>: the rollup it reads first, then one \<open>Set\<close> per status.\<close>

definition progress_sets :: "campaign \<Rightarrow> (gostring \<times> nat) list" where
  "progress_sets c = (let s = camp_stats c in
     [(''pending'', pending s), (''dialing'', dialing s), (''answered'', answered s), (''completed'', completed s),
      (''failed'', failed s), (''no_answer'', no_answer s), (''canceled'', n_canceled s)])"

definition record_campaign :: "bool \<Rightarrow> campaign \<Rightarrow> sample list" where
  "record_campaign on c =
     concat (map (\<lambda>(st, n). emit on CampaignProgress [camp_id c, st] (SetOp (of_nat n))) (progress_sets c))"

text \<open>\<open>Manager.SetLeadStatus\<close>.\<close>

definition manager_set_status ::
  "bool \<Rightarrow> time \<Rightarrow> gostring \<Rightarrow> call_status \<Rightarrow> gostring \<Rightarrow> campaign \<Rightarrow> campaign \<times> sample list"
where
  "manager_set_status on now u st err c = (let c = set_lead_status now u st err c in (c, record_campaign on c))"

text \<open>
  What the callbacks of a campaign started through the API do with an effect of the outbound handler, which has its
  collectors from the runner, if there is one.
\<close>

definition metered_callback :: "bool \<Rightarrow> time \<Rightarrow> ob_fx \<Rightarrow> campaign \<Rightarrow> campaign \<times> sample list" where
  "metered_callback on now x c =
     (case x of
        CbAnswered u \<Rightarrow> manager_set_status on now u StatusAnswered [] c
      | CbEnded u st e \<Rightarrow> manager_set_status on now u st e c
      | _ \<Rightarrow> (c, []))"

definition outbound_metrics :: "bool option \<Rightarrow> bool" where
  "outbound_metrics runner = (case runner of None \<Rightarrow> False | Some on \<Rightarrow> on)"

text \<open>Metering changes nothing for the campaign.\<close>

lemma metered_callback_campaign: "fst (metered_callback on now x c) = campaign_callback now x c"
  by (cases x) (simp_all add: metered_callback_def campaign_callback_def manager_set_status_def Let_def)

section \<open>What the library refuses\<close>

text \<open>
  The documented panics of the metrics library: registering two collectors of one name, repeated label
  names, a histogram with the reserved label or buckets out of order; a sample with the wrong number of
  label values or a value that is not UTF-8.  That a counter only counts up, and so on, is its typing.
\<close>

definition vec_well_formed :: "vec_opts \<Rightarrow> bool" where
  "vec_well_formed o' \<longleftrightarrow> distinct (vo_labels o') \<and> sorted_wrt (<) (vo_buckets o') \<and>
     (vo_kind o' = HistogramVec \<longrightarrow> ''le'' \<notin> set (vo_labels o'))"

definition registrable :: "vec list \<Rightarrow> bool" where
  "registrable vs \<longleftrightarrow> distinct (map (vo_name \<circ> collector_of) vs) \<and> (\<forall>v\<in>set vs. vec_well_formed (collector_of v))"

fun op_fits :: "vec_kind \<Rightarrow> vec_op \<Rightarrow> bool" where
  "op_fits GaugeVec (ObserveOp _) \<longleftrightarrow> False"
| "op_fits GaugeVec _ \<longleftrightarrow> True"
| "op_fits CounterVec IncOp \<longleftrightarrow> True"
| "op_fits CounterVec _ \<longleftrightarrow> False"
| "op_fits HistogramVec (ObserveOp _) \<longleftrightarrow> True"
| "op_fits HistogramVec _ \<longleftrightarrow> False"

definition sample_accepted :: "sample \<Rightarrow> bool" where
  "sample_accepted s \<longleftrightarrow> sa_vec s \<in> set registered_vecs \<and> length (sa_values s) = length (vo_labels (collector_of (sa_vec s))) \<and>
     list_all valid_text (sa_values s) \<and> op_fits (vo_kind (collector_of (sa_vec s))) (sa_op s)"

text \<open>
  Every place of the program that records: the stages and kinds are those the code names, scenarios are
  slugs, which the store keeps as valid text, and an intent is whatever \<open>classify\<close> makes of a response.
\<close>

inductive recorded :: "sample \<Rightarrow> bool" where
  stage: "s \<in> set (record_stage on stage scen sec) \<Longrightarrow> valid_text scen \<Longrightarrow>
    stage \<in> set [''asr.first_partial'', ''asr.final'', ''tts.first_audio'', ''bot.first_sentence'', ''bot.total'', ''tts.total'',
      ''caller.wait''] \<Longrightarrow> recorded s"
| bot_err: "s \<in> set (inc_bot_err on kind) \<Longrightarrow> kind \<in> set [''stream_open'', ''stream_read''] \<Longrightarrow> recorded s"
| asr_err: "s \<in> set (inc_asr_err on ''stream_open'') \<Longrightarrow> recorded s"
| tts_err: "s \<in> set (inc_tts_err on kind) \<Longrightarrow> kind \<in> set [''stream_open'', ''audio_drain''] \<Longrightarrow> recorded s"
| barge: "s \<in> set (barged_in_metric on scen) \<Longrightarrow> valid_text scen \<Longrightarrow> recorded s"
| originate: "s \<in> set (originate_metric on ok) \<Longrightarrow> recorded s"
| begin_call: "s \<in> set (call_begins on dir) \<Longrightarrow> recorded s"
| end_call: "s \<in> set (call_ends on dir) \<Longrightarrow> recorded s"
| greeting: "s \<in> set (greeting_metric on scen sec) \<Longrightarrow> valid_text scen \<Longrightarrow> recorded s"
| turn: "s \<in> set (turn_metric on scen sec) \<Longrightarrow> valid_text scen \<Longrightarrow> recorded s"
| intent: "s \<in> set (intent_metrics on channel ms (classify up url resp)) \<Longrightarrow> channel \<in> set [''phone'', ''web''] \<Longrightarrow> recorded s"
| campaign: "s \<in> set (record_campaign on c) \<Longrightarrow> camp_id c = fst (campaign_create now opts m) \<Longrightarrow> recorded s"

lemma emit_accepted:
  "s \<in> set (emit on v vs x) \<Longrightarrow> length vs = length (vo_labels (collector_of v)) \<Longrightarrow> list_all valid_text vs \<Longrightarrow>
   op_fits (vo_kind (collector_of v)) x \<Longrightarrow> sample_accepted s"
  by (cases v) (auto simp: emit_def sample_accepted_def registered_vecs_def split: if_splits)

lemmas vec_defs = gauge_vec_def counter_vec_def histogram_vec_def

lemma valid_ascii_list: "list_all (\<lambda>c. (of_char c :: nat) < 128) s \<Longrightarrow> valid_text s"
  by (rule valid_ascii) (simp add: list_all_iff)

lemma valid_intent: "valid_text (intent_outcome (classify up url resp))"
  by (auto simp: intent_outcome_def classify_def normalize_label_def Let_def valid_ascii_list valid_to_upper
      split: sum.splits prod.splits if_splits)

lemma show_nat_ascii: "c \<in> set (show_nat n) \<Longrightarrow> (of_char c :: nat) < 128"
  by (induction n rule: show_nat.induct) (subst (asm) (2) show_nat.simps, auto simp: digit_def split: if_splits)

lemma valid_camp_id: "valid_text (fst (campaign_create now opts m))"
  by (rule valid_ascii) (auto simp: campaign_create_def Let_def show_nat_ascii)

text \<open>C34: 
  Recording a metric never panics: the collectors register together, and every sample the program
  makes, of any stage, error, call, turn, intent or campaign, has a value for each label of its collector,
  all of them valid text, and an operation its collector has.
\<close>

theorem metrics_never_panic:
  assumes "recorded s"
  shows "registrable registered_vecs \<and> sample_accepted s"
proof
  show "registrable registered_vecs"
    by (simp add: registrable_def registered_vecs_def vec_well_formed_def vec_defs)
  show "sample_accepted s" using assms
  proof induction
    case (intent s on channel ms up url resp)
    then show ?case unfolding intent_metrics_def set_append
      by (auto elim!: emit_accepted simp: vec_defs valid_intent valid_ascii_list)
  next
    case (campaign s on c now opts m)
    then have id: "valid_text (camp_id c)" by (simp add: valid_camp_id)
    from campaign obtain st n where "s \<in> set (emit on CampaignProgress [camp_id c, st] (SetOp (of_nat n)))" "(st, n) \<in> set (progress_sets c)"
      by (auto simp: record_campaign_def)
    moreover from this(2) have "valid_text st" by (auto simp: progress_sets_def Let_def intro!: valid_ascii_list)
    ultimately show ?case using id by (auto elim!: emit_accepted simp: vec_defs)
  qed (auto elim!: emit_accepted intro!: valid_ascii_list split: if_splits simp: vec_defs direction_string_def
      record_stage_def inc_bot_err_def inc_asr_err_def inc_tts_err_def barged_in_metric_def originate_metric_def call_begins_def
      call_ends_def greeting_metric_def turn_metric_def)
qed


section \<open>The campaign gauge\<close>

text \<open>
  A campaign's pool, the values the gauge was last set to, whether a \<open>Cancel\<close> is between its flag and the
  end of the context, and the goroutines inside \<open>recordCampaign\<close>: how many have still to read the rollup, and
  for each of the others the \<open>Set\<close>s it has left.  \<open>Create\<close> records the new campaign.
\<close>

record metered =
  mt_pool :: pool
  mt_gauge :: "gostring \<rightharpoonup> nat"
  mt_cancelling :: bool
  mt_due :: nat
  mt_setting :: "(gostring \<times> nat) list list"

definition metered_start :: "metered \<Rightarrow> bool" where
  "metered_start m \<longleftrightarrow> pool_start (mt_pool m) \<and> mt_gauge m = Map.empty \<and> \<not> mt_cancelling m \<and> mt_due m = 1 \<and> mt_setting m = []"

text \<open>The steps of a worker after which it records: the lead is being dialed, or its call has returned.\<close>

definition worker_records :: "pool \<Rightarrow> pool \<Rightarrow> bool" where
  "worker_records p q \<longleftrightarrow> (\<exists>i<length (workers p).
     workers p ! i = Spawned \<and> workers q ! i = Calling \<or> workers p ! i = Calling \<and> workers q ! i = Cooling)"

inductive record_step :: "metered \<Rightarrow> metered \<Rightarrow> bool" where
  read_rollup: "mt_due m = Suc k \<Longrightarrow>
    record_step m (m\<lparr>mt_due := k, mt_setting := mt_setting m @ [progress_sets (camp (mt_pool m))]\<rparr>)"
| set_value: "mt_setting m = xs @ ((st, n) # sets) # ys \<Longrightarrow>
    record_step m (m\<lparr>mt_gauge := (mt_gauge m)(st \<mapsto> n), mt_setting := xs @ sets # ys\<rparr>)"
| recorded_all: "mt_setting m = xs @ [] # ys \<Longrightarrow> record_step m (m\<lparr>mt_setting := xs @ ys\<rparr>)"

inductive metered_step :: "metered \<Rightarrow> metered \<Rightarrow> bool" where
  pool_work: "work_step (mt_pool m) q \<Longrightarrow>
    metered_step m (m\<lparr>mt_pool := q, mt_due := mt_due m + of_bool (worker_records (mt_pool m) q)\<rparr>)"
| recording: "record_step m n \<Longrightarrow> metered_step m n"

text \<open>
  What comes from outside: \<open>SetLeadStatus\<close> records after its update; so does the first \<open>Cancel\<close>, after
  it has set the flag and ended the context; the context may also end by itself.
\<close>

inductive outside_step :: "metered \<Rightarrow> metered \<Rightarrow> bool" where
  lead_update: "st \<noteq> StatusPending \<Longrightarrow>
    outside_step m (m\<lparr>mt_pool := (mt_pool m)\<lparr>camp := set_lead_status now u st err (camp (mt_pool m))\<rparr>, mt_due := Suc (mt_due m)\<rparr>)"
| cancel_call: "\<not> canceled (camp (mt_pool m)) \<Longrightarrow>
    outside_step m (m\<lparr>mt_pool := (mt_pool m)\<lparr>camp := cancel_flag (camp (mt_pool m))\<rparr>, mt_cancelling := True\<rparr>)"
| cancel_context: "mt_cancelling m \<Longrightarrow>
    outside_step m (m\<lparr>mt_pool := (mt_pool m)\<lparr>ctx_done := True\<rparr>, mt_cancelling := False, mt_due := Suc (mt_due m)\<rparr>)"
| context_over: "outside_step m (m\<lparr>mt_pool := (mt_pool m)\<lparr>ctx_done := True\<rparr>\<rparr>)"

definition metered_any :: "metered \<Rightarrow> metered \<Rightarrow> bool" where
  "metered_any m n \<longleftrightarrow> metered_step m n \<or> outside_step m n"

lemma metered_pool: "metered_any m n \<Longrightarrow> steps_from pool_step (mt_pool m) (mt_pool n)"
proof (unfold metered_any_def, elim disjE)
  assume "metered_step m n"
  then show ?thesis
    by cases (auto elim!: record_step.cases intro: steps_from.here steps_from_one simp: pool_step_def)
next
  assume "outside_step m n"
  then show ?thesis
    by cases (auto intro!: steps_from_one intro: env_step.intros simp: pool_step_def)
qed

lemma metered_pool_run: "steps_from metered_any m n \<Longrightarrow> steps_from pool_step (mt_pool m) (mt_pool n)"
  by (induction rule: steps_from.induct) (auto intro: steps_from.here dest: metered_pool steps_from_trans)

text \<open>No goroutine is recording or will, unless a lead is updated from outside: the campaign is canceled and no worker is left.\<close>

definition gauge_at_rest :: "metered \<Rightarrow> bool" where
  "gauge_at_rest m \<longleftrightarrow> mt_due m = 0 \<and> mt_setting m = [] \<and> slots (mt_pool m) = 0 \<and> loop (mt_pool m) \<noteq> AtAcquire \<and>
     canceled (camp (mt_pool m))"

lemma at_rest_work:
  assumes "work_step p q" "slots p = 0" "loop p \<noteq> AtAcquire" "canceled (camp p)"
  shows "workers q = workers p \<and> slots q = 0 \<and> loop q \<noteq> AtAcquire \<and> canceled (camp q) \<and> \<not> worker_records p q"
  using assms slot_pos [of _ p] by cases (auto simp: slots_def frame_simps worker_records_def holds_slot_def)

lemma at_rest_step: "metered_step m n \<Longrightarrow> gauge_at_rest m \<Longrightarrow> gauge_at_rest n \<and> mt_gauge n = mt_gauge m"
  by (auto simp: gauge_at_rest_def dest: at_rest_work elim!: metered_step.cases record_step.cases)

lemma at_rest_run:
  assumes "steps_from metered_step m n" "gauge_at_rest m"
  shows "mt_gauge n = mt_gauge m"
proof -
  have "gauge_at_rest n \<and> mt_gauge n = mt_gauge m" using assms(1)
    by (rule steps_from_keeps) (use assms(2) at_rest_step in auto)
  then show ?thesis ..
qed

text \<open>
  The gauge of a canceled campaign is wrong in the end: the leads that the loop cancels itself are not
  recorded.  Once \<open>Cancel\<close> and the workers have recorded for the last time, the gauge shows its number of
  pending leads for ever, while the pool closes without any.
\<close>

theorem canceled_gauge_stale:
  assumes "metered_start m0" "steps_from metered_any m0 m" "gauge_at_rest m"
    and "mt_gauge m ''pending'' = Some (pending (camp_stats (camp (mt_pool m))))" "0 < pending (camp_stats (camp (mt_pool m)))"
    and "steps_from metered_step m n" "loop (mt_pool n) = Closed"
  shows "mt_gauge n ''pending'' = mt_gauge m ''pending'' \<and> pending (camp_stats (camp (mt_pool n))) = 0"
proof
  show "mt_gauge n ''pending'' = mt_gauge m ''pending''" using at_rest_run [OF assms(6,3)] by simp
  have "steps_from metered_any m n" using assms(6)
    by (induction rule: steps_from.induct) (auto intro: steps_from.intros simp: metered_any_def)
  with assms(2) have "steps_from pool_step (mt_pool m0) (mt_pool n)"
    by (blast intro: metered_pool_run steps_from_trans)
  from closed_no_pending [OF _ this assms(7)] assms(1)
  have "\<forall>l\<in>set (leads (camp (mt_pool n))). lead_status l \<noteq> StatusPending" by (simp add: metered_start_def)
  with stats_count_leads [of "camp (mt_pool n)" StatusPending]
  show "pending (camp_stats (camp (mt_pool n))) = 0" by (auto simp: stats_of_def filter_empty_conv)
qed


section \<open>Witnesses\<close>

theorem metrics_never_panic_witness:
  "registrable registered_vecs \<and> sample_accepted (hd (record_stage True ''bot.total'' ''default'' (3/2)))"
proof (rule metrics_never_panic)
  show "recorded (hd (record_stage True ''bot.total'' ''default'' (3/2)))"
    by (rule stage [of _ True "''bot.total''" "''default''" "3/2"]) (simp_all add: record_stage_def emit_def valid_ascii)
qed

text \<open>One recording on its own, up to the values of the gauge.\<close>

definition gauge_after :: "(gostring \<times> nat) list \<Rightarrow> (gostring \<rightharpoonup> nat) \<Rightarrow> (gostring \<rightharpoonup> nat)" where
  "gauge_after sets g = fold (\<lambda>x g. g(fst x \<mapsto> snd x)) sets g"

definition set_to :: "metered \<Rightarrow> nat \<Rightarrow> (gostring \<rightharpoonup> nat) \<Rightarrow> metered \<Rightarrow> bool" where
  "set_to m k g n \<longleftrightarrow> n = \<lparr>mt_pool = mt_pool m, mt_gauge = g, mt_cancelling = mt_cancelling m, mt_due = k, mt_setting = []\<rparr>"

lemma sets_run: "mt_setting m = [sets] \<Longrightarrow> \<exists>n. steps_from record_step m n \<and> set_to m (mt_due m) (gauge_after sets (mt_gauge m)) n"
proof (induction sets arbitrary: m)
  case Nil
  then have "record_step m (m\<lparr>mt_setting := [] @ []\<rparr>)" by (intro recorded_all) simp
  then show ?case using Nil
    by (intro exI [of _ "m\<lparr>mt_setting := []\<rparr>"]) (simp add: steps_from_one set_to_def gauge_after_def)
next
  case (Cons x sets)
  let ?m = "m\<lparr>mt_gauge := (mt_gauge m)(fst x \<mapsto> snd x), mt_setting := [] @ sets # []\<rparr>"
  have step: "record_step m ?m" using Cons.prems by (intro set_value) simp
  have "mt_setting ?m = [sets]" by simp
  then obtain n where n: "steps_from record_step ?m n" "set_to ?m (mt_due ?m) (gauge_after sets (mt_gauge ?m)) n"
    using Cons.IH by blast
  have "set_to m (mt_due m) (gauge_after (x # sets) (mt_gauge m)) n"
    using n(2) by (simp add: set_to_def gauge_after_def)
  with steps_from_head [OF step n(1)] show ?case by blast
qed

lemma recording_run:
  assumes "mt_due m = Suc 0" "mt_setting m = []"
  obtains n where "steps_from metered_any m n" "set_to m 0 (gauge_after (progress_sets (camp (mt_pool m))) (mt_gauge m)) n"
proof -
  let ?m = "m\<lparr>mt_due := 0, mt_setting := mt_setting m @ [progress_sets (camp (mt_pool m))]\<rparr>"
  have step: "record_step m ?m" using assms by (intro read_rollup) simp
  have "mt_setting ?m = [progress_sets (camp (mt_pool m))]" using assms by simp
  from sets_run [OF this] obtain n where n: "steps_from record_step ?m n"
    "set_to ?m 0 (gauge_after (progress_sets (camp (mt_pool m))) (mt_gauge m)) n" by auto
  from steps_from_head [OF step n(1)] have "steps_from metered_any m n"
    by (induction rule: steps_from.induct) (auto intro: steps_from.intros simp: metered_any_def recording)
  moreover from n(2) have "set_to m 0 (gauge_after (progress_sets (camp (mt_pool m))) (mt_gauge m)) n" by (simp add: set_to_def)
  ultimately show thesis by (rule that)
qed

lemma metered_lift: "steps_from work_step p q \<Longrightarrow> mt_pool m = p \<Longrightarrow> \<exists>n. steps_from metered_step m n \<and> mt_pool n = q"
proof (induction rule: steps_from.induct)
  case (here p)
  then show ?case by (intro exI [of _ m]) (simp add: steps_from.here)
next
  case (more p q r)
  then obtain n where n: "steps_from metered_step m n" "mt_pool n = q" by blast
  with more.hyps have "metered_step n (n\<lparr>mt_pool := r, mt_due := mt_due n + of_bool (worker_records (mt_pool n) r)\<rparr>)"
    by (intro pool_work) simp
  with n(1) show ?case
    by (intro exI [of _ "n\<lparr>mt_pool := r, mt_due := mt_due n + of_bool (worker_records (mt_pool n) r)\<rparr>"]) (simp add: steps_from.more)
qed

text \<open>A campaign with two leads, canceled before the first is dialed.\<close>

definition demo_metered :: metered where
  "demo_metered = \<lparr>mt_pool = demo_pool, mt_gauge = Map.empty, mt_cancelling = False, mt_due = 1, mt_setting = []\<rparr>"

definition demo_halted :: pool where
  "demo_halted = demo_pool\<lparr>camp := cancel_flag (camp demo_pool), ctx_done := True\<rparr>"

lemma demo_rest: "\<exists>m. steps_from metered_any demo_metered m \<and> mt_pool m = demo_halted \<and> mt_due m = 0 \<and> mt_setting m = [] \<and>
  mt_gauge m ''pending'' = Some (pending (camp_stats (camp demo_halted)))"
proof -
  obtain a where a: "steps_from metered_any demo_metered a" "set_to demo_metered 0 (gauge_after (progress_sets (camp demo_pool)) Map.empty) a"
    using recording_run [of demo_metered] by (auto simp: demo_metered_def)
  let ?b = "a\<lparr>mt_pool := (mt_pool a)\<lparr>camp := cancel_flag (camp (mt_pool a))\<rparr>, mt_cancelling := True\<rparr>"
  let ?c = "?b\<lparr>mt_pool := (mt_pool ?b)\<lparr>ctx_done := True\<rparr>, mt_cancelling := False, mt_due := Suc (mt_due ?b)\<rparr>"
  have "outside_step a ?b" using a(2) by (intro cancel_call) (simp add: set_to_def demo_metered_def demo_fields)
  moreover have "outside_step ?b ?c" by (rule cancel_context) simp
  ultimately have s: "metered_any a ?b" "metered_any ?b ?c" by (simp_all only: metered_any_def simp_thms)
  have c: "steps_from metered_any demo_metered ?c" using steps_from.more [OF steps_from.more [OF a(1) s(1)] s(2)] .
  have f: "mt_pool ?c = demo_halted" "mt_due ?c = Suc 0" "mt_setting ?c = []"
    using a(2) unfolding set_to_def demo_metered_def demo_halted_def by simp_all
  obtain n where n: "steps_from metered_any ?c n" "set_to ?c 0 (gauge_after (progress_sets (camp demo_halted)) (mt_gauge ?c)) n"
    by (rule recording_run [OF f(2,3)]) (simp only: f(1))
  from steps_from_trans [OF c n(1)] have "steps_from metered_any demo_metered n" .
  moreover have "mt_pool n = demo_halted \<and> mt_due n = 0 \<and> mt_setting n = [] \<and>
      mt_gauge n ''pending'' = Some (pending (camp_stats (camp demo_halted)))"
    using n(2) f(1) by (simp add: set_to_def gauge_after_def progress_sets_def Let_def)
  ultimately show ?thesis by blast
qed

theorem canceled_gauge_stale_witness:
  "\<exists>m n. steps_from metered_any demo_metered m \<and> gauge_at_rest m \<and> steps_from metered_step m n \<and> loop (mt_pool n) = Closed \<and>
     mt_gauge n ''pending'' = Some 2 \<and> pending (camp_stats (camp (mt_pool n))) = 0"
proof -
  have st: "metered_start demo_metered" by (simp add: metered_start_def demo_metered_def demo_start)
  have two: "pending (camp_stats (camp demo_halted)) = 2"
    by (simp add: demo_halted_def camp_stats_def cancel_flag_def demo_fields count_lead_def new_lead_def)
  from demo_rest obtain m where m: "steps_from metered_any demo_metered m" "mt_pool m = demo_halted" "mt_due m = 0" "mt_setting m = []"
    "mt_gauge m ''pending'' = Some (pending (camp_stats (camp (mt_pool m))))" by auto
  have rest: "gauge_at_rest m" using m
    by (simp add: gauge_at_rest_def demo_halted_def slots_def holds_slot_def demo_fields frame_simps)
  have "steps_from pool_step demo_pool demo_halted"
    using metered_pool_run [OF m(1)] m(2) by (simp add: demo_metered_def)
  then obtain q where q: "steps_from work_step demo_halted q" "loop q = Closed"
    using pool_closes pool.reach_inv [OF demo_start] by blast
  from metered_lift [OF q(1) m(2)] obtain n where n: "steps_from metered_step m n" "mt_pool n = q" by blast
  from canceled_gauge_stale [OF st m(1) rest m(5) _ n(1)] q(2) n(2) m(2,5) two
  have "mt_gauge n ''pending'' = Some 2 \<and> pending (camp_stats (camp (mt_pool n))) = 0" by simp
  with m(1) rest n q(2) show ?thesis by blast
qed

end
