(* ===== verification/Doubles.thy ===== *)
theory Doubles
  imports Speech BotStream Vad Transition
begin

text \<open>
  The clients that stand in for the services (\<open>mock.go\<close> of \<open>internal/asr\<close>, \<open>internal/tts\<close> and \<open>internal/bot\<close>, and the
  detector of \<open>internal/vad/detector.go\<close>).  The three streams share their heart: a channel of bounded
  capacity that is fed and closed under one mutex, the step relation \<open>double_step\<close>.
\<close>

section \<open>The shared channel\<close>

text \<open>
  What is buffered, whether the channel is closed, the item that a feeder holding the mutex waits to put into the
  full buffer, and, for the properties, what was received and what was accepted.
\<close>

record 'a double =
  db_cap :: nat
  db_buf :: "'a list"
  db_closed :: bool
  db_waiting :: "'a option"
  db_received :: "'a list"
  db_accepted :: "'a list"

definition new_double :: "nat \<Rightarrow> 'a double" where
  "new_double n = \<lparr>db_cap = n, db_buf = [], db_closed = False, db_waiting = None, db_received = [], db_accepted = []\<rparr>"

text \<open>\<open>Emit\<close>, \<open>PushAudio\<close>, \<open>EmitSentence\<close> once the mutex is held: nothing after the close, else the send, which may wait.\<close>

definition feed_double :: "'a \<Rightarrow> 'a double \<Rightarrow> 'a double" where
  "feed_double x d =
     (if db_closed d then d
      else if length (db_buf d) < db_cap d then d\<lparr>db_buf := db_buf d @ [x], db_accepted := db_accepted d @ [x]\<rparr>
      else d\<lparr>db_waiting := Some x\<rparr>)"

definition close_double :: "'a double \<Rightarrow> 'a double" where
  "close_double d = (if db_closed d then d else d\<lparr>db_closed := True\<rparr>)"

text \<open>The mutex is free unless a feeder waits; a receiver takes from the buffer without it.\<close>

inductive double_step :: "'a double \<Rightarrow> 'a double \<Rightarrow> bool" where
  feed: "db_waiting d = None \<Longrightarrow> double_step d (feed_double x d)"
| resume: "db_waiting d = Some x \<Longrightarrow> length (db_buf d) < db_cap d \<Longrightarrow>
    double_step d (d\<lparr>db_buf := db_buf d @ [x], db_accepted := db_accepted d @ [x], db_waiting := None\<rparr>)"
| receive: "db_buf d = x # xs \<Longrightarrow> double_step d (d\<lparr>db_buf := xs, db_received := db_received d @ [x]\<rparr>)"
| close: "db_waiting d = None \<Longrightarrow> double_step d (close_double d)"

inductive_cases double_stepE: "double_step d e"

section \<open>The recogniser's double\<close>

text \<open>
  \<open>ad_on_send\<close> is the test's hook on audio.  Every method takes the mutex, so its definition applies while
  no feeder waits.
\<close>

record asr_double =
  ad_out :: "asr_result double"
  ad_pushed :: "bytes list"
  ad_send_closed :: bool
  ad_close_sent :: nat

definition start_asr_double :: "(asr_opts \<Rightarrow> asr_double result) option \<Rightarrow> asr_opts \<Rightarrow> asr_double result" where
  "start_asr_double on_start opts =
     (case on_start of
        Some f \<Rightarrow> f opts
      | None \<Rightarrow> Inr \<lparr>ad_out = new_double 4, ad_pushed = [], ad_send_closed = False, ad_close_sent = 0\<rparr>)"

definition send_audio_double :: "(bytes \<Rightarrow> gostring option) option \<Rightarrow> bytes \<Rightarrow> asr_double \<Rightarrow> gostring option \<times> asr_double" where
  "send_audio_double on_send pcm s =
     (if db_closed (ad_out s) then (None, s)
      else
        let s = s\<lparr>ad_pushed := ad_pushed s @ [pcm]\<rparr> in
        (case on_send of Some f \<Rightarrow> (f pcm, s) | None \<Rightarrow> (None, s)))"

definition close_send_double :: "asr_double \<Rightarrow> asr_double" where
  "close_send_double s = s\<lparr>ad_send_closed := True, ad_close_sent := Suc (ad_close_sent s)\<rparr>"

definition emit_result :: "asr_result \<Rightarrow> asr_double \<Rightarrow> asr_double" where
  "emit_result r s = s\<lparr>ad_out := feed_double r (ad_out s)\<rparr>"

definition close_asr_double :: "asr_double \<Rightarrow> asr_double" where
  "close_asr_double s = s\<lparr>ad_out := close_double (ad_out s)\<rparr>"

section \<open>The synthesiser's double\<close>

record tts_double =
  td_audio :: "bytes double"
  td_texts :: "gostring list"

definition start_tts_double :: "('o \<Rightarrow> tts_double result) option \<Rightarrow> 'o \<Rightarrow> tts_double result" where
  "start_tts_double on_start opts =
     (case on_start of Some f \<Rightarrow> f opts | None \<Rightarrow> Inr \<lparr>td_audio = new_double 16, td_texts = []\<rparr>)"

definition send_text_double :: "gostring \<Rightarrow> bool \<Rightarrow> tts_double \<Rightarrow> tts_double" where
  "send_text_double tx eos s = (if db_closed (td_audio s) then s else s\<lparr>td_texts := td_texts s @ [tx]\<rparr>)"

definition push_audio :: "bytes \<Rightarrow> tts_double \<Rightarrow> tts_double" where
  "push_audio f s = s\<lparr>td_audio := feed_double f (td_audio s)\<rparr>"

definition close_tts_double :: "tts_double \<Rightarrow> tts_double" where
  "close_tts_double s = s\<lparr>td_audio := close_double (td_audio s)\<rparr>"


section \<open>The bot's double\<close>

text \<open>\<open>done\<close> is closed together with the channel; \<open>watched\<close>: a goroutine closes the stream when its context ends.\<close>

record bot_double =
  bd_sentences :: "gostring double"
  bd_action :: action
  bd_err :: "stream_err option"
  bd_watched :: bool

definition new_bot_double :: bot_double where
  "new_bot_double = \<lparr>bd_sentences = new_double 4, bd_action = ActionChat, bd_err = None, bd_watched = False\<rparr>"

definition watch_ctx :: "bool \<Rightarrow> bot_double \<Rightarrow> bot_double" where
  "watch_ctx has_ctx s = (if has_ctx then s\<lparr>bd_watched := True\<rparr> else s)"

definition stream_double ::
  "(gostring \<Rightarrow> gostring \<Rightarrow> bot_double result) option \<Rightarrow> bool \<Rightarrow> gostring \<Rightarrow> gostring \<Rightarrow> bot_double result"
where
  "stream_double on_stream has_ctx conv msg =
     (case on_stream of
        Some f \<Rightarrow> (case f conv msg of Inl e \<Rightarrow> Inl e | Inr s \<Rightarrow> Inr (watch_ctx has_ctx s))
      | None \<Rightarrow> Inr (watch_ctx has_ctx new_bot_double))"

definition emit_sentence :: "gostring \<Rightarrow> bot_double \<Rightarrow> bot_double" where
  "emit_sentence tx s = s\<lparr>bd_sentences := feed_double tx (bd_sentences s)\<rparr>"

definition set_action_double :: "action \<Rightarrow> bot_double \<Rightarrow> bot_double" where
  "set_action_double a s = s\<lparr>bd_action := a\<rparr>"

text \<open>\<open>Action\<close> blocks until the stream is closed.\<close>

definition action_double :: "bot_double \<Rightarrow> (action \<times> stream_err option) option" where
  "action_double s = (if db_closed (bd_sentences s) then Some (bd_action s, bd_err s) else None)"

definition close_bot_double :: "bot_double \<Rightarrow> bot_double" where
  "close_bot_double s = s\<lparr>bd_sentences := close_double (bd_sentences s)\<rparr>"

section \<open>The detector's double\<close>

record vad_double =
  vo_next :: vad_event
  vo_bot :: bool
  vo_resets :: int
  vo_frames :: int

definition push_double :: "8 word list \<Rightarrow> vad_double \<Rightarrow> vad_event \<times> vad_double" where
  "push_double pcm m = (vo_next m, m\<lparr>vo_frames := vo_frames m + 1, vo_next := EventNone\<rparr>)"

definition bot_speaking_double :: "bool \<Rightarrow> vad_double \<Rightarrow> vad_double" where
  "bot_speaking_double b m = m\<lparr>vo_bot := b\<rparr>"

definition reset_double :: "vad_double \<Rightarrow> vad_double" where
  "reset_double m = m\<lparr>vo_resets := vo_resets m + 1\<rparr>"

section \<open>Properties\<close>

definition double_ok :: "nat \<Rightarrow> 'a double \<Rightarrow> bool" where
  "double_ok n d \<longleftrightarrow> db_cap d = n \<and> length (db_buf d) \<le> n \<and> db_received d @ db_buf d = db_accepted d \<and>
     (db_closed d \<longrightarrow> db_waiting d = None)"

lemma double_step_ok: "double_step d e \<Longrightarrow> double_ok n d \<Longrightarrow> double_ok n e"
  by (erule double_stepE) (auto simp: double_ok_def feed_double_def close_double_def)

interpretation double_runs: transition_system "\<lambda>d. d = new_double n" double_step "double_ok n"
  by (unfold_locales, simp add: double_ok_def new_double_def) (rule double_step_ok)

lemma closed_double_step:
  "double_step d e \<Longrightarrow> db_closed d \<and> db_waiting d = None \<and> db_accepted d = xs \<Longrightarrow> db_closed e \<and> db_waiting e = None \<and> db_accepted e = xs"
  by (erule double_stepE) (auto simp: feed_double_def close_double_def)

text \<open>
  A double delivers what it accepted, in order and without loss, never holds more than its capacity, and after
  its close accepts nothing: no feeder is waiting then, so nothing is ever sent on the closed channel.
\<close>

theorem double_delivers:
  assumes "steps_from double_step (new_double n) d"
  shows "db_received d @ db_buf d = db_accepted d \<and> length (db_buf d) \<le> n \<and>
    (db_closed d \<and> steps_from double_step d e \<longrightarrow> db_waiting e = None \<and> db_accepted e = db_accepted d)"
proof -
  have ok: "double_ok n d" using double_runs.reach_inv [OF refl assms] .
  moreover have "db_waiting e = None \<and> db_accepted e = db_accepted d" if "db_closed d" "steps_from double_step d e"
  proof -
    have "db_closed e \<and> db_waiting e = None \<and> db_accepted e = db_accepted d" using that(2)
      by (rule steps_from_keeps) (use ok that(1) closed_double_step in \<open>auto simp: double_ok_def\<close>)
    then show ?thesis by simp
  qed
  ultimately show ?thesis by (auto simp: double_ok_def)
qed

text \<open>
  A double can only be closed while somebody reads it: a feeder that finds the buffer full keeps the mutex, and
  from then on nothing but a receive can happen; \<open>Close\<close>, also the one that a canceled context asks for, waits
  for ever, and so does \<open>Action\<close> of the bot's double.  One receive is enough to let the feeder go on.
\<close>

theorem unread_double_stuck:
  fixes d :: "gostring double"
  assumes "steps_from double_step (new_double n) d" "length (db_buf d) = n" "db_waiting d = Some x"
  shows "\<not> db_closed d \<and> (\<forall>e. double_step d e \<longrightarrow> db_received e \<noteq> db_received d) \<and>
    (bd_sentences s = d \<longrightarrow> action_double s = None) \<and>
    (0 < n \<longrightarrow> (\<exists>e f. double_step d e \<and> double_step e f \<and> db_waiting f = None \<and> double_step f (close_double f)))"
proof -
  have ok: "double_ok n d" using double_runs.reach_inv [OF refl assms(1)] .
  have open': "\<not> db_closed d" using ok assms(3) by (auto simp: double_ok_def)
  have "db_received e \<noteq> db_received d" if "double_step d e" for e
    using that by (rule double_stepE) (use ok assms(2,3) in \<open>auto simp: double_ok_def\<close>)
  moreover have "\<exists>e f. double_step d e \<and> double_step e f \<and> db_waiting f = None \<and> double_step f (close_double f)" if "0 < n"
  proof -
    from that assms(2) obtain y ys where buf: "db_buf d = y # ys" by (cases "db_buf d") auto
    let ?e = "d\<lparr>db_buf := ys, db_received := db_received d @ [y]\<rparr>"
    let ?f = "?e\<lparr>db_buf := db_buf ?e @ [x], db_accepted := db_accepted ?e @ [x], db_waiting := None\<rparr>"
    have "double_step d ?e" using buf by (rule receive)
    moreover have "double_step ?e ?f" using assms(2,3) buf ok by (intro resume) (simp_all add: double_ok_def)
    moreover have "double_step ?f (close_double ?f)" by (rule close) simp
    moreover have "db_waiting ?f = None" by simp
    ultimately show ?thesis by blast
  qed
  ultimately show ?thesis using open' by (auto simp: action_double_def)
qed

section \<open>Witnesses\<close>

text \<open>Five sentences for a bot's double that nobody reads.\<close>

definition demo_fed :: "gostring double" where
  "demo_fed = foldr feed_double [''e'', ''d'', ''c'', ''b'', ''a''] (new_double 4)"

lemma demo_fed_eval: "demo_fed = \<lparr>db_cap = 4, db_buf = [''a'', ''b'', ''c'', ''d''], db_closed = False, db_waiting = Some ''e'',
    db_received = [], db_accepted = [''a'', ''b'', ''c'', ''d'']\<rparr>"
  by (simp add: demo_fed_def feed_double_def new_double_def)

lemma fed_reached: "steps_from double_step d e \<Longrightarrow> db_waiting e = None \<Longrightarrow> steps_from double_step d (feed_double x e)"
  by (erule steps_from.more) (rule feed)

lemma demo_fed_reached: "steps_from double_step (new_double 4) demo_fed"
  unfolding demo_fed_def foldr.simps comp_def id_def
  by (intro fed_reached steps_from.here) (simp_all add: feed_double_def new_double_def)

theorem unread_double_stuck_witness:
  "(\<forall>e. double_step demo_fed e \<longrightarrow> db_received e \<noteq> db_received demo_fed) \<and>
   action_double (new_bot_double\<lparr>bd_sentences := demo_fed\<rparr>) = None"
  using unread_double_stuck [OF demo_fed_reached, of "''e''" "new_bot_double\<lparr>bd_sentences := demo_fed\<rparr>"]
  by (simp add: demo_fed_eval)

theorem double_delivers_witness:
  "db_received demo_fed @ db_buf demo_fed = db_accepted demo_fed \<and> length (db_buf demo_fed) \<le> 4"
  using double_delivers [OF demo_fed_reached] by simp

end
