(* ===== verification/Protocol.thy ===== *)
theory Protocol
  imports Speech "HOL-Library.Word"
begin

text \<open>
  The messages of the recogniser (\<open>proto/streaming_voice/streaming_voice.pb.go\<close>): their fields and the accessors,
  which may be called on a nil message, and \<open>recvLoop\<close> of \<open>internal/asr/viettel_grpc.go\<close> in terms of them, as a
  refinement of the replies of \<open>Speech\<close>.  Encoding and reflection belong to the protobuf library.  A message that
  may be nil is an option, a 32-bit float a real number.
\<close>

section \<open>Messages\<close>

record voice_request =
  vr_byte_buff :: bytes

record hypothese =
  hy_transcript :: gostring
  hy_normed :: gostring
  hy_urlencoded :: gostring
  hy_normed_urlencoded :: gostring
  hy_confidence :: real
  hy_likelihood :: real

record reply_body =
  rb_hypotheses :: "hypothese option list"
  rb_final :: bool

record text_reply =
  tp_status :: "32 word"
  tp_segment :: "32 word"
  tp_id :: gostring
  tp_result :: "reply_body option"
  tp_segment_start :: real
  tp_segment_length :: real
  tp_total_length :: real
  tp_msg :: gostring
  tp_audio_url :: gostring

section \<open>Accessors\<close>

definition get_byte_buff :: "voice_request option \<Rightarrow> bytes" where
  "get_byte_buff x = (case x of Some m \<Rightarrow> vr_byte_buff m | None \<Rightarrow> [])"

definition get_status :: "text_reply option \<Rightarrow> 32 word" where
  "get_status x = (case x of Some m \<Rightarrow> tp_status m | None \<Rightarrow> 0)"

definition get_segment :: "text_reply option \<Rightarrow> 32 word" where
  "get_segment x = (case x of Some m \<Rightarrow> tp_segment m | None \<Rightarrow> 0)"

definition get_id :: "text_reply option \<Rightarrow> gostring" where
  "get_id x = (case x of Some m \<Rightarrow> tp_id m | None \<Rightarrow> [])"

definition get_result :: "text_reply option \<Rightarrow> reply_body option" where
  "get_result x = (case x of Some m \<Rightarrow> tp_result m | None \<Rightarrow> None)"

definition get_segment_start :: "text_reply option \<Rightarrow> real" where
  "get_segment_start x = (case x of Some m \<Rightarrow> tp_segment_start m | None \<Rightarrow> 0)"

definition get_segment_length :: "text_reply option \<Rightarrow> real" where
  "get_segment_length x = (case x of Some m \<Rightarrow> tp_segment_length m | None \<Rightarrow> 0)"

definition get_total_length :: "text_reply option \<Rightarrow> real" where
  "get_total_length x = (case x of Some m \<Rightarrow> tp_total_length m | None \<Rightarrow> 0)"

definition get_msg :: "text_reply option \<Rightarrow> gostring" where
  "get_msg x = (case x of Some m \<Rightarrow> tp_msg m | None \<Rightarrow> [])"

definition get_audio_url :: "text_reply option \<Rightarrow> gostring" where
  "get_audio_url x = (case x of Some m \<Rightarrow> tp_audio_url m | None \<Rightarrow> [])"

definition get_hypotheses :: "reply_body option \<Rightarrow> hypothese option list" where
  "get_hypotheses x = (case x of Some m \<Rightarrow> rb_hypotheses m | None \<Rightarrow> [])"

definition get_final :: "reply_body option \<Rightarrow> bool" where
  "get_final x = (case x of Some m \<Rightarrow> rb_final m | None \<Rightarrow> False)"

definition get_transcript :: "hypothese option \<Rightarrow> gostring" where
  "get_transcript x = (case x of Some m \<Rightarrow> hy_transcript m | None \<Rightarrow> [])"

definition get_transcript_normed :: "hypothese option \<Rightarrow> gostring" where
  "get_transcript_normed x = (case x of Some m \<Rightarrow> hy_normed m | None \<Rightarrow> [])"

definition get_transcript_urlencoded :: "hypothese option \<Rightarrow> gostring" where
  "get_transcript_urlencoded x = (case x of Some m \<Rightarrow> hy_urlencoded m | None \<Rightarrow> [])"

definition get_normed_urlencoded :: "hypothese option \<Rightarrow> gostring" where
  "get_normed_urlencoded x = (case x of Some m \<Rightarrow> hy_normed_urlencoded m | None \<Rightarrow> [])"

definition get_confidence :: "hypothese option \<Rightarrow> real" where
  "get_confidence x = (case x of Some m \<Rightarrow> hy_confidence m | None \<Rightarrow> 0)"

definition get_likelihood :: "hypothese option \<Rightarrow> real" where
  "get_likelihood x = (case x of Some m \<Rightarrow> hy_likelihood m | None \<Rightarrow> 0)"

text \<open>\<open>Reset\<close>: the messages without any field set.\<close>

definition no_request :: voice_request where
  "no_request = \<lparr>vr_byte_buff = []\<rparr>"

definition no_reply :: text_reply where
  "no_reply = \<lparr>tp_status = 0, tp_segment = 0, tp_id = [], tp_result = None, tp_segment_start = 0, tp_segment_length = 0,
     tp_total_length = 0, tp_msg = [], tp_audio_url = []\<rparr>"

definition no_body :: reply_body where
  "no_body = \<lparr>rb_hypotheses = [], rb_final = False\<rparr>"

definition no_hypothese :: hypothese where
  "no_hypothese = \<lparr>hy_transcript = [], hy_normed = [], hy_urlencoded = [], hy_normed_urlencoded = [], hy_confidence = 0, hy_likelihood = 0\<rparr>"

section \<open>The receive loop on messages\<close>

text \<open>The result of one message, if it has one.\<close>

definition message_result :: "text_reply option \<Rightarrow> asr_result option" where
  "message_result reply =
     (if get_status reply \<noteq> 0 then None
      else
        let res = get_result reply in
        if res = None \<or> length (get_hypotheses res) = 0 then None
        else
          let h = get_hypotheses res ! 0; tx = get_transcript h in
          Some \<lparr>res_text = (if tx = [] then get_transcript_normed h else tx), is_final = get_final res\<rparr>)"

fun recv_messages :: "bool list \<Rightarrow> text_reply option list \<Rightarrow> asr_result list \<times> bool" where
  "recv_messages accept [] = ([], False)"
| "recv_messages accept (m # ms) =
     (case message_result m of
        None \<Rightarrow> recv_messages accept ms
      | Some r \<Rightarrow>
         (case accept of
            False # _ \<Rightarrow> ([], True)
          | _ \<Rightarrow> (let (out, c) = recv_messages (tl accept) ms in (r # out, c))))"

section \<open>Refinement\<close>

definition asr_reply_of :: "text_reply option \<Rightarrow> asr_reply" where
  "asr_reply_of m =
     \<lparr>ry_status = sint (get_status m), ry_final = get_final (get_result m),
      ry_hyps = map_option (\<lambda>b. map (\<lambda>h. (get_transcript h, get_transcript_normed h)) (rb_hypotheses b)) (get_result m)\<rparr>"

lemma message_result_of:
  "message_result m = (if usable_reply (asr_reply_of m) then Some (reply_result (asr_reply_of m)) else None)"
proof (cases "get_result m")
  case None
  then show ?thesis by (simp add: message_result_def usable_reply_def asr_reply_of_def Let_def)
next
  case (Some b)
  then show ?thesis
    by (cases "rb_hypotheses b")
      (auto simp: message_result_def usable_reply_def reply_result_def asr_reply_of_def get_hypotheses_def Let_def signed_eq_0_iff)
qed


text \<open>A reset message is skipped, and so is none at all.\<close>

lemma no_reply_skipped: "message_result (Some no_reply) = None" "message_result None = None"
  by (simp_all add: message_result_def no_reply_def get_status_def get_result_def)

section \<open>Opening and serving\<close>

text \<open>\<open>SendVoice\<close> of the generated client: the method it opens and the error it passes on; a server that does not implement it.\<close>

definition send_voice :: "(gostring \<Rightarrow> gostring option) \<Rightarrow> gostring result" where
  "send_voice new_stream =
     (let full = ''/streaming_voice.StreamVoice/SendVoice'' in
      case new_stream full of Some e \<Rightarrow> Inl e | None \<Rightarrow> Inr full)"

definition unimplemented_send_voice :: "unit result" where
  "unimplemented_send_voice = Inl ''rpc error: code = Unimplemented desc = method SendVoice not implemented''"

end
