(* ===== verification/BotSecrets.thy ===== *)
theory BotSecrets
  imports BotsProps BotProbe
begin

text \<open>
  The service tokens of a bot stay in the server: what the bot API (\<open>internal/api/bots.go\<close>) answers, over any
  sequence of requests, depends on the stored tokens only through their masks.  \<open>erased\<close> replaces every token
  of the tables by one that has nothing but the mask in common with it; every handler commutes with it.
\<close>

section \<open>Answers\<close>

datatype bots_answer =
    Summaries "bot_summary list reply" | Detail "(bot_detail \<times> did_row list) reply" | NewId "uuid reply" | Plain "unit reply"
  | Numbers "did_row list reply" | NewNumber "gostring reply" | Probes "(bool \<times> probe list) reply"

datatype bots_call = BotsOp bots_op | TestBot probe_env uuid

fun answer_of :: "ctx \<Rightarrow> bots_call \<Rightarrow> db \<Rightarrow> bots_answer \<times> db" where
  "answer_of x (BotsOp OpList) d = map_prod Summaries id (h_list_bots x d)"
| "answer_of x (BotsOp (OpGet i)) d = map_prod Detail id (h_get_bot x i d)"
| "answer_of x (BotsOp (OpCreate q)) d = map_prod NewId id (h_create_bot x q d)"
| "answer_of x (BotsOp (OpUpdate i q)) d = map_prod Plain id (h_update_bot x i q d)"
| "answer_of x (BotsOp (OpDelete i)) d = map_prod Plain id (h_delete_bot x i d)"
| "answer_of x (BotsOp (OpDids i)) d = map_prod Numbers id (h_list_dids x i d)"
| "answer_of x (BotsOp (OpAddDid i q)) d = map_prod NewNumber id (h_add_did x i q d)"
| "answer_of x (BotsOp (OpDelDid i did)) d = map_prod Plain id (h_remove_did x i did d)"
| "answer_of x (TestBot env i) d = map_prod Probes id (h_test_bot env x i d)"

fun answers_of :: "(ctx \<times> bots_call) list \<Rightarrow> db \<Rightarrow> bots_answer list" where
  "answers_of [] d = []"
| "answers_of ((x, c) # cs) d = (let (a, d) = answer_of x c d in a # answers_of cs d)"

section \<open>Erasure\<close>

definition erase_token :: "gostring \<Rightarrow> gostring" where
  "erase_token t = (if t = [] then [] else if length t \<le> 4 then ''?'' else CHR ''?'' # last_n 4 t)"

definition erase_bot :: "bot_config \<Rightarrow> bot_config" where
  "erase_bot b = b\<lparr>asr_token := erase_token (asr_token b), tts_token := erase_token (tts_token b)\<rparr>"

definition erase_row :: "bot_row \<Rightarrow> bot_row" where
  "erase_row r = r\<lparr>r_bot := erase_bot (r_bot r)\<rparr>"

definition erased :: "db \<Rightarrow> db" where
  "erased d = d\<lparr>bots := map erase_row (bots d)\<rparr>"

lemma erase_idem: "erase_token (erase_token t) = erase_token t"
  by (simp add: erase_token_def last_n_def)

lemma mask_erased [simp]: "mask_token (erase_token t) = mask_token t"
  by (simp add: mask_token_def erase_token_def last_n_def)

lemma erase_mask_eq: "mask_token s = mask_token t \<longleftrightarrow> erase_token s = erase_token t"
  by (auto simp: mask_token_def erase_token_def last_n_def bullets_def)

lemma erase_bot_fields [simp]:
  "b_id (erase_bot b) = b_id b" "b_tenant (erase_bot b) = b_tenant b" "b_slug (erase_bot b) = b_slug b"
  "b_tenant_slug (erase_bot b) = b_tenant_slug b" "b_enabled (erase_bot b) = b_enabled b" "b_version (erase_bot b) = b_version b"
  "bot_url (erase_bot b) = bot_url b" "asr_endpoint (erase_bot b) = asr_endpoint b" "tts_endpoint (erase_bot b) = tts_endpoint b"
  by (simp_all add: erase_bot_def)

lemma erase_row_fields [simp]:
  "r_bot (erase_row r) = erase_bot (r_bot r)" "r_deleted (erase_row r) = r_deleted r"
  by (simp_all add: erase_row_def)

lemma erased_fields [simp]:
  "bots (erased d) = map erase_row (bots d)" "dids (erased d) = dids d" "tenants (erased d) = tenants d" "faults (erased d) = faults d"
  by (simp_all add: erased_def)

lemma erased_bots: "(erased d)\<lparr>bots := bs\<rparr> = d\<lparr>bots := bs\<rparr>" "erased (d\<lparr>bots := bs\<rparr>) = d\<lparr>bots := map erase_row bs\<rparr>"
  by (simp_all add: erased_def)

lemma views_erased [simp]:
  "bot_summary_of (erase_bot b) = bot_summary_of b" "bot_detail_of (erase_bot b) = bot_detail_of b"
  "can_access_bot x (erase_bot b) = can_access_bot x b"
  by (simp_all add: bot_summary_of_def bot_detail_of_def erase_bot_def can_access_bot_def split: option.split)

section \<open>The queries\<close>

lemma first_row_mapped: "first_row P (map f xs) = map_option f (first_row (P \<circ> f) xs)"
  by (simp add: first_row_def filter_map split: list.split)

lemma run_query_erased:
  "(\<And>d. f (erased d) = map_prod (map_sum id g) erased (f d)) \<Longrightarrow>
   run_query f (erased d) = map_prod (map_sum id g) erased (run_query f d)"
proof -
  assume f: "\<And>d. f (erased d) = map_prod (map_sum id g) erased (f d)"
  have "erased (d\<lparr>faults := fs\<rparr>) = (erased d)\<lparr>faults := fs\<rparr>" for fs by (simp add: erased_def)
  then show ?thesis using f by (simp add: run_query_def split: list.split option.split) (metis f)
qed


lemma fetch_erased: "(\<And>d. f (erased d) = g (f d)) \<Longrightarrow> fetch f (erased d) = map_prod (map_sum id g) erased (fetch f d)"
  unfolding fetch_def by (rule run_query_erased) simp

lemma scan_bot_erased: "scan_bot (erased d) (erase_row r) = map_option erase_bot (scan_bot d r)"
  by (cases "first_row (\<lambda>t. t_id t = b_tenant (r_bot r)) (tenants d)") (simp_all add: scan_bot_def erase_bot_def)

lemma live_bot_erased: "live_bot (erased d) i = map_option erase_row (live_bot d i)"
  by (simp add: live_bot_def first_row_mapped comp_def)

lemma get_bot_erased: "get_bot_by_id i (erased d) = map_prod (map_sum id (map_option erase_bot)) erased (get_bot_by_id i d)"
  unfolding get_bot_by_id_def
  by (rule fetch_erased) (auto simp: live_bot_erased scan_bot_erased split: option.split bind_split)

lemma insort_key_map: "(\<And>x. k (f x) = k x) \<Longrightarrow> insort_key k (f x) (map f xs) = map f (insort_key k x xs)"
  by (induction xs) auto

lemma sort_key_map: "(\<And>x. k (f x) = k x) \<Longrightarrow> sort_key k (map f xs) = map f (sort_key k xs)"
  by (induction xs) (simp_all add: insort_key_map)

lemma map_filter_erased: "List.map_filter (scan_bot (erased d)) (map erase_row rs) = map erase_bot (List.map_filter (scan_bot d) rs)"
  by (induction rs) (auto simp: List.map_filter_def scan_bot_erased)

lemma list_bots_erased: "list_bots scope (erased d) = map_prod (map_sum id (map erase_bot)) erased (list_bots scope d)"
  unfolding list_bots_def
  by (rule fetch_erased) (cases scope, simp_all add: filter_map comp_def map_filter_erased sort_key_map)

lemma list_dids_erased: "list_dids i (erased d) = map_prod (map_sum id id) erased (list_dids i d)"
  unfolding list_dids_def by (rule fetch_erased) simp

lemma tenant_by_slug_erased: "get_tenant_by_slug s (erased d) = map_prod (map_sum id id) erased (get_tenant_by_slug s d)"
  unfolding get_tenant_by_slug_def by (rule fetch_erased) simp


section \<open>Agreement\<close>

text \<open>On tables that differ in nothing but erased tokens, the results agree up to \<open>g\<close> and the tables stay so.\<close>

definition agrees :: "('a \<Rightarrow> 'b) \<Rightarrow> (db \<Rightarrow> 'a \<times> db) \<Rightarrow> bool" where
  "agrees g h \<longleftrightarrow> (\<forall>d e. erased d = erased e \<longrightarrow> g (fst (h d)) = g (fst (h e)) \<and> erased (snd (h d)) = erased (snd (h e)))"

lemma erase_bot_idem [simp]: "erase_bot (erase_bot b) = erase_bot b"
  by (simp add: erase_bot_def erase_idem)

lemma erase_row_idem [simp]: "erase_row (erase_row r) = erase_row r"
  by (simp add: erase_row_def)

lemma agreesD:
  assumes "agrees g h" "erased d = erased e" "h d = (r, d')" "h e = (s, e')"
  shows "g r = g s" "erased d' = erased e'"
  using assms unfolding agrees_def by (metis fst_conv snd_conv)+

lemma erased_idem [simp]: "erased (erased d) = erased d"
  by (simp add: erased_def)

text \<open>A query that commutes with erasure agrees; so does one whose results on a database and on its erasure agree.\<close>

lemma agrees_commute:
  assumes "\<And>d. map_prod g erased (q (erased d)) = map_prod g erased (q d)"
  shows "agrees g q"
proof -
  have "map_prod g erased (q d) = map_prod g erased (q e)" if "erased d = erased e" for d e
    using assms [of d] assms [of e] that by simp
  then show ?thesis unfolding agrees_def by (metis fst_map_prod snd_map_prod)
qed

lemma agrees_read:
  assumes "\<And>d. q (erased d) = map_prod g erased (q d)" "\<And>r. g (g r) = g r"
  shows "agrees g q"
  by (rule agrees_commute) (simp add: assms prod.map_comp comp_def)

lemma map_sum_idem: "(\<And>x. g (g x) = g x) \<Longrightarrow> map_sum id g (map_sum id g r) = map_sum id g r"
  by (cases r) auto

lemma map_option_idem: "(\<And>x. g (g x) = g x) \<Longrightarrow> map_option g (map_option g r) = map_option g r"
  by (cases r) auto

lemma get_bot_agrees: "agrees (map_sum id (map_option erase_bot)) (get_bot_by_id i)"
  by (rule agrees_read) (simp_all add: get_bot_erased map_sum_idem map_option_idem erase_bot_idem)

lemma list_bots_agrees: "agrees (map_sum id (map erase_bot)) (list_bots scope)"
  by (rule agrees_read) (simp_all add: list_bots_erased map_sum_idem erase_bot_idem)

lemma list_dids_agrees: "agrees (map_sum id id) (list_dids i)"
  by (rule agrees_read) (simp_all add: list_dids_erased map_sum_idem)

lemma tenant_by_slug_agrees: "agrees (map_sum id id) (get_tenant_by_slug sl)"
  by (rule agrees_read) (simp_all add: tenant_by_slug_erased map_sum_idem)

section \<open>The writes\<close>

lemma agrees_run_query:
  assumes "\<And>d. map_prod g erased (f (erased d)) = map_prod g erased (f d)"
  shows "agrees g (run_query f)"
proof (rule agrees_commute)
  fix d
  have e: "(erased d)\<lparr>faults := fs\<rparr> = erased (d\<lparr>faults := fs\<rparr>)" for fs by (simp add: erased_def)
  show "map_prod g erased (run_query f (erased d)) = map_prod g erased (run_query f d)"
    using assms assms [of "d\<lparr>faults := tl (faults d)\<rparr>"]
    by (cases "faults d") (auto simp: run_query_def e split: option.split)
qed

lemma slug_taken_erased: "slug_taken (erased d) = slug_taken d"
  by (simp add: slug_taken_def fun_eq_iff)

lemma create_bot_agrees: "agrees id (create_bot fresh now w)"
  unfolding create_bot_def
  by (rule agrees_run_query)
    (auto simp: Let_def slug_taken_erased erased_bots)

lemma update_match_erased [simp]: "update_match i v (erase_row r) = update_match i v r"
  by (simp add: update_match_def)

lemma bot_check_update: "bot_check (apply_update now w (erase_bot b)) = bot_check (apply_update now w b)"
  by (simp add: bot_check_def apply_update_def)

lemma erase_update: "erase_bot (apply_update now w (erase_bot b)) = erase_bot (apply_update now w b)"
  by (simp add: erase_bot_def apply_update_def erase_idem)

lemma update_bot_agrees: "agrees id (update_bot now i w v)"
  unfolding update_bot_def
proof (rule agrees_run_query)
  fix d
  have rows: "map erase_row (map (\<lambda>r. if update_match i v r then r\<lparr>r_bot := apply_update now w (r_bot r)\<rparr> else r) (map erase_row rs)) =
      map erase_row (map (\<lambda>r. if update_match i v r then r\<lparr>r_bot := apply_update now w (r_bot r)\<rparr> else r) rs)" for rs
    by (auto simp: erase_row_def erase_update update_match_def)
  show "map_prod id erased ((\<lambda>d. case first_row (update_match i v) (bots d) of None \<Rightarrow> (Inl VersionMismatch, d)
      | Some r \<Rightarrow> if \<not> bot_check (apply_update now w (r_bot r)) then (Inl CheckViolation, d)
        else if slug_taken d i (b_tenant (r_bot r)) (w_slug w) then (Inl UniqueViolation, d)
        else (Inr (), d\<lparr>bots := map (\<lambda>r. if update_match i v r then r\<lparr>r_bot := apply_update now w (r_bot r)\<rparr> else r) (bots d)\<rparr>)) (erased d)) =
    map_prod id erased ((\<lambda>d. case first_row (update_match i v) (bots d) of None \<Rightarrow> (Inl VersionMismatch, d)
      | Some r \<Rightarrow> if \<not> bot_check (apply_update now w (r_bot r)) then (Inl CheckViolation, d)
        else if slug_taken d i (b_tenant (r_bot r)) (w_slug w) then (Inl UniqueViolation, d)
        else (Inr (), d\<lparr>bots := map (\<lambda>r. if update_match i v r then r\<lparr>r_bot := apply_update now w (r_bot r)\<rparr> else r) (bots d)\<rparr>)) d)"
    using rows [of "bots d"]
    by (auto simp: first_row_mapped comp_def slug_taken_erased bot_check_update erased_bots split: option.split)
qed

lemma soft_delete_agrees: "agrees id (soft_delete_bot i)"
  unfolding soft_delete_bot_def
  by (rule agrees_run_query) (auto simp: erased_bots erase_row_def)

lemma did_writes_agree: "agrees id (add_did now did i note)" "agrees id (remove_did did)"
  unfolding add_did_def remove_did_def
  by (rule agrees_run_query, auto simp: erased_def comp_def image_image)+


section \<open>The handlers\<close>

text \<open>A handler agrees when its queries do and what it goes on to do depends on their results only up to what they agree on.\<close>

lemma agrees_bind:
  assumes "agrees g q" "\<And>r s. g r = g s \<Longrightarrow> k r = k s" "\<And>r. agrees G (k r)"
  shows "agrees G (\<lambda>d. case q d of (r, d) \<Rightarrow> k r d)"
  unfolding agrees_def
proof (intro allI impI)
  fix d e
  assume "erased d = erased e"
  then have q: "g (fst (q d)) = g (fst (q e))" "erased (snd (q d)) = erased (snd (q e))"
    using assms(1) unfolding agrees_def by blast+
  have k: "k (fst (q d)) = k (fst (q e))" using assms(2) [OF q(1)] .
  have "G (fst (k (fst (q e)) (snd (q d)))) = G (fst (k (fst (q e)) (snd (q e)))) \<and>
      erased (snd (k (fst (q e)) (snd (q d)))) = erased (snd (k (fst (q e)) (snd (q e))))"
    using assms(3) q(2) unfolding agrees_def by blast
  then show "G (fst (case q d of (r, d) \<Rightarrow> k r d)) = G (fst (case q e of (r, d) \<Rightarrow> k r d)) \<and>
      erased (snd (case q d of (r, d) \<Rightarrow> k r d)) = erased (snd (case q e of (r, d) \<Rightarrow> k r d))"
    unfolding case_prod_unfold k .
qed

lemma record_audit_erased: "record_audit x t a n k (erased d) = erased (record_audit x t a n k d)"
  by (simp add: record_audit_def erased_def)

lemma agrees_reply: "agrees G (\<lambda>d. (r, d))" "agrees G (\<lambda>d. (r, record_audit x t a n k d))"
proof -
  show "agrees G (\<lambda>d. (r, record_audit x t a n k d))"
    unfolding agrees_def fst_conv snd_conv by (metis record_audit_erased)
qed (simp add: agrees_def)

lemma agrees_if: "(c \<Longrightarrow> agrees G f) \<Longrightarrow> (\<not> c \<Longrightarrow> agrees G h) \<Longrightarrow> agrees G (\<lambda>d. if c then f d else h d)"
  by (cases c) simp_all

text \<open>Two reads of a bot that agree: both failed, both found none, or both found it.\<close>

lemma bot_read_cases:
  assumes "map_sum id (map_option erase_bot) r = map_sum id (map_option erase_bot) s"
  obtains (failed) x where "r = Inl x" "s = Inl x" | (none) "r = Inr None" "s = Inr None"
  | (bot) b c where "r = Inr (Some b)" "s = Inr (Some c)" "erase_bot b = erase_bot c"
  using assms by (cases r; cases s) (auto simp: map_option_case split: option.splits)

lemma same_bot:
  assumes "erase_bot b = erase_bot c"
  shows "b_id b = b_id c" and "b_tenant b = b_tenant c" and "bot_url b = bot_url c" and "asr_endpoint b = asr_endpoint c"
    and "tts_endpoint b = tts_endpoint c" and "bot_detail_of b = bot_detail_of c" and "can_access_bot x b = can_access_bot x c"
proof -
  show "b_id b = b_id c" using arg_cong [OF assms, of b_id] by simp
  show "b_tenant b = b_tenant c" using arg_cong [OF assms, of b_tenant] by simp
  show "bot_url b = bot_url c" using arg_cong [OF assms, of bot_url] by simp
  show "asr_endpoint b = asr_endpoint c" using arg_cong [OF assms, of asr_endpoint] by simp
  show "tts_endpoint b = tts_endpoint c" using arg_cong [OF assms, of tts_endpoint] by simp
  show "bot_detail_of b = bot_detail_of c" using arg_cong [OF assms, of bot_detail_of] by simp
  show "can_access_bot x b = can_access_bot x c" using arg_cong [OF assms, of "can_access_bot x"] by simp
qed

lemma same_bots: "map erase_bot bs = map erase_bot cs \<Longrightarrow> map bot_summary_of bs = map bot_summary_of cs"
  by (drule arg_cong [where f = "map bot_summary_of"]) (simp add: comp_def)

lemma list_reads_cases:
  assumes "map_sum id (map erase_bot) r = map_sum id (map erase_bot) s"
  obtains (failed) x where "r = Inl x" "s = Inl x"
  | (bots) bs cs where "r = Inr bs" "s = Inr cs" "map bot_summary_of bs = map bot_summary_of cs"
proof (cases r)
  case (Inl x)
  with assms failed [of x] show thesis by (cases s) auto
next
  case (Inr bs)
  with assms obtain cs where "s = Inr cs" "map erase_bot bs = map erase_bot cs" by (cases s) auto
  with Inr show thesis using bots same_bots by blast
qed

lemma after_bot_read:
  assumes "\<And>b c. erase_bot b = erase_bot c \<Longrightarrow> k (Inr (Some b)) = k (Inr (Some c))" "\<And>r. agrees G (k r)"
  shows "agrees G (\<lambda>d. case get_bot_by_id i d of (r, d) \<Rightarrow> k r d)"
proof (rule agrees_bind [OF get_bot_agrees])
  show "k r = k s" if "map_sum id (map_option erase_bot) r = map_sum id (map_option erase_bot) s" for r s
    using that
  proof (cases rule: bot_read_cases)
    case (bot b c)
    with assms(1) [OF bot(3)] show ?thesis by simp
  qed simp_all
qed (fact assms(2))

lemma h_list_bots_agrees: "agrees id (h_list_bots x)"
proof (cases "x_id x")
  case None
  then show ?thesis unfolding h_list_bots_def [abs_def] by (simp add: agrees_reply)
next
  case (Some i)
  show ?thesis unfolding h_list_bots_def [abs_def] Some option.case
  proof (rule agrees_bind [OF list_bots_agrees])
    show "agrees id (\<lambda>d. case r of Inl _ \<Rightarrow> (Status 500, d) | Inr bs \<Rightarrow> (Body 200 (map bot_summary_of bs), d))" for r
      by (cases r) (simp_all add: agrees_reply)
  qed (auto elim: list_reads_cases)
qed


text \<open>For a bot, what each handler goes on to do.\<close>

lemma agrees_result:
  "(\<And>x. agrees G (f x)) \<Longrightarrow> (\<And>x. agrees G (h x)) \<Longrightarrow> agrees G (\<lambda>d. case r of Inl x \<Rightarrow> f x d | Inr x \<Rightarrow> h x d)"
  by (cases r) simp_all

lemma agrees_option:
  "agrees G f \<Longrightarrow> (\<And>x. agrees G (h x)) \<Longrightarrow> agrees G (\<lambda>d. case r of None \<Rightarrow> f d | Some x \<Rightarrow> h x d)"
  by (cases r) simp_all

lemmas agrees_cases = agrees_reply agrees_if agrees_result agrees_option

lemma after_query:
  assumes "agrees id q" "\<And>r. agrees G (k r)"
  shows "agrees G (\<lambda>d. case q d of (r, d) \<Rightarrow> k r d)"
  by (rule agrees_bind [OF assms(1)]) (simp_all add: assms(2))

lemma list_dids_id: "agrees id (list_dids i)" and tenant_by_slug_id: "agrees id (get_tenant_by_slug sl)"
  using list_dids_agrees [of i] tenant_by_slug_agrees [of sl] by (simp_all add: sum.map_id0)

lemma same_botE:
  assumes "erase_bot b = erase_bot c"
    and "b_id b = b_id c \<Longrightarrow> b_tenant b = b_tenant c \<Longrightarrow> bot_url b = bot_url c \<Longrightarrow> asr_endpoint b = asr_endpoint c \<Longrightarrow>
      tts_endpoint b = tts_endpoint c \<Longrightarrow> bot_detail_of b = bot_detail_of c \<Longrightarrow> (\<And>x. can_access_bot x b = can_access_bot x c) \<Longrightarrow> P"
  shows P
  using assms(2) same_bot [OF assms(1)] by blast

lemma h_get_bot_agrees: "agrees id (h_get_bot x i)"
  unfolding h_get_bot_def [abs_def]
  by (rule after_bot_read, erule same_botE, simp cong: if_cong sum.case_cong option.case_cong) (intro agrees_cases after_query list_dids_id)

lemma h_list_dids_agrees: "agrees id (h_list_dids x i)"
  unfolding h_list_dids_def [abs_def]
  by (rule after_bot_read, erule same_botE, simp cong: if_cong sum.case_cong option.case_cong) (intro agrees_cases after_query list_dids_id)

lemma h_test_bot_agrees: "agrees id (h_test_bot env x i)"
  unfolding h_test_bot_def [abs_def] Let_def
  by (rule after_bot_read, erule same_botE, simp cong: if_cong sum.case_cong option.case_cong) (intro agrees_cases)

lemma h_delete_bot_agrees: "agrees id (h_delete_bot x i)"
proof (cases "refuse_write x")
  case None
  show ?thesis unfolding h_delete_bot_def [abs_def] None option.case
    by (rule after_bot_read, erule same_botE, simp cong: if_cong sum.case_cong option.case_cong) (intro agrees_cases after_query soft_delete_agrees)
qed (simp add: h_delete_bot_def [abs_def] agrees_reply)

lemma h_remove_did_agrees: "agrees id (h_remove_did x i did)"
proof (cases "refuse_write x")
  case None
  show ?thesis unfolding h_remove_did_def [abs_def] None option.case
    by (rule after_bot_read, erule same_botE, simp cong: if_cong sum.case_cong option.case_cong) (intro agrees_cases after_query did_writes_agree)
qed (simp add: h_remove_did_def [abs_def] agrees_reply)

lemma h_add_did_agrees: "agrees id (h_add_did x i body)"
proof (cases "refuse_write x")
  case None
  show ?thesis
  proof (cases body)
    case (Inr q)
    obtain raw nt where q: "q = (raw, nt)" by fastforce
    show ?thesis unfolding h_add_did_def [abs_def] None option.case Inr q sum.case prod.case Let_def
    proof (rule after_bot_read, erule same_botE, simp cong: if_cong sum.case_cong option.case_cong, intro agrees_cases after_query did_writes_agree)
      show "agrees id (\<lambda>d. case e of DidTaken \<Rightarrow> (Status 409, d) | _ \<Rightarrow> (Status 500, d))" for e
        by (cases e) (simp_all add: agrees_reply)
    qed
  next
    case (Inl e)
    show ?thesis unfolding h_add_did_def [abs_def] None option.case Inl sum.case
      by (rule after_bot_read, erule same_botE, simp cong: if_cong sum.case_cong option.case_cong) (intro agrees_cases)
  qed
qed (simp add: h_add_did_def [abs_def] agrees_reply)


lemma resolve_target_agrees: "agrees id (resolve_target_tenant i q)"
  unfolding resolve_target_tenant_def [abs_def]
  by (intro agrees_cases after_query tenant_by_slug_id)

lemma h_create_bot_agrees: "agrees id (h_create_bot x body)"
proof (cases "x_id x")
  case (Some i)
  show ?thesis unfolding h_create_bot_def [abs_def] Some option.case
    by (intro agrees_cases after_query resolve_target_agrees create_bot_agrees)
qed (simp add: h_create_bot_def [abs_def] agrees_reply)

lemma h_update_bot_agrees: "agrees id (h_update_bot x i body)"
proof (cases "refuse_write x")
  case None
  show ?thesis
  proof (cases body)
    case (Inr q)
    show ?thesis unfolding h_update_bot_def [abs_def] None option.case Inr sum.case
    proof (rule after_bot_read, erule same_botE, simp cong: if_cong sum.case_cong option.case_cong,
        intro agrees_cases after_query update_bot_agrees)
      show "agrees id (\<lambda>d. case e of VersionMismatch \<Rightarrow> (Status 409, d) | _ \<Rightarrow> (Status 500, d))" for e
        by (cases e) (simp_all add: agrees_reply)
    qed
  next
    case (Inl e)
    show ?thesis unfolding h_update_bot_def [abs_def] None option.case Inl sum.case
      by (rule after_bot_read, erule same_botE, simp cong: if_cong sum.case_cong option.case_cong) (intro agrees_cases)
  qed
qed (simp add: h_update_bot_def [abs_def] agrees_reply)

lemma agrees_answer: "agrees id h \<Longrightarrow> agrees id (\<lambda>d. map_prod f id (h d))"
  unfolding agrees_def fst_map_prod snd_map_prod by (metis id_apply)

lemma answer_agrees: "agrees id (answer_of x c)"
proof (cases c)
  case (BotsOp op)
  then show ?thesis
    by (cases op) (simp_all only: answer_of.simps [abs_def], simp_all add: agrees_answer h_list_bots_agrees h_get_bot_agrees
      h_create_bot_agrees h_update_bot_agrees h_delete_bot_agrees h_list_dids_agrees h_add_did_agrees h_remove_did_agrees)
next
  case (TestBot env i)
  then show ?thesis by (simp only: answer_of.simps [abs_def]) (rule agrees_answer [OF h_test_bot_agrees])
qed

section \<open>Secrecy\<close>

text \<open>Equal but for the tokens, and those only as far as their masks show.\<close>

definition row_masked :: "bot_row \<Rightarrow> bot_row \<times> gostring \<times> gostring" where
  "row_masked r = (r\<lparr>r_bot := (r_bot r)\<lparr>asr_token := [], tts_token := []\<rparr>\<rparr>,
     mask_token (asr_token (r_bot r)), mask_token (tts_token (r_bot r)))"

definition differ_in_tokens :: "db \<Rightarrow> db \<Rightarrow> bool" where
  "differ_in_tokens d e \<longleftrightarrow> d\<lparr>bots := []\<rparr> = e\<lparr>bots := []\<rparr> \<and> map row_masked (bots d) = map row_masked (bots e)"

lemma row_masked_erase: "row_masked r = row_masked s \<Longrightarrow> erase_row r = erase_row s"
proof -
  assume m: "row_masked r = row_masked s"
  then have t: "erase_token (asr_token (r_bot r)) = erase_token (asr_token (r_bot s))"
      "erase_token (tts_token (r_bot r)) = erase_token (tts_token (r_bot s))"
    by (simp_all add: row_masked_def erase_mask_eq)
  have "erase_row r = (fst (row_masked r))\<lparr>r_bot := (r_bot (fst (row_masked r)))
      \<lparr>asr_token := erase_token (asr_token (r_bot r)), tts_token := erase_token (tts_token (r_bot r))\<rparr>\<rparr>" for r
    by (simp add: erase_row_def erase_bot_def row_masked_def)
  with m t show ?thesis by simp
qed

lemma differ_erased: "differ_in_tokens d e \<Longrightarrow> erased d = erased e"
proof -
  assume m: "differ_in_tokens d e"
  then have rest: "d\<lparr>bots := []\<rparr> = e\<lparr>bots := []\<rparr>" and masked: "map row_masked (bots d) = map row_masked (bots e)"
    by (simp_all only: differ_in_tokens_def)
  have "map erase_row (bots d) = map erase_row (bots e)"
    using map_eq_imp_length_eq [OF masked] masked row_masked_erase by (metis (no_types, lifting) nth_equalityI length_map nth_map)
  moreover have "erased d = (d\<lparr>bots := []\<rparr>)\<lparr>bots := map erase_row (bots d)\<rparr>" for d by (simp add: erased_def)
  ultimately show ?thesis by (metis rest)
qed

text \<open>C5: 
  Plaintext tokens never leave the server: two databases that differ only in stored tokens, and there not in
  their masks, answer every sequence of requests to the bot API, by any callers, the same.
\<close>

theorem tokens_never_leave:
  assumes "differ_in_tokens d e"
  shows "answers_of cs d = answers_of cs e"
proof -
  have "answers_of cs d = answers_of cs e" if "erased d = erased e" for d e
    using that
  proof (induction cs arbitrary: d e)
    case (Cons y cs)
    obtain x c where y: "y = (x, c)" by fastforce
    obtain a d' b e' where r: "answer_of x c d = (a, d')" "answer_of x c e = (b, e')" by fastforce
    from agreesD [OF answer_agrees Cons.prems r] have "a = b" "erased d' = erased e'" by simp_all
    with Cons.IH [of d' e'] show ?case by (simp add: y r)
  qed simp
  with differ_erased [OF assms] show ?thesis by blast
qed


section \<open>Witness\<close>

text \<open>The same bots, one of them with another token that ends alike.\<close>

definition demo_other :: db where
  "demo_other = demo_bots\<lparr>bots := [(demo_row ''b1'' ''t1'')\<lparr>r_bot := (r_bot (demo_row ''b1'' ''t1''))\<lparr>asr_token := ''other-cret''\<rparr>\<rparr>,
     demo_row ''b2'' ''t2'']\<rparr>"

lemma demo_differ: "differ_in_tokens demo_bots demo_other"
proof -
  have m: "mask_token ''other-cret'' = mask_token ''asrsecret''" by (simp add: mask_token_def last_n_def)
  have "row_masked ((demo_row ''b1'' ''t1'')\<lparr>r_bot := (r_bot (demo_row ''b1'' ''t1''))\<lparr>asr_token := ''other-cret''\<rparr>\<rparr>) =
      row_masked (demo_row ''b1'' ''t1'')"
    unfolding row_masked_def by (simp add: demo_row_eval m)
  then show ?thesis by (simp add: differ_in_tokens_def demo_other_def demo_bots_def)
qed

theorem tokens_never_leave_witness:
  "asr_token (r_bot (hd (bots demo_bots))) \<noteq> asr_token (r_bot (hd (bots demo_other))) \<and>
   answers_of [(demo_admin, BotsOp OpList), (demo_admin, BotsOp (OpGet ''b1''))] demo_bots =
   answers_of [(demo_admin, BotsOp OpList), (demo_admin, BotsOp (OpGet ''b1''))] demo_other"
  using tokens_never_leave [OF demo_differ] by (simp add: demo_other_def demo_bots_def demo_row_eval)

end
