(* ===== verification/CallFlow.thy ===== *)
theory CallFlow
  imports ApiDial Providers BotsProps CallStore
begin

text \<open>
  Phone calls from end to end: the park handler (\<open>internal/pipeline/inbound.go\<close>), dialling by a request and by a
  campaign with the answer and hang-up handlers (\<open>outbound.go\<close>), the runs they start (\<open>session_runner.go\<close>) and the
  records these write (\<open>internal/store/postgres.go\<close>), interleaved with the bot API on the same database.  The
  models of these parts are lifted to one state that they share.
\<close>

section \<open>The shared state\<close>

text \<open>
  Why a call exists: a park event, with the number and the database it met; an accepted request
  with its caller; a campaign, with the bot it was created with.  The log of them is a history variable.
\<close>

datatype origin = Parked gostring gostring db | Requested gostring "identity option" | ByCampaign gostring bot_config

text \<open>\<open>ph_held\<close>: the bots that the originate functions of campaigns hold.\<close>

record phones =
  ph_db :: db
  ph_reg :: registry
  ph_sessions :: "gostring set"
  ph_pending :: "gostring \<rightharpoonup> pending_call"
  ph_running :: "run_opts list"
  ph_held :: "bot_config list"
  ph_log :: "origin list"

definition as_inbound :: "phones \<Rightarrow> inbound" where
  "as_inbound p = \<lparr>ib_db = ph_db p, ib_reg = ph_reg p, ib_sessions = ph_sessions p, ib_runs = ph_running p\<rparr>"

definition with_inbound :: "inbound \<Rightarrow> phones \<Rightarrow> phones" where
  "with_inbound s p = p\<lparr>ph_db := ib_db s, ph_reg := ib_reg s, ph_sessions := ib_sessions s, ph_running := ib_runs s\<rparr>"

definition as_outbound :: "phones \<Rightarrow> outbound" where
  "as_outbound p = \<lparr>ob_pending = ph_pending p, ob_sessions = ph_sessions p\<rparr>"

definition with_outbound :: "outbound \<Rightarrow> phones \<Rightarrow> phones" where
  "with_outbound ob p = p\<lparr>ph_pending := ob_pending ob, ph_sessions := ob_sessions ob\<rparr>"

text \<open>What a finished run hands to the store.\<close>

definition inserted :: "run_fx list \<Rightarrow> call_record list" where
  "inserted tr = concat (map (\<lambda>x. case x of FxInsert r \<Rightarrow> [r] | _ \<Rightarrow> []) tr)"

definition started :: "ob_fx list \<Rightarrow> run_opts list" where
  "started fs = concat (map (\<lambda>x. case x of StartRun o' \<Rightarrow> [o'] | _ \<Rightarrow> []) fs)"

definition store_calls :: "call_record list \<Rightarrow> db \<Rightarrow> db" where
  "store_calls rs d = fold (\<lambda>r d. snd (insert_call r d)) rs d"

text \<open>The end of a run: it leaves the session manager, and the pending calls if it was dialled; then its record is written.\<close>

definition end_run :: "nat \<Rightarrow> run_fx list \<Rightarrow> phones \<Rightarrow> phones" where
  "end_run i tr p =
     (let o' = ph_running p ! i;
          p = p\<lparr>ph_running := take i (ph_running p) @ drop (Suc i) (ph_running p)\<rparr>;
          p = (if has_on_end o' then with_outbound (fst (session_end (ro_uuid o') (as_outbound p))) p
               else with_inbound (run_leaves (ro_uuid o') (as_inbound p)) p)
      in p\<lparr>ph_db := store_calls (inserted tr) (ph_db p)\<rparr>)"

text \<open>Every interleaving of the goroutines; the command of a request is awaited within its step.\<close>

inductive phone_step :: "phones \<Rightarrow> phones \<Rightarrow> bool" where
  park: "phone_step p ((with_inbound (on_park dial wired now h (as_inbound p)) p)
    \<lparr>ph_log := ph_log p @ [Parked (h ''Unique-Id'') (pick_inbound_dest h) (ph_db p)]\<rparr>)"
| request: "h_originate up dt dc perr u esl x body (ph_db p, as_outbound p) = (r, d, ob) \<Longrightarrow>
    phone_step p ((with_outbound ob p)\<lparr>ph_db := d, ph_log := ph_log p @ [Requested u (x_id x)]\<rparr>)"
| campaign: "resolve_campaign_bot up dt dbot c (ph_db p) = (Inr (Some b), d) \<Longrightarrow>
    phone_step p (p\<lparr>ph_db := d, ph_held := b # ph_held p\<rparr>)"
| campaign_dials: "b \<in> set (ph_held p) \<Longrightarrow> oo_bot opts = Some b \<Longrightarrow>
    originate_begin True perr u opts (as_outbound p) = (r, ob) \<Longrightarrow>
    phone_step p ((with_outbound ob p)\<lparr>ph_log := ph_log p @ [ByCampaign u b]\<rparr>)"
| dialled: "originate_end u err (as_outbound p) = (r, ob, fs) \<Longrightarrow> phone_step p (with_outbound ob p)"
| answered: "on_answer u now (as_outbound p) = (ob, fs) \<Longrightarrow>
    phone_step p ((with_outbound ob p)\<lparr>ph_running := ph_running p @ started fs\<rparr>)"
| hung_up: "on_hangup u cause (as_outbound p) = (ob, fs) \<Longrightarrow> phone_step p (with_outbound ob p)"
| enters: "o' \<in> set (ph_running p) \<Longrightarrow> phone_step p (p\<lparr>ph_sessions := insert (ro_uuid o') (ph_sessions p)\<rparr>)"
| ends: "i < length (ph_running p) \<Longrightarrow> run_call env (ph_running p ! i) = Some (tr, err) \<Longrightarrow> phone_step p (end_run i tr p)"
| bots_api: "bots_request (ph_db p) d \<Longrightarrow> phone_step p (p\<lparr>ph_db := d\<rparr>)"
| archived: "set_recording_url k url (ph_db p) = (r, d) \<Longrightarrow> phone_step p (p\<lparr>ph_db := d\<rparr>)"
| elsewhere: "bots d = bots (ph_db p) \<Longrightarrow> dids d = dids (ph_db p) \<Longrightarrow> tenants d = tenants (ph_db p) \<Longrightarrow> calls d = calls (ph_db p) \<Longrightarrow>
    phone_step p (p\<lparr>ph_db := d\<rparr>)"

definition phones_start :: "phones \<Rightarrow> bool" where
  "phones_start p \<longleftrightarrow> bots_ok (ph_db p) \<and> calls (ph_db p) = [] \<and> ph_pending p = Map.empty \<and> ph_running p = [] \<and> ph_held p = [] \<and>
     ph_log p = []"

section \<open>Owners and origins\<close>

text \<open>The bot is one of the tables, and has its tenant there.\<close>

definition owned :: "db \<Rightarrow> bot_config \<Rightarrow> bool" where
  "owned d b \<longleftrightarrow> (b_id b, b_tenant b) \<in> (\<lambda>r. (b_id (r_bot r), b_tenant (r_bot r))) ` set (bots d)"

text \<open>The event gives a call to a bot.\<close>

fun gives_to :: "gostring \<Rightarrow> bot_config \<Rightarrow> origin \<Rightarrow> bool" where
  "gives_to u b (Parked v n d) \<longleftrightarrow> v = u \<and> fst (get_bot_by_did n d) = Inr (Some b)"
| "gives_to u b (Requested v x) \<longleftrightarrow> v = u \<and> (\<exists>i. x = Some i \<and> (is_platform_admin i \<or> i_tenant i = Some (b_tenant b)))"
| "gives_to u b (ByCampaign v b') \<longleftrightarrow> v = u \<and> b' = b"

definition given :: "phones \<Rightarrow> gostring \<Rightarrow> bot_config \<Rightarrow> bool" where
  "given p u b \<longleftrightarrow> owned (ph_db p) b \<and> (\<exists>e\<in>set (ph_log p). gives_to u b e)"

definition phones_ok :: "phones \<Rightarrow> bool" where
  "phones_ok p \<longleftrightarrow> bots_ok (ph_db p) \<and>
     (\<forall>o'\<in>set (ph_running p). \<exists>b. ro_bot o' = Some b \<and> given p (ro_uuid o') b) \<and>
     (\<forall>u pc. ph_pending p u = Some pc \<longrightarrow> given p u (pend_bot pc)) \<and>
     (\<forall>b\<in>set (ph_held p). owned (ph_db p) b) \<and>
     (\<forall>c\<in>set (calls (ph_db p)). \<exists>b. cr_bot (c_rec c) = Some (b_id b) \<and> cr_tenant (c_rec c) = Some (b_tenant b) \<and>
        given p (cr_call_id (c_rec c)) b)"

section \<open>What the steps of the database keep\<close>

lemma owned_cong: "bots d' = bots d \<Longrightarrow> owned d' b = owned d b"
  by (simp add: owned_def)

lemma ownedI: "r \<in> set (bots d) \<Longrightarrow> b_id (r_bot r) = b_id b \<Longrightarrow> b_tenant (r_bot r) = b_tenant b \<Longrightarrow> owned d b"
  by (force simp: owned_def)

text \<open>No request to the bot API takes a bot out of the tables or gives it another tenant, and none touches the calls.\<close>

lemma bots_request_owned:
  assumes "bots_request d d'" "owned d b"
  shows "owned d' b"
proof -
  from assms(1) obtain x op st where s: "bots_step x op d = (st, d')" by (auto simp: bots_request_def)
  from assms(2) obtain r where r: "r \<in> set (bots d)" "b_id (r_bot r) = b_id b" "b_tenant (r_bot r) = b_tenant b"
    by (auto simp: owned_def)
  from s show ?thesis
  proof (cases rule: bots_step_cases)
    case (updated i q c v w row)
    let ?r = "if update_match i v r then r\<lparr>r_bot := apply_update (x_now x) w (r_bot r)\<rparr> else r"
    have "?r \<in> set (bots d')" using updated r(1) by (simp add: updated_bots_def)
    then show ?thesis by (rule ownedI) (simp_all add: r(2,3))
  next
    case (deleted i c)
    let ?r = "if b_id (r_bot r) = i then r\<lparr>r_deleted := True\<rparr> else r"
    have "?r \<in> set (bots d')" using deleted r(1) by (simp add: deleted_bots_def)
    then show ?thesis by (rule ownedI) (simp_all add: r(2,3))
  qed (use r in \<open>auto intro: ownedI\<close>)
qed

lemma audit_calls [simp]: "calls (record_audit x t a n k d) = calls d"
  by (simp add: record_audit_def)

lemma bots_step_calls:
  assumes "bots_step x op d = (st, d')"
  shows "calls d' = calls d"
proof (cases op)
  case OpList
  with assms obtain r where "h_list_bots x d = (r, d')" by (auto dest: map_prod_eqD)
  from h_list_bots_frame [OF this] show ?thesis by auto
next
  case (OpGet i)
  with assms obtain r where "h_get_bot x i d = (r, d')" by (auto dest: map_prod_eqD)
  from h_get_bot_frame [OF this] show ?thesis by auto
next
  case (OpDids i)
  with assms obtain r where "h_list_dids x i d = (r, d')" by (auto dest: map_prod_eqD)
  from h_list_dids_frame [OF this] show ?thesis by auto
next
  case (OpCreate q)
  with assms obtain r where "h_create_bot x q d = (r, d')" by (auto dest: map_prod_eqD)
  then show ?thesis by (cases rule: h_create_bot_cases) auto
next
  case (OpUpdate i q)
  with assms obtain r where "h_update_bot x i q d = (r, d')" by (auto dest: map_prod_eqD)
  then show ?thesis
  proof (cases rule: h_update_bot_cases)
    case (updated b q v w fs d2)
    from updated(6) have "calls d2 = calls d" by (cases rule: update_bot_cases) auto
    with updated show ?thesis by simp
  qed auto
next
  case (OpDelete i)
  with assms obtain r where "h_delete_bot x i d = (r, d')" by (auto dest: map_prod_eqD)
  then show ?thesis by (cases rule: h_delete_bot_cases) auto
next
  case (OpAddDid i q)
  with assms obtain r where "h_add_did x i q d = (r, d')" by (auto dest: map_prod_eqD)
  then show ?thesis by (cases rule: h_add_did_cases) auto
next
  case (OpDelDid i did)
  with assms obtain r where "h_remove_did x i did d = (r, d')" by (auto dest: map_prod_eqD)
  then show ?thesis by (cases rule: h_remove_did_cases) auto
qed

lemma bots_request_calls: "bots_request d d' \<Longrightarrow> calls d' = calls d"
  using bots_step_calls by (auto simp: bots_request_def)

text \<open>A bot that was read is one of the tables.\<close>

lemma scanned_owned: "r \<in> set (bots d) \<Longrightarrow> scan_bot d r = Some b \<Longrightarrow> owned d b"
  by (erule ownedI) (simp_all add: scan_bot_fields)

lemma bot_by_did_owned: "get_bot_by_did n d = (Inr (Some b), d') \<Longrightarrow> owned d b"
  by (erule get_bot_by_did_Some) (blast dest: live_botD intro: scanned_owned)

lemma bot_by_id_owned: "get_bot_by_id i d = (Inr (Some b), d') \<Longrightarrow> owned d b"
  by (drule get_bot_by_id_live) (blast dest: live_botD intro: scanned_owned)

lemma bot_by_slug_owned:
  assumes "get_bot_by_slug t sl d = (Inr (Some b), d')"
  shows "owned d b"
proof -
  have "Option.bind (first_row (\<lambda>r. b_tenant (r_bot r) = t \<and> b_slug (r_bot r) = sl \<and> \<not> r_deleted r) (bots d)) (scan_bot d) = Some b"
    by (rule fetch_ok [OF assms [unfolded get_bot_by_slug_def], symmetric]) simp
  then show ?thesis by (auto simp: bind_eq_Some_conv dest!: first_row_SomeD intro: scanned_owned)
qed

text \<open>A read changes nothing but the script of faults.\<close>

definition only_read :: "db \<Rightarrow> db \<Rightarrow> bool" where
  "only_read d d' \<longleftrightarrow> (\<exists>fs. d' = d\<lparr>faults := fs\<rparr>)"

lemma only_read_tables: "only_read d d' \<Longrightarrow> bots d' = bots d \<and> dids d' = dids d \<and> tenants d' = tenants d \<and> calls d' = calls d"
  by (auto simp: only_read_def)

lemma only_read_refl [simp]: "only_read d d"
  unfolding only_read_def by (rule exI [of _ "faults d"]) simp

lemma only_read_trans: "only_read d e \<Longrightarrow> only_read e f \<Longrightarrow> only_read d f"
  by (auto simp: only_read_def)

lemma reads:
  "get_bot_by_did n d = (r, d') \<Longrightarrow> only_read d d'" "get_bot_by_id i d = (r, d') \<Longrightarrow> only_read d d'"
  "get_bot_by_slug t sl d = (r, d') \<Longrightarrow> only_read d d'" "get_tenant_by_slug sl d = (s, d') \<Longrightarrow> only_read d d'"
  unfolding only_read_def get_bot_by_did_def get_bot_by_id_def get_bot_by_slug_def get_tenant_by_slug_def
  by (auto dest!: fetch_frame)

lemma slugs_read: "bot_by_slugs ts bs d = (r, d') \<Longrightarrow> only_read d d' \<and> (\<forall>b. r = Inr (Some b) \<longrightarrow> owned d b)"
proof -
  assume a: "bot_by_slugs ts bs d = (r, d')"
  obtain y e where g: "get_tenant_by_slug ts d = (y, e)" by fastforce
  then have e: "only_read d e" by (rule reads)
  show ?thesis
  proof (cases "\<exists>t. y = Inr (Some t)")
    case True
    then obtain t where t: "y = Inr (Some t)" by blast
    have "get_bot_by_slug (t_id t) bs e = (r, d')" using a g t by (simp add: bot_by_slugs_def)
    moreover from this have "only_read d d'" using e reads(3) only_read_trans by blast
    ultimately show ?thesis using bot_by_slug_owned owned_cong only_read_tables [OF e] by metis
  next
    case False
    then show ?thesis using a g e by (auto simp: bot_by_slugs_def split: sum.splits option.splits)
  qed
qed

lemma dial_bot_read:
  assumes "resolve_dial_bot up dt c d = (r, d')"
  shows "only_read d d' \<and> (\<forall>b. r = Inr (Some b) \<longrightarrow> owned d b)"
  using assms by (auto simp: resolve_dial_bot_def Let_def split: if_splits option.splits dest: reads bot_by_id_owned slugs_read)

lemma campaign_bot_read:
  assumes "resolve_campaign_bot up dt dbot c d = (Inr (Some b), d')"
  shows "only_read d d' \<and> owned d b"
proof (cases "bc_id c = []")
  case False
  with assms show ?thesis by (auto simp: resolve_campaign_bot_def split: option.splits dest: reads bot_by_id_owned)
next
  case True
  let ?ts = "if bc_tenant c = [] then dt else bc_tenant c"
  let ?bs = "if bc_slug c \<noteq> [] then bc_slug c else if bc_scenario c \<noteq> [] then bc_scenario c else dbot"
  have "?ts \<noteq> [] \<and> ?bs \<noteq> []"
    using assms True unfolding resolve_campaign_bot_def Let_def by (metis (no_types, lifting) Inl_Inr_False prod.inject)
  moreover obtain y e where g: "get_tenant_by_slug ?ts d = (y, e)" by fastforce
  ultimately have "bot_by_slugs ?ts ?bs d = (Inr (Some b), d')"
    using assms True unfolding resolve_campaign_bot_def bot_by_slugs_def Let_def g
    by (auto split: sum.splits option.splits if_splits)
  then show ?thesis using slugs_read by blast
qed

section \<open>What is written\<close>

text \<open>The record of a run has its identifier and the bot and the tenant of its options.\<close>

lemma inserted_record:
  assumes "run_call env opts = Some (tr, err)" "r \<in> set (inserted tr)"
  shows "cr_call_id r = ro_uuid opts \<and> cr_bot r = map_option b_id (ro_bot opts) \<and> cr_tenant r = map_option b_tenant (ro_bot opts)"
  using assms(1)
proof (cases rule: run_call_cases)
  case (1 did defers fin p)
  have quiet: "FxInsert r \<notin> set did" "FxInsert r \<notin> set defers" using 1(1) by (auto simp: setup_fx_def)
  have "FxInsert r \<in> set tr" using assms(2) by (auto simp: inserted_def split: run_fx.splits)
  then have "r = build_call_record (fill_run_opts (re_now env) opts) p err (re_now env)"
    using quiet 1(2,3) by (auto simp: run_deferred_def split: if_splits)
  then show ?thesis by (simp add: build_call_record_def fill_run_opts_def Let_def)
qed

lemma started_run: "o' \<in> set (started fs) \<longleftrightarrow> StartRun o' \<in> set fs"
  by (auto simp: started_def split: ob_fx.splits)

text \<open>An upsert leaves every call with what the new record says, or with what it had.\<close>

lemma insert_call_calls:
  assumes "insert_call r d = (x, d')" "cr_tenant r = Some t" "cr_bot r = Some b" "c \<in> set (calls d')"
  shows "(\<exists>c0\<in>set (calls d). cr_call_id (c_rec c) = cr_call_id (c_rec c0) \<and> cr_bot (c_rec c) = cr_bot (c_rec c0) \<and>
      cr_tenant (c_rec c) = cr_tenant (c_rec c0)) \<or>
    cr_call_id (c_rec c) = cr_call_id r \<and> cr_bot (c_rec c) = cr_bot r \<and> cr_tenant (c_rec c) = cr_tenant r"
  using assms(1) [unfolded insert_call_def]
proof (cases rule: run_query_cases)
  case (fault e fs)
  with assms(4) show ?thesis by auto
next
  case (runs fs)
  with assms(2-4) show ?thesis by (auto simp: merge_call_def coalesce_def split: if_splits)
qed

lemma insert_call_tables:
  assumes "insert_call r d = (x, d')"
  shows "bots d' = bots d \<and> dids d' = dids d \<and> tenants d' = tenants d"
  using assms [unfolded insert_call_def] by (cases rule: run_query_cases) (auto split: if_splits)

lemma set_url_calls:
  assumes "set_recording_url k url d = (x, d')"
  shows "bots d' = bots d \<and> dids d' = dids d \<and> tenants d' = tenants d \<and> map c_rec (calls d') = map c_rec (calls d)"
  using assms [unfolded set_recording_url_def] by (cases rule: run_query_cases) (auto simp: comp_def if_distrib)

lemma store_calls_tables: "bots (store_calls rs d) = bots d \<and> dids (store_calls rs d) = dids d \<and> tenants (store_calls rs d) = tenants d"
proof (induction rs arbitrary: d)
  case (Cons r rs)
  then show ?case using insert_call_tables [of r d] by (cases "insert_call r d") (simp add: store_calls_def)
qed (simp add: store_calls_def)

lemma store_calls_calls:
  assumes "\<And>r. r \<in> set rs \<Longrightarrow> cr_call_id r = u \<and> cr_bot r = Some b \<and> cr_tenant r = Some t" "c \<in> set (calls (store_calls rs d))"
  shows "(\<exists>c0\<in>set (calls d). cr_call_id (c_rec c) = cr_call_id (c_rec c0) \<and> cr_bot (c_rec c) = cr_bot (c_rec c0) \<and>
      cr_tenant (c_rec c) = cr_tenant (c_rec c0)) \<or>
    cr_call_id (c_rec c) = u \<and> cr_bot (c_rec c) = Some b \<and> cr_tenant (c_rec c) = Some t"
  using assms
proof (induction rs arbitrary: d)
  case (Cons r rs)
  obtain x e where i: "insert_call r d = (x, e)" by fastforce
  have r: "cr_call_id r = u" "cr_bot r = Some b" "cr_tenant r = Some t" using Cons.prems(1) by auto
  have "c \<in> set (calls (store_calls rs e))" using Cons.prems(2) i by (simp add: store_calls_def)
  with Cons.IH [of e] Cons.prems(1) consider
      c0 where "c0 \<in> set (calls e)" "cr_call_id (c_rec c) = cr_call_id (c_rec c0)" "cr_bot (c_rec c) = cr_bot (c_rec c0)"
        "cr_tenant (c_rec c) = cr_tenant (c_rec c0)"
    | "cr_call_id (c_rec c) = u" "cr_bot (c_rec c) = Some b" "cr_tenant (c_rec c) = Some t" by auto
  then show ?case
  proof cases
    case 1
    with insert_call_calls [OF i r(3,2) 1(1)] r show ?thesis by auto
  qed auto
qed (auto simp: store_calls_def)

section \<open>The invariant\<close>

lemma givenD: "given p u b \<Longrightarrow> owned (ph_db p) b"
  by (simp add: given_def)

text \<open>A step may take away, and add what is given: the database keeps its bots, the log grows.\<close>

definition grows :: "phones \<Rightarrow> phones \<Rightarrow> bool" where
  "grows p q \<longleftrightarrow> (\<forall>b. owned (ph_db p) b \<longrightarrow> owned (ph_db q) b) \<and> set (ph_log p) \<subseteq> set (ph_log q)"

lemma given_grows: "grows p q \<Longrightarrow> given p u b \<Longrightarrow> given q u b"
  by (auto simp: grows_def given_def)

definition same_call :: "call_row \<Rightarrow> call_row \<Rightarrow> bool" where
  "same_call c c0 \<longleftrightarrow> cr_call_id (c_rec c) = cr_call_id (c_rec c0) \<and> cr_bot (c_rec c) = cr_bot (c_rec c0) \<and>
     cr_tenant (c_rec c) = cr_tenant (c_rec c0)"

lemma phones_okI:
  assumes "phones_ok p" "grows p q" "bots_ok (ph_db q)"
    and "\<And>o'. o' \<in> set (ph_running q) \<Longrightarrow> o' \<in> set (ph_running p) \<or> (\<exists>b. ro_bot o' = Some b \<and> given q (ro_uuid o') b)"
    and "\<And>u pc. ph_pending q u = Some pc \<Longrightarrow> (\<exists>pc0. ph_pending p u = Some pc0 \<and> pend_bot pc0 = pend_bot pc) \<or> given q u (pend_bot pc)"
    and "\<And>b. b \<in> set (ph_held q) \<Longrightarrow> b \<in> set (ph_held p) \<or> owned (ph_db q) b"
    and "\<And>c. c \<in> set (calls (ph_db q)) \<Longrightarrow> (\<exists>c0\<in>set (calls (ph_db p)). same_call c c0) \<or>
      (\<exists>b. cr_bot (c_rec c) = Some (b_id b) \<and> cr_tenant (c_rec c) = Some (b_tenant b) \<and> given q (cr_call_id (c_rec c)) b)"
  shows "phones_ok q"
  unfolding phones_ok_def
proof (intro conjI ballI allI impI)
  note up = given_grows [OF assms(2)]
  show "bots_ok (ph_db q)" by (rule assms(3))
  show "\<exists>b. ro_bot o' = Some b \<and> given q (ro_uuid o') b" if "o' \<in> set (ph_running q)" for o'
    using assms(4) [OF that] assms(1) up unfolding phones_ok_def by blast
  show "given q u (pend_bot pc)" if "ph_pending q u = Some pc" for u pc
    using assms(5) [OF that] assms(1) up unfolding phones_ok_def by metis
  show "owned (ph_db q) b" if "b \<in> set (ph_held q)" for b
    using assms(6) [OF that] assms(1,2) unfolding phones_ok_def grows_def by blast
  show "\<exists>b. cr_bot (c_rec c) = Some (b_id b) \<and> cr_tenant (c_rec c) = Some (b_tenant b) \<and> given q (cr_call_id (c_rec c)) b"
    if "c \<in> set (calls (ph_db q))" for c
    using assms(7) [OF that] assms(1) up unfolding phones_ok_def same_call_def by metis
qed

lemma same_call_refl [simp]: "same_call c c"
  by (simp add: same_call_def)

lemma call_stays: "c \<in> C \<Longrightarrow> \<exists>c0\<in>C. same_call c c0"
  using same_call_refl by blast

text \<open>Where the tables of bots and calls stay.\<close>

definition same_tables :: "db \<Rightarrow> db \<Rightarrow> bool" where
  "same_tables d e \<longleftrightarrow> bots e = bots d \<and> dids e = dids d \<and> tenants e = tenants d \<and> calls e = calls d"

lemma read_same: "only_read d e \<Longrightarrow> same_tables d e"
  by (auto simp: same_tables_def only_read_def)

lemma same_tables_refl [simp]: "same_tables d d"
  by (simp add: same_tables_def)

lemma phones_okI_same:
  assumes "phones_ok p" "same_tables (ph_db p) (ph_db q)" "set (ph_log p) \<subseteq> set (ph_log q)"
    and "\<And>o'. o' \<in> set (ph_running q) \<Longrightarrow> o' \<in> set (ph_running p) \<or> (\<exists>b. ro_bot o' = Some b \<and> given q (ro_uuid o') b)"
    and "\<And>u pc. ph_pending q u = Some pc \<Longrightarrow> (\<exists>pc0. ph_pending p u = Some pc0 \<and> pend_bot pc0 = pend_bot pc) \<or> given q u (pend_bot pc)"
    and "\<And>b. b \<in> set (ph_held q) \<Longrightarrow> b \<in> set (ph_held p) \<or> owned (ph_db q) b"
  shows "phones_ok q"
proof (rule phones_okI [OF assms(1) _ _ assms(4-6)])
  show "grows p q" using assms(2,3) by (simp add: grows_def same_tables_def owned_def)
  show "bots_ok (ph_db q)" using assms(1,2) bots_ok_cong [of "ph_db q" "ph_db p"] by (simp add: phones_ok_def same_tables_def)
  show "c \<in> set (calls (ph_db q)) \<Longrightarrow> (\<exists>c0\<in>set (calls (ph_db p)). same_call c c0) \<or>
      (\<exists>b. cr_bot (c_rec c) = Some (b_id b) \<and> cr_tenant (c_rec c) = Some (b_tenant b) \<and> given q (cr_call_id (c_rec c)) b)" for c
    using assms(2) same_call_refl by (metis same_tables_def)
qed assumption+

section \<open>The steps\<close>

lemma on_park_cases:
  assumes "on_park dial wired now h s = s'"
  obtains (ignored) "only_read (ib_db s) (ib_db s')" "ib_runs s' = ib_runs s" "ib_sessions s' = ib_sessions s"
  | (accepted) b where "fst (get_bot_by_did (pick_inbound_dest h) (ib_db s)) = Inr (Some b)" "only_read (ib_db s) (ib_db s')"
      "ib_runs s' = ib_runs s @ [inbound_opts (h ''Unique-Id'') (h ''Caller-Caller-Id-Number'') now b]" "ib_sessions s' = ib_sessions s"
proof -
  obtain y d where g: "get_bot_by_did (pick_inbound_dest h) (ib_db s) = (y, d)" by fastforce
  note r = reads(1) [OF g]
  show thesis
  proof (cases "\<exists>b c e. h ''Unique-Id'' \<noteq> [] \<and> wired \<and> h ''Unique-Id'' \<notin> ib_sessions s \<and> y = Inr (Some b) \<and>
      providers_for dial (Some b) (ib_reg s) = (Inr c, e)")
    case True
    then show thesis using g r assms by (auto simp: on_park_def Let_def intro!: accepted)
  next
    case False
    then have "s' = s \<or> (\<exists>e. s' = s\<lparr>ib_db := d, ib_reg := e\<rparr>) \<or> s' = s\<lparr>ib_db := d\<rparr>" using g assms
      by (auto simp: on_park_def Let_def split: sum.splits option.splits prod.splits if_splits)
    then show thesis using r by (intro ignored) auto
  qed
qed

lemma originate_begin_pending:
  assumes "originate_begin reg perr u opts ob = (r, ob')" "ob_pending ob' v = Some pc"
  shows "ob_pending ob v = Some pc \<or> v = u \<and> oo_bot opts = Some (pend_bot pc)"
  using assms by (auto simp: originate_begin_def pend_store_def Let_def split: option.splits if_splits)

lemma originate_begin_sessions: "originate_begin reg perr u opts ob = (r, ob') \<Longrightarrow> ob_sessions ob' = ob_sessions ob"
  by (auto simp: originate_begin_def pend_store_def Let_def split: option.splits if_splits)

lemma h_originate_effect:
  assumes "h_originate up dt dc perr u esl x body (d, ob) = (r, d', ob')"
  shows "only_read d d' \<and> (\<forall>v pc. ob_pending ob' v = Some pc \<longrightarrow> ob_pending ob v = Some pc \<or>
    v = u \<and> owned d (pend_bot pc) \<and> gives_to u (pend_bot pc) (Requested u (x_id x)))"
proof (cases "\<exists>i q b. x_id x = Some i \<and> body = Inr q \<and> dr_phone q \<noteq> [] \<and>
    fst (resolve_dial_bot up dt (dr_choice q) d) = Inr (Some b) \<and> (is_platform_admin i \<or> i_tenant i = Some (b_tenant b))")
  case False
  then show ?thesis using assms dial_bot_read
    by (auto simp: h_originate_def split: option.splits sum.splits if_splits prod.splits)
next
  case True
  then obtain i q b e where t: "x_id x = Some i" "body = Inr q" "dr_phone q \<noteq> []"
    "resolve_dial_bot up dt (dr_choice q) d = (Inr (Some b), e)" "is_platform_admin i \<or> i_tenant i = Some (b_tenant b)"
    by (metis prod.collapse)
  let ?o = "\<lparr>oo_phone = dr_phone q, oo_caller = (if dr_caller q = [] then dc else dr_caller q), oo_bot = Some b, oo_custom = dial_custom q\<rparr>"
  obtain c ob1 where o: "originate_begin True (perr b) u ?o ob = (c, ob1)" by fastforce
  have "d' = e" "ob_pending ob' \<subseteq>\<^sub>m ob_pending ob1"
    using assms t o by (auto simp: h_originate_def originate_end_def pend_delete_def map_le_def split: option.splits sum.splits if_splits)
  then show ?thesis using dial_bot_read [OF t(4)] originate_begin_pending [OF o] t(1,5)
    by (force simp: map_le_def dom_def)
qed

lemma given_now: "owned (ph_db p) b \<Longrightarrow> gives_to u b e \<Longrightarrow> e \<in> set (ph_log p) \<Longrightarrow> given p u b"
  by (auto simp: given_def)

lemmas lift_defs = as_inbound_def with_inbound_def as_outbound_def with_outbound_def

lemma end_run_ok:
  assumes "phones_ok p" "i < length (ph_running p)" "run_call env (ph_running p ! i) = Some (tr, err)"
  shows "phones_ok (end_run i tr p)"
proof -
  let ?o = "ph_running p ! i" and ?q = "end_run i tr p"
  from assms(1,2) obtain b where b: "ro_bot ?o = Some b" "given p (ro_uuid ?o) b"
    unfolding phones_ok_def using nth_mem by blast
  have db: "ph_db ?q = store_calls (inserted tr) (ph_db p)" and log: "ph_log ?q = ph_log p" "ph_held ?q = ph_held p"
    by (simp_all add: end_run_def Let_def lift_defs run_leaves_def)
  have grow: "grows p ?q" by (simp add: grows_def db log owned_def store_calls_tables)
  show ?thesis
  proof (rule phones_okI [OF assms(1) grow])
    show "bots_ok (ph_db ?q)"
      using assms(1) bots_ok_cong [of "ph_db ?q" "ph_db p"] by (simp add: db store_calls_tables phones_ok_def)
    show "o' \<in> set (ph_running p) \<or> (\<exists>b. ro_bot o' = Some b \<and> given ?q (ro_uuid o') b)" if "o' \<in> set (ph_running ?q)" for o'
      using that by (auto simp: end_run_def Let_def lift_defs run_leaves_def split: if_splits dest: in_set_takeD in_set_dropD)
    show "(\<exists>pc0. ph_pending p u = Some pc0 \<and> pend_bot pc0 = pend_bot pc) \<or> given ?q u (pend_bot pc)"
      if "ph_pending ?q u = Some pc" for u pc
      using that by (auto simp: end_run_def Let_def lift_defs run_leaves_def session_end_def pend_delete_def split: if_splits)
    show "b \<in> set (ph_held p) \<or> owned (ph_db ?q) b" if "b \<in> set (ph_held ?q)" for b using that log by simp
    fix c assume c: "c \<in> set (calls (ph_db ?q))"
    have "cr_call_id r = ro_uuid ?o \<and> cr_bot r = Some (b_id b) \<and> cr_tenant r = Some (b_tenant b)" if "r \<in> set (inserted tr)" for r
      using inserted_record [OF assms(3) that] b(1) by simp
    from store_calls_calls [OF this c [unfolded db]] given_grows [OF grow b(2)]
    show "(\<exists>c0\<in>set (calls (ph_db p)). same_call c c0) \<or>
        (\<exists>b. cr_bot (c_rec c) = Some (b_id b) \<and> cr_tenant (c_rec c) = Some (b_tenant b) \<and> given ?q (cr_call_id (c_rec c)) b)"
      unfolding same_call_def by metis
  qed
qed

lemma phone_step_ok: "phone_step p q \<Longrightarrow> phones_ok p \<Longrightarrow> phones_ok q"
proof (induction rule: phone_step.induct)
  case (park p h dial wired now)
  let ?s = "on_park dial wired now h (as_inbound p)"
  let ?q = "(with_inbound ?s p)\<lparr>ph_log := ph_log p @ [Parked (h ''Unique-Id'') (pick_inbound_dest h) (ph_db p)]\<rparr>"
  obtain s where s: "on_park dial wired now h (as_inbound p) = s" by blast
  then show ?case
  proof (cases rule: on_park_cases)
    case ignored
    with park s show ?thesis
      by (intro phones_okI_same [OF park]) (auto simp: lift_defs intro: read_same)
  next
    case (accepted b)
    obtain d where "get_bot_by_did (pick_inbound_dest h) (ph_db p) = (Inr (Some b), d)"
      using accepted(1) by (cases "get_bot_by_did (pick_inbound_dest h) (ph_db p)") (simp add: as_inbound_def)
    then have "owned (ph_db p) b" by (rule bot_by_did_owned)
    then have "owned (ph_db ?q) b" using accepted(2) s only_read_tables
      by (simp add: lift_defs owned_def)
    then have "given ?q (h ''Unique-Id'') b"
      using accepted(1) by (intro given_now [where e = "Parked (h ''Unique-Id'') (pick_inbound_dest h) (ph_db p)"])
        (simp_all add: as_inbound_def)
    then show ?thesis using accepted s
      by (intro phones_okI_same [OF park]) (auto simp: lift_defs inbound_opts_def intro: read_same)
  qed
next
  case (request up dt dc perr u esl x body p r d ob)
  let ?q = "(with_outbound ob p)\<lparr>ph_db := d, ph_log := ph_log p @ [Requested u (x_id x)]\<rparr>"
  note e = h_originate_effect [OF request(1)]
  have g: "given ?q u b" if "owned (ph_db p) b" "gives_to u b (Requested u (x_id x))" for b
    using that e only_read_tables by (intro given_now [OF _ that(2)]) (auto simp: owned_def)
  have pend: "ph_pending p v = Some pc \<or> given ?q v (pend_bot pc)" if "ph_pending ?q v = Some pc" for v pc
  proof -
    have "ob_pending ob v = Some pc" using that by (simp add: with_outbound_def)
    then have "ph_pending p v = Some pc \<or>
        v = u \<and> owned (ph_db p) (pend_bot pc) \<and> gives_to u (pend_bot pc) (Requested u (x_id x))"
      using e by (simp add: as_outbound_def del: gives_to.simps)
    with g show ?thesis by blast
  qed
  show ?case
  proof (rule phones_okI_same [OF request(2)])
    show "(\<exists>pc0. ph_pending p v = Some pc0 \<and> pend_bot pc0 = pend_bot pc) \<or> given ?q v (pend_bot pc)"
      if "ph_pending ?q v = Some pc" for v pc using pend [OF that] by blast
  qed (use e in \<open>auto simp: lift_defs intro: read_same\<close>)
next
  case (campaign up dt dbot c p b d)
  from campaign_bot_read [OF campaign(1)] have r: "only_read (ph_db p) d" "owned (ph_db p) b" by simp_all
  then have "owned d b" using only_read_tables by (simp add: owned_def)
  then show ?case using r by (intro phones_okI_same [OF campaign(2)]) (auto intro: read_same)
next
  case (campaign_dials b p opts perr u r ob)
  let ?q = "(with_outbound ob p)\<lparr>ph_log := ph_log p @ [ByCampaign u b]\<rparr>"
  have "owned (ph_db p) b" using campaign_dials(1,4) by (simp add: phones_ok_def)
  then have "given ?q u b" by (intro given_now [where e = "ByCampaign u b"]) (simp_all add: lift_defs)
  then show ?case using campaign_dials originate_begin_pending [OF campaign_dials(3)]
    by (intro phones_okI_same [OF campaign_dials(4)]) (auto simp: lift_defs)
next
  case (dialled u err p r ob fs)
  then show ?case
    by (intro phones_okI_same [OF dialled(2)])
      (auto simp: lift_defs originate_end_def pend_delete_def split: option.splits if_splits)
next
  case (answered u now p ob fs)
  show ?case
  proof (cases "u \<noteq> [] \<and> ph_pending p u \<noteq> None")
    case True
    then obtain pc where pc: "u \<noteq> []" "ph_pending p u = Some pc" by auto
    then have g: "given p u (pend_bot pc)" using answered(2) by (simp add: phones_ok_def)
    have o: "ob = pend_store u (pc\<lparr>was_answered := True\<rparr>) (as_outbound p)" "set (started fs) \<subseteq> {answer_opts u now pc}"
      using answered(1) pc by (auto simp: on_answer_def Let_def pend_lookup_def as_outbound_def started_def split: if_splits)
    then show ?thesis using g pc
      by (intro phones_okI_same [OF answered(2)])
        (auto simp: lift_defs pend_store_def answer_opts_def given_def split: if_splits)
  next
    case False
    then have "ob = as_outbound p" "fs = []"
      using answered(1) by (auto simp: on_answer_def pend_lookup_def as_outbound_def split: if_splits option.splits)
    then show ?thesis using answered(2) by (simp add: lift_defs started_def)
  qed
next
  case (hung_up u cause p ob fs)
  then show ?case
    by (intro phones_okI_same [OF hung_up(2)])
      (auto simp: lift_defs on_hangup_def pend_delete_def pend_lookup_def split: option.splits if_splits)
next
  case (enters o' p)
  then show ?case by (intro phones_okI_same [OF enters(2)]) auto
next
  case (ends i p env tr err)
  then show ?case by (blast intro: end_run_ok)
next
  case (bots_api p d)
  show ?case
  proof (rule phones_okI [OF bots_api(2)])
    show "grows p (p\<lparr>ph_db := d\<rparr>)" using bots_request_owned [OF bots_api(1)] by (simp add: grows_def)
    show "bots_ok (ph_db (p\<lparr>ph_db := d\<rparr>))" using bots_ok_step [OF bots_api(1)] bots_api(2) by (simp add: phones_ok_def)
  qed (use bots_request_calls [OF bots_api(1)] in \<open>auto intro: call_stays\<close>)
next
  case (archived k url p r d)
  note t = set_url_calls [OF archived(1)]
  have "\<exists>c0\<in>set (calls (ph_db p)). same_call c c0" if "c \<in> set (calls d)" for c
  proof -
    have "c_rec c \<in> set (map c_rec (calls (ph_db p)))" using that t by (metis list.set_map imageI)
    then show ?thesis by (auto simp: same_call_def)
  qed
  then show ?case using t archived(2) bots_ok_cong [of d "ph_db p"]
    by (intro phones_okI [OF archived(2)]) (auto simp: grows_def owned_def phones_ok_def)
next
  case (elsewhere d p)
  then show ?case by (intro phones_okI_same [OF elsewhere(5)]) (auto simp: same_tables_def)
qed

interpretation phone_calls: transition_system phones_start phone_step phones_ok
proof
  show "phones_start p \<Longrightarrow> phones_ok p" for p by (simp add: phones_start_def phones_ok_def)
qed (rule phone_step_ok)

section \<open>Property\<close>

text \<open>C18: 
  Every call on record belongs to the bot it was given to and to that bot's tenant, however calls, campaigns, edits
  of bots and numbers, and ends of calls interleave: the number that was dialled led to this bot when the call was parked, or
  a caller with access to its tenant asked for it, or a campaign created with it did.  The bot is still in the tables, once, and under
  this tenant, though it may have been edited, moved to other numbers or deleted since.
\<close>

theorem calls_belong_to_owner:
  assumes "phones_start p0" "steps_from phone_step p0 p" "c \<in> set (calls (ph_db p))"
  shows "\<exists>b. cr_bot (c_rec c) = Some (b_id b) \<and> cr_tenant (c_rec c) = Some (b_tenant b) \<and>
    (\<exists>e\<in>set (ph_log p). gives_to (cr_call_id (c_rec c)) b e) \<and>
    (\<exists>!r. r \<in> set (bots (ph_db p)) \<and> b_id (r_bot r) = b_id b) \<and>
    (\<forall>r\<in>set (bots (ph_db p)). b_id (r_bot r) = b_id b \<longrightarrow> b_tenant (r_bot r) = b_tenant b)"
proof -
  have ok: "phones_ok p" by (rule phone_calls.reach_inv [OF assms(1,2)])
  then obtain b where b: "cr_bot (c_rec c) = Some (b_id b)" "cr_tenant (c_rec c) = Some (b_tenant b)" "given p (cr_call_id (c_rec c)) b"
    using assms(3) unfolding phones_ok_def by blast
  then obtain r where r: "r \<in> set (bots (ph_db p))" "b_id (r_bot r) = b_id b" "b_tenant (r_bot r) = b_tenant b"
    unfolding given_def owned_def by auto
  have ids: "distinct (bot_ids (ph_db p))" using ok unfolding phones_ok_def by (blast dest: bots_ok_distinct)
  have one: "s = r" if "s \<in> set (bots (ph_db p))" "b_id (r_bot s) = b_id b" for s
    by (rule same_id_same_row [OF ids that(1) r(1)]) (simp only: that(2) r(2))
  have "\<exists>!r. r \<in> set (bots (ph_db p)) \<and> b_id (r_bot r) = b_id b"
    by (rule ex1I [of _ r]) (use r one in blast)+
  moreover have "\<forall>r\<in>set (bots (ph_db p)). b_id (r_bot r) = b_id b \<longrightarrow> b_tenant (r_bot r) = b_tenant b"
    using one r(3) by metis
  ultimately show ?thesis using b unfolding given_def by blast
qed

section \<open>Witness\<close>

text \<open>A call to the number of a bot, which FreeSWITCH then fails to answer.\<close>

definition demo_phones :: phones where
  "demo_phones = \<lparr>ph_db = ib_db (demo_inbound ''viettel''), ph_reg = new_registry, ph_sessions = {}, ph_pending = Map.empty,
     ph_running = [], ph_held = [], ph_log = []\<rparr>"

definition demo_unanswered :: run_env where
  "demo_unanswered = demo_run\<lparr>re_answer := Some ''down''\<rparr>"

lemma demo_check: "bot_check (demo_google\<lparr>asr_provider := ''viettel''\<rparr>)"
  by (simp add: bot_check_def demo_google_def providers_def slug_ok_def slug_char_def less_eq_char_def)

lemma demo_google_key: "b_id demo_google = ''b1''" "b_tenant demo_google = ''t1''"
  by (simp_all add: demo_google_def)

lemma demo_number: "did_ok ''100''"
  by (simp add: did_ok_def less_eq_char_def)

lemma demo_phones_start: "phones_start demo_phones"
  using demo_check demo_number
  by (simp add: phones_start_def demo_phones_def demo_inbound_def bots_ok_def bot_ids_def slug_taken_def demo_google_key)

lemma demo_as_inbound: "as_inbound demo_phones = demo_inbound ''viettel''"
  by (simp add: as_inbound_def demo_phones_def demo_inbound_def)

lemma demo_park: "ib_runs (on_park (\<lambda>_. None) True 7 demo_event (demo_inbound ''viettel'')) =
    [inbound_opts ''c1'' [] 7 (demo_google\<lparr>asr_provider := ''viettel''\<rparr>)]"
  "ib_db (on_park (\<lambda>_. None) True 7 demo_event (demo_inbound ''viettel'')) = ib_db (demo_inbound ''viettel'')"
proof -
  have "demo_event ''Unique-Id'' = ''c1''" "demo_event ''Caller-Caller-Id-Number'' = []" "ib_sessions (demo_inbound ''viettel'') = {}"
    "ib_runs (demo_inbound ''viettel'') = []" "ib_reg (demo_inbound ''viettel'') = new_registry"
    by (simp_all add: demo_event_def demo_inbound_def)
  moreover have "\<exists>c g. providers_for (\<lambda>_. None) (Some (demo_google\<lparr>asr_provider := ''viettel''\<rparr>)) new_registry = (Inr c, g)"
    by (simp add: providers_for_def asr_for_def supported_def new_registry_def demo_google_def)
  ultimately show "ib_runs (on_park (\<lambda>_. None) True 7 demo_event (demo_inbound ''viettel'')) =
      [inbound_opts ''c1'' [] 7 (demo_google\<lparr>asr_provider := ''viettel''\<rparr>)]"
    "ib_db (on_park (\<lambda>_. None) True 7 demo_event (demo_inbound ''viettel'')) = ib_db (demo_inbound ''viettel'')"
    using demo_routed [of "''viettel''"] by (auto simp: on_park_def Let_def)
qed

lemma demo_record: "\<exists>tr r. run_call demo_unanswered (inbound_opts ''c1'' [] 7 (demo_google\<lparr>asr_provider := ''viettel''\<rparr>)) =
    Some (tr, Some (AnswerErr ''down'')) \<and> inserted tr = [r] \<and> cr_call_id r = ''c1'' \<and> cr_tenant r = Some ''t1'' \<and> cr_bot r = Some ''b1''"
  by (simp add: run_call_def run_setup_def run_deferred_def demo_unanswered_def demo_run_def inbound_opts_def fill_run_opts_def Let_def
      inserted_def build_call_record_def demo_google_def)

theorem calls_belong_to_owner_witness:
  "\<exists>p c. steps_from phone_step demo_phones p \<and> c \<in> set (calls (ph_db p)) \<and> cr_call_id (c_rec c) = ''c1'' \<and>
    (\<exists>b e. cr_bot (c_rec c) = Some (b_id b) \<and> e \<in> set (ph_log p) \<and> gives_to ''c1'' b e)"
proof -
  let ?b = "demo_google\<lparr>asr_provider := ''viettel''\<rparr>"
  let ?p = "(with_inbound (on_park (\<lambda>_. None) True 7 demo_event (as_inbound demo_phones)) demo_phones)
    \<lparr>ph_log := ph_log demo_phones @ [Parked (demo_event ''Unique-Id'') (pick_inbound_dest demo_event) (ph_db demo_phones)]\<rparr>"
  have r: "ph_running ?p = [inbound_opts ''c1'' [] 7 ?b]" and d: "ph_db ?p = ib_db (demo_inbound ''viettel'')"
    by (simp_all add: with_inbound_def demo_as_inbound demo_park)
  obtain tr r where run: "run_call demo_unanswered (ph_running ?p ! 0) = Some (tr, Some (AnswerErr ''down''))" "inserted tr = [r]"
    "cr_call_id r = ''c1''" "cr_tenant r = Some ''t1''" "cr_bot r = Some ''b1''"
    using demo_record unfolding r nth_Cons_0 by blast
  have s: "phone_step demo_phones ?p" by (rule park)
  have e: "phone_step ?p (end_run 0 tr ?p)" by (rule ends [OF _ run(1)]) (simp add: r)
  have run2: "steps_from phone_step demo_phones (end_run 0 tr ?p)" using s e by (blast intro: steps_from.intros)
  have db: "ph_db (end_run 0 tr ?p) = store_calls [r] (ib_db (demo_inbound ''viettel''))"
    using d r run(2) by (simp add: end_run_def Let_def inbound_opts_def lift_defs run_leaves_def)
  let ?c = "\<lparr>c_rec = r, c_recording = []\<rparr>"
  have "calls (ph_db (end_run 0 tr ?p)) = [?c]"
    unfolding db using run(3-5)
    by (simp add: store_calls_def insert_call_def run_query_def call_refs_ok_def has_call_def demo_inbound_def demo_google_def)
  then have c: "?c \<in> set (calls (ph_db (end_run 0 tr ?p)))" by simp
  from calls_belong_to_owner [OF demo_phones_start run2 c] run(3) show ?thesis
    using run2 c by (intro exI [of _ "end_run 0 tr ?p"] exI [of _ ?c]) auto
qed

end
