(* ===== verification/Browser.thy ===== *)
theory Browser
  imports UsersProps
begin

text \<open>
  Sessions as a browser sees them: the cookies that login and logout set (\<open>internal/api/auth.go\<close>).  The browser's cookie
  jar is a parameter: \<open>store\<close> takes a cookie in at a time, \<open>pick\<close> yields the value it sends.
\<close>

section \<open>Cookies\<close>

record set_cookie =
  ck_name :: gostring
  ck_value :: gostring
  ck_path :: gostring
  ck_expires :: "time option"
  ck_max_age :: int
  ck_http_only :: bool
  ck_secure :: bool
  ck_same_site :: gostring

definition login_cookie :: "bool \<Rightarrow> gostring \<times> time \<Rightarrow> set_cookie" where
  "login_cookie secure c =
     \<lparr>ck_name = ''callbot_session'', ck_value = fst c, ck_path = ''/'', ck_expires = Some (snd c), ck_max_age = 0,
      ck_http_only = True, ck_secure = secure, ck_same_site = ''Lax''\<rparr>"

definition logout_cookie :: "bool \<Rightarrow> set_cookie" where
  "logout_cookie secure =
     \<lparr>ck_name = ''callbot_session'', ck_value = [], ck_path = ''/'', ck_expires = None, ck_max_age = -1,
      ck_http_only = True, ck_secure = secure, ck_same_site = ''Lax''\<rparr>"

definition h_logout :: "bool \<Rightarrow> gostring \<Rightarrow> set_cookie reply" where
  "h_logout secure meth = (if meth \<noteq> ''POST'' then Status 405 else Body 204 (logout_cookie secure))"

text \<open>
  Documented behaviour of a jar for a cookie of the session's name and path: a negative age removes it, an
  expiry (sent in whole seconds) ends it, until then it is sent.
\<close>

definition jar_laws :: "(time \<Rightarrow> set_cookie \<Rightarrow> 'j \<Rightarrow> 'j) \<Rightarrow> (time \<Rightarrow> 'j \<Rightarrow> gostring option) \<Rightarrow> bool" where
  "jar_laws store pick \<longleftrightarrow>
     (\<forall>now c j t. ck_name c = ''callbot_session'' \<and> ck_path c = ''/'' \<and> ck_max_age c < 0 \<longrightarrow> pick t (store now c j) = None) \<and>
     (\<forall>now c j t e. ck_name c = ''callbot_session'' \<and> ck_path c = ''/'' \<and> ck_max_age c = 0 \<and> ck_expires c = Some e \<longrightarrow>
        pick t (store now c j) = (if t < num_date e then Some (ck_value c) else None))"

section \<open>Properties\<close>

definition view_identity :: "user_view \<Rightarrow> identity" where
  "view_identity v = \<lparr>i_user = uv_id v, i_name = uv_name v, i_role = uv_role v, i_tenant = uv_tenant v,
     i_evaluator = uv_evaluator v, i_bot_admin = uv_bot_admin v\<rparr>"

lemma no_token_refused:
  "\<not> public_request rq \<Longrightarrow> has_prefix (rq_path rq) ''/api/'' \<Longrightarrow> token_from_request rq = [] \<Longrightarrow> auth_chain verify up iss t rq = Refuse 401"
  by (simp add: auth_chain_def middleware_def)

lemma cookie_only: "rq_auth rq = [] \<Longrightarrow> token_from_request (rq\<lparr>rq_cookie := c\<rparr>) = (case c of None \<Rightarrow> [] | Some v \<Rightarrow> v)"
  by (simp add: token_from_request_def has_prefix_def split: option.split)

lemma same_address [simp]:
  "public_request (rq\<lparr>rq_cookie := c\<rparr>) = public_request rq" "public_request (rq\<lparr>rq_auth := a\<rparr>) = public_request rq"
  by (simp_all add: public_request_def)

text \<open>C12: 
  Login and logout, in a browser: after a login its requests to the API run as the user, until the
  session expires; after a logout they are refused, at any time.  The token itself is not revoked: a copy of
  it, presented as a bearer token, opens the API until it expires, logout or not.
\<close>

theorem logout_ends_browser_session:
  assumes "jwt_laws sign verify" "jar_laws store pick"
    and "h_login sign pw iss now (Inr (n, p)) d = (Body 200 ((tok, e), v), d')"
    and "up (uv_id v) = Some (uv_id v)" "\<And>t. uv_tenant v = Some t \<Longrightarrow> up t = Some t" "tok \<noteq> []"
    and "\<not> public_request rq" "has_prefix (rq_path rq) ''/api/''" "rq_auth rq = []"
    and "h_logout secure ''POST'' = Body 204 bye"
  shows "auth_chain verify up iss t (rq\<lparr>rq_cookie := pick t (store now (login_cookie secure (tok, e)) j)\<rparr>) =
      (if t < num_date e then ToMux (Some (view_identity v)) else Refuse 401) \<and>
    auth_chain verify up iss t (rq\<lparr>rq_cookie := pick t (store later bye (store now (login_cookie secure (tok, e)) j))\<rparr>) = Refuse 401 \<and>
    auth_chain verify up iss t (rq\<lparr>rq_cookie := None, rq_auth := ''Bearer '' @ tok\<rparr>) =
      (if t < num_date e then ToMux (Some (view_identity v)) else Refuse 401)"
proof -
  have opens: "auth_chain verify up iss t r = (if t < num_date e then ToMux (Some (view_identity v)) else Refuse 401)"
    if "token_from_request r = tok" "\<not> public_request r" "has_prefix (rq_path r) ''/api/''" for r
    unfolding view_identity_def by (rule login_token_opens [where up = up, OF assms(1,3,4)]) (use assms(5,6) that in auto)
  have jar: "pick t (store now (login_cookie secure (tok, e)) j) = (if t < num_date e then Some tok else None)"
    using assms(2) by (simp add: jar_laws_def login_cookie_def)
  have "bye = logout_cookie secure" using assms(10) by (simp add: h_logout_def)
  then have "pick t (store later bye k) = None" for k using assms(2) by (simp add: jar_laws_def logout_cookie_def)
  then have out: "auth_chain verify up iss t (rq\<lparr>rq_cookie := pick t (store later bye k)\<rparr>) = Refuse 401" for k
    using assms(7-9) by (simp add: no_token_refused cookie_only)
  have "auth_chain verify up iss t (rq\<lparr>rq_cookie := pick t (store now (login_cookie secure (tok, e)) j)\<rparr>) =
      (if t < num_date e then ToMux (Some (view_identity v)) else Refuse 401)"
  proof (cases "t < num_date e")
    case True
    with jar opens [of "rq\<lparr>rq_cookie := Some tok\<rparr>"] assms(7-9) show ?thesis by (simp add: cookie_only)
  next
    case False
    with jar assms(7-9) show ?thesis by (simp add: no_token_refused cookie_only)
  qed
  moreover have "token_from_request (rq\<lparr>rq_cookie := None, rq_auth := ''Bearer '' @ tok\<rparr>) = tok"
    by (rule bearer_token) simp_all
  ultimately show ?thesis using out opens [of "rq\<lparr>rq_cookie := None, rq_auth := ''Bearer '' @ tok\<rparr>"] assms(7,8) by simp
qed

text \<open>A row found by name or id, after a change of some user's other columns.\<close>

lemma first_mapped:
  assumes "first_row P xs = Some w" "\<And>a. P (if c a then f a else a) = P a" "c w"
  shows "first_row P (map (\<lambda>a. if c a then f a else a) xs) = Some (f w)"
proof -
  have "filter P (map (\<lambda>a. if c a then f a else a) xs) = map (\<lambda>a. if c a then f a else a) (filter P xs)"
    by (simp add: filter_map comp_def assms(2))
  with assms(1,3) show ?thesis by (auto simp: first_row_def split: list.splits)
qed

lemma first_of_id: "distinct (map u_id us) \<Longrightarrow> w \<in> set us \<Longrightarrow> first_row (\<lambda>a. u_id a = u_id w) us = Some w"
proof (induction us)
  case (Cons a us)
  then show ?case by (cases "a = w") (auto simp: first_row_def image_iff)
qed simp

lemma named_after_login:
  assumes "d1 = mark_login now (u_id u) d0" "first_row (\<lambda>u. u_name u = n) (users d0) = Some u"
  obtains w where "first_row (\<lambda>u. u_name u = n) (users d1) = Some w" "u_id w = u_id u"
proof -
  have "users d1 = users d0 \<or> users d1 = map (\<lambda>a. if u_id a = u_id u then a\<lparr>u_last_login := Some now\<rparr> else a) (users d0)"
    unfolding assms(1) mark_login_def by (auto simp: run_query_def set_users_def split: list.split option.split)
  then show thesis
  proof
    assume "users d1 = users d0"
    with assms(2) that show thesis by simp
  next
    assume m: "users d1 = map (\<lambda>a. if u_id a = u_id u then a\<lparr>u_last_login := Some now\<rparr> else a) (users d0)"
    have "first_row (\<lambda>u. u_name u = n) (users d1) = Some (u\<lparr>u_last_login := Some now\<rparr>)"
      unfolding m by (rule first_mapped [OF assms(2)]) simp_all
    then show thesis by (rule that) simp
  qed
qed

text \<open>
  Disabling a user takes effect at the next login, as the comment on \<open>UpdateUserEnabled\<close> says: an
  administrator's request answers 204 and logins of the user are refused, but the session that was open goes on with
  the rights of its token until that expires, and \<open>/me\<close> shows the user, disabled.
\<close>

theorem disabled_user_keeps_session:
  assumes "jwt_laws sign verify" "h_login sign pw iss now (Inr (n, p)) d = (Body 200 ((tok, e), v), d1)" "faults d1 = []"
    and "up (uv_id v) = Some (uv_id v)" "\<And>t. uv_tenant v = Some t \<Longrightarrow> up t = Some t" "tok \<noteq> []"
    and "\<not> public_request rq" "has_prefix (rq_path rq) ''/api/''" "token_from_request rq = tok"
    and "x_id x = Some a" "is_platform_admin a" "t < num_date e" "distinct (map u_id (users d1))"
  shows "\<exists>d2. h_update_user x (uv_id v) (Inr (Some False, None, None)) d1 = (Status 204, d2) \<and>
    fst (h_login sign pw iss t (Inr (n, q)) d2) \<in> {Status 400, Status 401} \<and>
    auth_chain verify up iss t rq = ToMux (Some (view_identity v)) \<and>
    (\<forall>y. x_id y = Some (view_identity v) \<longrightarrow> (\<exists>w. fst (h_me y d2) = Body 200 w \<and> uv_id w = uv_id v \<and> \<not> uv_enabled w))"
proof -
  obtain u d0 where u: "get_user_by_name n d = (Inr (Some u), d0)" "d1 = mark_login now (u_id u) d0" "v = user_json u"
    using assms(2) by (auto simp: h_login_def split: if_splits sum.splits option.splits prod.splits)
  note frame = fetch_frame [OF u(1) [unfolded get_user_by_name_def]]
  have "first_row (\<lambda>u. u_name u = n) (users d) = Some u"
    using fetch_ok [OF u(1) [unfolded get_user_by_name_def]] by simp
  with frame have "first_row (\<lambda>u. u_name u = n) (users d0) = Some u" by auto
  with u(2) obtain w where w: "first_row (\<lambda>u. u_name u = n) (users d1) = Some w" "u_id w = u_id u"
    by (rule named_after_login)
  have v: "uv_id v = u_id w" using u(3) w(2) by (simp add: user_json_def)
  let ?off = "\<lambda>w. w\<lparr>u_enabled := False\<rparr>"
  let ?d2 = "record_audit x None ''user.update'' ''user'' (u_id w) (set_users (u_id w) ?off d1)"
  have mem: "w \<in> set (users d1)" "u_name w = n" using w(1) by (auto dest: first_row_SomeD)
  have update: "h_update_user x (uv_id v) (Inr (Some False, None, None)) d1 = (Status 204, ?d2)"
    using assms(3,10,11) mem(1) by (auto simp: v h_update_user_def refuse_non_admin_def optional_write_def update_user_enabled_def
        update_user_def run_query_def)
  have two: "faults ?d2 = []" "users ?d2 = map (\<lambda>a. if u_id a = u_id w then ?off a else a) (users d1)"
    using assms(3) by (simp_all add: record_audit_def set_users_def)
  have named: "first_row (\<lambda>u. u_name u = n) (users ?d2) = Some (?off w)"
    unfolding two(2) by (rule first_mapped [OF w(1)]) simp_all
  then have "fst (h_login sign pw iss t (Inr (n, q)) ?d2) \<in> {Status 400, Status 401}"
    using two(1) by (simp add: h_login_def get_user_by_name_def fetch_no_fault)
  moreover have "auth_chain verify up iss t rq = ToMux (Some (view_identity v))"
    unfolding view_identity_def using login_token_opens [where up = up, OF assms(1,2,4)] assms(5-9,12) by simp
  moreover have "\<exists>w'. fst (h_me y ?d2) = Body 200 w' \<and> uv_id w' = uv_id v \<and> \<not> uv_enabled w'"
    if y: "x_id y = Some (view_identity v)" for y
  proof -
    have "first_row (\<lambda>a. u_id a = u_id w) (users d1) = Some w"
      using assms(13) mem(1) by (rule first_of_id)
    then have "first_row (\<lambda>a. u_id a = u_id w) (users ?d2) = Some (?off w)"
      unfolding two(2) by (rule first_mapped) simp_all
    then show ?thesis using y two(1)
      by (simp add: h_me_def view_identity_def v get_user_by_id_def fetch_no_fault user_json_def)
  qed
  ultimately show ?thesis using update by blast
qed

section \<open>Witnesses\<close>

text \<open>A jar with room for one cookie.\<close>

definition demo_store :: "time \<Rightarrow> set_cookie \<Rightarrow> set_cookie option \<Rightarrow> set_cookie option" where
  "demo_store now c j = (if ck_max_age c < 0 then None else Some c)"

definition demo_pick :: "time \<Rightarrow> set_cookie option \<Rightarrow> gostring option" where
  "demo_pick t j = (case j of None \<Rightarrow> None | Some c \<Rightarrow>
     (case ck_expires c of None \<Rightarrow> Some (ck_value c) | Some e \<Rightarrow> if t < num_date e then Some (ck_value c) else None))"

lemma demo_jar: "jar_laws demo_store demo_pick"
  by (simp add: jar_laws_def demo_store_def demo_pick_def)

lemma demo_login: "h_login (demo_sign (session_payload demo_issuer 0 (identity_of demo_root))) (\<lambda>h p. True) demo_issuer 0
    (Inr (''root'', ''pw'')) demo_users = (Body 200 ((''tok'', 3600000000000), user_json demo_root), mark_login 0 ''u0'' demo_users)"
  by (simp add: h_login_def get_user_by_name_def fetch_no_fault demo_users_def first_row_def demo_root_def
      issue_def demo_sign_def demo_issuer_def session_payload_def)

lemma demo_get_api: "\<not> public_request demo_get" "has_prefix (rq_path demo_get) ''/api/''" "rq_auth demo_get = []"
    "token_from_request demo_get = ''tok''"
  by (simp_all add: public_request_def demo_get_def has_prefix_def token_from_request_def)

theorem logout_ends_browser_session_witness:
  "let p0 = session_payload demo_issuer 0 (identity_of demo_root);
       jar = demo_store 0 (login_cookie True (''tok'', 3600000000000)) None in
   auth_chain (demo_verify p0) Some demo_issuer 5 (demo_get\<lparr>rq_cookie := demo_pick 5 jar\<rparr>) = ToMux (Some (identity_of demo_root)) \<and>
   auth_chain (demo_verify p0) Some demo_issuer 5 (demo_get\<lparr>rq_cookie := demo_pick 5 (demo_store 4 (logout_cookie True) jar)\<rparr>) = Refuse 401"
proof -
  have "h_logout True ''POST'' = Body 204 (logout_cookie True)" by (simp add: h_logout_def)
  from logout_ends_browser_session [OF demo_laws demo_jar demo_login _ _ _ demo_get_api(1-3) this,
      of Some 5 None 4]
  show ?thesis by (simp add: num_date_def user_json_def identity_of_def view_identity_def Let_def)
qed

theorem disabled_user_keeps_session_witness:
  "\<exists>d2. h_update_user demo_caller ''u0'' (Inr (Some False, None, None)) (mark_login 0 ''u0'' demo_users) = (Status 204, d2) \<and>
     auth_chain (demo_verify (session_payload demo_issuer 0 (identity_of demo_root))) Some demo_issuer 5 demo_get =
       ToMux (Some (identity_of demo_root))"
proof -
  let ?d = "mark_login 0 ''u0'' demo_users"
  have d: "faults ?d = []" "distinct (map u_id (users ?d))"
    by (simp_all add: mark_login_def run_query_def set_users_def demo_users_def demo_root_def)
  have a: "x_id demo_caller = Some (identity_of demo_root)" "is_platform_admin (identity_of demo_root)"
    by (simp_all add: demo_caller_def identity_of_def is_platform_admin_def demo_root_def)
  have v: "view_identity (user_json demo_root) = identity_of demo_root" "uv_id (user_json demo_root) = ''u0''"
    "uv_tenant (user_json demo_root) = None"
    by (simp_all add: view_identity_def user_json_def identity_of_def demo_root_def)
  from disabled_user_keeps_session [OF demo_laws demo_login d(1) _ _ _ demo_get_api(1,2,4) a _ d(2), of Some 5]
  show ?thesis by (auto simp: v num_date_def)
qed

end
