(* ===== verification/Process.thy ===== *)
theory Process
  imports BootProps EslConn
begin

text \<open>
  The life of the server process (\<open>cmd/server/main.go\<close>): the event handlers that the runner and the inbound and
  outbound handlers register once (\<open>internal/pipeline\<close>), and \<open>main\<close> from its configuration to its exit code.
\<close>

section \<open>Registration of event handlers\<close>

text \<open>The handlers by number; each of the three owners registers under a \<open>sync.Once\<close>.\<close>

definition playback_handler :: nat where "playback_handler = 0"
definition park_handler :: nat where "park_handler = 1"
definition answer_handler :: nat where "answer_handler = 2"
definition hangup_handler :: nat where "hangup_handler = 3"

lemmas handler_defs = playback_handler_def park_handler_def answer_handler_def hangup_handler_def

record wiring =
  wr_ds :: dispatcher
  wr_runner :: bool
  wr_inbound :: bool
  wr_outbound :: bool

definition unwired :: wiring where
  "unwired = \<lparr>wr_ds = \<lparr>ds_handlers = (\<lambda>_. []), ds_pre = False\<rparr>, wr_runner = False, wr_inbound = False, wr_outbound = False\<rparr>"

definition register_esl_handlers :: "wiring \<Rightarrow> wiring" where
  "register_esl_handlers w =
     (if wr_runner w then w
      else w\<lparr>wr_runner := True, wr_ds := register_handler ''PLAYBACK_STOP'' playback_handler (wr_ds w)\<rparr>)"

definition inbound_register :: "wiring \<Rightarrow> wiring" where
  "inbound_register w =
     (if wr_inbound w then w
      else w\<lparr>wr_inbound := True, wr_ds := register_handler ''CHANNEL_PARK'' park_handler (wr_ds w)\<rparr>)"

definition outbound_register :: "wiring \<Rightarrow> wiring" where
  "outbound_register w =
     (if wr_outbound w then w
      else w\<lparr>wr_outbound := True,
             wr_ds := register_handler ''CHANNEL_HANGUP'' hangup_handler
               (register_handler ''CHANNEL_ANSWER'' answer_handler (wr_ds w))\<rparr>)"

inductive register_step :: "wiring \<Rightarrow> wiring \<Rightarrow> bool" where
  runner: "register_step w (register_esl_handlers w)"
| inbound: "register_step w (inbound_register w)"
| outbound: "register_step w (outbound_register w)"

text \<open>The order in \<open>main\<close>.\<close>

definition wire_events :: "wiring \<Rightarrow> wiring" where
  "wire_events w = outbound_register (inbound_register (register_esl_handlers w))"

text \<open>\<open>NewInboundHandler\<close>: the default of the pick-up time.\<close>

definition pickup_sla :: "duration \<Rightarrow> duration" where
  "pickup_sla d = (if d \<le> 0 then 30000000000 else d)"

section \<open>The process\<close>

text \<open>How the wait of \<open>main\<close> ends: a signal, the failure of the HTTP server, or its regular end.\<close>

datatype serve_end = BySignal | ServeFailed gostring | ServeClosed

record life =
  lf_wiring :: wiring
  lf_fx :: "stop_fx list"
  lf_sessions :: sess_mgr
  lf_db :: db

definition server_main :: "config result \<Rightarrow> boot_env \<Rightarrow> serve_end \<Rightarrow> nat list \<Rightarrow> sess_mgr \<Rightarrow> db \<Rightarrow> nat \<times> life" where
  "server_main loaded env ended polls m d =
     (case loaded of
        Inl _ \<Rightarrow> (1, \<lparr>lf_wiring = unwired, lf_fx = [], lf_sessions = m, lf_db = d\<rparr>)
      | Inr c \<Rightarrow>
         (case boot env c d of
            (Inl _, d) \<Rightarrow> (1, \<lparr>lf_wiring = unwired, lf_fx = [], lf_sessions = m, lf_db = d\<rparr>)
          | (Inr _, d) \<Rightarrow>
             (let w = wire_events unwired in
              case ended of
                ServeFailed _ \<Rightarrow> (1, \<lparr>lf_wiring = w, lf_fx = [], lf_sessions = m, lf_db = d\<rparr>)
              | _ \<Rightarrow>
                 (let (fx, m) = shutdown polls m in
                  (0, \<lparr>lf_wiring = w, lf_fx = fx, lf_sessions = m, lf_db = d\<rparr>)))))"

section \<open>Properties\<close>

definition expected_handlers :: "wiring \<Rightarrow> gostring \<Rightarrow> nat list" where
  "expected_handlers w ev =
     (if ev = ''PLAYBACK_STOP'' \<and> wr_runner w then [playback_handler]
      else if ev = ''CHANNEL_PARK'' \<and> wr_inbound w then [park_handler]
      else if ev = ''CHANNEL_ANSWER'' \<and> wr_outbound w then [answer_handler]
      else if ev = ''CHANNEL_HANGUP'' \<and> wr_outbound w then [hangup_handler] else [])"

definition wiring_ok :: "wiring \<Rightarrow> bool" where
  "wiring_ok w \<longleftrightarrow> (\<forall>ev. ds_handlers (wr_ds w) ev = expected_handlers w ev) \<and> \<not> ds_pre (wr_ds w)"

lemma registered:
  "ds_handlers (register_handler e h ds) ev = ds_handlers ds ev @ (if ev = e then [h] else [])"
  "ds_pre (register_handler e h ds) = ds_pre ds"
  by (simp_all add: register_handler_def)

lemma runner_ok: "wiring_ok w \<Longrightarrow> wiring_ok (register_esl_handlers w)"
  by (cases "wr_runner w") (simp_all add: wiring_ok_def register_esl_handlers_def registered expected_handlers_def)

lemma inbound_ok: "wiring_ok w \<Longrightarrow> wiring_ok (inbound_register w)"
  by (cases "wr_inbound w") (simp_all add: wiring_ok_def inbound_register_def registered expected_handlers_def)

lemma outbound_ok: "wiring_ok w \<Longrightarrow> wiring_ok (outbound_register w)"
  by (cases "wr_outbound w") (simp_all add: wiring_ok_def outbound_register_def registered expected_handlers_def)

lemma unwired_ok: "wiring_ok unwired"
  by (simp add: wiring_ok_def expected_handlers_def unwired_def)

interpretation event_wiring: transition_system "(=) unwired" register_step wiring_ok
proof
  show "unwired = w \<Longrightarrow> wiring_ok w" for w
    by (erule subst) (rule unwired_ok)
  show "register_step v w \<Longrightarrow> wiring_ok v \<Longrightarrow> wiring_ok w" for v w
    by (erule register_step.cases) (simp_all add: runner_ok inbound_ok outbound_ok)
qed

lemma wired_steps: "steps_from register_step unwired (wire_events unwired)"
  unfolding wire_events_def
  by (rule steps_from.more [where t = "inbound_register (register_esl_handlers unwired)"],
      rule steps_from.more [where t = "register_esl_handlers unwired"], rule steps_from_one)
    (rule register_step.intros)+

lemma wired_handlers: "ds_handlers (wr_ds (wire_events unwired)) ev = expected_handlers (wire_events unwired) ev"
    "wr_runner (wire_events unwired)" "wr_inbound (wire_events unwired)" "wr_outbound (wire_events unwired)"
    "\<not> ds_pre (wr_ds (wire_events unwired))"
proof -
  have "wiring_ok (wire_events unwired)" by (rule event_wiring.reach_inv [OF refl wired_steps])
  then show "ds_handlers (wr_ds (wire_events unwired)) ev = expected_handlers (wire_events unwired) ev"
    "\<not> ds_pre (wr_ds (wire_events unwired))" by (simp_all add: wiring_ok_def)
qed (simp_all add: wire_events_def register_esl_handlers_def inbound_register_def outbound_register_def unwired_def)

text \<open>
  However often and in whatever order the three owners register, an event starts no handler twice; once all of them have,
  each of the four events that the program acts on starts its own handler, every other event none, and FreeSWITCH is
  asked for each of these events.
\<close>

theorem events_reach_one_handler:
  assumes "steps_from register_step unwired w" "ev \<noteq> ''BACKGROUND_JOB''"
  shows "length (process_event (wr_ds w) ev job body) \<le> 1 \<and>
    (wr_runner w \<and> wr_inbound w \<and> wr_outbound w \<longrightarrow>
      process_event (wr_ds w) ev job body =
        (case map_of [(''PLAYBACK_STOP'', playback_handler), (''CHANNEL_PARK'', park_handler), (''CHANNEL_ANSWER'', answer_handler),
           (''CHANNEL_HANGUP'', hangup_handler)] ev of None \<Rightarrow> [] | Some h \<Rightarrow> [GoHandler h])) \<and>
    (process_event (wr_ds w) ev job body \<noteq> [] \<longrightarrow> ''event plain '' @ ev \<in> set subscriptions)"
proof -
  have "wiring_ok w" by (rule event_wiring.reach_inv [OF refl assms(1)])
  then have p: "process_event (wr_ds w) ev job body = map GoHandler (expected_handlers w ev)"
    using assms(2) by (simp add: process_event_def wiring_ok_def)
  show ?thesis unfolding p by (auto simp: expected_handlers_def subscriptions_def)
qed


section \<open>Witnesses\<close>

theorem events_reach_one_handler_witness:
  "process_event (wr_ds (wire_events unwired)) ''CHANNEL_ANSWER'' [] [] = [GoHandler answer_handler] \<and>
   process_event (wr_ds (wire_events unwired)) ''CHANNEL_CREATE'' [] [] = []"
  using events_reach_one_handler [OF wired_steps, of "''CHANNEL_ANSWER''" "[]" "[]"]
    events_reach_one_handler [OF wired_steps, of "''CHANNEL_CREATE''" "[]" "[]"] by (simp add: wired_handlers)

text \<open>A server with one call in its sessions, stopped by a signal.\<close>

definition demo_one_call :: sess_mgr where
  "demo_one_call = sess_add 0 (snd (session_new ''c1'' [] DirectionInbound 0 new_sess_mgr))"


end
