(* ===== verification/WebMonitor.thy ===== *)
theory WebMonitor
  imports WebVoice Transition
begin

text \<open>
  The life of the playground's barge-in monitor (\<open>bargeMonitor\<close> of \<open>internal/api/web_voice.go\<close>): the pump that
  hands the visitor's frames to a recogniser stream of its own, and the loop over the results.  Unlike the
  monitor of a phone call nobody stops it: it returns on an utterance that is long enough, at the end of the
  stream or with the context of the turn, and it does not wait for its pump.
\<close>

section \<open>State and steps\<close>

text \<open>
  Where the pump is: waiting in its select, with a frame it received, with a frame that \<open>SendAudio\<close> accepted
  to send, or returned; and the monitor: in its loop, in its deferred calls before and after the stream was
  closed, or with \<open>done\<close> closed.
\<close>

datatype wpump = PumpWaits | PumpGot bytes | PumpSends bytes | PumpReturned
datatype wpc = MonLoop | MonClosing | MonClosed | MonDone

record wmon =
  wm_pending :: "bytes list"
  wm_src_closed :: bool
  wm_taken :: "bytes list"
  wm_sent :: "bytes list"
  wm_pump :: wpump
  wm_results :: "asr_result list"
  wm_ended :: bool
  wm_pc :: wpc
  wm_out :: "gostring option"
  wm_ctx_done :: bool
  wm_closed :: bool

definition start_wmon :: "bytes list \<Rightarrow> asr_result list \<Rightarrow> wmon" where
  "start_wmon frames results =
     \<lparr>wm_pending = frames, wm_src_closed = False, wm_taken = [], wm_sent = [], wm_pump = PumpWaits,
      wm_results = results, wm_ended = False, wm_pc = MonLoop, wm_out = None, wm_ctx_done = False, wm_closed = False\<rparr>"

text \<open>The branches of the pump: a frame, what \<open>SendAudio\<close> makes of it, and the ends.\<close>

definition wpump_receive :: "bytes \<Rightarrow> bytes list \<Rightarrow> wmon \<Rightarrow> wmon" where
  "wpump_receive f fs m = m\<lparr>wm_pending := fs, wm_taken := wm_taken m @ [f], wm_pump := PumpGot f\<rparr>"

definition wpump_check :: "bytes \<Rightarrow> wmon \<Rightarrow> wmon" where
  "wpump_check f m = m\<lparr>wm_pump := (if wm_closed m then PumpReturned else PumpSends f)\<rparr>"

definition wpump_sent :: "bool \<Rightarrow> bytes \<Rightarrow> wmon \<Rightarrow> wmon" where
  "wpump_sent ok f m =
     (if ok then m\<lparr>wm_sent := wm_sent m @ [f], wm_pump := PumpWaits\<rparr> else m\<lparr>wm_pump := PumpReturned\<rparr>)"

definition wpump_may_end :: "wmon \<Rightarrow> bool" where
  "wpump_may_end m \<longleftrightarrow> wm_ctx_done m \<or> (wm_pending m = [] \<and> wm_src_closed m)"

text \<open>One result: too short, empty and partial ones are skipped; another one ends the turn.\<close>

definition answers :: "int \<Rightarrow> asr_result \<Rightarrow> gostring option" where
  "answers mw r =
     (let text = trim_space (res_text r) in
      if \<not> is_final r \<or> text = [] then None
      else if count_words text < mw then None else Some text)"

definition wmon_result :: "int \<Rightarrow> asr_result \<Rightarrow> asr_result list \<Rightarrow> wmon \<Rightarrow> wmon" where
  "wmon_result mw r rs m =
     (let m = m\<lparr>wm_results := rs\<rparr> in
      case answers mw r of
        None \<Rightarrow> m
      | Some text \<Rightarrow> m\<lparr>wm_out := Some text, wm_ctx_done := True, wm_pc := MonClosing\<rparr>)"

definition wmon_may_end :: "wmon \<Rightarrow> bool" where
  "wmon_may_end m \<longleftrightarrow> wm_ctx_done m \<or> (wm_results m = [] \<and> wm_ended m)"

inductive wmon_step :: "int \<Rightarrow> wmon \<Rightarrow> wmon \<Rightarrow> bool" for mw where
  receive: "wm_pump m = PumpWaits \<Longrightarrow> wm_pending m = f # fs \<Longrightarrow> wmon_step mw m (wpump_receive f fs m)"
| check: "wm_pump m = PumpGot f \<Longrightarrow> wmon_step mw m (wpump_check f m)"
| sent: "wm_pump m = PumpSends f \<Longrightarrow> wmon_step mw m (wpump_sent ok f m)"
| pump_end: "wm_pump m = PumpWaits \<Longrightarrow> wpump_may_end m \<Longrightarrow> wmon_step mw m (m\<lparr>wm_pump := PumpReturned\<rparr>)"
| result: "wm_pc m = MonLoop \<Longrightarrow> wm_results m = r # rs \<Longrightarrow> wmon_step mw m (wmon_result mw r rs m)"
| loop_end: "wm_pc m = MonLoop \<Longrightarrow> wmon_may_end m \<Longrightarrow> wmon_step mw m (m\<lparr>wm_pc := MonClosing\<rparr>)"
| close: "wm_pc m = MonClosing \<Longrightarrow> wmon_step mw m (m\<lparr>wm_closed := True, wm_pc := MonClosed\<rparr>)"
| signal: "wm_pc m = MonClosed \<Longrightarrow> wmon_step mw m (m\<lparr>wm_pc := MonDone\<rparr>)"
| turn_over: "\<not> wm_ctx_done m \<Longrightarrow> wmon_step mw m (m\<lparr>wm_ctx_done := True\<rparr>)"
| visitor_left: "\<not> wm_src_closed m \<Longrightarrow> wmon_step mw m (m\<lparr>wm_src_closed := True\<rparr>)"
| stream_ended: "\<not> wm_ended m \<Longrightarrow> wmon_step mw m (m\<lparr>wm_ended := True\<rparr>)"

inductive_cases wmon_stepE: "wmon_step mw m n"

lemmas wmon_ops = wpump_receive_def wpump_check_def wpump_sent_def wmon_result_def Let_def

section \<open>The specification of what is heard\<close>

text \<open>The first result that answers.\<close>

fun first_answer :: "int \<Rightarrow> asr_result list \<Rightarrow> gostring option" where
  "first_answer mw [] = None"
| "first_answer mw (r # rs) = (case answers mw r of None \<Rightarrow> first_answer mw rs | Some t \<Rightarrow> Some t)"

lemma first_answer_snoc:
  "first_answer mw (rs @ [r]) = (case first_answer mw rs of None \<Rightarrow> answers mw r | Some t \<Rightarrow> Some t)"
  by (induction rs) (auto split: option.split)

lemma first_answer_append:
  "first_answer mw (xs @ ys) = (case first_answer mw xs of None \<Rightarrow> first_answer mw ys | Some t \<Rightarrow> Some t)"
  by (induction xs) (auto split: option.split)

lemma answers_not_empty: "answers mw r = Some t \<Longrightarrow> t \<noteq> [] \<and> mw \<le> count_words t \<and> is_final r"
  by (auto simp: answers_def Let_def split: if_splits)

lemma first_answer_not_empty: "first_answer mw rs = Some t \<Longrightarrow> t \<noteq> [] \<and> mw \<le> count_words t"
  by (induction rs) (auto split: option.splits dest: answers_not_empty)

text \<open>\<open>on_monitor\<close>, the monitor as the model of the turn has it, is one result of this loop.\<close>

lemma on_monitor_answers:
  "on_monitor c r v =
     (case answers (bargein_min_words (vo_bot c)) r of
        None \<Rightarrow> v | Some t \<Rightarrow> v\<lparr>vt_barged := Some t, vt_cancelled := True, vt_monitor := False\<rparr>)"
  by (simp add: on_monitor_def answers_def Let_def)

section \<open>Invariant and bound\<close>

text \<open>The frames in the hands of the pump: received, and neither sent nor known to be lost.\<close>

fun in_hand :: "wpump \<Rightarrow> bytes list" where
  "in_hand PumpWaits = []"
| "in_hand (PumpGot f) = [f]"
| "in_hand (PumpSends f) = [f]"
| "in_hand PumpReturned = []"

definition wmon_ok :: "int \<Rightarrow> bytes list \<Rightarrow> asr_result list \<Rightarrow> wmon \<Rightarrow> bool" where
  "wmon_ok mw frames results m \<longleftrightarrow>
     wm_taken m @ wm_pending m = frames \<and>
     (if wm_pump m = PumpReturned then \<exists>lost. wm_taken m = wm_sent m @ lost \<and> length lost \<le> 1
      else wm_taken m = wm_sent m @ in_hand (wm_pump m)) \<and>
     (\<exists>seen. seen @ wm_results m = results \<and> wm_out m = first_answer mw seen) \<and>
     (wm_out m \<noteq> None \<longrightarrow> wm_ctx_done m \<and> wm_pc m \<noteq> MonLoop) \<and>
     (wm_closed m \<longleftrightarrow> wm_pc m \<in> {MonClosed, MonDone})"

fun pump_left :: "wpump \<Rightarrow> nat" where
  "pump_left PumpWaits = 1"
| "pump_left (PumpGot f) = 3"
| "pump_left (PumpSends f) = 2"
| "pump_left PumpReturned = 0"

fun pc_left :: "wpc \<Rightarrow> nat" where
  "pc_left MonLoop = 3"
| "pc_left MonClosing = 2"
| "pc_left MonClosed = 1"
| "pc_left MonDone = 0"

definition wmon_work :: "wmon \<Rightarrow> nat" where
  "wmon_work m = 3 * length (wm_pending m) + pump_left (wm_pump m) + length (wm_results m) + pc_left (wm_pc m) +
     of_bool (\<not> wm_ctx_done m) + of_bool (\<not> wm_src_closed m) + of_bool (\<not> wm_ended m)"

lemma wmon_start_ok: "wmon_ok mw frames results (start_wmon frames results)"
  by (auto simp: wmon_ok_def start_wmon_def intro!: exI [of _ "[]"])

lemma wmon_result_ok:
  assumes "wmon_ok mw frames results m" "wm_pc m = MonLoop" "wm_results m = r # rs"
  shows "wmon_ok mw frames results (wmon_result mw r rs m)"
proof -
  from assms obtain seen where seen: "seen @ r # rs = results" "first_answer mw seen = None"
    by (auto simp: wmon_ok_def)
  then have "(seen @ [r]) @ rs = results" "first_answer mw (seen @ [r]) = answers mw r"
    by (simp_all add: first_answer_snoc)
  moreover have "wm_out m = None" using assms(1,2) by (auto simp: wmon_ok_def)
  ultimately have "\<exists>seen. seen @ wm_results (wmon_result mw r rs m) = results \<and> wm_out (wmon_result mw r rs m) = first_answer mw seen"
    by (intro exI [of _ "seen @ [r]"]) (simp add: wmon_result_def Let_def split: option.split)
  with assms(1,2) show ?thesis by (auto simp: wmon_ok_def wmon_result_def Let_def split: option.split_asm option.split if_splits)
qed

lemma wmon_step_ok: "wmon_step mw m n \<Longrightarrow> wmon_ok mw frames results m \<Longrightarrow> wmon_ok mw frames results n"
proof (induction rule: wmon_step.cases)
  case (result m r rs)
  then show ?case using wmon_result_ok by blast
qed (auto simp: wmon_ok_def wpump_receive_def wpump_check_def wpump_sent_def)

lemma wmon_step_work: "wmon_step mw m n \<Longrightarrow> wmon_work n < wmon_work m"
  by (erule wmon_stepE) (auto simp: wmon_work_def wmon_ops split: option.split)

interpretation wmon_runs: bounded_system "\<lambda>m. m = start_wmon frames results" "wmon_step mw" "wmon_ok mw frames results" wmon_work
  by unfold_locales (auto simp: wmon_start_ok wmon_step_ok wmon_step_work)

text \<open>
  What a pump may still take once the stream was closed: one frame if it is waiting or about to wait again.
\<close>

definition may_take :: "wmon \<Rightarrow> nat" where
  "may_take m = (case wm_pump m of PumpWaits \<Rightarrow> 1 | PumpSends f \<Rightarrow> 1 | _ \<Rightarrow> 0)"

lemma closed_wmon_step:
  "wmon_step mw m n \<Longrightarrow> wm_closed m \<Longrightarrow> wm_closed n \<and> length (wm_taken n) + may_take n \<le> length (wm_taken m) + may_take m"
  by (erule wmon_stepE) (auto simp: may_take_def wmon_ops split: option.split)

lemma closed_wmon_steps:
  "steps_from (wmon_step mw) m n \<Longrightarrow> wm_closed m \<Longrightarrow> wm_closed n \<and> length (wm_taken n) + may_take n \<le> length (wm_taken m) + may_take m"
proof (induction rule: steps_from.induct)
  case (more s t u)
  then show ?case using closed_wmon_step [OF more.hyps(2)] by fastforce
qed simp

section \<open>Properties\<close>

text \<open>
  What the monitor publishes: the text of the first final result of enough words among those it read, never
  an empty one, and exactly then has it cancelled the turn on its own account; of the visitor's frames it took a
  prefix, and it sent all but at most one of them.
\<close>

theorem web_monitor_hears:
  assumes "steps_from (wmon_step mw) (start_wmon frames results) m"
  shows "(\<exists>seen. seen @ wm_results m = results \<and> wm_out m = first_answer mw seen) \<and>
    (\<forall>t. wm_out m = Some t \<longrightarrow> t \<noteq> [] \<and> mw \<le> count_words t \<and> wm_ctx_done m) \<and>
    wm_taken m @ wm_pending m = frames \<and>
    (\<exists>lost. wm_taken m = wm_sent m @ lost \<and> length lost \<le> 1)"
proof -
  have ok: "wmon_ok mw frames results m" using wmon_runs.reach_inv [OF refl assms] .
  have "length (in_hand p) \<le> 1" for p by (cases p) simp_all
  then have "\<exists>lost. wm_taken m = wm_sent m @ lost \<and> length lost \<le> 1"
    using ok by (auto simp: wmon_ok_def split: if_splits)
  moreover from ok obtain seen where "seen @ wm_results m = results" "wm_out m = first_answer mw seen"
    by (auto simp: wmon_ok_def)
  ultimately show ?thesis using ok first_answer_not_empty [of mw seen] by (auto simp: wmon_ok_def)
qed

text \<open>
  The pump outlives its monitor, but not by much: from the moment at which \<open>done\<close> is closed, the turn having
  gone on, it takes at most one frame that belongs to the next turn, and that one is not sent.
\<close>

theorem web_pump_takes_one_more:
  assumes "steps_from (wmon_step mw) (start_wmon frames results) m" "wm_pc m = MonDone"
    and "steps_from (wmon_step mw) m n"
  shows "\<exists>more. wm_taken n = wm_taken m @ more \<and> length more \<le> 1 \<and> wm_pc n = MonDone"
proof -
  have ok: "wmon_ok mw frames results m" "wmon_ok mw frames results n"
    using wmon_runs.reach_inv [OF refl assms(1)] wmon_runs.inv_steps assms(3) by blast+
  have "wm_closed m" using ok(1) assms(2) by (simp add: wmon_ok_def)
  with closed_wmon_steps [OF assms(3)] have len: "length (wm_taken n) \<le> length (wm_taken m) + 1"
    by (auto simp: may_take_def split: wpump.splits)
  have grows: "(\<exists>more. wm_taken n = wm_taken m @ more) \<and> wm_pc n = MonDone"
    by (rule steps_from_keeps [OF assms(3)]) (auto simp: assms(2) wmon_ops elim!: wmon_stepE)
  then obtain more where "wm_taken n = wm_taken m @ more" by blast
  with len grows show ?thesis by (intro exI [of _ more]) simp
qed

lemma left_loop_step:
  "wmon_step mw m n \<Longrightarrow> (wm_pc m \<noteq> MonLoop \<longrightarrow> wmon_may_end m) \<Longrightarrow> wm_pc n \<noteq> MonLoop \<longrightarrow> wmon_may_end n"
  by (erule wmon_stepE) (auto simp: wmon_ops wmon_may_end_def split: option.splits)


text \<open>
  The model of the turn has the monitor's results among its events: what a turn was interrupted with is the first
  answer among them, and after it there are none.
\<close>

definition results_in :: "vev list \<Rightarrow> asr_result list" where
  "results_in es = List.map_filter (\<lambda>e. case e of VMonResult r \<Rightarrow> Some r | _ \<Rightarrow> None) es"

lemma results_in_simps [simp]:
  "results_in [] = []"
  "results_in (e # es) = (case e of VMonResult r \<Rightarrow> r # results_in es | _ \<Rightarrow> results_in es)"
  by (simp_all add: results_in_def List.map_filter_simps split: vev.split)

lemma vturn_step_deaf:
  assumes "vturn_step c e v = Some w" "\<not> vt_monitor v"
  shows "\<not> vt_monitor w \<and> vt_barged w = vt_barged v \<and> results_in [e] = []"
  using assms
  by (auto simp: vturn_step_def on_sentence_def on_audio_def filler_half_def Let_def split: vev.splits if_splits)

lemma vturn_run_deaf:
  "vturn_run c es v = Some w \<Longrightarrow> \<not> vt_monitor v \<Longrightarrow> vt_barged w = vt_barged v \<and> results_in es = []"
proof (induction es arbitrary: v)
  case (Cons e es)
  then obtain u where u: "vturn_step c e v = Some u" "vturn_run c es u = Some w"
    by (auto simp: bind_eq_Some_conv)
  with vturn_step_deaf [OF u(1) Cons.prems(2)] Cons.IH [OF u(2)] show ?case by (auto split: vev.splits)
qed simp

lemma vturn_step_hears:
  assumes "vturn_step c e v = Some w" "vt_barged v = None"
  shows "vt_barged w = first_answer (bargein_min_words (vo_bot c)) (results_in [e]) \<and>
    (vt_barged w \<noteq> None \<longrightarrow> \<not> vt_monitor w)"
  using assms
  by (auto simp: vturn_step_def on_sentence_def on_audio_def filler_half_def on_monitor_answers Let_def
      split: vev.splits if_splits option.splits)

theorem interrupted_turn_hears:
  "vturn_run c es v = Some w \<Longrightarrow> vt_barged v = None \<Longrightarrow>
   vt_barged w = first_answer (bargein_min_words (vo_bot c)) (results_in es)"
proof (induction es arbitrary: v)
  case (Cons e es)
  then obtain u where u: "vturn_step c e v = Some u" "vturn_run c es u = Some w"
    by (auto simp: bind_eq_Some_conv)
  note step = vturn_step_hears [OF u(1) Cons.prems(2)]
  have split: "results_in (e # es) = results_in [e] @ results_in es" by (simp split: vev.split)
  show ?case
  proof (cases "vt_barged u")
    case None
    with Cons.IH [OF u(2)] step show ?thesis unfolding split by (simp add: first_answer_append)
  next
    case (Some t)
    with vturn_run_deaf [OF u(2)] step show ?thesis unfolding split by (simp add: first_answer_append)
  qed
qed simp

section \<open>Witnesses\<close>

definition demo_wmon :: wmon where
  "demo_wmon = wmon_result 1 \<lparr>res_text = ''no'', is_final = True\<rparr> [] (wpump_receive ''a'' [''b''] (start_wmon [''a'', ''b''] [\<lparr>res_text = ''no'', is_final = True\<rparr>]))"

lemma demo_answers: "answers 1 \<lparr>res_text = ''no'', is_final = True\<rparr> = Some ''no''"
proof -
  have "string_fields ''no'' = [''no'']"
    by (simp add: string_fields_def fields_from.simps is_space_def drop_rune_def)
  then show ?thesis by (simp add: answers_def eval_strings count_words_def)
qed

lemma demo_wmon_reached: "steps_from (wmon_step 1) (start_wmon [''a'', ''b''] [\<lparr>res_text = ''no'', is_final = True\<rparr>]) demo_wmon"
proof -
  let ?s = "start_wmon [''a'', ''b''] [\<lparr>res_text = ''no'', is_final = True\<rparr>]"
  have "wmon_step 1 ?s (wpump_receive ''a'' [''b''] ?s)" by (rule receive) (simp_all add: start_wmon_def)
  moreover have "wmon_step 1 (wpump_receive ''a'' [''b''] ?s) demo_wmon"
    unfolding demo_wmon_def by (rule result) (simp_all add: wpump_receive_def start_wmon_def)
  ultimately show ?thesis by (meson steps_from_one steps_from_head)
qed

lemma demo_wmon_eval:
  "wm_pc demo_wmon = MonClosing" "wm_ctx_done demo_wmon" "wm_out demo_wmon = Some ''no''"
  by (simp_all add: demo_wmon_def wmon_result_def demo_answers Let_def wpump_receive_def start_wmon_def)


end
