(* ===== verification/Replies.thy ===== *)
theory Replies
  imports ApiCalls ApiWeb ApiUsers SessionMgr
begin

text \<open>
  The bodies of the API's replies: the JSON objects that the handlers of \<open>internal/api\<close> build from the rows they
  read (\<open>qcEvaluationJSON\<close>, \<open>didListJSON\<close>, \<open>auditJSON\<close>, \<open>identityJSON\<close>, \<open>tenantJSON\<close>, \<open>webSessionSummary\<close>,
  \<open>webSessionDetail\<close>, \<open>health\<close>).  What \<open>encoding/json\<close> makes of such a value is the library's; a time is kept as a time.
\<close>

section \<open>Values\<close>

datatype json =
    JNull | JBool bool | JInt int | JStr gostring | JTime time
  | JList "json list" | JObj "(gostring \<times> json) list"

text \<open>A pointer to a time is encoded as null when it is nil; a key that is only set under a condition.\<close>

definition j_time :: "time option \<Rightarrow> json" where
  "j_time t = (case t of None \<Rightarrow> JNull | Some t \<Rightarrow> JTime t)"

definition key_if :: "bool \<Rightarrow> gostring \<Rightarrow> json \<Rightarrow> (gostring \<times> json) list" where
  "key_if b k v = (if b then [(k, v)] else [])"

fun j_get :: "json \<Rightarrow> gostring \<Rightarrow> json option" where
  "j_get (JObj kvs) k = map_of kvs k"
| "j_get _ k = None"

fun j_keys :: "json \<Rightarrow> gostring list" where
  "j_keys (JObj kvs) = map fst kvs"
| "j_keys _ = []"

section \<open>Rows\<close>

definition tenant_json :: "time \<Rightarrow> time \<Rightarrow> tenant \<Rightarrow> json" where
  "tenant_json created updated t = JObj
     [(''id'', JStr (t_id t)), (''slug'', JStr (t_slug t)), (''name'', JStr (t_name t)),
      (''enabled'', JBool (t_enabled t)), (''created_at'', JTime created), (''updated_at'', JTime updated)]"

definition identity_json :: "user_view \<Rightarrow> json" where
  "identity_json u = JObj
     ([(''id'', JStr (uv_id u)), (''username'', JStr (uv_name u)), (''role'', JStr (uv_role u)),
       (''enabled'', JBool (uv_enabled u)), (''is_evaluator'', JBool (uv_evaluator u)), (''is_bot_admin'', JBool (uv_bot_admin u))] @
      (case uv_tenant u of None \<Rightarrow> [] | Some t \<Rightarrow> [(''tenant_id'', JStr t)]) @
      (case uv_last_login u of None \<Rightarrow> [] | Some t \<Rightarrow> [(''last_login_at'', JTime t)]))"

definition did_list_json :: "did_row list \<Rightarrow> json" where
  "did_list_json ds = JList
     (map (\<lambda>d. JObj [(''did'', JStr (d_did d)), (''note'', JStr (d_note d)), (''created_at'', JTime (d_created d))]) ds)"

text \<open>An evaluation and its evaluator's name; a reason that is empty and a nil tenant are left out.\<close>

definition qc_json :: "qc_row \<times> gostring \<Rightarrow> json" where
  "qc_json e =
     (case e of (q, name) \<Rightarrow> JObj
       ([(''id'', JStr (q_id q)), (''call_id'', JStr (q_call q)), (''evaluator_id'', JStr (q_evaluator q)),
         (''evaluator_name'', JStr name), (''verdict'', JStr (q_verdict q)),
         (''created_at'', JTime (q_created q)), (''updated_at'', JTime (q_updated q))] @
        key_if (q_reason q \<noteq> []) ''reason'' (JStr (q_reason q)) @
        key_if (q_tenant q \<noteq> nil_uuid) ''tenant_id'' (JStr (q_tenant q)) @
        (case q_updated_by q of None \<Rightarrow> [] | Some u \<Rightarrow> [(''last_updated_by'', JStr u)])))"

definition evaluation_json :: "(qc_row \<times> gostring) option \<Rightarrow> json" where
  "evaluation_json ev = JObj [(''evaluation'', case ev of None \<Rightarrow> JNull | Some e \<Rightarrow> qc_json e)]"

text \<open>
  An audit entry with its number and the two documents, which are encoded as texts; \<open>show_ip\<close> is how the
  address library prints an address.
\<close>

definition audit_json :: "(gostring \<Rightarrow> gostring) \<Rightarrow> int \<Rightarrow> gostring \<Rightarrow> gostring \<Rightarrow> audit_entry \<Rightarrow> json" where
  "audit_json show_ip n before after a = JObj
     ([(''id'', JInt n), (''action'', JStr (a_action a)), (''entity_type'', JStr (a_entity a)), (''entity_id'', JStr (a_target a)),
       (''actor_username'', JStr (a_name a)), (''actor_role'', JStr (a_role a)), (''created_at'', JTime (a_created a))] @
      (case a_tenant a of None \<Rightarrow> [] | Some t \<Rightarrow> [(''tenant_id'', JStr t)]) @
      (case a_actor a of None \<Rightarrow> [] | Some u \<Rightarrow> [(''actor_user_id'', JStr u)]) @
      key_if (a_ip a \<noteq> []) ''request_ip'' (JStr (show_ip (a_ip a))) @
      key_if (before \<noteq> [] \<and> before \<noteq> ''null'') ''before'' (JStr before) @
      key_if (after \<noteq> [] \<and> after \<noteq> ''null'') ''after'' (JStr after))"

section \<open>Web sessions\<close>

text \<open>The address was scanned, so it is not NULL.\<close>

definition ip_json :: "web_session \<Rightarrow> json" where
  "ip_json s = JStr (case ws_ip s of None \<Rightarrow> [] | Some a \<Rightarrow> a)"

definition web_summary_json :: "web_session \<Rightarrow> json" where
  "web_summary_json s = JObj
     [(''id'', JStr (ws_id s)), (''bot_id'', JStr (ws_bot s)), (''channel'', JStr (ws_channel s)),
      (''started_at'', JTime (ws_started s)), (''ended_at'', j_time (ws_ended s)), (''status'', JStr (ws_status s)),
      (''turns'', JInt (int (ws_total s))), (''ip'', ip_json s)]"

text \<open>A turn with the identifier and the time of its row.\<close>

definition web_turn_json :: "uuid \<times> time \<Rightarrow> web_turn \<Rightarrow> json" where
  "web_turn_json row t = JObj
     [(''id'', JStr (fst row)), (''idx'', JInt (int (wt_idx t))), (''role'', JStr (wt_role t)), (''text'', JStr (wt_text t)),
      (''audio_path'', JStr (wt_audio t)), (''asr_partial_at'', j_time (wt_asr_partial t)),
      (''asr_final_at'', j_time (wt_asr_final t)), (''bot_first_byte_at'', j_time (wt_first_byte t)),
      (''bot_done_at'', j_time (wt_bot_done t)), (''tts_first_audio_at'', j_time (wt_tts_first t)),
      (''tts_done_at'', j_time (wt_tts_done t)), (''action'', JStr (wt_action t)), (''created_at'', JTime (snd row))]"

definition web_detail_json :: "(web_turn \<Rightarrow> uuid \<times> time) \<Rightarrow> web_session \<times> web_turn list \<Rightarrow> json" where
  "web_detail_json row st =
     (case st of (s, ts) \<Rightarrow> JObj
       [(''id'', JStr (ws_id s)), (''bot_id'', JStr (ws_bot s)), (''channel'', JStr (ws_channel s)),
        (''started_at'', JTime (ws_started s)), (''ended_at'', j_time (ws_ended s)), (''status'', JStr (ws_status s)),
        (''total_turns'', JInt (int (ws_total s))), (''recording_dir'', JStr (ws_dir s)), (''ip'', ip_json s),
        (''user_agent'', JStr (ws_agent s)), (''turns'', JList (map (\<lambda>t. web_turn_json (row t) t) ts))])"

section \<open>The router's own replies\<close>

definition health_json :: "time \<Rightarrow> time \<Rightarrow> sess_mgr \<Rightarrow> json" where
  "health_json now started m = JObj
     [(''status'', JStr ''ok''), (''uptime_seconds'', JInt (seconds_between started (Some now))),
      (''active_calls'', JInt (int (sess_count (- 1) m)))]"

definition error_json :: "gostring \<Rightarrow> json" where
  "error_json msg = JObj [(''error'', JStr msg)]"

section \<open>Properties\<close>

lemmas reply_objects = key_if_def tenant_json_def identity_json_def qc_json_def audit_json_def web_summary_json_def
  web_turn_json_def web_detail_json_def health_json_def

text \<open>An evaluation can be told from its reply, left-out keys included: nothing that was stored is lost on the way.\<close>

lemma j_time_inj [simp]: "j_time a = j_time b \<longleftrightarrow> a = b"
  by (auto simp: j_time_def split: option.splits)

theorem evaluation_json_tells:
  "evaluation_json e = evaluation_json f \<longleftrightarrow> e = f"
  by (auto simp: evaluation_json_def qc_json_def key_if_def split: option.splits if_splits)

text \<open>So does the reply on a user tell everything but the hash of the password.\<close>

theorem identity_json_tells:
  "identity_json (user_json u) = identity_json (user_json v) \<longleftrightarrow> u\<lparr>u_hash := h\<rparr> = v\<lparr>u_hash := h\<rparr>"
  by (cases u; cases v) (auto simp: identity_json_def user_json_def split: option.splits)

text \<open>
  The list of sessions and the page of one session agree.  They give the number of turns under different keys, and
  the key \<open>turns\<close> of the list is a number where that of the page is a list; as long as the totals are kept, the number
  is that list's length.
\<close>

theorem session_pages_agree:
  assumes "turns_ok d" and "h_get_web_session up x k d = (Body 200 (s, ts), d')"
  shows "(\<forall>key \<in> set (j_keys (web_summary_json s)) - {''turns''}.
       j_get (web_detail_json row (s, ts)) key = j_get (web_summary_json s) key) \<and>
    j_get (web_detail_json row (s, ts)) ''total_turns'' = j_get (web_summary_json s) ''turns'' \<and>
    (\<exists>l. j_get (web_detail_json row (s, ts)) ''turns'' = Some (JList l) \<and>
       j_get (web_summary_json s) ''turns'' = Some (JInt (int (length l))) \<and>
       map (\<lambda>t. j_get t ''idx'') l = map (\<lambda>i. Some (JInt (int i))) [1..<Suc (length l)])"
proof -
  from assms(2) obtain i d1 where i: "get_web_session i d = (Inr (Some (s, ts)), d1)"
    by (auto simp: h_get_web_session_def split: option.splits prod.splits sum.splits if_splits)
  then obtain d2 where s: "first_row (\<lambda>s. ws_id s = i) (web_sessions d) = Some s"
    and ts: "ts = sort_key wt_idx (turns_of i d2)" "turns_of i d2 = turns_of i d"
    by (auto simp: get_web_session_def run_query_def fetch_def split: option.splits prod.splits sum.splits if_splits list.splits)
  have "s \<in> set (web_sessions d)" "ws_id s = i" using first_row_SomeD [OF s] by auto
  with assms(1) have total: "ws_total s = length (turns_of i d)" by (auto simp: turns_ok_def)
  have idx: "map wt_idx (turns_of i d) = [1..<Suc (length (turns_of i d))]" using assms(1) by (simp add: turns_ok_def)
  then have "sorted (map wt_idx (turns_of i d))" by (simp only: sorted_upt)
  then have "ts = turns_of i d" using ts by (simp add: sort_key_id_if_sorted)
  then have "map (\<lambda>j. Some (JInt (int j))) (map wt_idx ts) = map (\<lambda>j. Some (JInt (int j))) [1..<Suc (length ts)]"
    "ws_total s = length ts" using idx total by (simp_all only:)
  then show ?thesis by (simp del: upt_Suc add: web_detail_json_def web_summary_json_def web_turn_json_def comp_def insert_Diff_if)
qed

end
